(* ===== verification/EP_Prelude.thy ===== *)
theory EP_Prelude
  imports Main "HOL-Library.Word" "HOL-Library.Monad_Syntax" "HOL-Library.Sublist"
begin

text \<open>
  Shared vocabulary of the development: bytes, C integer arithmetic, memory blocks and C strings,
  the lemmas on lists and options that the components use, and the interfaces (locales) between
  components.

  C \<open>int\<close> values are HOL integers: the code keeps sizes far below \<open>2 ^ 31\<close>, and signed overflow
  is undefined in C. Values whose width matters (header fields, digests) are words.
  A result of type \<open>option\<close> is \<open>None\<close> where the C code has undefined behaviour (an access outside
  a memory block, a read through a null pointer) or blocks for ever; each component says which.
\<close>

named_theorems ep_unfold \<open>definitions that component proofs unfold\<close>
named_theorems ep_keep \<open>facts that an operation keeps the invariant\<close>

type_synonym byte = "8 word"

section \<open>C arithmetic\<close>

definition c_min :: "int \<Rightarrow> int \<Rightarrow> int" where
  "c_min a b = (if a < b then a else b)"

text \<open>The remainder of C truncates towards zero.\<close>

definition c_mod :: "int \<Rightarrow> int \<Rightarrow> int" where
  "c_mod a b = sgn a * (\<bar>a\<bar> mod \<bar>b\<bar>)"

definition c_div :: "int \<Rightarrow> int \<Rightarrow> int" where
  "c_div a b = sgn a * sgn b * (\<bar>a\<bar> div \<bar>b\<bar>)"

section \<open>Memory blocks\<close>

text \<open>
  A block returned by the allocator is the list of its bytes. \<open>mem_read\<close> and \<open>mem_write\<close> are the
  two sides of \<open>memcpy\<close>: \<open>None\<close> is an access outside the block. Fresh memory has unspecified
  contents.
\<close>

definition mem_uninit :: "int \<Rightarrow> byte list" where
  "mem_uninit n = replicate (nat n) undefined"

definition mem_read :: "byte list \<Rightarrow> int \<Rightarrow> int \<Rightarrow> byte list option" where
  "mem_read blk off n =
     (if 0 \<le> off \<and> 0 \<le> n \<and> off + n \<le> int (length blk)
      then Some (take (nat n) (drop (nat off) blk)) else None)"

definition mem_write :: "byte list \<Rightarrow> int \<Rightarrow> byte list \<Rightarrow> byte list option" where
  "mem_write blk off src =
     (if 0 \<le> off \<and> off + int (length src) \<le> int (length blk)
      then Some (take (nat off) blk @ src @ drop (nat off + length src) blk) else None)"

text \<open>A function that returns a pointer has the result type \<open>'a option option\<close>: \<open>Some None\<close> is the null
  pointer. \<open>on_value\<close> goes on with the value behind the pointer and passes a null pointer on.\<close>

definition on_value :: "'a option option \<Rightarrow> ('a \<Rightarrow> 'b option option) \<Rightarrow> 'b option option" where
  "on_value m f = (case m of None \<Rightarrow> None | Some None \<Rightarrow> Some None | Some (Some x) \<Rightarrow> f x)"

section \<open>Fixed-size character arrays\<close>

text \<open>
  \<open>strncpy (dst, src, n)\<close> copies at most \<open>n\<close> characters and pads with zeros: a source of \<open>n\<close> or more
  characters leaves the array without a terminator. \<open>cstr\<close> reads an array as a C string;
  \<open>None\<close> is the read that runs past its end.
\<close>

abbreviation NUL :: char where "NUL \<equiv> CHR 0x00"

definition c_strncpy :: "char list \<Rightarrow> string \<Rightarrow> nat \<Rightarrow> char list" where
  "c_strncpy dst src n = take n (src @ replicate n NUL) @ drop n dst"

definition c_strcpy :: "char list \<Rightarrow> string \<Rightarrow> char list option" where
  "c_strcpy dst s = (if length s < length dst then Some (s @ NUL # drop (length s + 1) dst) else None)"

definition cstr :: "char list \<Rightarrow> string option" where
  "cstr arr = (if NUL \<in> set arr then Some (takeWhile (\<lambda>c. c \<noteq> NUL) arr) else None)"

definition c_tolower :: "char \<Rightarrow> char" where
  "c_tolower c = (let n = of_char c :: nat in if 65 \<le> n \<and> n \<le> 90 then char_of (n + 32) else c)"

text \<open>The loop \<open>do *p = tolower(*p); while (*p++)\<close> over an array, up to its first zero.\<close>

fun c_lower_loop :: "char list \<Rightarrow> char list option" where
  "c_lower_loop [] = None"
| "c_lower_loop (c # cs) =
     (if c_tolower c = NUL then Some (c_tolower c # cs)
      else map_option ((#) (c_tolower c)) (c_lower_loop cs))"

definition c_string :: "string \<Rightarrow> bool" where
  "c_string s \<longleftrightarrow> NUL \<notin> set s"

section \<open>Numbers as text\<close>

text \<open>\<open>%d\<close> of \<open>sprintf\<close>, and \<open>atoi\<close>: leading white space, a sign, digits up to the first other character.\<close>

definition digit_char :: "nat \<Rightarrow> char" where
  "digit_char d = char_of (48 + d)"

fun c_nat_str :: "nat \<Rightarrow> string" where
  "c_nat_str n = (if n < 10 then [digit_char n] else c_nat_str (n div 10) @ [digit_char (n mod 10)])"

definition c_int_str :: "int \<Rightarrow> string" where
  "c_int_str i = (if i < 0 then CHR ''-'' # c_nat_str (nat (- i)) else c_nat_str (nat i))"

definition c_isdigit :: "char \<Rightarrow> bool" where
  "c_isdigit c \<longleftrightarrow> 48 \<le> (of_char c :: nat) \<and> (of_char c :: nat) \<le> 57"

definition c_isspace :: "char \<Rightarrow> bool" where
  "c_isspace c \<longleftrightarrow> (of_char c :: nat) = 32 \<or> 9 \<le> (of_char c :: nat) \<and> (of_char c :: nat) \<le> 13"

definition c_digits :: "string \<Rightarrow> int" where
  "c_digits s = foldl (\<lambda>n c. n * 10 + (int (of_char c) - 48)) 0 (takeWhile c_isdigit s)"

definition c_atoi :: "string \<Rightarrow> int" where
  "c_atoi s =
     (case dropWhile c_isspace s of
        [] \<Rightarrow> 0
      | c # cs \<Rightarrow> if c = CHR ''-'' then - c_digits cs else if c = CHR ''+'' then c_digits cs else c_digits (c # cs))"

section \<open>Loops that may fail\<close>

fun ofold :: "('a \<Rightarrow> 's \<Rightarrow> 's option) \<Rightarrow> 'a list \<Rightarrow> 's \<Rightarrow> 's option" where
  "ofold f [] s = Some s"
| "ofold f (x # xs) s = do { s \<leftarrow> f x s; ofold f xs s }"

section \<open>Lemmas on arithmetic\<close>

lemma c_min_eq [simp]: "c_min a b = min a b"
  by (simp add: c_min_def min_def)

lemma c_mod_nonneg [simp]: "0 \<le> a \<Longrightarrow> 0 < b \<Longrightarrow> c_mod a b = a mod b"
  by (cases "a = 0") (simp_all add: c_mod_def)

lemma c_div_nonneg [simp]: "0 \<le> a \<Longrightarrow> 0 < b \<Longrightarrow> c_div a b = a div b"
  by (cases "a = 0") (simp_all add: c_div_def)

lemma mod_once: "0 \<le> (a::int) \<Longrightarrow> a < b + b \<Longrightarrow> a mod b = (if a < b then a else a - b)"
proof -
  assume a: "0 \<le> a" "a < b + b"
  show ?thesis
  proof (cases "a < b")
    case False
    with a have "(a - b) mod b = a - b" by (intro mod_pos_pos_trivial) auto
    with False show ?thesis by simp
  qed (use a in simp)
qed

section \<open>Lemmas on memory and strings\<close>

lemma length_mem_uninit [simp]: "length (mem_uninit n) = nat n"
  by (simp add: mem_uninit_def)

lemma mem_readI:
  "0 \<le> off \<Longrightarrow> 0 \<le> n \<Longrightarrow> off + n \<le> int (length blk) \<Longrightarrow>
   mem_read blk off n = Some (take (nat n) (drop (nat off) blk))"
  by (simp add: mem_read_def)

lemma mem_read_length: "mem_read blk off n = Some bs \<Longrightarrow> int (length bs) = n"
  by (auto simp: mem_read_def split: if_splits)

lemma mem_writeI:
  "0 \<le> off \<Longrightarrow> off + int (length src) \<le> int (length blk) \<Longrightarrow>
   mem_write blk off src = Some (take (nat off) blk @ src @ drop (nat off + length src) blk)"
  by (simp add: mem_write_def)

lemma mem_write_length: "mem_write blk off src = Some blk' \<Longrightarrow> length blk' = length blk"
  by (auto simp: mem_write_def split: if_splits)

text \<open>A block filled from its start shows what was written.\<close>

lemma mem_fill1:
  assumes "length xs \<le> length r"
  obtains r1 where "mem_write r 0 xs = Some r1" and "length r1 = length r"
    and "mem_read r1 0 (int (length xs)) = Some xs"
proof -
  define r1 where "r1 = xs @ drop (length xs) r"
  show ?thesis
  proof (rule that [of r1])
    show "mem_write r 0 xs = Some r1" using assms by (simp add: mem_write_def r1_def)
  qed (use assms in \<open>simp_all add: mem_read_def r1_def\<close>)
qed

lemma mem_fill2:
  assumes "length xs + length ys \<le> length r"
  obtains r1 r2 where "mem_write r 0 xs = Some r1" and "mem_write r1 (int (length xs)) ys = Some r2"
    and "length r2 = length r" and "mem_read r2 0 (int (length xs) + int (length ys)) = Some (xs @ ys)"
proof -
  define r1 r2 where "r1 = xs @ drop (length xs) r" and "r2 = (xs @ ys) @ drop (length xs + length ys) r"
  have l: "length r1 = length r" using assms by (simp add: r1_def)
  show ?thesis
  proof (rule that [of r1 r2])
    show "mem_write r 0 xs = Some r1" using assms by (simp add: mem_write_def r1_def)
    have "drop (length xs + length ys) r1 = drop (length xs + length ys) r"
      by (simp add: r1_def add.commute)
    then show "mem_write r1 (int (length xs)) ys = Some r2"
      using assms l by (simp add: mem_write_def r2_def) (simp add: r1_def)
    have "nat (int (length xs) + int (length ys)) = length (xs @ ys)" by simp
    then show "mem_read r2 0 (int (length xs) + int (length ys)) = Some (xs @ ys)"
      using assms unfolding mem_read_def r2_def by (simp del: append_assoc)
  qed (use assms in \<open>simp add: r2_def\<close>)
qed

lemma length_c_strncpy: "n \<le> length dst \<Longrightarrow> length (c_strncpy dst src n) = length dst"
  by (simp add: c_strncpy_def)

lemma takeWhile_c_string: "c_string s \<Longrightarrow> takeWhile (\<lambda>c. c \<noteq> NUL) (s @ NUL # r) = s"
  by (subst takeWhile_append2) (auto simp: c_string_def)

lemma c_strncpy_fits:
  assumes "length s < n"
  shows "\<exists>r. c_strncpy dst s n = s @ NUL # r"
proof -
  have "take n (s @ replicate n NUL) = s @ replicate (n - length s) NUL"
    using assms by (simp add: min_def)
  moreover have "replicate (n - length s) NUL = NUL # replicate (n - length s - 1) NUL"
    using assms by (cases "n - length s") auto
  ultimately show ?thesis by (auto simp: c_strncpy_def)
qed

lemma cstr_append_NUL: "c_string s \<Longrightarrow> cstr (s @ NUL # r) = Some s"
  by (simp add: cstr_def takeWhile_c_string)

text \<open>A C string shorter than the array survives \<open>strncpy\<close>.\<close>

lemma cstr_strncpy: "length s < n \<Longrightarrow> c_string s \<Longrightarrow> cstr (c_strncpy dst s n) = Some s"
  using c_strncpy_fits [of s n dst] by (auto simp: cstr_append_NUL)

text \<open>A source that fills the whole array leaves it unterminated.\<close>

lemma cstr_strncpy_overrun:
  "n \<le> length s \<Longrightarrow> c_string s \<Longrightarrow> length dst \<le> n \<Longrightarrow> cstr (c_strncpy dst s n) = None"
  by (auto simp: cstr_def c_strncpy_def c_string_def dest: in_set_takeD)

lemma c_tolower_NUL [simp]: "c_tolower c = NUL \<longleftrightarrow> c = NUL"
proof -
  have "(char_of (of_char c + 32 :: nat) :: char) \<noteq> NUL" if "65 \<le> (of_char c :: nat)" "(of_char c :: nat) \<le> 90"
  proof
    assume "(char_of (of_char c + 32 :: nat) :: char) = NUL"
    then have "(of_char (char_of (of_char c + 32 :: nat) :: char) :: nat) = of_char NUL" by simp
    then show False using that by simp
  qed
  then show ?thesis by (auto simp: c_tolower_def Let_def)
qed

lemma c_lower_loop_string:
  "c_string s \<Longrightarrow> c_lower_loop (s @ NUL # r) = Some (map c_tolower s @ NUL # r)"
  by (induction s) (auto simp: c_string_def)

lemma c_lower_loop_overrun: "NUL \<notin> set arr \<Longrightarrow> c_lower_loop arr = None"
  by (induction arr) auto

lemma c_string_map_lower [simp]: "c_string (map c_tolower s) = c_string s"
proof -
  have "NUL \<in> c_tolower ` set s \<longleftrightarrow> NUL \<in> set s"
    unfolding image_iff by (metis c_tolower_NUL)
  then show ?thesis by (simp add: c_string_def)
qed

lemma on_value_simps [simp]:
  "on_value None f = None" "on_value (Some None) f = Some None" "on_value (Some (Some x)) f = f x"
  by (simp_all add: on_value_def)

lemma find_append: "find P (xs @ ys) = (case find P xs of None \<Rightarrow> find P ys | Some x \<Rightarrow> Some x)"
  by (induction xs) auto

subsection \<open>Printed numbers\<close>

declare c_nat_str.simps [simp del]

lemma of_char_digit: "d < 10 \<Longrightarrow> (of_char (digit_char d) :: nat) = 48 + d"
  by (simp add: digit_char_def)

lemma c_nat_str_digits: "c \<in> set (c_nat_str n) \<Longrightarrow> c_isdigit c"
proof (induction n rule: c_nat_str.induct)
  case (1 n)
  have d: "c_isdigit (digit_char d)" if "d < 10" for d using that by (simp add: c_isdigit_def of_char_digit)
  show ?case
  proof (cases "n < 10")
    case True
    with "1.prems" show ?thesis by (subst (asm) c_nat_str.simps) (simp add: d)
  next
    case False
    with "1.prems" have "c \<in> set (c_nat_str (n div 10)) \<or> c = digit_char (n mod 10)"
      by (subst (asm) c_nat_str.simps) auto
    with "1.IH" [OF False] show ?thesis by (auto simp: d)
  qed
qed

lemma c_nat_str_nonempty: "c_nat_str n \<noteq> []"
  by (subst c_nat_str.simps) simp

lemma c_digits_nat_str: "c_digits (c_nat_str n) = int n"
proof (induction n rule: c_nat_str.induct)
  case (1 n)
  have tw: "takeWhile c_isdigit (c_nat_str m) = c_nat_str m" for m
    using c_nat_str_digits by (intro takeWhile_eq_all_conv [THEN iffD2]) blast
  have d: "int (of_char (digit_char d)) = 48 + int d" if "d < 10" for d
    using of_char_digit [OF that] by simp
  show ?case
  proof (cases "n < 10")
    case True
    then have "c_nat_str n = [digit_char n]" by (subst c_nat_str.simps) simp
    with True d tw [of n] show ?thesis by (simp add: c_digits_def)
  next
    case False
    then have e: "c_nat_str n = c_nat_str (n div 10) @ [digit_char (n mod 10)]" by (subst c_nat_str.simps) simp
    have "c_digits (c_nat_str n) = c_digits (c_nat_str (n div 10)) * 10 + int (n mod 10)"
      unfolding c_digits_def tw using d [of "n mod 10"] by (simp add: e)
    moreover have "int (n div 10) * 10 + int (n mod 10) = int n"
      by (metis div_mult_mod_eq of_nat_add of_nat_mult of_nat_numeral)
    ultimately show ?thesis using "1.IH" [OF False] by simp
  qed
qed

lemma c_isdigit_not_space: "c_isdigit c \<Longrightarrow> \<not> c_isspace c \<and> c \<noteq> CHR ''-'' \<and> c \<noteq> CHR ''+''"
  by (auto simp: c_isdigit_def c_isspace_def)

lemma c_atoi_int_str [simp]: "c_atoi (c_int_str i) = i"
proof -
  have pos: "c_atoi (c_nat_str m) = int m" for m
  proof -
    obtain c cs where n: "c_nat_str m = c # cs" using c_nat_str_nonempty [of m] by (cases "c_nat_str m") auto
    moreover have "c_isdigit c" using c_nat_str_digits [of c m] n by simp
    ultimately show ?thesis
      using c_digits_nat_str [of m] by (simp add: c_atoi_def c_isdigit_not_space)
  qed
  have "\<not> c_isspace (CHR ''-'')" by (simp add: c_isspace_def)
  then have "c_atoi (CHR ''-'' # c_nat_str m) = - int m" for m by (simp add: c_atoi_def c_digits_nat_str)
  then show ?thesis by (simp add: c_int_str_def pos)
qed

lemma ofold_append: "ofold f (xs @ ys) s = Option.bind (ofold f xs s) (ofold f ys)"
  by (induction xs arbitrary: s) (auto split: bind_splits)

section \<open>Interfaces\<close>

subsection \<open>A byte queue\<close>

text \<open>
  What the network layer relies on in a receive buffer: reads take bytes from the front, writes
  append the accepted prefix at the back, and neither leaves the block.
\<close>

datatype fifo_op = Rd int | Wr "byte list"

text \<open>A run of operations on an implementation, with the bytes the reads gave, and the same run on
  a plain list of bytes.\<close>

fun fifo_run :: "('b \<Rightarrow> int \<Rightarrow> (int \<times> byte list \<times> 'b) option) \<Rightarrow> ('b \<Rightarrow> byte list \<Rightarrow> int \<Rightarrow> (int \<times> 'b) option)
    \<Rightarrow> fifo_op list \<Rightarrow> 'b \<Rightarrow> (byte list \<times> 'b) option" where
  "fifo_run rd wr [] b = Some ([], b)"
| "fifo_run rd wr (Rd n # ops) b = do {
     (k, xs, b1) \<leftarrow> rd b n;
     (ys, b2) \<leftarrow> fifo_run rd wr ops b1;
     Some (xs @ ys, b2)
   }"
| "fifo_run rd wr (Wr d # ops) b = do {
     (k, b1) \<leftarrow> wr b d (int (length d));
     fifo_run rd wr ops b1
   }"

fun fifo_spec :: "fifo_op list \<Rightarrow> byte list \<Rightarrow> byte list \<times> byte list" where
  "fifo_spec [] q = ([], q)"
| "fifo_spec (Rd n # ops) q = (let (ys, q') = fifo_spec ops (drop (nat n) q) in (take (nat n) q @ ys, q'))"
| "fifo_spec (Wr d # ops) q = fifo_spec ops (q @ d)"

fun fifo_op_ok :: "int \<Rightarrow> fifo_op \<Rightarrow> bool" where
  "fifo_op_ok lim (Rd n) \<longleftrightarrow> 0 \<le> n"
| "fifo_op_ok lim (Wr d) \<longleftrightarrow> int (length d) \<le> lim"

fun fifo_written :: "fifo_op list \<Rightarrow> byte list" where
  "fifo_written [] = []"
| "fifo_written (Rd n # ops) = fifo_written ops"
| "fifo_written (Wr d # ops) = d @ fifo_written ops"

text \<open>Nothing is lost, duplicated or reordered by a run on the list.\<close>

lemma fifo_spec_stream: "fst (fifo_spec ops q) @ snd (fifo_spec ops q) = q @ fifo_written ops"
proof (induction ops arbitrary: q)
  case (Cons op ops)
  show ?case
  proof (cases op)
    case (Rd n)
    with Cons [of "drop (nat n) q"] show ?thesis by (auto simp: Let_def split: prod.splits)
  qed (use Cons in simp)
qed simp

locale byte_fifo =
  fixes ok :: "'b \<Rightarrow> bool"
    and content :: "'b \<Rightarrow> byte list"
    and can_read :: "'b \<Rightarrow> int"
    and accept :: "'b \<Rightarrow> int \<Rightarrow> int"
    and rd :: "'b \<Rightarrow> int \<Rightarrow> (int \<times> byte list \<times> 'b) option"
    and wr :: "'b \<Rightarrow> byte list \<Rightarrow> int \<Rightarrow> (int \<times> 'b) option"
    and lim :: int
  assumes can_read_content: "ok b \<Longrightarrow> can_read b = int (length (content b))"
    and accept_range: "ok b \<Longrightarrow> 0 \<le> n \<Longrightarrow> 0 \<le> accept b n \<and> accept b n \<le> n"
    and accept_small: "ok b \<Longrightarrow> 0 \<le> n \<Longrightarrow> n \<le> lim \<Longrightarrow> accept b n = n"
    and rd_spec: "ok b \<Longrightarrow> 0 \<le> n \<Longrightarrow>
      \<exists>b'. rd b n = Some (min n (int (length (content b))), take (nat n) (content b), b') \<and>
           ok b' \<and> content b' = drop (nat n) (content b)"
    and wr_spec: "ok b \<Longrightarrow> n = int (length data) \<Longrightarrow>
      \<exists>b'. wr b data n = Some (accept b n, b') \<and> ok b' \<and>
           content b' = content b @ take (nat (accept b n)) data"
begin

lemma rd_exact:
  assumes "ok b" and "content b = xs @ ys" and "n = int (length xs)"
  obtains b' where "rd b n = Some (n, xs, b')" and "ok b'" and "content b' = ys"
  using rd_spec [of b n] assms by auto

lemma wr_all:
  assumes "ok b" and "int (length data) \<le> lim"
  obtains b' where "wr b data (int (length data)) = Some (int (length data), b')" and "ok b'"
    and "content b' = content b @ data"
  using wr_spec [of b "int (length data)" data] accept_small [of b "int (length data)"] assms by auto

text \<open>Every run of reads and writes shows the bytes of the list run and ends in its list.\<close>

lemma run_refines:
  "ok b \<Longrightarrow> list_all (fifo_op_ok lim) ops \<Longrightarrow>
   \<exists>b'. fifo_run rd wr ops b = Some (fst (fifo_spec ops (content b)), b') \<and> ok b' \<and>
        content b' = snd (fifo_spec ops (content b))"
proof (induction ops arbitrary: b)
  case (Cons op ops)
  show ?case
  proof (cases op)
    case (Rd n)
    then obtain b1 where 1: "rd b n = Some (min n (int (length (content b))), take (nat n) (content b), b1)"
      "ok b1" "content b1 = drop (nat n) (content b)" using Cons.prems rd_spec [of b n] by auto
    with Cons.IH [of b1] Cons.prems show ?thesis by (auto simp: Rd Let_def split: prod.splits)
  next
    case (Wr d)
    then obtain b1 where "wr b d (int (length d)) = Some (int (length d), b1)" "ok b1" "content b1 = content b @ d"
      using Cons.prems wr_all [of b d] by auto
    with Cons.IH [of b1] Cons.prems show ?thesis by (simp add: Wr)
  qed
qed simp

end

subsection \<open>A table with unique keys\<close>

text \<open>
  What several managers promise of their registration lists: a find after an add, a find after a
  delete, and that a second add under the same key is refused.
\<close>

datatype ('e, 'k) table_op = TAdd 'e | TDel 'k

text \<open>A run of registrations and removals on an implementation, with the outcome of each, and the
  same run on a map.\<close>

fun table_run :: "('e \<Rightarrow> 't \<Rightarrow> bool \<times> 't) \<Rightarrow> ('k \<Rightarrow> 't \<Rightarrow> bool \<times> 't) \<Rightarrow> ('e, 'k) table_op list \<Rightarrow> 't \<Rightarrow> bool list \<times> 't" where
  "table_run add del [] t = ([], t)"
| "table_run add del (TAdd e # ops) t =
     (let (b, t1) = add e t; (bs, t2) = table_run add del ops t1 in (b # bs, t2))"
| "table_run add del (TDel k # ops) t =
     (let (b, t1) = del k t; (bs, t2) = table_run add del ops t1 in (b # bs, t2))"

fun map_run :: "('e \<Rightarrow> 'k) \<Rightarrow> ('e, 'k) table_op list \<Rightarrow> ('k \<rightharpoonup> 'e) \<Rightarrow> bool list \<times> ('k \<rightharpoonup> 'e)" where
  "map_run key [] m = ([], m)"
| "map_run key (TAdd e # ops) m =
     (if m (key e) = None then let (bs, m') = map_run key ops (m(key e \<mapsto> e)) in (True # bs, m')
      else let (bs, m') = map_run key ops m in (False # bs, m'))"
| "map_run key (TDel k # ops) m =
     (let (bs, m') = map_run key ops (m(k := None)) in ((m k \<noteq> None) # bs, m'))"

locale keyed_table =
  fixes ok :: "'t \<Rightarrow> bool"
    and key :: "'e \<Rightarrow> 'k"
    and find :: "'t \<Rightarrow> 'k \<Rightarrow> 'e option"
    and add :: "'e \<Rightarrow> 't \<Rightarrow> bool \<times> 't"
    and del :: "'k \<Rightarrow> 't \<Rightarrow> bool \<times> 't"
  assumes find_key: "find t k = Some e \<Longrightarrow> key e = k"
    and add_new: "ok t \<Longrightarrow> find t (key e) = None \<Longrightarrow>
      fst (add e t) \<and> ok (snd (add e t)) \<and> find (snd (add e t)) = (find t)(key e \<mapsto> e)"
    and add_dup: "find t (key e) \<noteq> None \<Longrightarrow> add e t = (False, t)"
    and del_spec: "ok t \<Longrightarrow>
      fst (del k t) = (find t k \<noteq> None) \<and> ok (snd (del k t)) \<and> find (snd (del k t)) = (find t)(k := None)"
begin

lemma add_ok: "ok t \<Longrightarrow> ok (snd (add e t))"
  using add_new [of t e] add_dup [of t e] by (cases "find t (key e)") auto

lemma add_then_find:
  "ok t \<Longrightarrow> fst (add e t) \<Longrightarrow> find (snd (add e t)) (key e) = Some e"
  using add_new [of t e] add_dup [of t e] by (cases "find t (key e)") auto

lemma add_twice: "ok t \<Longrightarrow> key e' = key e \<Longrightarrow> \<not> fst (add e' (snd (add e t)))"
  using add_new [of t e] add_dup [of t e] add_dup [of "snd (add e t)" e']
  by (cases "find t (key e)") auto

lemma add_del_restores:
  assumes "ok t" and "fst (add e t)"
  shows "find (snd (del (key e) (snd (add e t)))) = find t"
proof -
  have none: "find t (key e) = None"
    using assms add_dup [of t e] by (cases "find t (key e)") auto
  then show ?thesis
    using assms add_new [of t e] del_spec [of "snd (add e t)" "key e"] by (auto simp: fun_eq_iff)
qed

text \<open>Every run has the outcomes of the run on the map and ends in its map.\<close>

lemma table_run_refines:
  "ok t \<Longrightarrow> fst (table_run add del ops t) = fst (map_run key ops (find t)) \<and>
     ok (snd (table_run add del ops t)) \<and> find (snd (table_run add del ops t)) = snd (map_run key ops (find t))"
proof (induction ops arbitrary: t)
  case (Cons op ops)
  show ?case
  proof (cases op)
    case (TAdd e)
    show ?thesis
    proof (cases "find t (key e)")
      case None
      with Cons.IH [of "snd (add e t)"] add_new [OF Cons.prems None] show ?thesis
        by (auto simp: TAdd Let_def fun_upd_def split: prod.splits)
    next
      case (Some e')
      with Cons.IH [OF Cons.prems] add_dup [of t e] show ?thesis
        by (auto simp: TAdd Let_def split: prod.splits)
    qed
  next
    case (TDel k)
    with Cons.IH [of "snd (del k t)"] del_spec [OF Cons.prems, of k] show ?thesis
      by (auto simp: Let_def fun_upd_def split: prod.splits)
  qed
qed simp

lemma del_twice: "ok t \<Longrightarrow> \<not> fst (del k (snd (del k t)))"
  using del_spec [of t k] del_spec [of "snd (del k t)" k] by simp

lemma del_other: "ok t \<Longrightarrow> k \<noteq> k' \<Longrightarrow> find (snd (del k t)) k' = find t k'"
  using del_spec [of t k] by simp

end

subsection \<open>Transition systems with an invariant\<close>

locale inv_machine =
  fixes start :: "'s \<Rightarrow> bool"
    and step :: "'s \<Rightarrow> 's \<Rightarrow> bool"
    and invariant :: "'s \<Rightarrow> bool"
  assumes start_inv: "start s \<Longrightarrow> invariant s"
    and step_inv: "invariant s \<Longrightarrow> step s t \<Longrightarrow> invariant t"
begin

lemma run_inv: "step\<^sup>*\<^sup>* s t \<Longrightarrow> invariant s \<Longrightarrow> invariant t"
  by (induction rule: rtranclp_induct) (auto intro: step_inv)

lemma reach_inv: "start s \<Longrightarrow> step\<^sup>*\<^sup>* s t \<Longrightarrow> invariant t"
  by (rule run_inv) (auto intro: start_inv)

end

subsection \<open>Checksums over a stream\<close>

locale stream_digest =
  fixes upd :: "'c \<Rightarrow> byte list \<Rightarrow> 'c"
    and good :: "'c \<Rightarrow> bool"
  assumes upd_nil: "good c \<Longrightarrow> upd c [] = c"
    and upd_append: "good c \<Longrightarrow> upd c (xs @ ys) = upd (upd c xs) ys"
    and upd_good: "good c \<Longrightarrow> good (upd c xs)"
begin

text \<open>Feeding a message in pieces gives the same state as feeding it at once.\<close>

lemma upd_concat: "good c \<Longrightarrow> foldl upd c xss = upd c (concat xss)"
  by (induction xss arbitrary: c) (auto simp: upd_nil upd_append upd_good)

lemma upd_resplit: "good c \<Longrightarrow> concat xss = concat yss \<Longrightarrow> foldl upd c xss = foldl upd c yss"
  by (simp add: upd_concat)

end

subsection \<open>Elements behind a lock\<close>

section \<open>What a computation ensures when it returns\<close>

definition ensures :: "('a \<Rightarrow> bool) \<Rightarrow> 'a option \<Rightarrow> bool" where
  "ensures P m \<longleftrightarrow> (\<forall>x. m = Some x \<longrightarrow> P x)"

lemma ensuresD: "ensures P m \<Longrightarrow> m = Some x \<Longrightarrow> P x"
  by (simp add: ensures_def)

lemma ens_bind: "ensures Q m \<Longrightarrow> (\<And>x. Q x \<Longrightarrow> ensures P (f x)) \<Longrightarrow> ensures P (m \<bind> f)"
  by (auto simp: ensures_def bind_eq_Some_conv)

lemma ens_any: "(\<And>x. ensures P (f x)) \<Longrightarrow> ensures P (m \<bind> f)"
  by (auto simp: ensures_def bind_eq_Some_conv)

lemma ens_Some: "P x \<Longrightarrow> ensures P (Some x)" and ens_None: "ensures P None"
  by (simp_all add: ensures_def)

lemma ens_if: "(b \<Longrightarrow> ensures P x) \<Longrightarrow> (\<not> b \<Longrightarrow> ensures P y) \<Longrightarrow> ensures P (if b then x else y)"
  by simp

lemma ens_option: "(v = None \<Longrightarrow> ensures P x) \<Longrightarrow> (\<And>a. v = Some a \<Longrightarrow> ensures P (g a)) \<Longrightarrow> ensures P (case v of None \<Rightarrow> x | Some a \<Rightarrow> g a)"
  by (cases v) auto

lemma ens_prod: "(\<And>a b. x = (a, b) \<Longrightarrow> ensures P (g a b)) \<Longrightarrow> ensures P (case_prod g x)"
  by (cases x) auto

lemma ens_let: "(\<And>a. a = x \<Longrightarrow> ensures P (f a)) \<Longrightarrow> ensures P (let a = x in f a)"
  by simp

lemma ens_bind_Some: "ensures P (f x) \<Longrightarrow> ensures P (Some x \<bind> f)"
  by simp

lemma ens_bind_if: "(b \<Longrightarrow> ensures P (x \<bind> f)) \<Longrightarrow> (\<not> b \<Longrightarrow> ensures P (y \<bind> f)) \<Longrightarrow> ensures P ((if b then x else y) \<bind> f)"
  by simp

lemma ens_bind_assoc: "ensures P (m \<bind> (\<lambda>x. g x \<bind> f)) \<Longrightarrow> ensures P ((m \<bind> g) \<bind> f)"
  by (cases m) auto

lemma ens_bind_prod: "(\<And>a b. x = (a, b) \<Longrightarrow> ensures P (g a b \<bind> f)) \<Longrightarrow> ensures P (case_prod g x \<bind> f)"
  by (cases x) auto

lemmas ens_rules = ens_Some ens_None ens_if ens_option ens_prod ens_let ens_bind_Some ens_bind_if ens_bind_assoc ens_bind_prod ens_any

text \<open>
  What the handlers rely on when they look at a shared element: taking a reference finds the element
  that the store has under a key, or nothing and no effect; giving it back restores the store.
\<close>

locale guarded_store =
  fixes ok :: "'s \<Rightarrow> bool"
    and look :: "'s \<Rightarrow> 'k \<Rightarrow> 'e option"
    and ref :: "'k \<Rightarrow> 's \<Rightarrow> ('p option \<times> 's) option"
    and at :: "'s \<Rightarrow> 'p \<Rightarrow> 'e option"
    and dref :: "'p \<Rightarrow> 's \<Rightarrow> 's option"
  assumes ref_absent: "ok s \<Longrightarrow> look s k = None \<Longrightarrow> ref k s = Some (None, s)"
    and ref_present: "ok s \<Longrightarrow> look s k = Some x \<Longrightarrow>
      \<exists>p h. ref k s = Some (Some p, h) \<and> at h p = Some x \<and> dref p h = Some s"
begin

text \<open>A visit sees the element and leaves the store as it was.\<close>

lemma visit:
  assumes "ok s"
  shows "(do { (p, h) \<leftarrow> ref k s;
              case p of None \<Rightarrow> f None h | Some p \<Rightarrow> do { x \<leftarrow> at h p; h \<leftarrow> dref p h; f (Some x) h } }) = f (look s k) s"
proof (cases "look s k")
  case None
  with ref_absent [OF assms this] show ?thesis by simp
next
  case (Some x)
  with ref_present [OF assms this] show ?thesis by auto
qed

end

end
