(* ===== verification/EP_RingBuffer.thy ===== *)
theory EP_RingBuffer
  imports EP_Prelude
begin

text \<open>
  The receive buffer of a connection (\<open>eventpack/src/ep_ringbuffer.c\<close>): the struct \<open>ep_rb\<close> as a
  record, one definition per function, the representation invariant, the byte queue a buffer
  stands for, and the refinement of the byte-queue interface. \<open>None\<close> is a \<open>memcpy\<close> outside a block.
  Pointers handed out by a read are modelled by the bytes they show.
\<close>

section \<open>The model\<close>

record ep_rb =
  rb_buffer :: "byte list"
  rb_head :: int
  rb_tail :: int
  rb_wrap :: bool
  rb_capacity :: int
  rb_limit :: int
  rb_retval :: "byte list option"
  rb_retval_size :: int

text \<open>The two flags say whether the two allocations succeed.\<close>

definition ep_rb_new :: "bool \<Rightarrow> bool \<Rightarrow> int \<Rightarrow> int \<Rightarrow> ep_rb option" where
  "ep_rb_new alloc_rb alloc_buf capacity limit =
     (if \<not> alloc_rb then None
      else if \<not> alloc_buf \<or> capacity \<le> 0 then None
      else Some \<lparr>rb_buffer = replicate (nat capacity) 0, rb_head = 0, rb_tail = 0, rb_wrap = False,
                 rb_capacity = capacity, rb_limit = limit, rb_retval = None, rb_retval_size = 0\<rparr>)"

definition ep_rb_capacity :: "ep_rb \<Rightarrow> int" where
  "ep_rb_capacity rb = rb_capacity rb"

definition ep_rb_can_read :: "ep_rb \<Rightarrow> int" where
  "ep_rb_can_read rb =
     (if rb_tail rb = rb_head rb then (if rb_wrap rb then rb_capacity rb else 0)
      else if rb_tail rb > rb_head rb then rb_tail rb - rb_head rb
      else rb_capacity rb + rb_tail rb - rb_head rb)"

definition ep_rb_can_write :: "ep_rb \<Rightarrow> int" where
  "ep_rb_can_write rb =
     (let can_write = rb_capacity rb - ep_rb_can_read rb in
      if can_write = 0 \<and> rb_limit rb > rb_capacity rb then rb_limit rb - ep_rb_can_read rb
      else can_write)"

text \<open>
  The result of a read is the returned count, the bytes behind the returned pointer and the new
  buffer. A count below zero (a caller passes on an unchecked size) shows no bytes but still moves
  the head.
\<close>

definition ep_rb_read_wrapped :: "ep_rb \<Rightarrow> int \<Rightarrow> (int \<times> byte list \<times> ep_rb) option" where
  "ep_rb_read_wrapped rb count = do {
     let tail_chunk = c_min count (rb_capacity rb - rb_head rb);
     let head_chunk = count - tail_chunk;
     let grow = rb_retval_size rb < tail_chunk + head_chunk;
     let size = (if grow then tail_chunk + head_chunk else rb_retval_size rb);
     ret0 \<leftarrow> (if grow then Some (mem_uninit size) else rb_retval rb);
     src1 \<leftarrow> mem_read (rb_buffer rb) (rb_head rb) tail_chunk;
     ret1 \<leftarrow> mem_write ret0 0 src1;
     let head1 = c_mod (rb_head rb + tail_chunk) (rb_capacity rb);
     (ret2, head2) \<leftarrow>
       (if tail_chunk < count then do {
          src2 \<leftarrow> mem_read (rb_buffer rb) head1 head_chunk;
          ret2 \<leftarrow> mem_write ret1 tail_chunk src2;
          Some (ret2, c_mod (head1 + head_chunk) (rb_capacity rb))
        } else Some (ret1, head1));
     data \<leftarrow> mem_read ret2 0 count;
     Some (count, data,
           rb\<lparr>rb_head := head2, rb_wrap := False, rb_retval := Some ret2, rb_retval_size := size\<rparr>)
   }"

definition ep_rb_read :: "ep_rb \<Rightarrow> int \<Rightarrow> (int \<times> byte list \<times> ep_rb) option" where
  "ep_rb_read rb count0 =
     (let count = c_min count0 (ep_rb_can_read rb) in
      if count = 0 then Some (0, [], rb)
      else if rb_capacity rb - rb_head rb > count then do {
        data \<leftarrow> (if count < 0 then Some [] else mem_read (rb_buffer rb) (rb_head rb) count);
        Some (count, data, rb\<lparr>rb_head := c_mod (rb_head rb + count) (rb_capacity rb)\<rparr>)
      }
      else ep_rb_read_wrapped rb count)"

definition ep_rb_expand_limit :: "ep_rb \<Rightarrow> int \<Rightarrow> ep_rb option" where
  "ep_rb_expand_limit rb count =
     (if rb_capacity rb - ep_rb_can_read rb \<ge> count then Some rb
      else do {
        let expand = c_min count (rb_limit rb);
        let capacity = mem_uninit (rb_capacity rb + expand);
        (readed, buffer, rb1) \<leftarrow> ep_rb_read rb (ep_rb_can_read rb);
        buf \<leftarrow> mem_write capacity 0 buffer;
        let cap = rb_capacity rb1 + expand;
        Some (rb1\<lparr>rb_buffer := buf, rb_head := 0, rb_capacity := cap, rb_tail := c_mod readed cap\<rparr>)
      })"

definition ep_rb_write :: "ep_rb \<Rightarrow> byte list \<Rightarrow> int \<Rightarrow> (int \<times> ep_rb) option" where
  "ep_rb_write rb0 data count0 = do {
     rb \<leftarrow> ep_rb_expand_limit rb0 count0;
     let count = c_min count0 (ep_rb_can_write rb);
     (if count = 0 then Some (count, rb)
      else do {
        let tail_chunk = c_min count (rb_capacity rb - rb_tail rb);
        src1 \<leftarrow> mem_read data 0 tail_chunk;
        buf1 \<leftarrow> mem_write (rb_buffer rb) (rb_tail rb) src1;
        let tail1 = c_mod (rb_tail rb + tail_chunk) (rb_capacity rb);
        (buf2, tail2) \<leftarrow>
          (if tail_chunk < count then do {
             let head_chunk = count - tail_chunk;
             src2 \<leftarrow> mem_read data tail_chunk head_chunk;
             buf2 \<leftarrow> mem_write buf1 tail1 src2;
             Some (buf2, c_mod (tail1 + head_chunk) (rb_capacity rb))
           } else Some (buf1, tail1));
        Some (count, rb\<lparr>rb_buffer := buf2, rb_tail := tail2,
                        rb_wrap := (if rb_head rb = tail2 then True else rb_wrap rb)\<rparr>)
      })
   }"

text \<open>Freeing clears the caller's pointer.\<close>

definition ep_rb_free :: "ep_rb option \<Rightarrow> ep_rb option" where
  "ep_rb_free rb = None"

section \<open>The invariant and the byte queue\<close>

text \<open>
  The wrap flag is set when a write fills the buffer, but a read that does not cross the end of the
  block leaves it set. What keeps that sound is the last clause but one: while the flag is set, the
  tail has not passed the head, so an equal head and tail still mean a full buffer.
\<close>

definition rb_inv :: "ep_rb \<Rightarrow> bool" where
  "rb_inv rb \<longleftrightarrow>
     0 < rb_capacity rb \<and> int (length (rb_buffer rb)) = rb_capacity rb \<and>
     0 \<le> rb_head rb \<and> rb_head rb < rb_capacity rb \<and>
     0 \<le> rb_tail rb \<and> rb_tail rb < rb_capacity rb \<and> 0 < rb_limit rb \<and>
     (rb_wrap rb \<longrightarrow> rb_tail rb \<le> rb_head rb) \<and>
     rb_retval_size rb = (case rb_retval rb of None \<Rightarrow> 0 | Some r \<Rightarrow> int (length r))"

text \<open>The \<open>n\<close> elements of a circular block from index \<open>h\<close> on.\<close>

definition ring_view :: "'a list \<Rightarrow> nat \<Rightarrow> nat \<Rightarrow> 'a list" where
  "ring_view buf h n = map (\<lambda>i. buf ! ((h + i) mod length buf)) [0..<n]"

definition rb_content :: "ep_rb \<Rightarrow> byte list" where
  "rb_content rb = ring_view (rb_buffer rb) (nat (rb_head rb)) (nat (ep_rb_can_read rb))"

text \<open>The number of bytes a write of \<open>count\<close> bytes accepts.\<close>

definition rb_accept :: "ep_rb \<Rightarrow> int \<Rightarrow> int" where
  "rb_accept rb count =
     (let free = rb_capacity rb - ep_rb_can_read rb in
      if count \<le> free then count else min count (free + min count (rb_limit rb)))"

section \<open>Circular blocks\<close>

lemma ring_view_length [simp]: "length (ring_view buf h n) = n"
  by (simp add: ring_view_def)

lemma ring_view_nth: "i < n \<Longrightarrow> ring_view buf h n ! i = buf ! ((h + i) mod length buf)"
  by (simp add: ring_view_def)

lemma ring_view_take: "m \<le> n \<Longrightarrow> take m (ring_view buf h n) = ring_view buf h m"
  by (simp add: ring_view_def take_map)

lemma ring_view_drop:
  "m \<le> n \<Longrightarrow> drop m (ring_view buf h n) = ring_view buf ((h + m) mod length buf) (n - m)"
  by (rule nth_equalityI) (auto simp: ring_view_nth add.assoc mod_simps)

lemma ring_view_split:
  "ring_view buf h (m + n) = ring_view buf h m @ ring_view buf ((h + m) mod length buf) n"
proof -
  have "ring_view buf h (m + n) = take m (ring_view buf h (m + n)) @ drop m (ring_view buf h (m + n))"
    by simp
  then show ?thesis by (simp only: ring_view_take ring_view_drop le_add1 add_diff_cancel_left')
qed

lemma ring_view_flat:
  assumes "h + n \<le> length buf"
  shows "ring_view buf h n = take n (drop h buf)"
proof (rule nth_equalityI)
  fix i assume "i < length (ring_view buf h n)"
  then have "i < n" "h + i < length buf" using assms by auto
  then show "ring_view buf h n ! i = take n (drop h buf) ! i" using assms by (simp add: ring_view_nth)
qed (use assms in simp)

lemma ring_pos_before:
  assumes "h < L" and "i < n" and "n + k \<le> L" and "t = (h + n) mod L" and "t + k \<le> (L::nat)"
  shows "(h + i) mod L < t \<or> t + k \<le> (h + i) mod L"
proof -
  have "(h + i) mod L = (if h + i < L then h + i else h + i - L)"
    using assms by (auto simp: mod_if)
  moreover have "t = (if h + n < L then h + n else h + n - L)"
    using assms by (auto simp: mod_if)
  ultimately show ?thesis using assms by (auto split: if_splits)
qed

text \<open>Writing a chunk right behind the window extends the window by the chunk.\<close>

lemma ring_view_write:
  assumes h: "h < length buf" and n: "n + length src \<le> length buf"
    and t: "t = (h + n) mod length buf" and fit: "t + length src \<le> length buf"
    and buf': "buf' = take t buf @ src @ drop (t + length src) buf"
  shows "ring_view buf' h (n + length src) = ring_view buf h n @ src"
proof (rule nth_equalityI)
  have L: "length buf' = length buf" using fit by (simp add: buf')
  fix i assume "i < length (ring_view buf' h (n + length src))"
  then have i: "i < n + length src" by simp
  have lhs: "ring_view buf' h (n + length src) ! i = buf' ! ((h + i) mod length buf)"
    using i by (simp add: ring_view_nth L)
  show "ring_view buf' h (n + length src) ! i = (ring_view buf h n @ src) ! i"
  proof (cases "i < n")
    case True
    then have "(h + i) mod length buf < t \<or> t + length src \<le> (h + i) mod length buf"
      using ring_pos_before [OF h True n t fit] by simp
    moreover have "(h + i) mod length buf < length buf" using h by (intro mod_less_divisor) auto
    ultimately have "buf' ! ((h + i) mod length buf) = buf ! ((h + i) mod length buf)"
      by (auto simp: buf' nth_append)
    then show ?thesis using True lhs by (simp add: nth_append ring_view_nth)
  next
    case False
    define j where "j = i - n"
    have j: "i = n + j" "j < length src" using False i by (auto simp: j_def)
    have "(h + i) mod length buf = (t + j) mod length buf"
      by (simp add: j t mod_simps add.assoc)
    also have "\<dots> = t + j" using j fit by simp
    finally show ?thesis using lhs j fit by (auto simp: buf' nth_append)
  qed
qed simp

section \<open>Indices\<close>

lemmas rb_inv_unfold = rb_inv_def ep_rb_can_read_def

lemma rb_can_read_range: "rb_inv rb \<Longrightarrow> 0 \<le> ep_rb_can_read rb \<and> ep_rb_can_read rb \<le> rb_capacity rb"
  by (auto simp: rb_inv_unfold)

lemma rb_content_length [simp]: "length (rb_content rb) = nat (ep_rb_can_read rb)"
  by (simp add: rb_content_def)

lemma rb_can_write_nonneg: "rb_inv rb \<Longrightarrow> 0 \<le> rb_capacity rb - ep_rb_can_read rb"
  using rb_can_read_range by fastforce

text \<open>The tail is where the window ends.\<close>

lemma rb_tail_pos:
  "rb_inv rb \<Longrightarrow> rb_tail rb = (rb_head rb + ep_rb_can_read rb) mod rb_capacity rb"
  by (auto simp: rb_inv_unfold mod_once)

lemma rb_nat_mod: "0 \<le> a \<Longrightarrow> 0 < b \<Longrightarrow> int (length xs) = b \<Longrightarrow> nat a mod length xs = nat (a mod b)"
  by (auto simp: nat_mod_distrib)

section \<open>Reading\<close>

text \<open>Moving the head forward by a part of the window.\<close>

lemma rb_advance:
  assumes i: "rb_inv rb" and n: "0 \<le> n" "n \<le> ep_rb_can_read rb"
    and rb': "rb_head rb' = (rb_head rb + n) mod rb_capacity rb" "rb_buffer rb' = rb_buffer rb"
      "ep_rb_can_read rb' = ep_rb_can_read rb - n"
  shows "rb_content rb' = drop (nat n) (rb_content rb)"
proof -
  have L: "int (length (rb_buffer rb)) = rb_capacity rb" "0 < rb_capacity rb" "0 \<le> rb_head rb"
    using i by (auto simp: rb_inv_def)
  have "drop (nat n) (rb_content rb) =
      ring_view (rb_buffer rb) ((nat (rb_head rb) + nat n) mod length (rb_buffer rb))
        (nat (ep_rb_can_read rb) - nat n)"
    unfolding rb_content_def using n by (intro ring_view_drop) simp
  also have "(nat (rb_head rb) + nat n) mod length (rb_buffer rb) = nat (rb_head rb')"
    using L n rb' rb_nat_mod [of "rb_head rb + n" "rb_capacity rb" "rb_buffer rb"]
    by (simp add: nat_add_distrib)
  finally show ?thesis using rb' n by (simp add: rb_content_def nat_diff_distrib)
qed

lemma rb_content_flat:
  assumes i: "rb_inv rb" and n: "0 \<le> n" "n \<le> ep_rb_can_read rb" "rb_head rb + n \<le> rb_capacity rb"
  shows "mem_read (rb_buffer rb) (rb_head rb) n = Some (take (nat n) (rb_content rb))"
proof -
  have "nat (rb_head rb) + nat n \<le> length (rb_buffer rb)"
    using i n by (auto simp: rb_inv_def nat_le_iff)
  then have "take (nat n) (rb_content rb) = take (nat n) (drop (nat (rb_head rb)) (rb_buffer rb))"
    using n by (simp add: rb_content_def ring_view_take ring_view_flat nat_mono)
  then show ?thesis using i n by (simp add: mem_readI rb_inv_def)
qed

lemma rb_fast_can_read:
  assumes "rb_inv rb" and "0 \<le> n" and "n \<le> ep_rb_can_read rb" and "n < rb_capacity rb - rb_head rb"
  shows "ep_rb_can_read (rb\<lparr>rb_head := rb_head rb + n\<rparr>) = ep_rb_can_read rb - n"
    and "rb_inv (rb\<lparr>rb_head := rb_head rb + n\<rparr>)"
  using assms by (auto simp: rb_inv_unfold split: if_splits)

lemma rb_slow_can_read:
  assumes "rb_inv rb" and "0 < n" and "n \<le> ep_rb_can_read rb" and "rb_capacity rb - rb_head rb \<le> n"
  shows "ep_rb_can_read (rb\<lparr>rb_head := rb_head rb + n - rb_capacity rb, rb_wrap := False,
      rb_retval := Some r, rb_retval_size := z\<rparr>) = ep_rb_can_read rb - n"
    and "rb_head rb + n - rb_capacity rb < rb_capacity rb"
    and "z = int (length r) \<Longrightarrow> rb_inv (rb\<lparr>rb_head := rb_head rb + n - rb_capacity rb, rb_wrap := False,
      rb_retval := Some r, rb_retval_size := z\<rparr>)"
  using assms by (auto simp: rb_inv_unfold split: if_splits)

text \<open>The bounce buffer is at least as large as the read that goes through it.\<close>

lemma rb_bounce:
  assumes i: "rb_inv rb" and c: "0 < count" and sz: "sz = (if rb_retval_size rb < count then count else rb_retval_size rb)"
  obtains ret where "(if rb_retval_size rb < count then Some (mem_uninit sz) else rb_retval rb) = Some ret"
    and "int (length ret) = sz" and "count \<le> sz"
proof (cases "rb_retval_size rb < count")
  case True
  show ?thesis by (rule that [of "mem_uninit count"]) (use True c sz in simp_all)
next
  case False
  then obtain r where r: "rb_retval rb = Some r" using i c by (cases "rb_retval rb") (auto simp: rb_inv_def)
  then have "rb_retval_size rb = int (length r)" using i by (simp add: rb_inv_def)
  then show ?thesis using False sz r by (intro that [of r]) simp_all
qed

text \<open>The two chunks of a read across the end of the block.\<close>

lemma rb_chunks:
  assumes i: "rb_inv rb" and c: "0 < count" "count \<le> ep_rb_can_read rb" "rb_capacity rb - rb_head rb \<le> count"
    and tc: "tc = rb_capacity rb - rb_head rb" and hc: "hc = count - tc"
  obtains xs ys where "mem_read (rb_buffer rb) (rb_head rb) tc = Some xs"
    and "mem_read (rb_buffer rb) 0 hc = Some ys" and "xs @ ys = take (nat count) (rb_content rb)"
    and "int (length xs) = tc" and "int (length ys) = hc"
proof -
  have b: "0 < rb_capacity rb" "0 \<le> rb_head rb" "rb_head rb < rb_capacity rb" "count \<le> rb_capacity rb"
      "length (rb_buffer rb) = nat (rb_capacity rb)"
    using i c rb_can_read_range [OF i] by (auto simp: rb_inv_def)
  define xs where "xs = take (nat tc) (rb_content rb)"
  define ys where "ys = take (nat hc) (drop (nat tc) (rb_content rb))"
  have xs: "mem_read (rb_buffer rb) (rb_head rb) tc = Some xs"
    using rb_content_flat [OF i, of tc] c b by (simp add: xs_def tc)
  have "(nat (rb_head rb) + nat tc) mod length (rb_buffer rb) = 0"
    using b by (simp add: tc nat_add_distrib [symmetric])
  then have "drop (nat tc) (rb_content rb) = ring_view (rb_buffer rb) 0 (nat (ep_rb_can_read rb) - nat tc)"
    using c b unfolding rb_content_def by (subst ring_view_drop) (auto simp: tc)
  then have "ys = take (nat hc) (rb_buffer rb)"
    using c b by (simp add: ys_def hc tc ring_view_take ring_view_flat nat_diff_distrib [symmetric])
  then have ys: "mem_read (rb_buffer rb) 0 hc = Some ys"
    using b c by (simp add: mem_readI hc tc)
  have "xs @ ys = take (nat count) (rb_content rb)"
    using c b by (simp add: xs_def ys_def take_add [symmetric] nat_add_distrib [symmetric] hc tc)
  then show ?thesis using that xs ys mem_read_length [OF xs] mem_read_length [OF ys] by blast
qed

lemma rb_read_wrapped_spec:
  assumes i: "rb_inv rb" and c: "0 < count" "count \<le> ep_rb_can_read rb" "rb_capacity rb - rb_head rb \<le> count"
  obtains rb' where "ep_rb_read_wrapped rb count = Some (count, take (nat count) (rb_content rb), rb')"
    and "rb_inv rb'" and "rb_content rb' = drop (nat count) (rb_content rb)"
    and "rb_capacity rb' = rb_capacity rb" and "rb_limit rb' = rb_limit rb" and "\<not> rb_wrap rb'"
    and "ep_rb_can_read rb' = ep_rb_can_read rb - count"
proof -
  define tc hc where "tc = rb_capacity rb - rb_head rb" and "hc = count - tc"
  have b: "0 < rb_capacity rb" "rb_head rb < rb_capacity rb" "min count tc = tc" "tc + hc = count"
      "rb_head rb + tc = rb_capacity rb" "0 \<le> hc" "hc < rb_capacity rb"
    using i c rb_can_read_range [OF i] by (auto simp: rb_inv_def tc_def hc_def)
  obtain xs ys where xs: "mem_read (rb_buffer rb) (rb_head rb) tc = Some xs"
    and ys: "mem_read (rb_buffer rb) 0 hc = Some ys" and xy: "xs @ ys = take (nat count) (rb_content rb)"
    and len: "int (length xs) = tc" "int (length ys) = hc"
    using rb_chunks [OF i c tc_def hc_def] .
  define sz where "sz = (if rb_retval_size rb < count then count else rb_retval_size rb)"
  obtain ret where ret: "(if rb_retval_size rb < count then Some (mem_uninit sz) else rb_retval rb) = Some ret"
    and rl: "int (length ret) = sz" and rc: "count \<le> sz"
    using rb_bounce [OF i c(1) sz_def] .
  obtain r1 r2 where r: "mem_write ret 0 xs = Some r1" "mem_write r1 tc ys = Some r2"
    "length r2 = length ret" "mem_read r2 0 count = Some (xs @ ys)"
    using mem_fill2 [of xs ys ret] len rl rc b by auto
  have nil: "r1 = r2" if "\<not> tc < count"
    using that r(2) len b by (auto simp: mem_write_def split: if_splits)
  define rb' where "rb' = rb\<lparr>rb_head := hc, rb_wrap := False, rb_retval := Some r2, rb_retval_size := sz\<rparr>"
  have hce: "hc = rb_head rb + count - rb_capacity rb" by (simp add: hc_def tc_def)
  have e: "min count tc = tc" "count - tc = hc" "tc + hc = count" "c_mod (rb_head rb + tc) (rb_capacity rb) = 0"
      "c_mod (0 + hc) (rb_capacity rb) = hc"
    using b by (simp_all add: hc_def)
  have "ep_rb_read_wrapped rb count = Some (count, take (nat count) (rb_content rb), rb')"
    unfolding ep_rb_read_wrapped_def Let_def c_min_eq tc_def [symmetric] e sz_def [symmetric] ret
    by (cases "tc < count") (use b e in \<open>auto simp: xs ys r xy [symmetric] rb'_def nil\<close>)
  moreover have cr: "ep_rb_can_read rb' = ep_rb_can_read rb - count"
    unfolding rb'_def hce by (rule rb_slow_can_read(1) [OF i c])
  moreover have "rb_inv rb'"
    unfolding rb'_def hce by (rule rb_slow_can_read(3) [OF i c]) (simp add: r rl)
  moreover have "rb_content rb' = drop (nat count) (rb_content rb)"
  proof (rule rb_advance [OF i])
    have "(rb_head rb + count) mod rb_capacity rb = rb_head rb + count - rb_capacity rb"
      using b c i rb_can_read_range [OF i] by (subst mod_once) (auto simp: rb_inv_def)
    then show "rb_head rb' = (rb_head rb + count) mod rb_capacity rb" by (simp add: rb'_def hce)
  qed (use c cr in \<open>auto simp: rb'_def\<close>)
  ultimately show ?thesis using that by (simp add: rb'_def)
qed

lemma rb_read_fast:
  assumes i: "rb_inv rb" and c: "0 < n" "n \<le> ep_rb_can_read rb" "n < rb_capacity rb - rb_head rb"
    and rb': "rb' = rb\<lparr>rb_head := rb_head rb + n\<rparr>"
  shows "ep_rb_read rb n = Some (n, take (nat n) (rb_content rb), rb')"
    and "rb_content rb' = drop (nat n) (rb_content rb)"
proof -
  have b: "0 \<le> rb_head rb" "0 < rb_capacity rb" using i by (auto simp: rb_inv_def)
  have mod: "(rb_head rb + n) mod rb_capacity rb = rb_head rb + n" using b c by simp
  have "mem_read (rb_buffer rb) (rb_head rb) n = Some (take (nat n) (rb_content rb))"
    using c by (intro rb_content_flat [OF i]) auto
  then show "ep_rb_read rb n = Some (n, take (nat n) (rb_content rb), rb')"
    using b c mod by (simp add: ep_rb_read_def Let_def min_absorb1 rb')
  show "rb_content rb' = drop (nat n) (rb_content rb)"
    using c mod rb_fast_can_read(1) [OF i, of n] by (intro rb_advance [OF i]) (auto simp: rb')
qed

text \<open>A read never leaves the block, returns the front of the queue and removes it.\<close>

lemma rb_read_spec:
  assumes i: "rb_inv rb" and n: "0 \<le> n"
  obtains rb' where
    "ep_rb_read rb n = Some (min n (ep_rb_can_read rb), take (nat n) (rb_content rb), rb')"
    and "rb_inv rb'" and "rb_content rb' = drop (nat n) (rb_content rb)"
    and "rb_capacity rb' = rb_capacity rb" and "rb_limit rb' = rb_limit rb"
proof -
  define k where "k = min n (ep_rb_can_read rb)"
  have k: "0 \<le> k" "k \<le> ep_rb_can_read rb" using n rb_can_read_range [OF i] by (auto simp: k_def)
  have rd: "ep_rb_read rb n = ep_rb_read rb k" by (simp add: ep_rb_read_def k_def)
  have tk: "take (nat n) (rb_content rb) = take (nat k) (rb_content rb)"
    and dk: "drop (nat n) (rb_content rb) = drop (nat k) (rb_content rb)"
    using rb_can_read_range [OF i] by (auto simp: k_def min_def)
  consider (zero) "k = 0" | (fast) "0 < k" "k < rb_capacity rb - rb_head rb"
    | (slow) "0 < k" "rb_capacity rb - rb_head rb \<le> k" using k by linarith
  then show ?thesis
  proof cases
    case zero
    then show ?thesis using that [of rb] i k unfolding rd tk dk k_def [symmetric]
      by (simp add: ep_rb_read_def Let_def)
  next
    case fast
    then show ?thesis
      using that rb_read_fast [OF i fast(1) k(2) fast(2) refl] rb_fast_can_read(2) [OF i k fast(2)]
      unfolding rd tk dk k_def [symmetric] by simp
  next
    case slow
    obtain rb' where "ep_rb_read_wrapped rb k = Some (k, take (nat k) (rb_content rb), rb')"
      "rb_inv rb'" "rb_content rb' = drop (nat k) (rb_content rb)"
      "rb_capacity rb' = rb_capacity rb" "rb_limit rb' = rb_limit rb"
      using rb_read_wrapped_spec [OF i slow(1) k(2) slow(2)] by metis
    then show ?thesis using that [of rb'] slow k unfolding rd tk dk k_def [symmetric]
      by (simp add: ep_rb_read_def Let_def min_absorb1)
  qed
qed

section \<open>Writing\<close>

text \<open>Growing the block keeps the queued bytes.\<close>

lemma rb_expand_spec:
  assumes i: "rb_inv rb" and c: "rb_capacity rb - ep_rb_can_read rb < count"
  obtains rb' where "ep_rb_expand_limit rb count = Some rb'" and "rb_inv rb'"
    and "rb_content rb' = rb_content rb" and "rb_capacity rb' = rb_capacity rb + min count (rb_limit rb)"
    and "ep_rb_can_read rb' = ep_rb_can_read rb" and "rb_limit rb' = rb_limit rb"
proof -
  define k where "k = ep_rb_can_read rb"
  define e where "e = min count (rb_limit rb)"
  have r: "0 \<le> k" "k \<le> rb_capacity rb" using rb_can_read_range [OF i] by (auto simp: k_def)
  have e: "0 < e" using i c r by (auto simp: e_def k_def rb_inv_def)
  have nk: "\<not> count \<le> rb_capacity rb - k" using c by (simp add: k_def)
  obtain rb1 where rb1: "ep_rb_read rb k = Some (k, rb_content rb, rb1)" "rb_inv rb1" "rb_content rb1 = []"
    "rb_capacity rb1 = rb_capacity rb" "rb_limit rb1 = rb_limit rb"
    using rb_read_spec [OF i r(1)] k_def by (metis drop_all min.idem order_refl rb_content_length take_all)
  have "ep_rb_can_read rb1 = 0"
    using rb1(3) rb_can_read_range [OF rb1(2)] rb_content_length [of rb1] by simp
  then have nw: "\<not> rb_wrap rb1" using rb1(2) by (auto simp: rb_inv_unfold split: if_splits)
  have "length (rb_content rb) \<le> length (mem_uninit (rb_capacity rb + e))"
    using r e by (simp add: k_def)
  then obtain buf where buf: "mem_write (mem_uninit (rb_capacity rb + e)) 0 (rb_content rb) = Some buf"
    "length buf = nat (rb_capacity rb + e)" "mem_read buf 0 k = Some (rb_content rb)"
    using mem_fill1 [of "rb_content rb"] r by (metis k_def length_mem_uninit nat_0_le rb_content_length)
  define rb' where "rb' = rb1\<lparr>rb_buffer := buf, rb_head := 0, rb_capacity := rb_capacity rb + e, rb_tail := k\<rparr>"
  have "k mod (rb_capacity rb + e) = k" using r e by simp
  then have "ep_rb_expand_limit rb count = Some rb'"
    using r e by (simp add: ep_rb_expand_limit_def Let_def k_def [symmetric] e_def [symmetric] nk rb1 buf rb'_def)
  moreover have cr: "ep_rb_can_read rb' = k" using nw r by (simp add: rb'_def ep_rb_can_read_def)
  moreover have "rb_inv rb'"
    using rb1 nw r e buf by (auto simp: rb'_def rb_inv_def)
  moreover have "rb_content rb' = rb_content rb"
  proof -
    have "rb_content rb' = take (nat k) buf"
      using cr r e buf(2) by (simp add: rb_content_def rb'_def ring_view_flat)
    then show ?thesis using buf(3) by (simp add: mem_read_def split: if_splits)
  qed
  ultimately show ?thesis using that rb1 by (simp add: rb'_def k_def e_def)
qed

lemma rb_expand_id: "count \<le> rb_capacity rb - ep_rb_can_read rb \<Longrightarrow> ep_rb_expand_limit rb count = Some rb"
  by (simp add: ep_rb_expand_limit_def)

lemma rb_write_can_read:
  assumes i: "rb_inv rb" and n: "0 < n" "n \<le> rb_capacity rb - ep_rb_can_read rb"
    and t: "t = (rb_tail rb + n) mod rb_capacity rb" and l: "length buf = length (rb_buffer rb)"
    and rb': "rb' = rb\<lparr>rb_buffer := buf, rb_tail := t, rb_wrap := (if rb_head rb = t then True else rb_wrap rb)\<rparr>"
  shows "ep_rb_can_read rb' = ep_rb_can_read rb + n" and "rb_inv rb'"
proof -
  have te: "t = (if rb_tail rb + n < rb_capacity rb then rb_tail rb + n else rb_tail rb + n - rb_capacity rb)"
    unfolding t using i n rb_can_read_range [OF i] by (intro mod_once) (auto simp: rb_inv_def)
  show "ep_rb_can_read rb' = ep_rb_can_read rb + n"
    using i n unfolding rb' te by (auto simp: rb_inv_unfold split: if_splits)
  show "rb_inv rb'"
    using i n l unfolding rb' te by (auto simp: rb_inv_unfold split: if_splits)
qed

text \<open>One contiguous chunk behind the window.\<close>

lemma rb_write_chunk:
  assumes i: "rb_inv rb" and n: "int (length src) \<le> rb_capacity rb - ep_rb_can_read rb"
    and fit: "rb_tail rb + int (length src) \<le> rb_capacity rb"
  obtains buf where "mem_write (rb_buffer rb) (rb_tail rb) src = Some buf"
    and "length buf = length (rb_buffer rb)"
    and "ring_view buf (nat (rb_head rb)) (nat (ep_rb_can_read rb) + length src) = rb_content rb @ src"
proof -
  have b: "0 \<le> rb_head rb" "rb_head rb < rb_capacity rb" "int (length (rb_buffer rb)) = rb_capacity rb"
    "0 \<le> rb_tail rb" "0 < rb_capacity rb" using i by (auto simp: rb_inv_def)
  define buf where
    "buf = take (nat (rb_tail rb)) (rb_buffer rb) @ src @ drop (nat (rb_tail rb) + length src) (rb_buffer rb)"
  have w: "mem_write (rb_buffer rb) (rb_tail rb) src = Some buf"
    using b fit by (simp add: mem_write_def buf_def)
  have t: "nat (rb_tail rb) = (nat (rb_head rb) + nat (ep_rb_can_read rb)) mod length (rb_buffer rb)"
    using rb_tail_pos [OF i] rb_can_read_range [OF i] b
      rb_nat_mod [of "rb_head rb + ep_rb_can_read rb" "rb_capacity rb" "rb_buffer rb"]
    by (simp add: nat_add_distrib)
  have "ring_view buf (nat (rb_head rb)) (nat (ep_rb_can_read rb) + length src) =
      ring_view (rb_buffer rb) (nat (rb_head rb)) (nat (ep_rb_can_read rb)) @ src"
    using b n fit rb_can_read_range [OF i]
    by (intro ring_view_write [OF _ _ t _ buf_def]) (auto simp: nat_le_iff zless_nat_conj)
  then show ?thesis using that [OF w mem_write_length [OF w]] by (simp add: rb_content_def)
qed

lemma ring_view_buffer_upd:
  "rb_inv rb \<Longrightarrow> length buf = length (rb_buffer rb) \<Longrightarrow> rb_inv (rb\<lparr>rb_buffer := buf\<rparr>)"
  by (simp add: rb_inv_def)

text \<open>Both chunks: the accepted bytes are appended, the indices follow.\<close>

lemma rb_write_chunks:
  assumes i: "rb_inv rb" and n: "0 < n" "n \<le> rb_capacity rb - ep_rb_can_read rb" "n \<le> int (length data)"
    and tc: "tc = min n (rb_capacity rb - rb_tail rb)" and hc: "hc = n - tc"
  obtains b1 b2 where "mem_read data 0 tc = Some (take (nat tc) data)"
    and "mem_write (rb_buffer rb) (rb_tail rb) (take (nat tc) data) = Some b1"
    and "tc < n \<longrightarrow> mem_read data tc hc = Some (take (nat hc) (drop (nat tc) data))"
    and "tc < n \<longrightarrow> mem_write b1 0 (take (nat hc) (drop (nat tc) data)) = Some b2"
    and "tc = n \<longrightarrow> b2 = b1" and "length b2 = length (rb_buffer rb)"
    and "ring_view b2 (nat (rb_head rb)) (nat (ep_rb_can_read rb + n)) = rb_content rb @ take (nat n) data"
proof -
  have r: "0 \<le> rb_tail rb" "rb_tail rb < rb_capacity rb" "0 \<le> ep_rb_can_read rb"
    "int (length (rb_buffer rb)) = rb_capacity rb"
    using i rb_can_read_range [OF i] by (auto simp: rb_inv_def)
  have t: "0 < tc" "tc \<le> n" "0 \<le> hc" using n r by (auto simp: tc hc)
  have r1: "mem_read data 0 tc = Some (take (nat tc) data)" using t n by (simp add: mem_readI)
  have l1: "int (length (take (nat tc) data)) = tc" using mem_read_length [OF r1] .
  obtain b1 where b1: "mem_write (rb_buffer rb) (rb_tail rb) (take (nat tc) data) = Some b1"
    "length b1 = length (rb_buffer rb)"
    "ring_view b1 (nat (rb_head rb)) (nat (ep_rb_can_read rb) + length (take (nat tc) data)) =
      rb_content rb @ take (nat tc) data"
  proof (rule rb_write_chunk [OF i, of "take (nat tc) data"])
    show "int (length (take (nat tc) data)) \<le> rb_capacity rb - ep_rb_can_read rb" using l1 t n by linarith
    show "rb_tail rb + int (length (take (nat tc) data)) \<le> rb_capacity rb" using l1 tc by linarith
  qed
  show ?thesis
  proof (cases "tc = n")
    case True
    then show ?thesis using that [OF r1 b1(1), of b1] b1 l1 t r by (simp add: nat_add_distrib)
  next
    case False
    then have lt: "tc < n" and full: "rb_tail rb + tc = rb_capacity rb" using t by (auto simp: tc)
    have r2: "mem_read data tc hc = Some (take (nat hc) (drop (nat tc) data))"
      using t n by (simp add: mem_readI hc)
    have l2: "int (length (take (nat hc) (drop (nat tc) data))) = hc" using mem_read_length [OF r2] .
    define rb1 where "rb1 = rb\<lparr>rb_buffer := b1, rb_tail := 0,
      rb_wrap := (if rb_head rb = 0 then True else rb_wrap rb)\<rparr>"
    have cr1: "ep_rb_can_read rb1 = ep_rb_can_read rb + tc" and i1: "rb_inv rb1"
      using rb_write_can_read [OF i, of tc 0 b1 rb1] t n lt full b1(2) by (auto simp: rb1_def)
    have c1: "rb_content rb1 = rb_content rb @ take (nat tc) data"
      unfolding rb_content_def [of rb1] cr1 using b1(3) l1 t r by (simp add: rb1_def nat_add_distrib)
    obtain b2 where b2: "mem_write b1 0 (take (nat hc) (drop (nat tc) data)) = Some b2"
      "length b2 = length b1"
      "ring_view b2 (nat (rb_head rb)) (nat (ep_rb_can_read rb1) + length (take (nat hc) (drop (nat tc) data))) =
        rb_content rb1 @ take (nat hc) (drop (nat tc) data)"
    proof (rule rb_write_chunk [OF i1, of "take (nat hc) (drop (nat tc) data)"])
      show "int (length (take (nat hc) (drop (nat tc) data))) \<le> rb_capacity rb1 - ep_rb_can_read rb1"
        using l2 cr1 n hc by (simp add: rb1_def)
      show "rb_tail rb1 + int (length (take (nat hc) (drop (nat tc) data))) \<le> rb_capacity rb1"
        using l2 n hc t r by (simp add: rb1_def)
    qed (simp add: rb1_def)
    have "take (nat tc) data @ take (nat hc) (drop (nat tc) data) = take (nat n) data"
      using t by (simp add: take_add [symmetric] nat_add_distrib [symmetric] hc)
    moreover have "nat (ep_rb_can_read rb1) + length (take (nat hc) (drop (nat tc) data)) = nat (ep_rb_can_read rb + n)"
      using l2 cr1 t r by (simp add: nat_eq_iff hc)
    ultimately show ?thesis using that [OF r1 b1(1), of b2] r2 b2 b1(2) lt c1 by simp
  qed
qed

text \<open>A write never leaves the block and appends the accepted prefix of the data.\<close>

lemma rb_write_fits:
  assumes i: "rb_inv rb" and n: "0 < n" "n \<le> rb_capacity rb - ep_rb_can_read rb" "n \<le> int (length data)"
    and ex: "ep_rb_expand_limit rb0 count = Some rb" and cw: "min count (ep_rb_can_write rb) = n"
  obtains rb' where "ep_rb_write rb0 data count = Some (n, rb')" and "rb_inv rb'"
    and "rb_content rb' = rb_content rb @ take (nat n) data" and "rb_capacity rb' = rb_capacity rb"
    and "rb_limit rb' = rb_limit rb"
proof -
  define tc hc where "tc = min n (rb_capacity rb - rb_tail rb)" and "hc = n - tc"
  define t where "t = (rb_tail rb + n) mod rb_capacity rb"
  have b: "0 < rb_capacity rb" "0 \<le> rb_tail rb" "rb_tail rb < rb_capacity rb" "n \<le> rb_capacity rb"
    using i n rb_can_read_range [OF i] by (auto simp: rb_inv_def)
  obtain b1 b2 where w: "mem_read data 0 tc = Some (take (nat tc) data)"
    "mem_write (rb_buffer rb) (rb_tail rb) (take (nat tc) data) = Some b1"
    "tc < n \<longrightarrow> mem_read data tc hc = Some (take (nat hc) (drop (nat tc) data))"
    "tc < n \<longrightarrow> mem_write b1 0 (take (nat hc) (drop (nat tc) data)) = Some b2"
    "tc = n \<longrightarrow> b2 = b1" and l: "length b2 = length (rb_buffer rb)"
    and v: "ring_view b2 (nat (rb_head rb)) (nat (ep_rb_can_read rb + n)) = rb_content rb @ take (nat n) data"
    using rb_write_chunks [OF i n tc_def hc_def] .
  define rb' where "rb' = rb\<lparr>rb_buffer := b2, rb_tail := t,
    rb_wrap := (if rb_head rb = t then True else rb_wrap rb)\<rparr>"
  have tm: "c_mod (rb_tail rb + tc) (rb_capacity rb) = (if tc < n then 0 else t)"
    "tc < n \<Longrightarrow> c_mod (0 + hc) (rb_capacity rb) = t" "tc \<le> n"
    using b n by (auto simp: tc_def hc_def t_def mod_once)
  have "ep_rb_write rb0 data count = Some (n, rb')"
    unfolding ep_rb_write_def ex Let_def c_min_eq
    by (cases "tc < n") (use n w tm in \<open>auto simp: cw tc_def [symmetric] hc_def [symmetric] rb'_def\<close>)
  moreover have "ep_rb_can_read rb' = ep_rb_can_read rb + n" "rb_inv rb'"
    using rb_write_can_read [OF i n(1,2) t_def l rb'_def] .
  moreover have "rb_content rb' = rb_content rb @ take (nat n) data"
    unfolding rb_content_def [of rb'] calculation(2) using v by (simp add: rb'_def)
  ultimately show ?thesis using that by (simp add: rb'_def)
qed

lemma rb_write_spec:
  assumes i: "rb_inv rb" and c: "count = int (length data)"
  obtains rb' where "ep_rb_write rb data count = Some (rb_accept rb count, rb')" and "rb_inv rb'"
    and "rb_content rb' = rb_content rb @ take (nat (rb_accept rb count)) data"
    and "rb_limit rb' = rb_limit rb"
    and "rb_capacity rb' = (if count \<le> rb_capacity rb - ep_rb_can_read rb then rb_capacity rb
                            else rb_capacity rb + min count (rb_limit rb))"
proof (cases "count \<le> rb_capacity rb - ep_rb_can_read rb")
  case True
  have cw: "min count (ep_rb_can_write rb) = count"
    using True c by (auto simp: ep_rb_can_write_def Let_def min_def)
  show ?thesis
  proof (cases "count = 0")
    case True
    then show ?thesis
      using that [of rb] i rb_can_write_nonneg [OF i] cw rb_expand_id [of count rb]
      by (simp add: ep_rb_write_def rb_accept_def Let_def)
  next
    case False
    then have p: "0 < count" "count \<le> int (length data)" using c by auto
    have acc: "rb_accept rb count = count" using True by (simp add: rb_accept_def)
    obtain rb' where "ep_rb_write rb data count = Some (count, rb')" "rb_inv rb'"
      "rb_content rb' = rb_content rb @ take (nat count) data" "rb_capacity rb' = rb_capacity rb"
      "rb_limit rb' = rb_limit rb"
      using rb_write_fits [OF i p(1) True p(2) rb_expand_id [OF True] cw] .
    with True acc show ?thesis by (intro that [of rb']) simp_all
  qed
next
  case False
  then have lt: "rb_capacity rb - ep_rb_can_read rb < count" by simp
  obtain rb1 where e: "ep_rb_expand_limit rb count = Some rb1" "rb_inv rb1" "rb_content rb1 = rb_content rb"
    "rb_capacity rb1 = rb_capacity rb + min count (rb_limit rb)" "ep_rb_can_read rb1 = ep_rb_can_read rb"
    "rb_limit rb1 = rb_limit rb" using rb_expand_spec [OF i lt] .
  have p: "0 < min count (rb_limit rb)" using i lt rb_can_write_nonneg [OF i] by (auto simp: rb_inv_def)
  have a: "rb_accept rb count = min count (rb_capacity rb1 - ep_rb_can_read rb1)"
    using False e by (simp add: rb_accept_def Let_def algebra_simps)
  have cw: "min count (ep_rb_can_write rb1) = rb_accept rb count"
    using p e rb_can_write_nonneg [OF i] unfolding a by (auto simp: ep_rb_can_write_def Let_def)
  have "0 < rb_accept rb count" "rb_accept rb count \<le> rb_capacity rb1 - ep_rb_can_read rb1"
    "rb_accept rb count \<le> int (length data)"
    using p e rb_can_write_nonneg [OF i] lt c unfolding a by auto
  then obtain rb' where "ep_rb_write rb data count = Some (rb_accept rb count, rb')" "rb_inv rb'"
    "rb_content rb' = rb_content rb1 @ take (nat (rb_accept rb count)) data" "rb_capacity rb' = rb_capacity rb1"
    "rb_limit rb' = rb_limit rb1"
    using rb_write_fits [OF e(2) _ _ _ e(1) cw] by blast
  with e False show ?thesis by (intro that [of rb']) simp_all
qed

section \<open>The interface\<close>

definition rb_ok :: "int \<Rightarrow> ep_rb \<Rightarrow> bool" where
  "rb_ok lim rb \<longleftrightarrow> rb_inv rb \<and> rb_limit rb = lim"

lemma rb_accept_range: "rb_inv rb \<Longrightarrow> 0 \<le> n \<Longrightarrow> 0 \<le> rb_accept rb n \<and> rb_accept rb n \<le> n"
  using rb_can_write_nonneg [of rb] by (auto simp: rb_accept_def Let_def rb_inv_def)

lemma rb_accept_small: "rb_inv rb \<Longrightarrow> 0 \<le> n \<Longrightarrow> n \<le> rb_limit rb \<Longrightarrow> rb_accept rb n = n"
  using rb_can_write_nonneg [of rb] by (auto simp: rb_accept_def Let_def)

interpretation rb: byte_fifo "rb_ok lim" rb_content ep_rb_can_read rb_accept ep_rb_read ep_rb_write lim
  for lim
proof
  fix b n
  assume b: "rb_ok lim b" and n: "(0::int) \<le> n"
  then have i: "rb_inv b" by (simp add: rb_ok_def)
  have l: "int (length (rb_content b)) = ep_rb_can_read b" using rb_can_read_range [OF i] by simp
  show "\<exists>b'. ep_rb_read b n = Some (min n (int (length (rb_content b))), take (nat n) (rb_content b), b') \<and>
          rb_ok lim b' \<and> rb_content b' = drop (nat n) (rb_content b)"
    using rb_read_spec [OF i n] b unfolding l rb_ok_def by metis
next
  fix b n and data :: "byte list"
  assume b: "rb_ok lim b" and n: "n = int (length data)"
  then show "\<exists>b'. ep_rb_write b data n = Some (rb_accept b n, b') \<and> rb_ok lim b' \<and>
          rb_content b' = rb_content b @ take (nat (rb_accept b n)) data"
    using rb_write_spec [of b n data] unfolding rb_ok_def by metis
qed (use rb_can_read_range rb_accept_range rb_accept_small in \<open>auto simp: rb_ok_def\<close>)

lemma rb_new_ok:
  assumes "0 < capacity" and "0 < limit"
  obtains rb where "ep_rb_new True True capacity limit = Some rb" and "rb_ok limit rb"
    and "rb_content rb = []" and "rb_capacity rb = capacity"
  using assms by (intro that [of "the (ep_rb_new True True capacity limit)"])
    (auto simp: ep_rb_new_def rb_ok_def rb_inv_def rb_content_def ep_rb_can_read_def ring_view_def)

section \<open>Properties\<close>



text \<open>One growth step: a write of one byte more than fits enlarges the block.\<close>

lemma rb_grow_step:
  assumes "rb_inv rb"
  obtains d rb' k where "ep_rb_write rb d (int (length d)) = Some (k, rb')" and "rb_inv rb'"
    and "rb_capacity rb < rb_capacity rb'" and "rb_limit rb' = rb_limit rb"
proof -
  define d :: "byte list" where "d = replicate (nat (rb_capacity rb - ep_rb_can_read rb) + 1) 0"
  have n: "\<not> int (length d) \<le> rb_capacity rb - ep_rb_can_read rb"
    using rb_can_write_nonneg [OF assms] by (simp add: d_def)
  obtain rb' where "ep_rb_write rb d (int (length d)) = Some (rb_accept rb (int (length d)), rb')" "rb_inv rb'"
    "rb_limit rb' = rb_limit rb" "rb_capacity rb' = rb_capacity rb + min (int (length d)) (rb_limit rb)"
    using rb_write_spec [OF assms refl, of d] n by auto
  moreover have "0 < min (int (length d)) (rb_limit rb)" using assms by (simp add: d_def rb_inv_def)
  ultimately show ?thesis using that by simp
qed

text \<open>The limit given at creation does not bound the block: whatever the limit, writes alone drive
  the capacity of a new buffer past every bound.\<close>

theorem ringbuffer_limit_unenforced:
  assumes "0 < capacity" and "0 < limit"
  shows "\<exists>rb0 ds rb. ep_rb_new True True capacity limit = Some rb0 \<and>
    fifo_run ep_rb_read ep_rb_write (map Wr ds) rb0 = Some ([], rb) \<and>
    rb_limit rb = limit \<and> bound < ep_rb_capacity rb"
proof -
  obtain rb0 where rb0: "ep_rb_new True True capacity limit = Some rb0" "rb_ok limit rb0"
    "rb_capacity rb0 = capacity" using rb_new_ok [OF assms] .
  have "\<exists>ds rb'. fifo_run ep_rb_read ep_rb_write (map Wr ds) rb = Some ([], rb') \<and>
      rb_limit rb' = rb_limit rb \<and> rb_capacity rb + int n \<le> rb_capacity rb'" if "rb_inv rb" for rb n
    using that
  proof (induction n arbitrary: rb)
    case 0
    show ?case by (rule exI [of _ "[]"]) simp
  next
    case (Suc n)
    obtain d rb1 k where 1: "ep_rb_write rb d (int (length d)) = Some (k, rb1)" "rb_inv rb1"
      "rb_capacity rb < rb_capacity rb1" "rb_limit rb1 = rb_limit rb" using rb_grow_step [OF Suc.prems] .
    obtain ds rb' where "fifo_run ep_rb_read ep_rb_write (map Wr ds) rb1 = Some ([], rb')"
      "rb_limit rb' = rb_limit rb1" "rb_capacity rb1 + int n \<le> rb_capacity rb'"
      using Suc.IH [OF 1(2)] by blast
    with 1 show ?case by (intro exI [of _ "d # ds"], intro exI [of _ rb']) auto
  qed
  then obtain ds rb' where "fifo_run ep_rb_read ep_rb_write (map Wr ds) rb0 = Some ([], rb')"
    "rb_limit rb' = rb_limit rb0" "rb_capacity rb0 + int (nat bound) \<le> rb_capacity rb'"
    using rb0(2) unfolding rb_ok_def by blast
  moreover from this rb0 assms have "rb_limit rb' = limit" "bound < ep_rb_capacity rb'"
    by (auto simp: rb_ok_def ep_rb_capacity_def split: if_splits)
  ultimately show ?thesis using rb0(1) by blast
qed

theorem ringbuffer_limit_unenforced_witness:
  "\<exists>rb0 ds rb. ep_rb_new True True 4096 4194304 = Some rb0 \<and>
    fifo_run ep_rb_read ep_rb_write (map Wr ds) rb0 = Some ([], rb) \<and>
    rb_limit rb = 4194304 \<and> 10 ^ 12 < ep_rb_capacity rb"
  by (rule ringbuffer_limit_unenforced) simp_all

end
