(* ===== verification/EP_Queue.thy ===== *)
theory EP_Queue
  imports EP_Prelude
begin

text \<open>
  The blocking queue (\<open>eventpack/src/ep_queue.c\<close>) and the system of threads that share one queue.
  A \<open>get\<close> is split where it gives up the mutex: \<open>ep_queue_get_begin\<close> runs from the lock to the
  return or to the condition wait, \<open>ep_queue_get_wake\<close> from the wake-up to the return (the loop of
  the source never waits twice: every path after the wait leaves it). \<open>queue_step\<close> interleaves the
  critical sections of any number of threads, with the wake-ups of the condition variable.
\<close>

section \<open>The model\<close>

record 'a ep_queue =
  q_items :: "'a list"
  q_stop :: bool

definition ep_queue_new :: "bool \<Rightarrow> 'a ep_queue option" where
  "ep_queue_new alloc = (if alloc then Some \<lparr>q_items = [], q_stop = False\<rparr> else None)"

text \<open>The critical section of a push; \<open>ep_queue_push\<close> adds the checks around it.\<close>

definition queue_push :: "'a ep_queue \<Rightarrow> 'a \<Rightarrow> 'a ep_queue" where
  "queue_push q body = q\<lparr>q_items := q_items q @ [body]\<rparr>"

definition ep_queue_push :: "bool \<Rightarrow> 'a ep_queue option \<Rightarrow> 'a \<Rightarrow> int \<times> 'a ep_queue option" where
  "ep_queue_push alloc queue body =
     (case queue of
        None \<Rightarrow> (0, None)
      | Some q \<Rightarrow> if alloc then (1, Some (queue_push q body)) else (0, Some q))"

datatype 'a get_result = GetRet int "'a option" | GetWait

definition ep_queue_get_begin :: "'a ep_queue \<Rightarrow> int \<Rightarrow> 'a get_result \<times> 'a ep_queue" where
  "ep_queue_get_begin q timeout =
     (case q_items q of
        item # rest \<Rightarrow> (GetRet 1 (Some item), q\<lparr>q_items := rest\<rparr>)
      | [] \<Rightarrow> if q_stop q then (GetRet 0 None, q)
              else if timeout = 0 then (GetRet 0 None, q)
              else (GetWait, q))"

definition ep_queue_get_wake :: "'a ep_queue \<Rightarrow> int \<Rightarrow> 'a get_result \<times> 'a ep_queue" where
  "ep_queue_get_wake q wait_r =
     (if q_stop q then (GetRet (-1) None, q)
      else (case q_items q of
              [] \<Rightarrow> if wait_r \<noteq> 0 then (GetRet 0 None, q) else (GetRet (-1) None, q)
            | item # rest \<Rightarrow> (GetRet 1 (Some item), q\<lparr>q_items := rest\<rparr>)))"

definition ep_queue_stop :: "'a ep_queue \<Rightarrow> 'a ep_queue" where
  "ep_queue_stop q = q\<lparr>q_stop := True\<rparr>"

definition ep_queue_destroy :: "'a ep_queue option \<Rightarrow> 'a ep_queue option" where
  "ep_queue_destroy queue = None"

text \<open>The draining loops of the callers: \<open>while (ep_queue_get (q, .., 0) == 1)\<close>.\<close>

function queue_drain :: "'a ep_queue \<Rightarrow> 'a list \<times> 'a ep_queue" where
  "queue_drain q =
     (case ep_queue_get_begin q 0 of
        (GetRet c (Some x), q') \<Rightarrow>
          (if c = 1 then (let (xs, q'') = queue_drain q' in (x # xs, q'')) else ([], q'))
      | (_, q') \<Rightarrow> ([], q'))"
  by pat_completeness auto
termination
  by (relation "measure (\<lambda>q. length (q_items q))")
    (auto simp: ep_queue_get_begin_def split: list.splits if_splits)

section \<open>Threads sharing one queue\<close>

datatype qthread = QIdle | QWaiting int | QWoken int

record 'a qsys =
  qs_q :: "'a ep_queue"
  qs_thread :: "nat \<Rightarrow> qthread"
  qs_pushed :: "'a list"
  qs_got :: "'a list"

definition wake_all :: "(nat \<Rightarrow> qthread) \<Rightarrow> nat \<Rightarrow> qthread" where
  "wake_all th t = (case th t of QWaiting w \<Rightarrow> QWoken 0 | x \<Rightarrow> x)"

definition got_of :: "'a get_result \<Rightarrow> 'a list" where
  "got_of r = (case r of GetRet c (Some x) \<Rightarrow> [x] | _ \<Rightarrow> [])"

definition qthread_after :: "int \<Rightarrow> 'a get_result \<Rightarrow> qthread" where
  "qthread_after timeout r = (case r of GetWait \<Rightarrow> QWaiting timeout | GetRet c b \<Rightarrow> QIdle)"

inductive queue_step :: "'a qsys \<Rightarrow> 'a qsys \<Rightarrow> bool" where
  push: "queue_step s (s\<lparr>qs_q := queue_push (qs_q s) x, qs_thread := wake_all (qs_thread s),
           qs_pushed := qs_pushed s @ [x]\<rparr>)"
| get_begin: "qs_thread s t = QIdle \<Longrightarrow> ep_queue_get_begin (qs_q s) timeout = (r, q') \<Longrightarrow>
     queue_step s (s\<lparr>qs_q := q', qs_thread := (qs_thread s)(t := qthread_after timeout r),
       qs_got := qs_got s @ got_of r\<rparr>)"
| timed_out: "qs_thread s t = QWaiting timeout \<Longrightarrow> 0 < timeout \<Longrightarrow> wait_r \<noteq> 0 \<Longrightarrow>
     queue_step s (s\<lparr>qs_thread := (qs_thread s)(t := QWoken wait_r)\<rparr>)"
| spurious: "qs_thread s t = QWaiting timeout \<Longrightarrow>
     queue_step s (s\<lparr>qs_thread := (qs_thread s)(t := QWoken 0)\<rparr>)"
| get_wake: "qs_thread s t = QWoken wait_r \<Longrightarrow> ep_queue_get_wake (qs_q s) wait_r = (r, q') \<Longrightarrow>
     queue_step s (s\<lparr>qs_q := q', qs_thread := (qs_thread s)(t := QIdle), qs_got := qs_got s @ got_of r\<rparr>)"
| stop_none: "(\<forall>t timeout. qs_thread s t \<noteq> QWaiting timeout) \<Longrightarrow>
     queue_step s (s\<lparr>qs_q := ep_queue_stop (qs_q s)\<rparr>)"
| stop_one: "qs_thread s t = QWaiting timeout \<Longrightarrow>
     queue_step s (s\<lparr>qs_q := ep_queue_stop (qs_q s), qs_thread := (qs_thread s)(t := QWoken 0)\<rparr>)"

definition queue_start :: "'a qsys \<Rightarrow> bool" where
  "queue_start s \<longleftrightarrow> qs_q s = \<lparr>q_items = [], q_stop = False\<rparr> \<and> qs_thread s = (\<lambda>t. QIdle) \<and>
     qs_pushed s = [] \<and> qs_got s = []"

text \<open>What was delivered, followed by what is queued, is what was pushed; and a thread waits only
  while the queue is empty.\<close>

definition queue_inv :: "'a qsys \<Rightarrow> bool" where
  "queue_inv s \<longleftrightarrow> qs_got s @ q_items (qs_q s) = qs_pushed s \<and>
     ((\<exists>t timeout. qs_thread s t = QWaiting timeout) \<longrightarrow> q_items (qs_q s) = [])"

section \<open>Lemmas\<close>

lemmas queue_get_defs = ep_queue_get_begin_def ep_queue_get_wake_def got_of_def qthread_after_def

declare queue_drain.simps [simp del]

lemma queue_drain_all: "queue_drain q = (q_items q, q\<lparr>q_items := []\<rparr>)"
proof (induction "q_items q" arbitrary: q)
  case Nil
  then show ?case by (simp add: queue_drain.simps [of q] ep_queue_get_begin_def)
next
  case (Cons x xs)
  from Cons.hyps(1) [of "q\<lparr>q_items := xs\<rparr>"] Cons.hyps(2) [symmetric] show ?case
    by (simp add: queue_drain.simps [of q] ep_queue_get_begin_def)
qed

lemma get_begin_items:
  "ep_queue_get_begin q timeout = (r, q') \<Longrightarrow> got_of r @ q_items q' = q_items q"
  by (auto simp: queue_get_defs split: list.splits if_splits)

lemma get_wake_items:
  "ep_queue_get_wake q wait_r = (r, q') \<Longrightarrow> got_of r @ q_items q' = q_items q"
  by (auto simp: queue_get_defs split: list.splits if_splits)

lemma get_begin_waits:
  "ep_queue_get_begin q timeout = (r, q') \<Longrightarrow> qthread_after timeout r = QWaiting w \<Longrightarrow> q_items q' = []"
  by (auto simp: queue_get_defs split: list.splits if_splits get_result.splits)

lemma wake_all_not_waiting: "wake_all th t \<noteq> QWaiting w"
  by (simp add: wake_all_def split: qthread.splits)

lemma queue_inv_step:
  assumes "queue_inv s" and "queue_step s s'"
  shows "queue_inv s'"
  using assms(2,1)
proof cases
  case (push x)
  then show ?thesis using assms(1) by (auto simp: queue_inv_def queue_push_def wake_all_not_waiting)
next
  case (get_begin t timeout r q')
  then show ?thesis
    using assms(1) get_begin_items [OF get_begin(3)] get_begin_waits [OF get_begin(3)]
    by (auto simp: queue_inv_def split: if_splits)
next
  case (get_wake t wait_r r q')
  then show ?thesis
    using assms(1) get_wake_items [OF get_wake(3)] by (auto simp: queue_inv_def split: if_splits)
qed (use assms(1) in \<open>auto simp: queue_inv_def ep_queue_stop_def split: if_splits\<close>)

interpretation queue_machine: inv_machine queue_start queue_step queue_inv
  by unfold_locales (simp add: queue_start_def queue_inv_def, rule queue_inv_step)

section \<open>Properties\<close>

text \<open>C7. Under every interleaving of pushes, gets, time-outs, spurious wake-ups and stops by any number
  of threads, the bodies delivered so far followed by the bodies still queued are exactly the bodies
  pushed, in order: nothing is lost, duplicated or reordered. And no thread is left waiting while the
  queue holds a body (no lost wake-up).\<close>

theorem queue_fifo_exactly_once:
  assumes "queue_start s" and "queue_step\<^sup>*\<^sup>* s s'"
  shows "qs_got s' @ q_items (qs_q s') = qs_pushed s' \<and>
    (qs_thread s' t = QWaiting timeout \<longrightarrow> q_items (qs_q s') = [])"
  using queue_machine.reach_inv [OF assms] by (auto simp: queue_inv_def)

theorem queue_fifo_exactly_once_witness:
  "\<exists>s s'. queue_start s \<and> queue_step\<^sup>*\<^sup>* s s' \<and> qs_pushed s' = [1, 2::nat] \<and>
     qs_got s' @ q_items (qs_q s') = [1, 2] \<and> q_items (qs_q s') = [2]"
proof -
  define s :: "nat qsys" where
    "s = \<lparr>qs_q = \<lparr>q_items = [], q_stop = False\<rparr>, qs_thread = (\<lambda>t. QIdle), qs_pushed = [], qs_got = []\<rparr>"
  define s1 where "s1 = s\<lparr>qs_q := queue_push (qs_q s) 1, qs_thread := wake_all (qs_thread s), qs_pushed := qs_pushed s @ [1]\<rparr>"
  define s2 where "s2 = s1\<lparr>qs_q := queue_push (qs_q s1) 2, qs_thread := wake_all (qs_thread s1), qs_pushed := qs_pushed s1 @ [2]\<rparr>"
  define s3 where "s3 = s2\<lparr>qs_q := (qs_q s2)\<lparr>q_items := [2]\<rparr>, qs_thread := (qs_thread s2)(0 := qthread_after 0 (GetRet 1 (Some (1::nat)))),
    qs_got := qs_got s2 @ got_of (GetRet 1 (Some 1))\<rparr>"
  have start: "queue_start s" by (simp add: queue_start_def s_def)
  have "queue_step s s1" unfolding s1_def by (rule push)
  moreover have "queue_step s1 s2" unfolding s2_def by (rule push)
  moreover have "queue_step s2 s3" unfolding s3_def
    by (rule get_begin) (simp_all add: s2_def s1_def s_def wake_all_def queue_push_def ep_queue_get_begin_def)
  ultimately have run: "queue_step\<^sup>*\<^sup>* s s3" by (meson r_into_rtranclp rtranclp_trans)
  have "qs_pushed s3 = [1, 2]" "q_items (qs_q s3) = [2]"
    by (simp_all add: s3_def s2_def s1_def s_def queue_push_def)
  with start run queue_fifo_exactly_once [OF start run] show ?thesis by metis
qed

text \<open>A stop signals one waiter only: with two threads blocked in a get without time-out, a state is
  reachable in which the stop flag is set and one of them still waits.\<close>

theorem queue_stop_strands_waiter:
  "\<exists>s s' :: nat qsys. queue_start s \<and> queue_step\<^sup>*\<^sup>* s s' \<and> q_stop (qs_q s') \<and> qs_thread s' 1 = QWaiting (-1)"
proof -
  define s :: "nat qsys" where
    "s = \<lparr>qs_q = \<lparr>q_items = [], q_stop = False\<rparr>, qs_thread = (\<lambda>t. QIdle), qs_pushed = [], qs_got = []\<rparr>"
  define w where "w t x = x\<lparr>qs_q := qs_q x, qs_thread := (qs_thread x)(t := qthread_after (-1) (GetWait :: nat get_result)),
    qs_got := qs_got x @ got_of (GetWait :: nat get_result)\<rparr>" for t :: nat and x :: "nat qsys"
  define s3 where "s3 = (w 1 (w 0 s))\<lparr>qs_q := ep_queue_stop (qs_q (w 1 (w 0 s))), qs_thread := (qs_thread (w 1 (w 0 s)))(0 := QWoken 0)\<rparr>"
  have wait: "queue_step x (w t x)" if "qs_thread x t = QIdle" "qs_q x = \<lparr>q_items = [], q_stop = False\<rparr>" for t x
    unfolding w_def using that by (intro get_begin) (simp_all add: ep_queue_get_begin_def)
  have "queue_step s (w 0 s)" by (rule wait) (simp_all add: s_def)
  moreover have "queue_step (w 0 s) (w 1 (w 0 s))" by (rule wait) (simp_all add: w_def s_def)
  moreover have "queue_step (w 1 (w 0 s)) s3" unfolding s3_def
    by (rule stop_one [of _ _ "-1"]) (simp add: w_def s_def qthread_after_def)
  ultimately have "queue_step\<^sup>*\<^sup>* s s3" by (meson r_into_rtranclp rtranclp_trans)
  moreover have "queue_start s" by (simp add: queue_start_def s_def)
  moreover have "q_stop (qs_q s3)" "qs_thread s3 1 = QWaiting (-1)"
    by (simp_all add: s3_def w_def s_def ep_queue_stop_def qthread_after_def)
  ultimately show ?thesis by blast
qed

text \<open>The codes of a get that meets the stop flag: 0 when it was set before the call, although the
  interface promises -1, and -1 after a wait, even when bodies are queued.\<close>

lemma queue_get_stopped:
  "q_stop q \<Longrightarrow> q_items q = [] \<Longrightarrow> fst (ep_queue_get_begin q timeout) = GetRet 0 None"
  "q_stop q \<Longrightarrow> ep_queue_get_wake q wait_r = (GetRet (-1) None, q)"
  by (simp_all add: queue_get_defs)

end
