(* ===== verification/EP_Dispatch.thy ===== *)
theory EP_Dispatch
  imports EP_Prelude
begin

text \<open>
  The dispatcher (\<open>eventpack/src/ep_dispatch.c\<close>): a list of callbacks by category. Each operation is
  one critical section of the manager's mutex, except \<open>ep_disp_add_cb\<close>, which counts in one and
  inserts in another; its two halves are also given apart. \<open>ep_disp_processor\<close> runs the callback
  inside its critical section, so that callbacks never overlap.

  A callback is a value of type \<open>'cb\<close>, and \<open>invoke\<close> is the call through the function pointer: it maps
  the world of the callbacks \<open>'w\<close> to the response packet and the final value of \<open>*b_pack_reclaim\<close>,
  which the dispatcher has set to 1 before the call.
\<close>

section \<open>The model\<close>

type_synonym ep_category = "16 word"

record ('cb, 'o) ep_disp =
  disp_category :: ep_category
  disp_cb :: 'cb
  disp_opaque :: 'o

type_synonym ('cb, 'o) ep_disp_mgr = "('cb, 'o) ep_disp list"

definition ep_disp_init :: "bool \<Rightarrow> ('cb, 'o) ep_disp_mgr option" where
  "ep_disp_init alloc = (if alloc then Some [] else None)"

primrec disp_count_from :: "int \<Rightarrow> ep_category \<Rightarrow> ('cb, 'o) ep_disp_mgr \<Rightarrow> int" where
  "disp_count_from count category [] = count"
| "disp_count_from count category (tmp # pos) =
     disp_count_from (if disp_category tmp = category then count + 1 else count) category pos"

definition ep_disp_count :: "('cb, 'o) ep_disp_mgr \<Rightarrow> ep_category \<Rightarrow> int" where
  "ep_disp_count mgr category = disp_count_from 0 category mgr"

text \<open>\<open>list_add\<close> links the new element behind the list head, in front of the others.\<close>

definition disp_insert :: "ep_category \<Rightarrow> 'cb \<Rightarrow> 'o \<Rightarrow> ('cb, 'o) ep_disp_mgr \<Rightarrow> ('cb, 'o) ep_disp_mgr" where
  "disp_insert category cb opaque mgr =
     \<lparr>disp_category = category, disp_cb = cb, disp_opaque = opaque\<rparr> # mgr"

definition ep_disp_add_cb ::
  "bool \<Rightarrow> ('cb, 'o) ep_disp_mgr \<Rightarrow> ep_category \<Rightarrow> 'cb \<Rightarrow> 'o \<Rightarrow> int \<times> ('cb, 'o) ep_disp_mgr" where
  "ep_disp_add_cb alloc mgr category cb opaque =
     (if ep_disp_count mgr category \<ge> 1 then (0, mgr)
      else if \<not> alloc then (0, mgr)
      else (1, disp_insert category cb opaque mgr))"

primrec ep_disp_del :: "('cb, 'o) ep_disp_mgr \<Rightarrow> ep_category \<Rightarrow> int \<times> ('cb, 'o) ep_disp_mgr" where
  "ep_disp_del [] category = (0, [])"
| "ep_disp_del (tmp # pos) category =
     (let (ret, rest) = ep_disp_del pos category in
      if disp_category tmp = category then (1, rest) else (ret, tmp # rest))"

text \<open>The response, whether the dispatcher destroys the request packet, and the callbacks' world.\<close>

primrec ep_disp_processor ::
  "('cb \<Rightarrow> 'o \<Rightarrow> int \<Rightarrow> 'p option \<Rightarrow> 'w \<Rightarrow> 'p option \<times> bool \<times> 'w) \<Rightarrow>
   ('cb, 'o) ep_disp_mgr \<Rightarrow> ep_category \<Rightarrow> int \<Rightarrow> 'p option \<Rightarrow> 'w \<Rightarrow> 'p option \<times> bool \<times> 'w" where
  "ep_disp_processor invoke [] category fd pack w = (None, True, w)"
| "ep_disp_processor invoke (tmp # pos) category fd pack w =
     (if disp_category tmp = category then invoke (disp_cb tmp) (disp_opaque tmp) fd pack w
      else ep_disp_processor invoke pos category fd pack w)"

definition ep_disp_destroy :: "('cb, 'o) ep_disp_mgr option \<Rightarrow> ('cb, 'o) ep_disp_mgr option" where
  "ep_disp_destroy mgr = None"

section \<open>The table of callbacks\<close>

definition disp_find :: "('cb, 'o) ep_disp_mgr \<Rightarrow> ep_category \<Rightarrow> ('cb, 'o) ep_disp option" where
  "disp_find mgr category = find (\<lambda>d. disp_category d = category) mgr"

definition disp_ok :: "('cb, 'o) ep_disp_mgr \<Rightarrow> bool" where
  "disp_ok mgr \<longleftrightarrow> distinct (map disp_category mgr)"

definition disp_add :: "('cb, 'o) ep_disp \<Rightarrow> ('cb, 'o) ep_disp_mgr \<Rightarrow> bool \<times> ('cb, 'o) ep_disp_mgr" where
  "disp_add d mgr = (let (ret, mgr') = ep_disp_add_cb True mgr (disp_category d) (disp_cb d) (disp_opaque d)
     in (ret = 1, mgr'))"

definition disp_remove :: "ep_category \<Rightarrow> ('cb, 'o) ep_disp_mgr \<Rightarrow> bool \<times> ('cb, 'o) ep_disp_mgr" where
  "disp_remove category mgr = (let (ret, mgr') = ep_disp_del mgr category in (ret = 1, mgr'))"

lemma disp_count_from_filter:
  "disp_count_from n category mgr = n + int (length (filter (\<lambda>d. disp_category d = category) mgr))"
  by (induction mgr arbitrary: n) auto

lemma disp_count_find: "ep_disp_count mgr category \<ge> 1 \<longleftrightarrow> disp_find mgr category \<noteq> None"
  by (induction mgr) (auto simp: ep_disp_count_def disp_count_from_filter disp_find_def)

lemma disp_find_None: "disp_find mgr category = None \<longleftrightarrow> category \<notin> disp_category ` set mgr"
  by (auto simp: disp_find_def find_None_iff)

lemma ep_disp_del_filter:
  "ep_disp_del mgr category =
     (if disp_find mgr category = None then 0 else 1, filter (\<lambda>d. disp_category d \<noteq> category) mgr)"
  by (induction mgr) (auto simp: disp_find_def Let_def)

lemma disp_find_filter:
  "disp_find (filter (\<lambda>d. disp_category d \<noteq> k) mgr) = (disp_find mgr)(k := None)"
  by (induction mgr) (auto simp: disp_find_def fun_eq_iff)

lemma disp_add_eq:
  "disp_add d mgr = (if disp_find mgr (disp_category d) = None then (True, d # mgr) else (False, mgr))"
  using disp_count_find [of mgr "disp_category d"]
  by (auto simp: disp_add_def ep_disp_add_cb_def disp_insert_def)

lemma distinct_map_filter_key: "distinct (map f xs) \<Longrightarrow> distinct (map f (filter P xs))"
  by (induction xs) auto

interpretation disp: keyed_table disp_ok disp_category disp_find disp_add disp_remove
proof
  fix t :: "('a, 'b) ep_disp_mgr" and k e
  show "disp_find t k = Some e \<Longrightarrow> disp_category e = k"
    by (auto simp: disp_find_def find_Some_iff)
  show "disp_ok t \<Longrightarrow> disp_find t (disp_category e) = None \<Longrightarrow>
      fst (disp_add e t) \<and> disp_ok (snd (disp_add e t)) \<and>
      disp_find (snd (disp_add e t)) = (disp_find t)(disp_category e \<mapsto> e)"
    using disp_find_None [of t "disp_category e"]
    by (auto simp: disp_add_eq disp_ok_def disp_find_def fun_eq_iff)
  show "disp_find t (disp_category e) \<noteq> None \<Longrightarrow> disp_add e t = (False, t)"
    by (auto simp: disp_add_eq)
  show "disp_ok t \<Longrightarrow> fst (disp_remove k t) = (disp_find t k \<noteq> None) \<and> disp_ok (snd (disp_remove k t)) \<and>
      disp_find (snd (disp_remove k t)) = (disp_find t)(k := None)"
    by (simp add: disp_remove_def ep_disp_del_filter disp_find_filter disp_ok_def distinct_map_filter_key)
qed

lemma ep_disp_processor_find:
  "ep_disp_processor invoke mgr category fd pack w =
     (case disp_find mgr category of None \<Rightarrow> (None, True, w)
      | Some d \<Rightarrow> invoke (disp_cb d) (disp_opaque d) fd pack w)"
  by (induction mgr) (auto simp: disp_find_def)

section \<open>Properties\<close>

text \<open>C11. After any sequence of registrations and removals on a new dispatcher, a request is routed by the
  map of categories those operations denote: a registration of a free category succeeds, one of a
  taken category fails and changes nothing, a removal succeeds exactly when the category is taken,
  and a request of a category runs the callback registered for it with its own opaque pointer, or no
  callback, in which case there is no response and the dispatcher destroys the packet.\<close>

theorem dispatch_routes_by_registration:
  "fst (table_run disp_add disp_remove ops []) = fst (map_run disp_category ops Map.empty) \<and>
   ep_disp_processor invoke (snd (table_run disp_add disp_remove ops [])) category fd pack w =
     (case snd (map_run disp_category ops Map.empty) category of
        None \<Rightarrow> (None, True, w)
      | Some d \<Rightarrow> invoke (disp_cb d) (disp_opaque d) fd pack w)"
proof -
  have "disp_ok ([] :: ('a, 'b) ep_disp_mgr)" by (simp add: disp_ok_def)
  moreover have "disp_find ([] :: ('a, 'b) ep_disp_mgr) = Map.empty" by (simp add: disp_find_def fun_eq_iff)
  ultimately show ?thesis
    using disp.table_run_refines [of "[]" ops] by (simp add: ep_disp_processor_find)
qed

text \<open>The count and the insertion of a registration are separate critical sections: when two threads
  register the same free category and both count before either inserts, both registrations succeed,
  only the later one is ever called, and one removal drops both.\<close>

theorem dispatch_add_race:
  assumes "ep_disp_count mgr category = 0" and "both = disp_insert category cb2 o2 (disp_insert category cb1 o1 mgr)"
  shows "ep_disp_count both category = 2 \<and>
    ep_disp_processor invoke both category fd pack w = invoke cb2 o2 fd pack w \<and>
    ep_disp_del both category = (1, mgr)"
proof -
  have none: "filter (\<lambda>d. disp_category d = category) mgr = []"
    using assms(1) by (simp add: ep_disp_count_def disp_count_from_filter)
  then have "filter (\<lambda>d. disp_category d \<noteq> category) mgr = mgr"
    by (auto simp: filter_empty_conv filter_id_conv)
  with none show ?thesis
    by (simp add: assms(2) disp_insert_def ep_disp_count_def disp_count_from_filter ep_disp_del_filter
        disp_find_def)
qed

theorem dispatch_add_race_witness:
  "ep_disp_count (disp_insert 7 True (2::nat) (disp_insert 7 True 1 [])) 7 = 2 \<and>
   ep_disp_del (disp_insert 7 True (2::nat) (disp_insert 7 True 1 [])) 7 = (1, [])"
proof -
  have "ep_disp_count ([] :: (bool, nat) ep_disp_mgr) 7 = 0" by (simp add: ep_disp_count_def)
  from dispatch_add_race [OF this refl, where invoke = "\<lambda>cb opaque fd pack w. (pack, cb, w)" and fd = 0
      and pack = "Some ()" and w = "()"] show ?thesis by blast
qed

end
