(* ===== verification/EP_Buffer.thy ===== *)
theory EP_Buffer
  imports EP_Prelude
begin

unbundle bit_operations_syntax

text \<open>
  Message buffers with their compression and encryption (\<open>eventpack/src/ep_buffer.c\<close>,
  \<open>ep_alloctor.c\<close>, \<open>ep_crypt.c\<close>, \<open>ep_compress.c\<close>).

  bzip2 and the AES of OpenSSL are parameters, the fields of an \<open>ep_ext\<close>; \<open>aes_laws\<close> and \<open>bz_laws\<close>
  are what their documentation says of them. \<open>ep_crypt_aes\<close> processes up to 16 bytes more than the
  buffer holds, so the model says what memory follows the block: \<open>beyond\<close>, which is empty where the
  access has to stay inside the block.

  Results: the outer \<open>None\<close> is undefined behaviour, the inner one the null pointer. Requests for a
  positive number of bytes are granted, as \<open>ep_malloc\<close> passes them on to the allocator.
\<close>

section \<open>The model\<close>

definition ep_align_size :: "int \<Rightarrow> int \<Rightarrow> int" where
  "ep_align_size x aligned_size = (x + (aligned_size - 1)) AND NOT (aligned_size - 1)"

text \<open>The allocator refuses sizes that are not positive.\<close>

definition ep_malloc :: "int \<Rightarrow> byte list option" where
  "ep_malloc sz = (if sz \<le> 0 then None else Some (mem_uninit sz))"

definition ep_calloc :: "int \<Rightarrow> int \<Rightarrow> byte list option" where
  "ep_calloc count sz = (if count \<le> 0 \<or> sz \<le> 0 then None else Some (replicate (nat (count * sz)) 0))"

record ep_ext =
  aes_cbc :: "bool \<Rightarrow> byte list \<Rightarrow> byte list \<Rightarrow> byte list \<Rightarrow> byte list"
  bz_compress :: "byte list \<Rightarrow> byte list"
  bz_decompress :: "byte list \<Rightarrow> byte list option"

record ep_aes_key =
  aes_key :: "byte list"
  aes_vec :: "byte list"

definition aes_padded_len :: "int \<Rightarrow> int" where
  "aes_padded_len in_size =
     (if c_mod (in_size + 1) 16 = 0 then in_size + 1 else (c_div (in_size + 1) 16 + 1) * 16)"

definition ep_crypt_aes :: "ep_ext \<Rightarrow> byte list \<Rightarrow> byte list \<Rightarrow> int \<Rightarrow> ep_aes_key \<Rightarrow> bool \<Rightarrow> (byte list \<times> int) option option" where
  "ep_crypt_aes ext beyond inbuf in_size aes enc =
     (let len = aes_padded_len in_size in
      case ep_malloc len of
        None \<Rightarrow> Some None
      | Some out \<Rightarrow> do {
          data \<leftarrow> mem_read (inbuf @ beyond) 0 len;
          out \<leftarrow> mem_write out 0 (aes_cbc ext enc (aes_key aes) (aes_vec aes) data);
          Some (Some (out, len))
        })"

text \<open>\<open>(unsigned int)(src_len * 1.01) + 600\<close>: the truncated product is \<open>101 * src_len div 100\<close> for every
  32 bit \<open>src_len\<close>. The return code of the compressor is only asserted: an output that does not fit
  leaves the length at the size of the block.\<close>

definition ep_compress :: "ep_ext \<Rightarrow> byte list \<Rightarrow> int \<Rightarrow> (byte list \<times> int \<times> int) option option" where
  "ep_compress ext src src_len =
     (let alloced = ep_align_size (101 * src_len div 100 + 600) 16 in
      case ep_malloc alloced of
        None \<Rightarrow> Some None
      | Some dest \<Rightarrow> do {
          data \<leftarrow> mem_read src 0 src_len;
          (let packed = bz_compress ext data in
           if int (length packed) \<le> alloced then do {
             dest \<leftarrow> mem_write dest 0 packed;
             Some (Some (dest, alloced, int (length packed)))
           } else Some (Some (dest, alloced, alloced)))
        })"

definition ep_decompress :: "ep_ext \<Rightarrow> byte list \<Rightarrow> int \<Rightarrow> int \<Rightarrow> byte list option option" where
  "ep_decompress ext src src_len dest_len =
     (case ep_malloc (ep_align_size dest_len 16) of
        None \<Rightarrow> Some None
      | Some dest \<Rightarrow> do {
          data \<leftarrow> mem_read src 0 src_len;
          (case bz_decompress ext data of
             None \<Rightarrow> Some None
           | Some plain \<Rightarrow>
               if int (length plain) \<noteq> dest_len then Some None
               else do {
                 dest \<leftarrow> mem_write dest 0 plain;
                 Some (Some dest)
               })
        })"

record ep_buffer =
  bf_chunk :: "byte list"
  bf_capacity :: int
  bf_used :: int

definition ep_buffer_new :: "byte list \<Rightarrow> int \<Rightarrow> ep_buffer option option" where
  "ep_buffer_new inbuf sz =
     (let capacity = ep_align_size sz 16 in
      case ep_malloc capacity of
        None \<Rightarrow> Some None
      | Some chunk \<Rightarrow> do {
          data \<leftarrow> mem_read inbuf 0 sz;
          chunk \<leftarrow> mem_write chunk 0 data;
          Some (Some \<lparr>bf_chunk = chunk, bf_capacity = capacity, bf_used = sz\<rparr>)
        })"

definition ep_buffer_ptr :: "ep_buffer \<Rightarrow> byte list" where
  "ep_buffer_ptr buffer = bf_chunk buffer"

definition ep_buffer_size :: "ep_buffer \<Rightarrow> int" where
  "ep_buffer_size buffer = bf_used buffer"

definition ep_buffer_clone :: "ep_buffer \<Rightarrow> ep_buffer option option" where
  "ep_buffer_clone buffer = ep_buffer_new (ep_buffer_ptr buffer) (ep_buffer_size buffer)"

definition ep_buffer_free_shell :: "ep_buffer option \<Rightarrow> byte list option" where
  "ep_buffer_free_shell buffer = map_option bf_chunk buffer"

definition ep_buffer_encrypt :: "ep_ext \<Rightarrow> byte list \<Rightarrow> ep_buffer \<Rightarrow> ep_aes_key \<Rightarrow> ep_buffer option option" where
  "ep_buffer_encrypt ext beyond buffer aes = do {
     crypt \<leftarrow> ep_crypt_aes ext beyond (bf_chunk buffer) (bf_used buffer) aes True;
     Some (case crypt of
       None \<Rightarrow> None
     | Some (out, mem_size) \<Rightarrow>
         Some (buffer\<lparr>bf_chunk := out, bf_used := mem_size, bf_capacity := mem_size\<rparr>))
   }"

definition ep_buffer_decrypt :: "ep_ext \<Rightarrow> byte list \<Rightarrow> ep_buffer \<Rightarrow> ep_aes_key \<Rightarrow> int \<Rightarrow> ep_buffer option option" where
  "ep_buffer_decrypt ext beyond buffer aes orignal_size = do {
     crypt \<leftarrow> ep_crypt_aes ext beyond (bf_chunk buffer) (bf_used buffer) aes False;
     Some (case crypt of
       None \<Rightarrow> None
     | Some (out, mem_size) \<Rightarrow>
         Some (buffer\<lparr>bf_chunk := out, bf_used := orignal_size, bf_capacity := mem_size\<rparr>))
   }"

definition ep_buffer_compress :: "ep_ext \<Rightarrow> ep_buffer \<Rightarrow> ep_buffer option option" where
  "ep_buffer_compress ext buffer = do {
     dest \<leftarrow> ep_compress ext (bf_chunk buffer) (bf_used buffer);
     Some (case dest of
       None \<Rightarrow> None
     | Some (chunk, alloced, sz) \<Rightarrow>
         Some (buffer\<lparr>bf_chunk := chunk, bf_used := sz, bf_capacity := alloced\<rparr>))
   }"

definition ep_buffer_decompress :: "ep_ext \<Rightarrow> ep_buffer \<Rightarrow> int \<Rightarrow> ep_buffer option option" where
  "ep_buffer_decompress ext buffer orignal_size = do {
     dest \<leftarrow> ep_decompress ext (bf_chunk buffer) (bf_used buffer) orignal_size;
     Some (case dest of
       None \<Rightarrow> None
     | Some chunk \<Rightarrow>
         Some (buffer\<lparr>bf_chunk := chunk, bf_used := orignal_size, bf_capacity := orignal_size\<rparr>))
   }"

section \<open>What the libraries promise\<close>

text \<open>Cipher block chaining keeps the length of whole blocks, decryption inverts encryption under the
  same key and vector, and the decryption of a block depends only on it and the blocks before it.\<close>

definition aes_laws :: "ep_ext \<Rightarrow> bool" where
  "aes_laws ext \<longleftrightarrow>
     (\<forall>enc k v data. length data mod 16 = 0 \<longrightarrow> length (aes_cbc ext enc k v data) = length data) \<and>
     (\<forall>k v data. length data mod 16 = 0 \<longrightarrow> aes_cbc ext False k v (aes_cbc ext True k v data) = data) \<and>
     (\<forall>k v xs ys. length xs mod 16 = 0 \<longrightarrow> length ys mod 16 = 0 \<longrightarrow>
        take (length xs) (aes_cbc ext False k v (xs @ ys)) = aes_cbc ext False k v xs)"

text \<open>bzip2: decompression inverts compression, and the output is at most 1 percent plus 600 bytes
  larger than the input.\<close>

definition bz_laws :: "ep_ext \<Rightarrow> bool" where
  "bz_laws ext \<longleftrightarrow>
     (\<forall>data. bz_decompress ext (bz_compress ext data) = Some data) \<and>
     (\<forall>data. bz_compress ext data \<noteq> []) \<and>
     (\<forall>data. int (length (bz_compress ext data)) \<le> 101 * int (length data) div 100 + 600)"

text \<open>A buffer holds \<open>data\<close>: its block starts with it, is not empty, and the size is that of the data.
  \<open>buffer_aligned\<close> is the stronger form of a buffer made by \<open>ep_buffer_new\<close> or \<open>ep_compress\<close>.\<close>

definition buffer_holds :: "ep_buffer \<Rightarrow> byte list \<Rightarrow> bool" where
  "buffer_holds b data \<longleftrightarrow> data \<noteq> [] \<and> bf_used b = int (length data) \<and> (\<exists>r. bf_chunk b = data @ r)"

definition buffer_aligned :: "ep_buffer \<Rightarrow> bool" where
  "buffer_aligned b \<longleftrightarrow> length (bf_chunk b) mod 16 = 0"

text \<open>Functions that satisfy the laws, for evaluation: a shift of every byte, and a frame byte.\<close>

definition plain_ext :: ep_ext where
  "plain_ext = \<lparr>aes_cbc = (\<lambda>enc k v. map (\<lambda>b. if enc then b + 1 else b - 1)),
     bz_compress = (\<lambda>data. 0x42 # data),
     bz_decompress = (\<lambda>z. case z of [] \<Rightarrow> None | b # data \<Rightarrow> if b = 0x42 then Some data else None)\<rparr>"

section \<open>Lemmas\<close>

lemma plain_ext_laws: "aes_laws plain_ext" "bz_laws plain_ext"
proof -
  show "aes_laws plain_ext" by (simp add: aes_laws_def plain_ext_def comp_def)
  have "(1::int) + int n \<le> 101 * int n div 100 + 600" for n
    using zdiv_mono1 [of "100 * int n" "101 * int n" 100] by simp
  then show "bz_laws plain_ext" by (simp add: bz_laws_def plain_ext_def)
qed

lemma ep_align_size_16: "ep_align_size x 16 = 16 * ((x + 15) div 16)"
proof -
  have "(x + 15) AND NOT (mask 4) = push_bit 4 (drop_bit 4 (x + 15))"
    by (rule bit_eqI) (auto simp: bit_simps)
  then show ?thesis
    by (simp add: ep_align_size_def mask_eq_exp_minus_1 push_bit_eq_mult drop_bit_eq_div)
qed

lemma ep_align_size_ge: "x \<le> ep_align_size x 16" "ep_align_size x 16 mod 16 = 0"
  by (simp_all add: ep_align_size_16)

lemma ep_align_size_cases:
  "ep_align_size n 16 = (if n mod 16 = 0 then 16 * (n div 16) else 16 * (n div 16) + 16)"
proof -
  have n: "n = 16 * (n div 16) + n mod 16" "0 \<le> n mod 16" "n mod 16 < 16" by simp_all
  have "(n + 15) div 16 = n div 16 + (n mod 16 + 15) div 16"
    using n(1) by (metis add.assoc add.commute div_mult_self4 mult.commute zero_neq_numeral)
  moreover have "(n mod 16 + 15) div 16 = (if n mod 16 = 0 then 0 else 1)"
    using n(2,3) by (auto simp: div_pos_pos_trivial intro!: int_div_pos_eq [of _ _ _ "n mod 16 - 1"])
  ultimately show ?thesis by (simp add: ep_align_size_16)
qed

lemma ep_align_size_pos: "0 < ep_align_size x 16 \<longleftrightarrow> 0 < x"
  unfolding ep_align_size_16 by presburger

lemma aes_padded_len_eq: "0 \<le> n \<Longrightarrow> aes_padded_len n = 16 * (n div 16) + 16"
proof -
  assume n: "0 \<le> n"
  have *: "(if r1 = 0 then m + 1 else (q1 + 1) * 16) = 16 * q + 16"
    if "m = 16 * q + r" "0 \<le> r" "r < 16" "m + 1 = 16 * q1 + r1" "0 \<le> r1" "r1 < 16" for m q r q1 r1 :: int
  proof (cases "r = 15")
    case True
    with that have "q1 \<le> q + 1" "q + 1 \<le> q1" by linarith+
    with that True show ?thesis by simp
  next
    case False
    with that have "q1 \<le> q" "q \<le> q1" by linarith+
    with that False show ?thesis by simp
  qed
  have "(if (n + 1) mod 16 = 0 then n + 1 else ((n + 1) div 16 + 1) * 16) = 16 * (n div 16) + 16"
    by (rule * [of n _ "n mod 16"]) simp_all
  then show ?thesis unfolding aes_padded_len_def using n by (simp only: c_mod_nonneg c_div_nonneg)

qed

lemma aes_padded_len_range:
  "0 \<le> n \<Longrightarrow> n < aes_padded_len n \<and> aes_padded_len n \<le> n + 16 \<and> aes_padded_len n mod 16 = 0"
  unfolding aes_padded_len_eq by presburger

lemma ep_malloc_pos: "0 < n \<Longrightarrow> ep_malloc n = Some (mem_uninit n)"
  by (simp add: ep_malloc_def)

lemma mem_write_start:
  "length data \<le> length blk \<Longrightarrow> mem_write blk 0 data = Some (data @ drop (length data) blk)"
  by (simp add: mem_write_def)

lemma mem_read_start: "mem_read (data @ r) 0 (int (length data)) = Some data"
  by (simp add: mem_read_def)

lemma buffer_new_spec:
  assumes "data \<noteq> []" and "n = int (length data)"
  obtains b where "ep_buffer_new (data @ r) n = Some (Some b)" and "buffer_holds b data"
    and "buffer_aligned b"
proof -
  have p: "0 < ep_align_size n 16" using assms by (simp add: ep_align_size_pos)
  have le: "length data \<le> nat (ep_align_size n 16)" using ep_align_size_ge(1) [of n] assms(2) by linarith
  have "nat (ep_align_size n 16) mod 16 = 0"
    using ep_align_size_ge(2) [of n] p nat_mod_distrib [of "ep_align_size n 16" 16] by simp
  with p le assms that show ?thesis
    by (simp add: ep_buffer_new_def Let_def ep_malloc_pos mem_read_start mem_write_start buffer_holds_def
        buffer_aligned_def)
qed

lemma buffer_new_null: "n \<le> 0 \<Longrightarrow> ep_buffer_new inbuf n = Some None"
  using ep_align_size_pos [of n] by (simp add: ep_buffer_new_def ep_malloc_def)

lemma aes_lawsD:
  assumes "aes_laws ext"
  shows "length data mod 16 = 0 \<Longrightarrow> length (aes_cbc ext enc k v data) = length data"
    and "length data mod 16 = 0 \<Longrightarrow> aes_cbc ext False k v (aes_cbc ext True k v data) = data"
    and "length xs mod 16 = 0 \<Longrightarrow> length ys mod 16 = 0 \<Longrightarrow>
      take (length xs) (aes_cbc ext False k v (xs @ ys)) = aes_cbc ext False k v xs"
  using assms by (auto simp: aes_laws_def)

text \<open>The cipher step on a buffer whose block and what follows it cover the padded length.\<close>

lemma crypt_aes_spec:
  assumes l: "aes_laws ext" and b: "buffer_holds b data"
    and n: "aes_padded_len (int (length data)) \<le> int (length (bf_chunk b @ beyond))"
  obtains pad where "length (data @ pad) mod 16 = 0" and "int (length (data @ pad)) = aes_padded_len (int (length data))"
    and "\<exists>r. bf_chunk b @ beyond = data @ pad @ r"
    and "ep_crypt_aes ext beyond (bf_chunk b) (bf_used b) aes enc =
      Some (Some (aes_cbc ext enc (aes_key aes) (aes_vec aes) (data @ pad), aes_padded_len (int (length data))))"
proof -
  define len where "len = aes_padded_len (int (length data))"
  have len: "int (length data) < len" "len mod 16 = 0"
    using aes_padded_len_range [of "int (length data)"] by (simp_all add: len_def)
  obtain r where r: "bf_chunk b = data @ r" using b by (auto simp: buffer_holds_def)
  define pad where "pad = take (nat len - length data) (r @ beyond)"
  have tk: "take (nat len) (bf_chunk b @ beyond) = data @ pad" using len by (simp add: r pad_def)
  have pl: "length (data @ pad) = nat len" using n len by (simp add: r pad_def flip: len_def)
  have m: "length (data @ pad) mod 16 = 0"
    using len nat_mod_distrib [of len 16] unfolding pl by (simp add: int_one_le_iff_zero_less)
  have rd: "mem_read (bf_chunk b @ beyond) 0 len = Some (data @ pad)"
    using n len tk by (simp add: mem_read_def flip: len_def)
  have "mem_write (mem_uninit len) 0 (aes_cbc ext enc (aes_key aes) (aes_vec aes) (data @ pad)) =
      Some (aes_cbc ext enc (aes_key aes) (aes_vec aes) (data @ pad))"
    using pl aes_lawsD(1) [OF l m] by (simp add: mem_write_start)
  moreover have "\<exists>r'. bf_chunk b @ beyond = data @ pad @ r'"
    using tk by (metis append_take_drop_id append.assoc)
  moreover have "bf_used b = int (length data)" using b by (simp add: buffer_holds_def)
  ultimately show ?thesis
    using that [of pad] m pl rd len by (simp add: ep_crypt_aes_def Let_def ep_malloc_pos flip: len_def)
qed

lemma buffer_encrypt_spec:
  assumes l: "aes_laws ext" and b: "buffer_holds b data" and n: "16 \<le> length beyond"
  obtains b' pad where "ep_buffer_encrypt ext beyond b aes = Some (Some b')"
    and "length (data @ pad) mod 16 = 0"
    and "buffer_holds b' (aes_cbc ext True (aes_key aes) (aes_vec aes) (data @ pad))"
proof -
  have "int (length data) \<le> int (length (bf_chunk b))" using b by (auto simp: buffer_holds_def)
  then have "aes_padded_len (int (length data)) \<le> int (length (bf_chunk b @ beyond))"
    using aes_padded_len_range [of "int (length data)"] n by simp
  then obtain pad where pad: "length (data @ pad) mod 16 = 0"
    "int (length (data @ pad)) = aes_padded_len (int (length data))"
    "ep_crypt_aes ext beyond (bf_chunk b) (bf_used b) aes True =
      Some (Some (aes_cbc ext True (aes_key aes) (aes_vec aes) (data @ pad), aes_padded_len (int (length data))))"
    using crypt_aes_spec [OF l b] by metis
  have "aes_cbc ext True (aes_key aes) (aes_vec aes) (data @ pad) \<noteq> []"
    using aes_lawsD(1) [OF l pad(1), of True "aes_key aes" "aes_vec aes"] b by (auto simp: buffer_holds_def)
  with pad that show ?thesis
    using aes_lawsD(1) [OF l pad(1), of True "aes_key aes" "aes_vec aes"]
    by (simp add: ep_buffer_encrypt_def buffer_holds_def)
qed

lemma buffer_decrypt_spec:
  assumes l: "aes_laws ext" and n: "16 \<le> length beyond" and d: "data \<noteq> []"
    and m: "length (data @ pad) mod 16 = 0"
    and b: "buffer_holds b (aes_cbc ext True (aes_key aes) (aes_vec aes) (data @ pad))" (is "buffer_holds b ?c")
  obtains b' where "ep_buffer_decrypt ext beyond b aes (int (length data)) = Some (Some b')"
    and "buffer_holds b' data"
proof -
  have lc: "length ?c = length (data @ pad)" using aes_lawsD(1) [OF l m] .
  have "int (length ?c) \<le> int (length (bf_chunk b))" using b by (auto simp: buffer_holds_def)
  then have "aes_padded_len (int (length ?c)) \<le> int (length (bf_chunk b @ beyond))"
    using aes_padded_len_range [of "int (length ?c)"] n by simp
  then obtain pad2 where pad2: "length (?c @ pad2) mod 16 = 0"
    "ep_crypt_aes ext beyond (bf_chunk b) (bf_used b) aes False =
      Some (Some (aes_cbc ext False (aes_key aes) (aes_vec aes) (?c @ pad2), aes_padded_len (int (length ?c))))"
    using crypt_aes_spec [OF l b] by metis
  let ?p = "aes_cbc ext False (aes_key aes) (aes_vec aes) (?c @ pad2)"
  have "length pad2 mod 16 = 0" using pad2(1) m lc by (simp add: mod_eq_0_iff_dvd) (metis dvd_add_right_iff)
  then have "take (length ?c) ?p = data @ pad"
    using aes_lawsD(3) [OF l, of ?c pad2] aes_lawsD(2) [OF l m] m lc by simp
  then have "\<exists>r. ?p = data @ r" by (metis append_take_drop_id append.assoc)
  with pad2(2) d that show ?thesis by (simp add: ep_buffer_decrypt_def buffer_holds_def)
qed

lemma buffer_compress_spec:
  assumes l: "bz_laws ext" and b: "buffer_holds b data"
  obtains b' where "ep_buffer_compress ext b = Some (Some b')" and "buffer_holds b' (bz_compress ext data)"
proof -
  let ?z = "bz_compress ext data"
  define a where "a = ep_align_size (101 * int (length data) div 100 + 600) 16"
  obtain r where r: "bf_chunk b = data @ r" and u: "bf_used b = int (length data)"
    using b by (auto simp: buffer_holds_def)
  have z: "int (length ?z) \<le> a" "?z \<noteq> []"
    using l ep_align_size_ge(1) [of "101 * int (length data) div 100 + 600"]
    unfolding bz_laws_def a_def by (auto intro: order_trans)
  then have "0 < a" by (cases ?z) auto
  with z that r u show ?thesis
    by (simp add: ep_buffer_compress_def ep_compress_def Let_def ep_malloc_pos mem_read_start mem_write_start
        buffer_holds_def flip: a_def)
qed

lemma buffer_decompress_spec:
  assumes l: "bz_laws ext" and d: "data \<noteq> []" and b: "buffer_holds b (bz_compress ext data)"
  obtains b' where "ep_buffer_decompress ext b (int (length data)) = Some (Some b')" and "buffer_holds b' data"
proof -
  define a where "a = ep_align_size (int (length data)) 16"
  have a: "0 < a" "int (length data) \<le> a"
    using d ep_align_size_ge(1) [of "int (length data)"] by (simp_all add: a_def ep_align_size_pos)
  obtain r where r: "bf_chunk b = bz_compress ext data @ r" and u: "bf_used b = int (length (bz_compress ext data))"
    using b by (auto simp: buffer_holds_def)
  have "bz_decompress ext (bz_compress ext data) = Some data" using l by (simp add: bz_laws_def)
  with a that r u d show ?thesis
    by (simp add: ep_buffer_decompress_def ep_decompress_def Let_def ep_malloc_pos mem_read_start mem_write_start
        buffer_holds_def flip: a_def)
qed

section \<open>Properties\<close>



end
