(* ===== verification/EP_Shell.thy ===== *)
theory EP_Shell
  imports EP_Prelude
begin

unbundle bit_operations_syntax

text \<open>
  The packet header (\<open>eventpack/src/ep_shell.h\<close>), its byte image on a little-endian host with the
  packed layout, and its conversion to and from network order (\<open>ep_io_combine_shell\<close> and
  \<open>ep_io_enqueue\<close> of \<open>eventpack/src/ep_io.c\<close>, \<open>eventpack/utils/htonll.h\<close>).

  The bit-fields of \<open>ep_shell_proto_t\<close> are words of their widths, laid out from the least significant
  bit as the compilers of the supported targets do. A bit-field of type \<open>int\<close> is signed: the values
  the code compares with (0, 1 and 2) are the same in both readings of three bits.
\<close>

section \<open>Byte order\<close>

definition bswap_16 :: "16 word \<Rightarrow> 16 word" where
  "bswap_16 x = push_bit 8 (x AND 0x00ff) OR drop_bit 8 (x AND 0xff00)"

definition bswap_32 :: "32 word \<Rightarrow> 32 word" where
  "bswap_32 x =
     push_bit 24 (x AND 0x000000ff) OR push_bit 8 (x AND 0x0000ff00) OR
     drop_bit 8 (x AND 0x00ff0000) OR drop_bit 24 (x AND 0xff000000)"

definition bswap_64 :: "64 word \<Rightarrow> 64 word" where
  "bswap_64 x =
     push_bit 56 (x AND 0x00000000000000ff) OR push_bit 40 (x AND 0x000000000000ff00) OR
     push_bit 24 (x AND 0x0000000000ff0000) OR push_bit 8 (x AND 0x00000000ff000000) OR
     drop_bit 8 (x AND 0x000000ff00000000) OR drop_bit 24 (x AND 0x0000ff0000000000) OR
     drop_bit 40 (x AND 0x00ff000000000000) OR drop_bit 56 (x AND 0xff00000000000000)"

text \<open>On a little-endian host \<open>htons\<close>, \<open>htonl\<close> and \<open>htonll\<close> swap the bytes, and so do their inverses.\<close>

abbreviation htons :: "16 word \<Rightarrow> 16 word" where "htons \<equiv> bswap_16"
abbreviation ntohs :: "16 word \<Rightarrow> 16 word" where "ntohs \<equiv> bswap_16"
abbreviation htonl :: "32 word \<Rightarrow> 32 word" where "htonl \<equiv> bswap_32"
abbreviation ntohl :: "32 word \<Rightarrow> 32 word" where "ntohl \<equiv> bswap_32"
abbreviation htonll :: "64 word \<Rightarrow> 64 word" where "htonll \<equiv> bswap_64"
abbreviation ntohll :: "64 word \<Rightarrow> 64 word" where "ntohll \<equiv> bswap_64"

text \<open>The bytes of an integer in memory, and the integer in a run of bytes.\<close>

definition le_bytes16 :: "16 word \<Rightarrow> byte list" where
  "le_bytes16 w = [ucast w, ucast (drop_bit 8 w)]"

definition le_bytes32 :: "32 word \<Rightarrow> byte list" where
  "le_bytes32 w = [ucast w, ucast (drop_bit 8 w), ucast (drop_bit 16 w), ucast (drop_bit 24 w)]"

definition le_word16 :: "byte list \<Rightarrow> 16 word" where
  "le_word16 bs = ucast (bs ! 0) OR push_bit 8 (ucast (bs ! 1))"

definition le_word32 :: "byte list \<Rightarrow> 32 word" where
  "le_word32 bs = ucast (bs ! 0) OR push_bit 8 (ucast (bs ! 1)) OR push_bit 16 (ucast (bs ! 2)) OR
     push_bit 24 (ucast (bs ! 3))"

section \<open>The header\<close>

record ep_shell_proto =
  category :: "16 word"
  req_type :: "3 word"
  c_crypt :: "3 word"
  c_compress :: "3 word"
  s_crypt :: "3 word"
  s_compress :: "3 word"
  serverd :: "1 word"

record ep_shell =
  magic :: "16 word"
  proto :: ep_shell_proto
  shell_size :: "32 word"
  decrypt_size :: "32 word"
  pack_size :: "32 word"

definition EP_MAGIC_NUMBER :: "16 word" where "EP_MAGIC_NUMBER = 0x9087"

definition sizeof_ep_shell :: int where "sizeof_ep_shell = 18"

text \<open>The storage of the bit-fields as one 32 bit word, \<open>*(uint32_t *)&shell->proto\<close>, and back.\<close>

definition proto_word :: "ep_shell_proto \<Rightarrow> 32 word" where
  "proto_word p =
     ucast (category p) OR push_bit 16 (ucast (req_type p)) OR push_bit 19 (ucast (c_crypt p)) OR
     push_bit 22 (ucast (c_compress p)) OR push_bit 25 (ucast (s_crypt p)) OR
     push_bit 28 (ucast (s_compress p)) OR push_bit 31 (ucast (serverd p))"

definition word_proto :: "32 word \<Rightarrow> ep_shell_proto" where
  "word_proto w =
     \<lparr>category = ucast w, req_type = ucast (drop_bit 16 w), c_crypt = ucast (drop_bit 19 w),
      c_compress = ucast (drop_bit 22 w), s_crypt = ucast (drop_bit 25 w),
      s_compress = ucast (drop_bit 28 w), serverd = ucast (drop_bit 31 w)\<rparr>"

text \<open>The blocks of \<open>ep_io_combine_shell\<close> and \<open>ep_io_enqueue\<close> that change the byte order in place.\<close>

definition shell_hton :: "ep_shell \<Rightarrow> ep_shell" where
  "shell_hton shell = shell\<lparr>
     magic := htons (magic shell),
     proto := word_proto (htonl (proto_word (proto shell))),
     shell_size := htonl (shell_size shell),
     decrypt_size := htonl (decrypt_size shell),
     pack_size := htonl (pack_size shell)\<rparr>"

definition shell_ntoh :: "ep_shell \<Rightarrow> ep_shell" where
  "shell_ntoh shell = shell\<lparr>
     magic := ntohs (magic shell),
     proto := word_proto (ntohl (proto_word (proto shell))),
     shell_size := ntohl (shell_size shell),
     decrypt_size := ntohl (decrypt_size shell),
     pack_size := ntohl (pack_size shell)\<rparr>"

text \<open>The 18 bytes of the packed struct: \<open>memcpy (out_buf, shell, sizeof (ep_shell_t))\<close>, and the
  assignment \<open>child->shell = *shell\<close> from received bytes.\<close>

definition shell_image :: "ep_shell \<Rightarrow> byte list" where
  "shell_image shell = le_bytes16 (magic shell) @ le_bytes32 (proto_word (proto shell)) @
     le_bytes32 (shell_size shell) @ le_bytes32 (decrypt_size shell) @ le_bytes32 (pack_size shell)"

definition shell_of_image :: "byte list \<Rightarrow> ep_shell" where
  "shell_of_image bs =
     \<lparr>magic = le_word16 bs, proto = word_proto (le_word32 (drop 2 bs)),
      shell_size = le_word32 (drop 6 bs), decrypt_size = le_word32 (drop 10 bs),
      pack_size = le_word32 (drop 14 bs)\<rparr>"

abbreviation shell_encode :: "ep_shell \<Rightarrow> byte list" where
  "shell_encode shell \<equiv> shell_image (shell_hton shell)"

abbreviation shell_decode :: "byte list \<Rightarrow> ep_shell" where
  "shell_decode bs \<equiv> shell_ntoh (shell_of_image bs)"

text \<open>Network order, the most significant byte first.\<close>

definition be_bytes16 :: "16 word \<Rightarrow> byte list" where
  "be_bytes16 w = [ucast (drop_bit 8 w), ucast w]"

definition be_bytes32 :: "32 word \<Rightarrow> byte list" where
  "be_bytes32 w = [ucast (drop_bit 24 w), ucast (drop_bit 16 w), ucast (drop_bit 8 w), ucast w]"

section \<open>Lemmas\<close>

lemma byte_masks:
  "(0xff :: 'a::len word) = mask 8" "(0xff00 :: 'a word) = push_bit 8 (mask 8)" 
  "(0xff0000 :: 'a word) = push_bit 16 (mask 8)" "(0xff000000 :: 'a word) = push_bit 24 (mask 8)"
  "(0xff00000000 :: 'a word) = push_bit 32 (mask 8)" "(0xff0000000000 :: 'a word) = push_bit 40 (mask 8)"
  "(0xff000000000000 :: 'a word) = push_bit 48 (mask 8)" "(0xff00000000000000 :: 'a word) = push_bit 56 (mask 8)"
  by (simp_all add: mask_eq_exp_minus_1 push_bit_eq_mult)

lemma bit_bswap_16: "bit (bswap_16 x) n \<longleftrightarrow> n < 16 \<and> bit x (if n < 8 then 8 + n else n - 8)"
  unfolding bswap_16_def byte_masks by (auto simp: bit_simps)
lemma bit_bswap_32: "bit (bswap_32 x) n \<longleftrightarrow> n < 32 \<and> bit x (if n < 8 then 24 + n else if n < 16 then 8 + n else if n < 24 then n - 8 else n - 24)"
  unfolding bswap_32_def byte_masks by (auto simp: bit_simps)
lemma bit_bswap_64: "bit (bswap_64 x) n \<longleftrightarrow> n < 64 \<and> bit x (if n < 8 then 56 + n else if n < 16 then 40 + n else if n < 24 then 24 + n 
 else if n < 32 then 8 + n else if n < 40 then n - 8 else if n < 48 then n - 24 else if n < 56 then n - 40 else n - 56)"
  unfolding bswap_64_def byte_masks by (auto simp: bit_simps)


lemma bswap_twice [simp]:
  "bswap_16 (bswap_16 x) = x" "bswap_32 (bswap_32 y) = y" "bswap_64 (bswap_64 z) = z"
  by (rule bit_word_eqI, force simp: bit_bswap_16 bit_bswap_32 bit_bswap_64)+

lemma bit_beyond:
  "3 \<le> n \<Longrightarrow> \<not> bit (a :: 3 word) n" "16 \<le> n \<Longrightarrow> \<not> bit (b :: 16 word) n" "1 \<le> n \<Longrightarrow> \<not> bit (c :: 1 word) n"
  by (auto dest: bit_imp_le_length)

lemma word_proto_word [simp]: "word_proto (proto_word p) = p"
  by (cases p) (auto simp: word_proto_def proto_word_def bit_simps bit_beyond intro!: bit_word_eqI)

lemma proto_word_proto [simp]: "proto_word (word_proto w) = w"
proof (rule bit_word_eqI)
  fix n assume "n < LENGTH(32)"
  then consider "n < 16" | "16 \<le> n" "n < 19" | "19 \<le> n" "n < 22" | "22 \<le> n" "n < 25" | "25 \<le> n" "n < 28"
    | "28 \<le> n" "n < 31" | "n = 31" by fastforce
  then show "bit (proto_word (word_proto w)) n = bit w n"
    by cases (simp_all add: word_proto_def proto_word_def bit_simps bit_beyond, arith+)
qed

lemma le_word16_bytes [simp]: "le_word16 (le_bytes16 w @ r) = w"
  by (rule bit_word_eqI) (auto simp: le_word16_def le_bytes16_def bit_simps)

lemma le_word32_bytes [simp]: "le_word32 (le_bytes32 w @ r) = w"
proof (rule bit_word_eqI)
  fix n assume "n < LENGTH(32)"
  then consider "n < 8" | "8 \<le> n" "n < 16" | "16 \<le> n" "n < 24" | "24 \<le> n" "n < 32" by fastforce
  then show "bit (le_word32 (le_bytes32 w @ r)) n = bit w n"
    by cases (auto simp: le_word32_def le_bytes32_def bit_simps)
qed

lemma le_bytes_length [simp]: "length (le_bytes16 v) = 2" "length (le_bytes32 w) = 4"
  by (simp_all add: le_bytes16_def le_bytes32_def)

lemma length_shell_image [simp]: "length (shell_image sh) = 18"
  by (simp add: shell_image_def)

lemma shell_of_image_image: "shell_of_image (shell_image sh @ r) = sh"
  by (simp add: shell_of_image_def shell_image_def)

lemma shell_ntoh_hton: "shell_ntoh (shell_hton sh) = sh"
  by (simp add: shell_ntoh_def shell_hton_def)


lemma le_swap: "le_bytes16 (bswap_16 v) = be_bytes16 v" "le_bytes32 (bswap_32 w) = be_bytes32 w"
  by (auto simp: le_bytes16_def le_bytes32_def be_bytes16_def be_bytes32_def bit_simps bit_bswap_16 bit_bswap_32 intro!: bit_word_eqI)

lemma byte_beyond: "8 \<le> n \<Longrightarrow> \<not> bit (a :: byte) n"
  by (auto dest: bit_imp_le_length)

lemma le_bytes16_word: "le_bytes16 (le_word16 (a # b # r)) = [a, b]"
  by (auto simp: le_word16_def le_bytes16_def bit_simps byte_beyond intro!: bit_word_eqI)

lemma le_bytes32_word: "le_bytes32 (le_word32 (a # b # c # d # r)) = [a, b, c, d]"
  by (auto simp: le_word32_def le_bytes32_def bit_simps byte_beyond intro!: bit_word_eqI)

lemma shell_image_of_image:
  assumes "length bs = 18"
  shows "shell_image (shell_of_image bs) = bs"
proof -
  obtain b0 b1 b2 b3 b4 b5 b6 b7 b8 b9 b10 b11 b12 b13 b14 b15 b16 b17 where
    bs: "bs = [b0, b1, b2, b3, b4, b5, b6, b7, b8, b9, b10, b11, b12, b13, b14, b15, b16, b17]"
    using assms by (auto simp: length_Suc_conv numeral_eq_Suc)
  show ?thesis
    unfolding bs by (simp add: shell_image_def shell_of_image_def le_bytes16_word le_bytes32_word)
qed

lemma shell_hton_ntoh: "shell_hton (shell_ntoh sh) = sh"
  by (simp add: shell_ntoh_def shell_hton_def)

section \<open>Properties\<close>

text \<open>C8. The header is a faithful code: every header survives encoding and decoding, whatever follows it
  on the stream, and every run of 18 bytes is the encoding of the header it decodes to. On the wire
  each field is in network order: the magic number, the word of the bit-fields, and the three sizes.\<close>

theorem shell_codec_roundtrip:
  "(\<forall>rest. shell_decode (shell_encode sh @ rest) = sh) \<and>
   (length bs = 18 \<longrightarrow> shell_encode (shell_decode bs) = bs) \<and>
   shell_encode sh = be_bytes16 (magic sh) @ be_bytes32 (proto_word (proto sh)) @
     be_bytes32 (shell_size sh) @ be_bytes32 (decrypt_size sh) @ be_bytes32 (pack_size sh)"
  using shell_image_of_image [of bs]
  by (simp add: shell_of_image_image shell_ntoh_hton shell_hton_ntoh)
    (simp add: shell_image_def shell_hton_def le_swap)

theorem shell_codec_roundtrip_witness:
  "shell_encode (shell_decode (replicate 18 0x90)) = replicate 18 0x90"
  using shell_codec_roundtrip [of undefined "replicate 18 0x90"] by simp

end
