(* ===== verification/EP_IO.thy ===== *)
theory EP_IO
  imports EP_RingBuffer EP_Queue EP_Buffer EP_Shell
begin

text \<open>
  Connections and framing (\<open>eventpack/src/ep_io.c\<close>): the manager of connections, its registration
  operations, the reassembly of received bytes into frames, and the send side.

  A connection has an address (\<open>io_id\<close>), and the send queues hold the addresses of message buffers,
  which live in \<open>mgr_heap\<close>: the code shares one buffer between several queues and keeps pointers to
  connections in the queue of the send thread, and what becomes of them depends on who frees first.
  Frames handed to the thread pool are the list \<open>mgr_tasks\<close>, in the order of their registration.
  Each operation is one critical section of the manager's lock. \<open>None\<close> is undefined behaviour (an
  access outside a block, a use after free, a second free) or, for \<open>ep_io_enqueue\<close>, a loop that does
  not end.
\<close>

section \<open>The model\<close>

datatype ep_io_refor = ep_io_refor_server | ep_io_refor_client

record 'x ep_io =
  io_id :: nat
  io_send :: "nat ep_queue"
  io_recv :: ep_rb
  io_shell :: ep_shell
  io_cached :: bool
  io_aes :: ep_aes_key
  io_fd :: int
  io_extra :: 'x

record ep_io_task =
  task_fd :: int
  task_shell :: ep_shell
  task_in :: "ep_buffer option"

record 'x ep_io_mgr =
  mgr_refor :: ep_io_refor
  mgr_send_queue :: "nat ep_queue"
  mgr_def_capacity :: int
  mgr_max_capacity :: int
  mgr_mini_compress_if :: int
  mgr_list :: "'x ep_io list"
  mgr_heap :: "nat \<rightharpoonup> ep_buffer"
  mgr_next :: nat
  mgr_tasks :: "ep_io_task list"

record ep_io_conf =
  conf_refor :: ep_io_refor
  conf_def_capacity :: int
  conf_max_capacity :: int
  conf_mini_compress_if :: int

text \<open>The flags say whether the manager, its queue and its thread pool can be allocated.\<close>

definition ep_io_init :: "bool \<Rightarrow> bool \<Rightarrow> bool \<Rightarrow> ep_io_conf \<Rightarrow> 'x ep_io_mgr option" where
  "ep_io_init alloc_mgr alloc_queue alloc_pool conf =
     (if \<not> alloc_mgr then None
      else case ep_queue_new alloc_queue of
        None \<Rightarrow> None
      | Some queue \<Rightarrow>
          if \<not> alloc_pool then None
          else Some \<lparr>mgr_refor = conf_refor conf, mgr_send_queue = queue,
            mgr_def_capacity = conf_def_capacity conf,
            mgr_max_capacity = (if conf_max_capacity conf \<noteq> 0 then conf_max_capacity conf else conf_def_capacity conf),
            mgr_mini_compress_if = (if conf_mini_compress_if conf \<le> 0 then 4096 else conf_mini_compress_if conf),
            mgr_list = [], mgr_heap = Map.empty, mgr_next = 0, mgr_tasks = []\<rparr>)"

definition ep_io_find :: "'x ep_io_mgr \<Rightarrow> int \<Rightarrow> 'x ep_io option" where
  "ep_io_find mgr fd = find (\<lambda>tmp. io_fd tmp = fd) (mgr_list mgr)"

text \<open>The code changes a connection through the pointer it found: the element at that address.\<close>

definition io_put :: "'x ep_io \<Rightarrow> 'x ep_io_mgr \<Rightarrow> 'x ep_io_mgr" where
  "io_put child mgr = mgr\<lparr>mgr_list := map (\<lambda>c. if io_id c = io_id child then child else c) (mgr_list mgr)\<rparr>"

definition zero_shell :: ep_shell where
  "zero_shell = \<lparr>magic = 0, proto = \<lparr>category = 0, req_type = 0, c_crypt = 0, c_compress = 0, s_crypt = 0,
     s_compress = 0, serverd = 0\<rparr>, shell_size = 0, decrypt_size = 0, pack_size = 0\<rparr>"

definition ep_io_add :: "'x ep_io_mgr \<Rightarrow> int \<Rightarrow> 'x \<Rightarrow> int \<times> 'x ep_io_mgr" where
  "ep_io_add mgr fd extra =
     (case ep_io_find mgr fd of
        Some _ \<Rightarrow> (0, mgr)
      | None \<Rightarrow>
          (case ep_rb_new True True (mgr_def_capacity mgr) (mgr_max_capacity mgr) of
             None \<Rightarrow> (0, mgr)
           | Some recv \<Rightarrow>
               (case ep_queue_new True of
                  None \<Rightarrow> (0, mgr)
                | Some send \<Rightarrow>
                    (1, mgr\<lparr>mgr_list := mgr_list mgr @
                          [\<lparr>io_id = mgr_next mgr, io_send = send, io_recv = recv, io_shell = zero_shell,
                            io_cached = False, io_aes = \<lparr>aes_key = replicate 16 0, aes_vec = replicate 16 0\<rparr>,
                            io_fd = fd, io_extra = extra\<rparr>],
                        mgr_next := mgr_next mgr + 1\<rparr>))))"

subsection \<open>Receiving\<close>

text \<open>
  One round of the loop of \<open>ep_io_enqueue\<close>: \<open>Inl\<close> is a return (or the \<open>break\<close> before the final
  \<open>return 1\<close>), \<open>Inr\<close> the next round after a frame was handed over.
\<close>

definition io_fetch_shell :: "'x ep_io \<Rightarrow> 'x ep_io option" where
  "io_fetch_shell child =
     (if io_cached child then Some child
      else do {
        (n, bytes, recv) \<leftarrow> ep_rb_read (io_recv child) sizeof_ep_shell;
        Some (child\<lparr>io_recv := recv, io_shell := shell_ntoh (shell_of_image bytes)\<rparr>)
      })"

definition io_take_body :: "'x ep_io \<Rightarrow> (ep_buffer option \<times> 'x ep_io) option" where
  "io_take_body child =
     (if shell_size (io_shell child) \<noteq> 0 then do {
        (n, body, recv) \<leftarrow> ep_rb_read (io_recv child) (sint (shell_size (io_shell child)));
        inbuf \<leftarrow> ep_buffer_new body (sint (shell_size (io_shell child)));
        Some (inbuf, child\<lparr>io_recv := recv\<rparr>)
      } else Some (None, child))"

definition ep_io_request_dispatcher :: "int \<Rightarrow> ep_shell \<Rightarrow> ep_buffer option \<Rightarrow> ep_io_task" where
  "ep_io_request_dispatcher fd shell inbuf = \<lparr>task_fd = fd, task_shell = shell, task_in = inbuf\<rparr>"

definition io_enqueue_round :: "int \<Rightarrow> int \<Rightarrow> 'x ep_io \<Rightarrow> (int \<times> 'x ep_io + ep_io_task \<times> 'x ep_io) option" where
  "io_enqueue_round max_capacity fd child0 =
     (if \<not> io_cached child0 \<and> ep_rb_can_read (io_recv child0) < sizeof_ep_shell then Some (Inl (0, child0))
      else do {
        child \<leftarrow> io_fetch_shell child0;
        (if magic (io_shell child) \<noteq> EP_MAGIC_NUMBER then Some (Inl (-1, child))
         else if sint (shell_size (io_shell child)) > max_capacity then Some (Inl (-2, child))
         else if ep_rb_can_read (io_recv child) < sint (shell_size (io_shell child))
         then Some (Inl (1, child\<lparr>io_cached := True\<rparr>))
         else do {
           (inbuf, child) \<leftarrow> io_take_body child;
           Some (Inr (ep_io_request_dispatcher fd (io_shell child) inbuf, child\<lparr>io_cached := False\<rparr>))
         })
      })"

partial_function (option) io_enqueue_loop ::
  "int \<Rightarrow> int \<Rightarrow> 'x ep_io \<Rightarrow> ep_io_task list \<Rightarrow> (int \<times> 'x ep_io \<times> ep_io_task list) option" where
  "io_enqueue_loop max_capacity fd child tasks = do {
     r \<leftarrow> io_enqueue_round max_capacity fd child;
     (case r of
        Inl x \<Rightarrow> Some (fst x, snd x, tasks)
      | Inr x \<Rightarrow> io_enqueue_loop max_capacity fd (snd x) (tasks @ [fst x]))
   }"

definition ep_io_enqueue :: "'x ep_io_mgr \<Rightarrow> int \<Rightarrow> byte list \<Rightarrow> int \<Rightarrow> (int \<times> 'x ep_io_mgr) option" where
  "ep_io_enqueue mgr fd inbuf insize =
     (case ep_io_find mgr fd of
        None \<Rightarrow> Some (-3, mgr)
      | Some child \<Rightarrow> do {
          (writed, recv) \<leftarrow> ep_rb_write (io_recv child) inbuf insize;
          let child = child\<lparr>io_recv := recv\<rparr>;
          (if writed < insize then Some (-2, io_put child mgr)
           else do {
             (ret, child, tasks) \<leftarrow> io_enqueue_loop (mgr_max_capacity mgr) fd child [];
             Some (ret, (io_put child mgr)\<lparr>mgr_tasks := mgr_tasks mgr @ tasks\<rparr>)
           })
        })"

subsection \<open>Sending\<close>

text \<open>A get without waiting on the queue of a connection: the code and the address of the buffer.\<close>

definition ep_io_get :: "'x ep_io_mgr \<Rightarrow> int \<Rightarrow> int \<times> nat option \<times> 'x ep_io_mgr" where
  "ep_io_get mgr fd =
     (case ep_io_find mgr fd of
        None \<Rightarrow> (0, None, mgr)
      | Some child \<Rightarrow>
          (case ep_queue_get_begin (io_send child) 0 of
             (GetRet ret out, send) \<Rightarrow> (ret, out, io_put (child\<lparr>io_send := send\<rparr>) mgr)
           | (GetWait, send) \<Rightarrow> (0, None, mgr)))"

text \<open>
  \<open>ep_buffer_free\<close> and \<open>ep_buffer_free_shell\<close> on an address: \<open>None\<close> when there is no live buffer.
\<close>

definition heap_take :: "nat \<Rightarrow> (nat \<rightharpoonup> ep_buffer) \<Rightarrow> (ep_buffer \<times> (nat \<rightharpoonup> ep_buffer)) option" where
  "heap_take p heap = (case heap p of None \<Rightarrow> None | Some b \<Rightarrow> Some (b, heap(p := None)))"

fun free_buffers :: "nat list \<Rightarrow> (nat \<rightharpoonup> ep_buffer) \<Rightarrow> (nat \<rightharpoonup> ep_buffer) option" where
  "free_buffers [] heap = Some heap"
| "free_buffers (p # ps) heap = do { (b, heap) \<leftarrow> heap_take p heap; free_buffers ps heap }"

text \<open>
  The send thread, one item of its queue: it reads \<open>io->fd\<close> through the pointer it got, then sends
  every buffer queued for that descriptor until a send fails. \<open>send\<close> is the transport: it takes the
  descriptor, the block, the size and the extra pointer, and gives the number of bytes sent.
  \<open>on_error\<close> is the callback after a failed send.
\<close>

partial_function (option) io_send_loop ::
  "(int \<Rightarrow> byte list \<Rightarrow> int \<Rightarrow> 'x \<Rightarrow> 'w \<Rightarrow> int \<times> 'w) \<Rightarrow> (int \<Rightarrow> 'x ep_io_mgr \<Rightarrow> 'x ep_io_mgr option) \<Rightarrow>
   int \<Rightarrow> 'x \<Rightarrow> 'x ep_io_mgr \<Rightarrow> 'w \<Rightarrow> ('x ep_io_mgr \<times> 'w) option" where
  "io_send_loop send on_error fd extra mgr w =
     (case ep_io_get mgr fd of
        (ret, out, mgr1) \<Rightarrow>
          if ret \<noteq> 1 then Some (mgr1, w)
          else do {
            p \<leftarrow> out;
            (b, heap) \<leftarrow> heap_take p (mgr_heap mgr1);
            let mgr2 = mgr1\<lparr>mgr_heap := heap\<rparr>;
            let (send_bytes, w1) = send fd (bf_chunk b) (bf_used b) extra w;
            (if send_bytes \<le> 0 then map_option (\<lambda>m. (m, w1)) (on_error fd mgr2)
             else io_send_loop send on_error fd extra mgr2 w1)
          })"

definition ep_io_routine_item ::
  "(int \<Rightarrow> byte list \<Rightarrow> int \<Rightarrow> 'x \<Rightarrow> 'w \<Rightarrow> int \<times> 'w) \<Rightarrow> (int \<Rightarrow> 'x ep_io_mgr \<Rightarrow> 'x ep_io_mgr option) \<Rightarrow>
   'x ep_io_mgr \<Rightarrow> 'w \<Rightarrow> ('x ep_io_mgr \<times> 'w) option" where
  "ep_io_routine_item send on_error mgr w =
     (case ep_queue_get_begin (mgr_send_queue mgr) (-1) of
        (GetRet ret (Some io), queue) \<Rightarrow>
          (case find (\<lambda>c. io_id c = io) (mgr_list mgr) of
             None \<Rightarrow> None
           | Some child \<Rightarrow>
               io_send_loop send on_error (io_fd child) (io_extra child)
                 (mgr\<lparr>mgr_send_queue := queue\<rparr>) w)
      | _ \<Rightarrow> Some (mgr, w))"

text \<open>The loop over the connections of a notification, and the push of the same buffer to each.\<close>

definition nodify_selects :: "int \<Rightarrow> int \<Rightarrow> int \<Rightarrow> bool" where
  "nodify_selects notify_type curfd fd =
     (if notify_type = 1 then fd = curfd else if notify_type = 2 then fd \<noteq> curfd else True)"

primrec nodify_loop :: "int \<Rightarrow> int \<Rightarrow> nat \<Rightarrow> 'x ep_io list \<Rightarrow> int \<times> 'x ep_io list \<times> nat list" where
  "nodify_loop notify_type curfd inbuf [] = (0, [], [])"
| "nodify_loop notify_type curfd inbuf (tmp # pos) =
     (let (cnt, ios, sent) = nodify_loop notify_type curfd inbuf pos in
      if nodify_selects notify_type curfd (io_fd tmp)
      then (cnt + 1, tmp\<lparr>io_send := queue_push (io_send tmp) inbuf\<rparr> # ios, io_id tmp # sent)
      else (cnt, tmp # ios, sent))"

definition ep_io_nodify_fd :: "'x ep_io_mgr \<Rightarrow> int \<Rightarrow> int \<Rightarrow> nat \<Rightarrow> int \<times> 'x ep_io_mgr" where
  "ep_io_nodify_fd mgr curfd notify_type inbuf =
     (let (cnt, ios, sent) = nodify_loop notify_type curfd inbuf (mgr_list mgr) in
      (cnt, mgr\<lparr>mgr_list := ios, mgr_send_queue := foldl queue_push (mgr_send_queue mgr) sent\<rparr>))"

definition ep_io_update_aes :: "'x ep_io_mgr \<Rightarrow> int \<Rightarrow> ep_aes_key \<Rightarrow> int \<times> 'x ep_io_mgr" where
  "ep_io_update_aes mgr fd aes =
     (case ep_io_find mgr fd of
        None \<Rightarrow> (0, mgr)
      | Some tmp \<Rightarrow> (1, io_put (tmp\<lparr>io_aes := \<lparr>aes_key = take 16 (aes_key aes), aes_vec = take 16 (aes_vec aes)\<rparr>\<rparr>) mgr))"

definition ep_io_get_aes :: "'x ep_io_mgr \<Rightarrow> int \<Rightarrow> ep_aes_key option" where
  "ep_io_get_aes mgr fd = map_option io_aes (ep_io_find mgr fd)"

definition ep_io_stop :: "'x ep_io_mgr \<Rightarrow> int \<Rightarrow> 'x ep_io_mgr" where
  "ep_io_stop mgr fd =
     (case ep_io_find mgr fd of
        None \<Rightarrow> mgr
      | Some tmp \<Rightarrow> io_put (tmp\<lparr>io_send := ep_queue_stop (io_send tmp)\<rparr>) mgr)"

text \<open>Deleting a connection frees the buffers of its queue; an address in the queue of the send thread
  stays there.\<close>

definition ep_io_del :: "'x ep_io_mgr \<Rightarrow> int \<Rightarrow> (int \<times> 'x ep_io_mgr) option" where
  "ep_io_del mgr fd =
     (case ep_io_find mgr fd of
        None \<Rightarrow> Some (0, mgr)
      | Some tmp \<Rightarrow> do {
          let (bufs, send) = queue_drain (ep_queue_stop (io_send tmp));
          heap \<leftarrow> free_buffers bufs (mgr_heap mgr);
          Some (1, mgr\<lparr>mgr_list := filter (\<lambda>c. io_id c \<noteq> io_id tmp) (mgr_list mgr), mgr_heap := heap\<rparr>)
        })"

text \<open>Destroying the manager: all connections first, then the queue of the send thread, whose items are
  read through pointers to connections that are gone.\<close>

fun io_destroy_list :: "'x ep_io list \<Rightarrow> (nat \<rightharpoonup> ep_buffer) \<Rightarrow> (nat \<rightharpoonup> ep_buffer) option" where
  "io_destroy_list [] heap = Some heap"
| "io_destroy_list (tmp # pos) heap = do {
     heap \<leftarrow> free_buffers (fst (queue_drain (ep_queue_stop (io_send tmp)))) heap;
     io_destroy_list pos heap
   }"

definition ep_io_destroy :: "'x ep_io_mgr \<Rightarrow> (nat \<rightharpoonup> ep_buffer) option" where
  "ep_io_destroy mgr = do {
     heap \<leftarrow> io_destroy_list (mgr_list mgr) (mgr_heap mgr);
     (if fst (queue_drain (mgr_send_queue mgr)) = [] then Some heap else None)
   }"

section \<open>The stream of frames\<close>

text \<open>
  The specification of the receive side: the frames at the start of a stream of bytes, why the next
  one is not complete (0: less than a header, 1: less than a body) or not acceptable (-1: wrong magic
  number, -2: too large, -4: a negative size, which the protocol has no meaning for), and the bytes
  of that next one.
\<close>

function parse_stream :: "int \<Rightarrow> byte list \<Rightarrow> (ep_shell \<times> byte list) list \<times> int \<times> byte list" where
  "parse_stream lim bs =
     (if length bs < 18 then ([], 0, bs)
      else let sh = shell_decode (take 18 bs); rest = drop 18 bs; n = sint (shell_size sh) in
        if magic sh \<noteq> EP_MAGIC_NUMBER then ([], -1, bs)
        else if n > lim then ([], -2, bs)
        else if n < 0 then ([], -4, bs)
        else if int (length rest) < n then ([], 1, bs)
        else let (fs, c, r) = parse_stream lim (drop (nat n) rest) in ((sh, take (nat n) rest) # fs, c, r))"
  by pat_completeness auto
termination
  by (relation "measure (\<lambda>(lim, bs). length bs)") auto

declare parse_stream.simps [simp del] rb_content_length [simp del]

lemma parse_header:
  assumes "18 \<le> length bs" and "sh = shell_decode (take 18 bs)" and "n = sint (shell_size sh)"
  shows "parse_stream lim bs =
     (if magic sh \<noteq> EP_MAGIC_NUMBER then ([], -1, bs) else if n > lim then ([], -2, bs)
      else if n < 0 then ([], -4, bs) else if int (length (drop 18 bs)) < n then ([], 1, bs)
      else let (fs, c, r) = parse_stream lim (drop (nat n) (drop 18 bs)) in ((sh, take (nat n) (drop 18 bs)) # fs, c, r))"
  using assms by (simp add: parse_stream.simps [of lim bs] Let_def)

text \<open>The bytes a connection has received and not handed over, and a well-formed connection.\<close>

definition io_pending :: "'x ep_io \<Rightarrow> byte list" where
  "io_pending child = (if io_cached child then shell_encode (io_shell child) else []) @ rb_content (io_recv child)"

definition io_ok :: "int \<Rightarrow> 'x ep_io \<Rightarrow> bool" where
  "io_ok lim child \<longleftrightarrow> rb_ok lim (io_recv child) \<and>
     (io_cached child \<longrightarrow> magic (io_shell child) = EP_MAGIC_NUMBER \<and>
        0 \<le> sint (shell_size (io_shell child)) \<and> sint (shell_size (io_shell child)) \<le> lim)"

text \<open>A task carries a frame.\<close>

definition task_carries :: "int \<Rightarrow> ep_io_task \<Rightarrow> ep_shell \<times> byte list \<Rightarrow> bool" where
  "task_carries fd task f \<longleftrightarrow> task_fd task = fd \<and> task_shell task = fst f \<and>
     (case task_in task of None \<Rightarrow> snd f = [] | Some b \<Rightarrow> buffer_holds b (snd f))"

definition io_same :: "'x ep_io \<Rightarrow> 'x ep_io \<Rightarrow> bool" where
  "io_same c c' \<longleftrightarrow> io_id c' = io_id c \<and> io_send c' = io_send c \<and> io_aes c' = io_aes c \<and> io_fd c' = io_fd c \<and>
     io_extra c' = io_extra c"

section \<open>Lemmas on the receive side\<close>

lemma sint_word_eq_iff: "sint (a :: 'w::len word) = sint b \<longleftrightarrow> a = b"
  by (auto intro: signed_word_eqI)

lemma shell_codec [simp]:
  "shell_decode (shell_encode sh @ r) = sh" "length bs = 18 \<Longrightarrow> shell_encode (shell_decode bs) = bs"
  by (simp_all add: shell_of_image_image shell_ntoh_hton shell_hton_ntoh shell_image_of_image)

lemma shell_decode_enc [simp]: "shell_decode (shell_encode sh) = sh"
  using shell_codec(1) [of sh "[]"] by simp

lemma io_can_read: "rb_ok lim rb \<Longrightarrow> ep_rb_can_read rb = int (length (rb_content rb))"
  by (rule rb.can_read_content)

lemma io_same_refl [simp]: "io_same c c"
  by (simp add: io_same_def)

lemma io_same_trans: "io_same a b \<Longrightarrow> io_same b c \<Longrightarrow> io_same a c"
  by (simp add: io_same_def)

text \<open>Fetching the header shows the first 18 bytes decoded and leaves the rest in the buffer.\<close>

lemma fetch_shell_spec:
  assumes ok: "io_ok lim child" and len: "18 \<le> length (io_pending child)"
  obtains recv where "io_fetch_shell child = Some (child\<lparr>io_recv := recv, io_shell := shell_decode (take 18 (io_pending child))\<rparr>)"
    and "rb_ok lim recv" and "rb_content recv = drop 18 (io_pending child)"
proof (cases "io_cached child")
  case True
  then have p: "take 18 (io_pending child) = shell_encode (io_shell child)"
    "drop 18 (io_pending child) = rb_content (io_recv child)"
    by (simp_all add: io_pending_def)
  have "child\<lparr>io_recv := io_recv child, io_shell := io_shell child\<rparr> = child" by simp
  moreover have "rb_ok lim (io_recv child)" using ok by (simp add: io_ok_def)
  ultimately show ?thesis
    using True p by (intro that [of "io_recv child"]) (simp_all only: io_fetch_shell_def if_True shell_decode_enc)
next
  case False
  let ?c = "rb_content (io_recv child)"
  have rb: "rb_ok lim (io_recv child)" using ok by (simp add: io_ok_def)
  have "length ?c \<ge> 18" using len False by (simp add: io_pending_def)
  then obtain recv where "ep_rb_read (io_recv child) 18 = Some (18, take 18 ?c, recv)" "rb_ok lim recv"
    "rb_content recv = drop 18 ?c"
    using rb.rd_exact [OF rb, of "take 18 ?c" "drop 18 ?c" 18] by auto
  with False that [of recv] show ?thesis
    by (simp add: io_fetch_shell_def io_pending_def sizeof_ep_shell_def)
qed

lemma take_body_spec:
  assumes rb: "rb_ok lim (io_recv child)" and n: "n = sint (shell_size (io_shell child))" "0 \<le> n"
    "n \<le> int (length (rb_content (io_recv child)))"
  obtains inbuf recv where "io_take_body child = Some (inbuf, child\<lparr>io_recv := recv\<rparr>)" and "rb_ok lim recv"
    and "rb_content recv = drop (nat n) (rb_content (io_recv child))"
    and "task_carries fd (ep_io_request_dispatcher fd (io_shell child) inbuf)
      (io_shell child, take (nat n) (rb_content (io_recv child)))"
proof (cases "shell_size (io_shell child) = 0")
  case True
  with assms that [of None "io_recv child"] show ?thesis
    by (simp add: io_take_body_def task_carries_def ep_io_request_dispatcher_def)
next
  case False
  let ?c = "rb_content (io_recv child)"
  have "sint (shell_size (io_shell child)) \<noteq> sint (0 :: 32 word)" using False by (simp only: sint_word_eq_iff not_False_eq_True)
  then have n0: "0 < n" using n by simp
  let ?body = "take (nat n) ?c"
  have body: "?body \<noteq> []" "n = int (length ?body)" using n0 n(3) by auto
  obtain recv where recv: "ep_rb_read (io_recv child) n = Some (n, ?body, recv)" "rb_ok lim recv"
    "rb_content recv = drop (nat n) ?c"
    using rb.rd_exact [OF rb, of ?body "drop (nat n) ?c" n] body(2) by auto
  obtain b where "ep_buffer_new (?body @ []) n = Some (Some b)" "buffer_holds b ?body"
    using buffer_new_spec [OF body] by blast
  with recv False n(1) that [of "Some b" recv] show ?thesis
    by (simp add: io_take_body_def task_carries_def ep_io_request_dispatcher_def)
qed

text \<open>The rounds of the loop, one lemma per way a stream can go on. \<open>p\<close> are the pending bytes.\<close>

lemma round_no_header:
  assumes "io_ok lim child" and "length (io_pending child) < 18"
  shows "io_enqueue_round lim fd child = Some (Inl (0, child))"
proof -
  have "\<not> io_cached child" using assms(2) by (auto simp: io_pending_def)
  moreover have "ep_rb_can_read (io_recv child) = int (length (rb_content (io_recv child)))"
    using assms(1) by (intro io_can_read [of lim]) (simp add: io_ok_def)
  ultimately show ?thesis using assms(2) by (simp add: io_enqueue_round_def io_pending_def sizeof_ep_shell_def)
qed

lemma round_header:
  assumes ok: "io_ok lim child" and p: "p = io_pending child" "18 \<le> length p"
    and sh: "sh = shell_decode (take 18 p)" and n: "n = sint (shell_size sh)"
  obtains recv where "rb_ok lim recv" and "rb_content recv = drop 18 p"
    and "io_enqueue_round lim fd child =
      (let child1 = child\<lparr>io_recv := recv, io_shell := sh\<rparr> in
       if magic sh \<noteq> EP_MAGIC_NUMBER then Some (Inl (-1, child1))
       else if n > lim then Some (Inl (-2, child1))
       else if int (length (drop 18 p)) < n then Some (Inl (1, child1\<lparr>io_cached := True\<rparr>))
       else do {
         (inbuf, child) \<leftarrow> io_take_body child1;
         Some (Inr (ep_io_request_dispatcher fd (io_shell child) inbuf, child\<lparr>io_cached := False\<rparr>))
       })"
proof -
  obtain recv where recv: "io_fetch_shell child = Some (child\<lparr>io_recv := recv, io_shell := sh\<rparr>)"
    "rb_ok lim recv" "rb_content recv = drop 18 p"
    using fetch_shell_spec [OF ok] p sh by metis
  have "ep_rb_can_read (io_recv child) = int (length (rb_content (io_recv child)))"
    using ok by (intro io_can_read [of lim]) (simp add: io_ok_def)
  then have go: "\<not> (\<not> io_cached child \<and> ep_rb_can_read (io_recv child) < sizeof_ep_shell)"
    using p by (auto simp: io_pending_def sizeof_ep_shell_def)
  have "ep_rb_can_read recv = int (length (drop 18 p))" using io_can_read [OF recv(2)] recv(3) by simp
  then show ?thesis
    using that [OF recv(2,3)] go recv(1) n by (simp add: io_enqueue_round_def Let_def)
qed

lemma round_frame:
  assumes ok: "io_ok lim child" and p: "p = io_pending child" "18 \<le> length p"
    and sh: "sh = shell_decode (take 18 p)" and n: "n = sint (shell_size sh)"
    and good: "magic sh = EP_MAGIC_NUMBER" "0 \<le> n" "n \<le> lim" "n \<le> int (length (drop 18 p))"
  obtains task child' where "io_enqueue_round lim fd child = Some (Inr (task, child'))"
    and "task_carries fd task (sh, take (nat n) (drop 18 p))" and "io_ok lim child'"
    and "io_pending child' = drop (nat n) (drop 18 p)" and "io_same child child'"
proof -
  obtain recv where recv: "rb_ok lim recv" "rb_content recv = drop 18 p"
    and r: "io_enqueue_round lim fd child = do {
         (inbuf, child) \<leftarrow> io_take_body (child\<lparr>io_recv := recv, io_shell := sh\<rparr>);
         Some (Inr (ep_io_request_dispatcher fd (io_shell child) inbuf, child\<lparr>io_cached := False\<rparr>)) }"
    using round_header [OF ok p sh n] good by (auto simp: Let_def)
  let ?c = "child\<lparr>io_recv := recv, io_shell := sh\<rparr>"
  obtain inbuf recv' where "io_take_body ?c = Some (inbuf, ?c\<lparr>io_recv := recv'\<rparr>)" "rb_ok lim recv'"
    "rb_content recv' = drop (nat n) (drop 18 p)"
    "task_carries fd (ep_io_request_dispatcher fd sh inbuf) (sh, take (nat n) (drop 18 p))"
    using take_body_spec [of lim ?c n fd] recv n good by auto
  with r show ?thesis
    by (intro that [of "ep_io_request_dispatcher fd sh inbuf" "?c\<lparr>io_recv := recv', io_cached := False\<rparr>"])
      (simp_all add: io_ok_def io_pending_def io_same_def)
qed

text \<open>The loop hands over exactly the frames of the pending bytes and returns the reason it stopped.\<close>

lemma enqueue_loop_spec:
  assumes "io_ok lim child" and "parse_stream lim (io_pending child) = (fs, c, r)" and "c \<noteq> -4"
  shows "\<exists>child' ts. io_enqueue_loop lim fd child tasks = Some (c, child', tasks @ ts) \<and>
    list_all2 (task_carries fd) ts fs \<and> io_same child child' \<and> io_ok lim child' \<and>
    (0 \<le> c \<longrightarrow> io_pending child' = r)"
  using assms
proof (induction "length (io_pending child)" arbitrary: child tasks fs rule: less_induct)
  case less
  define p where "p = io_pending child"
  note ok = less.prems(1) and parse = less.prems(2) [folded p_def]
  show ?case
  proof (cases "length p < 18")
    case True
    then have "fs = [] \<and> c = 0 \<and> r = p" using parse by (simp add: parse_stream.simps)
    then show ?thesis
      using round_no_header [OF ok, of fd] True ok io_enqueue_loop.simps [of lim fd child tasks] by (simp add: p_def)
  next
    case False
    define sh n where "sh = shell_decode (take 18 p)" and "n = sint (shell_size sh)"
    have p: "p = io_pending child" "18 \<le> length p" using False by (simp_all add: p_def)
    obtain recv where recv: "rb_ok lim recv" "rb_content recv = drop 18 p"
      and rnd: "io_enqueue_round lim fd child = (let child1 = child\<lparr>io_recv := recv, io_shell := sh\<rparr> in
        if magic sh \<noteq> EP_MAGIC_NUMBER then Some (Inl (-1, child1))
        else if n > lim then Some (Inl (-2, child1))
        else if int (length (drop 18 p)) < n then Some (Inl (1, child1\<lparr>io_cached := True\<rparr>))
        else do {
          (inbuf, child) \<leftarrow> io_take_body child1;
          Some (Inr (ep_io_request_dispatcher fd (io_shell child) inbuf, child\<lparr>io_cached := False\<rparr>)) })"
      using round_header [OF ok p sh_def n_def] .
    note loop = io_enqueue_loop.simps [of lim fd child tasks]
    have ps: "parse_stream lim p =
       (if magic sh \<noteq> EP_MAGIC_NUMBER then ([], -1, p) else if n > lim then ([], -2, p)
        else if n < 0 then ([], -4, p) else if int (length (drop 18 p)) < n then ([], 1, p)
        else let (fs, c, r) = parse_stream lim (drop (nat n) (drop 18 p)) in ((sh, take (nat n) (drop 18 p)) # fs, c, r))"
      using parse_header [OF p(2) sh_def n_def] .
    consider "magic sh \<noteq> EP_MAGIC_NUMBER" | "magic sh = EP_MAGIC_NUMBER" "n > lim"
      | "magic sh = EP_MAGIC_NUMBER" "n \<le> lim" "0 \<le> n" "int (length (drop 18 p)) < n"
      | "magic sh = EP_MAGIC_NUMBER" "n \<le> lim" "0 \<le> n" "n \<le> int (length (drop 18 p))"
      using less.prems(3) parse ps by (cases "n < 0") (fastforce split: if_splits)+
    moreover have kept: "io_ok lim (child\<lparr>io_recv := recv, io_shell := sh\<rparr>)"
    proof (cases "io_cached child")
      case True
      then have "sh = io_shell child" by (simp add: sh_def p_def io_pending_def)
      with ok recv show ?thesis by (simp add: io_ok_def)
    qed (use recv in \<open>simp add: io_ok_def\<close>)
    ultimately show ?thesis
    proof cases
      case 1
      then show ?thesis using parse ps rnd loop kept by (simp add: io_same_def Let_def)
    next
      case 2
      then show ?thesis using parse ps rnd loop kept by (simp add: io_same_def Let_def)
    next
      case 3
      let ?c = "child\<lparr>io_recv := recv, io_shell := sh, io_cached := True\<rparr>"
      have "io_pending ?c = p" using recv p by (simp add: io_pending_def sh_def)
      moreover have "io_ok lim ?c" using recv 3 by (simp add: io_ok_def n_def)
      moreover have "io_same child ?c" by (simp add: io_same_def)
      moreover have "fs = [] \<and> c = 1 \<and> r = p" using parse ps 3 by simp
      moreover have "io_enqueue_round lim fd child = Some (Inl (1, ?c))" using rnd 3 by (simp add: Let_def)
      ultimately show ?thesis using loop by simp
    next
      case 4
      obtain task child' where t: "io_enqueue_round lim fd child = Some (Inr (task, child'))"
        "task_carries fd task (sh, take (nat n) (drop 18 p))" "io_ok lim child'"
        "io_pending child' = drop (nat n) (drop 18 p)" "io_same child child'"
        using round_frame [OF ok p sh_def n_def 4(1,3,2,4)] .
      obtain fs' where fs': "fs = (sh, take (nat n) (drop 18 p)) # fs'"
        "parse_stream lim (io_pending child') = (fs', c, r)"
        using parse ps 4 t(4) by (auto simp: Let_def split: prod.splits)
      have "length (io_pending child') < length (io_pending child)" using t(4) p by auto
      from less.hyps [OF this t(3) fs'(2) less.prems(3), of "tasks @ [task]"]
      show ?thesis using t fs' loop by (auto intro: io_same_trans)
    qed
  qed
qed

section \<open>Lemmas on streams\<close>

text \<open>More input after an incomplete stream completes it; more input after an error changes nothing.\<close>

lemma parse_stream_append:
  assumes "parse_stream lim bs = (fs, c, r)"
  shows "0 \<le> c \<Longrightarrow> parse_stream lim (bs @ d) = (let (fs', c', r') = parse_stream lim (r @ d) in (fs @ fs', c', r'))"
    and "c < 0 \<Longrightarrow> \<exists>r'. parse_stream lim (bs @ d) = (fs, c, r')"
proof -
  have "(0 \<le> c \<longrightarrow> parse_stream lim (bs @ d) = (let (fs', c', r') = parse_stream lim (r @ d) in (fs @ fs', c', r'))) \<and>
        (c < 0 \<longrightarrow> (\<exists>r'. parse_stream lim (bs @ d) = (fs, c, r')))"
    using assms
  proof (induction lim bs arbitrary: fs rule: parse_stream.induct)
    case (1 lim bs)
    define sh n where "sh = shell_decode (take 18 bs)" and "n = sint (shell_size sh)"
    note header = parse_header [OF _ sh_def n_def, of lim]
    have header': "18 \<le> length bs \<Longrightarrow> sh = shell_decode (take 18 (bs @ d))" by (simp add: sh_def)
    note header' = parse_header [OF _ header' n_def, of lim]
    have tk: "18 \<le> length bs \<Longrightarrow> drop 18 (bs @ d) = drop 18 bs @ d" by simp
    have dn: "n \<le> int (length (drop 18 bs)) \<Longrightarrow> take (nat n) (drop 18 bs @ d) = take (nat n) (drop 18 bs) \<and>
        drop (nat n) (drop 18 bs @ d) = drop (nat n) (drop 18 bs) @ d"
      by (auto simp: nat_le_iff)
    show ?case
    proof (cases "18 \<le> length bs \<and> magic sh = EP_MAGIC_NUMBER \<and> n \<le> lim \<and> 0 \<le> n \<and> n \<le> int (length (drop 18 bs))")
      case True
      obtain fs' where fs': "fs = (sh, take (nat n) (drop 18 bs)) # fs'"
        "parse_stream lim (drop (nat n) (drop 18 bs)) = (fs', c, r)"
        using 1(2) True header by (auto simp: Let_def simp del: drop_drop split: prod.splits)
      note IH = "1.IH" [OF _ refl refl refl, folded sh_def n_def, of fs']
      have IH: "(0 \<le> c \<longrightarrow> parse_stream lim (drop (nat n) (drop 18 bs) @ d) =
            (let (fs'', c', r') = parse_stream lim (r @ d) in (fs' @ fs'', c', r'))) \<and>
          (c < 0 \<longrightarrow> (\<exists>r'. parse_stream lim (drop (nat n) (drop 18 bs) @ d) = (fs', c, r')))"
        by (rule IH) (use True fs' in auto)
      have "parse_stream lim (bs @ d) = (let (fs, c, r) = parse_stream lim (drop (nat n) (drop 18 bs) @ d) in
          ((sh, take (nat n) (drop 18 bs)) # fs, c, r))"
      proof -
        have "\<not> int (length (drop 18 (bs @ d))) < n" using True by auto
        then have "parse_stream lim (bs @ d) = (let (fs, c, r) = parse_stream lim (drop (nat n) (drop 18 (bs @ d))) in
            ((sh, take (nat n) (drop 18 (bs @ d))) # fs, c, r))"
          using True header' by (simp del: drop_append take_append drop_drop)
        moreover have "take (nat n) (drop 18 (bs @ d)) = take (nat n) (drop 18 bs)"
          "drop (nat n) (drop 18 (bs @ d)) = drop (nat n) (drop 18 bs) @ d"
          using True dn tk by (simp_all only:)
        ultimately show ?thesis by (simp only:)
      qed
      with IH fs' show ?thesis by (auto simp: Let_def split: prod.splits)
    next
      case False
      then have nil: "fs = []" "0 \<le> c \<Longrightarrow> r = bs" "c < 0 \<Longrightarrow> 18 \<le> length bs"
        using 1(2) header parse_stream.simps [of lim bs] by (cases "length bs < 18"; auto split: if_splits)+
      have "c < 0 \<Longrightarrow> \<exists>r'. parse_stream lim (bs @ d) = ([], c, r')"
        using 1(2) False nil(3) header header' by (auto split: if_splits)
      with nil show ?thesis by (auto simp: Let_def split: prod.splits)
    qed
  qed
  then show "0 \<le> c \<Longrightarrow> parse_stream lim (bs @ d) = (let (fs', c', r') = parse_stream lim (r @ d) in (fs @ fs', c', r'))"
    and "c < 0 \<Longrightarrow> \<exists>r'. parse_stream lim (bs @ d) = (fs, c, r')" by blast+
qed

lemma parse_stream_residue:
  "parse_stream lim bs = (fs, c, r) \<Longrightarrow> 0 \<le> c \<Longrightarrow> parse_stream lim r = ([], c, r)"
proof (induction lim bs arbitrary: fs rule: parse_stream.induct)
  case (1 lim bs)
  define sh n where "sh = shell_decode (take 18 bs)" and "n = sint (shell_size sh)"
  note header = parse_header [OF _ sh_def n_def, of lim]
  show ?case
  proof (cases "18 \<le> length bs \<and> magic sh = EP_MAGIC_NUMBER \<and> n \<le> lim \<and> 0 \<le> n \<and> n \<le> int (length (drop 18 bs))")
    case True
    then obtain fs' where "parse_stream lim (drop (nat n) (drop 18 bs)) = (fs', c, r)"
      using "1.prems" header by (auto simp: Let_def simp del: drop_drop split: prod.splits)
    then show ?thesis
      by (intro "1.IH" [OF _ refl refl refl, folded sh_def n_def, of fs']) (use True "1.prems" in auto)
  next
    case False
    then show ?thesis
      using "1.prems" header parse_stream.simps [of lim bs] by (cases "length bs < 18") (auto split: if_splits)
  qed
qed

lemma parse_stream_codes: "parse_stream lim bs = (fs, c, r) \<Longrightarrow> c \<in> {-4, -2, -1, 0, 1}"
proof (induction lim bs arbitrary: fs rule: parse_stream.induct)
  case (1 lim bs)
  define sh n where "sh = shell_decode (take 18 bs)" and "n = sint (shell_size sh)"
  note header = parse_header [OF _ sh_def n_def, of lim]
  show ?case
  proof (cases "18 \<le> length bs \<and> magic sh = EP_MAGIC_NUMBER \<and> n \<le> lim \<and> 0 \<le> n \<and> n \<le> int (length (drop 18 bs))")
    case True
    then obtain fs' where "parse_stream lim (drop (nat n) (drop 18 bs)) = (fs', c, r)"
      using "1.prems" header by (auto simp: Let_def simp del: drop_drop split: prod.splits)
    then show ?thesis
      by (intro "1.IH" [OF _ refl refl refl, folded sh_def n_def, of fs']) (use True "1.prems" in auto)
  next
    case False
    then show ?thesis
      using "1.prems" header parse_stream.simps [of lim bs] by (cases "length bs < 18") (auto split: if_splits)
  qed
qed

text \<open>The bytes of a message, and the messages a peer may send.\<close>

definition frame_bytes :: "ep_shell \<times> byte list \<Rightarrow> byte list" where
  "frame_bytes f = shell_encode (fst f) @ snd f"

definition frame_ok :: "int \<Rightarrow> ep_shell \<times> byte list \<Rightarrow> bool" where
  "frame_ok lim f \<longleftrightarrow> magic (fst f) = EP_MAGIC_NUMBER \<and> sint (shell_size (fst f)) = int (length (snd f)) \<and>
     int (length (snd f)) \<le> lim"

lemma parse_frames:
  "list_all (frame_ok lim) fs \<Longrightarrow> parse_stream lim (concat (map frame_bytes fs) @ rest) =
     (let (fs', c, r) = parse_stream lim rest in (fs @ fs', c, r))"
proof (induction fs)
  case (Cons f fs)
  obtain sh body where f: "f = (sh, body)" by fastforce
  let ?t = "concat (map frame_bytes fs) @ rest"
  let ?bs = "shell_encode sh @ body @ ?t"
  have ok: "magic sh = EP_MAGIC_NUMBER" "sint (shell_size sh) = int (length body)" "int (length body) \<le> lim"
    using Cons.prems by (simp_all add: f frame_ok_def)
  have "sh = shell_decode (take 18 ?bs)" by simp
  from parse_header [OF _ this ok(2) [symmetric], of lim]
  have "parse_stream lim ?bs = (let (fs, c, r) = parse_stream lim ?t in ((sh, body) # fs, c, r))"
    using ok by (simp add: Let_def)
  moreover have "concat (map frame_bytes (f # fs)) @ rest = ?bs" by (simp add: f frame_bytes_def [of "(sh, body)"])
  ultimately show ?case using Cons by (auto simp: f Let_def split: prod.splits)
qed (simp split: prod.splits)

section \<open>Lemmas on the manager\<close>

definition mgr_ok :: "'x ep_io_mgr \<Rightarrow> bool" where
  "mgr_ok mgr \<longleftrightarrow> 0 < mgr_def_capacity mgr \<and> 0 < mgr_max_capacity mgr \<and>
     distinct (map io_fd (mgr_list mgr)) \<and> distinct (map io_id (mgr_list mgr)) \<and>
     (\<forall>c \<in> set (mgr_list mgr). io_id c < mgr_next mgr \<and> io_ok (mgr_max_capacity mgr) c)"

lemma find_some_split:
  "find P xs = Some x \<Longrightarrow> \<exists>ys zs. xs = ys @ x # zs \<and> P x \<and> (\<forall>y \<in> set ys. \<not> P y)"
proof (induction xs)
  case (Cons a xs)
  show ?case
  proof (cases "P a")
    case True
    with Cons.prems have "a # xs = [] @ x # xs \<and> P x \<and> (\<forall>y \<in> set []. \<not> P y)" by simp
    then show ?thesis by blast
  next
    case False
    with Cons obtain ys zs where "xs = ys @ x # zs" "P x" "\<forall>y \<in> set ys. \<not> P y" by auto
    with False have "a # xs = (a # ys) @ x # zs \<and> P x \<and> (\<forall>y \<in> set (a # ys). \<not> P y)" by simp
    then show ?thesis by blast
  qed
qed simp

lemma io_put_split:
  assumes "mgr_ok mgr" and "ep_io_find mgr fd = Some c" and "io_id c' = io_id c"
  obtains ys zs where "mgr_list mgr = ys @ c # zs" and "mgr_list (io_put c' mgr) = ys @ c' # zs"
proof -
  obtain ys zs where l: "mgr_list mgr = ys @ c # zs" using assms(2) find_some_split [of _ "mgr_list mgr" c]
    by (metis ep_io_find_def)
  have ids: "io_id c' = io_id c" "io_id c \<notin> io_id ` set ys" "io_id c \<notin> io_id ` set zs"
    using assms(1,3) by (auto simp: mgr_ok_def l)
  then have "map (\<lambda>d. if io_id d = io_id c' then c' else d) ys = ys"
    "map (\<lambda>d. if io_id d = io_id c' then c' else d) zs = zs"
    by (auto intro!: map_idI simp: image_iff)
  then show ?thesis using that l ids by (simp add: io_put_def)
qed

lemma io_put_spec:
  assumes m: "mgr_ok mgr" and f: "ep_io_find mgr fd = Some c" and s: "io_id c' = io_id c" "io_fd c' = io_fd c"
    and ok: "io_ok (mgr_max_capacity mgr) c'"
  shows "mgr_ok (io_put c' mgr)" and "ep_io_find (io_put c' mgr) fd = Some c'"
    and "fd' \<noteq> fd \<Longrightarrow> ep_io_find (io_put c' mgr) fd' = ep_io_find mgr fd'"
proof -
  obtain ys zs where l: "mgr_list mgr = ys @ c # zs" "mgr_list (io_put c' mgr) = ys @ c' # zs"
    using io_put_split [OF m f s(1)] .
  have c: "io_fd c = fd" using f by (auto simp: ep_io_find_def find_Some_iff)
  have same: "io_fd c' = fd" "io_id c' = io_id c" using s c by simp_all
  have keep: "mgr_def_capacity (io_put c' mgr) = mgr_def_capacity mgr" "mgr_max_capacity (io_put c' mgr) = mgr_max_capacity mgr"
    "mgr_next (io_put c' mgr) = mgr_next mgr" by (simp_all add: io_put_def)
  show "mgr_ok (io_put c' mgr)" using m ok c same by (simp add: mgr_ok_def l keep)
  have "fd \<notin> io_fd ` set ys" using m c by (auto simp: mgr_ok_def l)
  then have "find (\<lambda>tmp. io_fd tmp = fd) ys = None" by (auto simp: find_None_iff)
  then show "ep_io_find (io_put c' mgr) fd = Some c'" using same by (simp add: ep_io_find_def l find_append)
  show "ep_io_find (io_put c' mgr) fd' = ep_io_find mgr fd'" if "fd' \<noteq> fd"
    using that same c by (simp add: ep_io_find_def l find_append split: option.split)
qed

lemma ep_io_find_ok:
  "mgr_ok mgr \<Longrightarrow> ep_io_find mgr fd = Some c \<Longrightarrow> io_fd c = fd \<and> io_ok (mgr_max_capacity mgr) c"
  by (auto simp: mgr_ok_def ep_io_find_def find_Some_iff)

lemma io_pending_recv:
  "io_pending (c\<lparr>io_recv := recv\<rparr>) = (if io_cached c then shell_encode (io_shell c) else []) @ rb_content recv"
  by (simp add: io_pending_def)

text \<open>One call: the frames of the pending bytes and the new ones go to the pool.\<close>

lemma enqueue_spec:
  assumes m: "mgr_ok mgr" and f: "ep_io_find mgr fd = Some child" and d: "int (length d) \<le> mgr_max_capacity mgr"
    and p: "parse_stream (mgr_max_capacity mgr) (io_pending child @ d) = (fs, c, r)" and c: "c \<noteq> -4"
  obtains mgr' child' ts where "ep_io_enqueue mgr fd d (int (length d)) = Some (c, mgr')" and "mgr_ok mgr'"
    and "ep_io_find mgr' fd = Some child'" and "0 \<le> c \<longrightarrow> io_pending child' = r"
    and "mgr_tasks mgr' = mgr_tasks mgr @ ts" and "list_all2 (task_carries fd) ts fs"
    and "mgr_max_capacity mgr' = mgr_max_capacity mgr" and "mgr_refor mgr' = mgr_refor mgr" and "io_aes child' = io_aes child"
    and "\<forall>fd'. fd' \<noteq> fd \<longrightarrow> ep_io_find mgr' fd' = ep_io_find mgr fd'"
proof -
  let ?lim = "mgr_max_capacity mgr"
  have ok: "io_ok ?lim child" using ep_io_find_ok [OF m f] by simp
  then have rb: "rb_ok ?lim (io_recv child)" by (simp add: io_ok_def)
  obtain recv where w: "ep_rb_write (io_recv child) d (int (length d)) = Some (int (length d), recv)"
    "rb_ok ?lim recv" "rb_content recv = rb_content (io_recv child) @ d" using rb.wr_all [OF rb d] .
  let ?c = "child\<lparr>io_recv := recv\<rparr>"
  have c1: "io_ok ?lim ?c" "io_same child ?c" "io_pending ?c = io_pending child @ d"
    using ok w by (simp_all add: io_ok_def io_same_def io_pending_def)
  from enqueue_loop_spec [OF c1(1), of fs c r fd "[]"] p c c1(3)
  obtain child' ts where l: "io_enqueue_loop ?lim fd ?c [] = Some (c, child', ts)" "list_all2 (task_carries fd) ts fs"
    "io_same ?c child'" "io_ok ?lim child'" "0 \<le> c \<longrightarrow> io_pending child' = r" by auto
  have same: "io_same child child'" using io_same_trans [OF c1(2) l(3)] .
  then have ids: "io_id child' = io_id child" "io_fd child' = io_fd child" by (simp_all add: io_same_def)
  have aes: "io_aes child' = io_aes child" using same by (simp add: io_same_def)
  have keep: "mgr_max_capacity (io_put child' mgr) = ?lim" "mgr_refor (io_put child' mgr) = mgr_refor mgr"
    by (simp_all add: io_put_def)
  note put = io_put_spec [OF m f ids l(4)]
  let ?m = "(io_put child' mgr)\<lparr>mgr_tasks := mgr_tasks mgr @ ts\<rparr>"
  have tasks: "ep_io_find ?m fd' = ep_io_find (io_put child' mgr) fd'" "mgr_ok ?m = mgr_ok (io_put child' mgr)" for fd'
    by (simp_all add: ep_io_find_def mgr_ok_def)
  have "ep_io_enqueue mgr fd d (int (length d)) = Some (c, ?m)"
    using f w(1) l(1) by (simp add: ep_io_enqueue_def)
  then show ?thesis
    by (rule that [of ?m child' ts]) (use put l tasks aes keep in simp_all)
qed

text \<open>Receiving leaves what is to be sent alone.\<close>

lemma io_put_heap [simp]: "mgr_heap (io_put c mgr) = mgr_heap mgr" "mgr_max_capacity (io_put c mgr) = mgr_max_capacity mgr"
  "mgr_send_queue (io_put c mgr) = mgr_send_queue mgr"
  by (simp_all add: io_put_def)

lemma fetch_shell_same: "io_fetch_shell c = Some c' \<Longrightarrow> io_same c c'"
  by (auto simp: io_fetch_shell_def io_same_def split: if_splits bind_splits)

lemma take_body_same: "io_take_body c = Some (b, c') \<Longrightarrow> io_same c c'"
  by (auto simp: io_take_body_def io_same_def split: if_splits bind_splits)

lemma round_same:
  assumes "io_enqueue_round lim fd c = Some r"
  shows "case r of Inl x \<Rightarrow> io_same c (snd x) | Inr x \<Rightarrow> io_same c (snd x)"
  using assms fetch_shell_same take_body_same
  by (fastforce simp: io_enqueue_round_def io_same_def split: if_splits bind_splits sum.splits)

lemma loop_same: "io_enqueue_loop lim fd c ts = Some r \<Longrightarrow> io_same c (fst (snd r))"
proof (rule io_enqueue_loop.raw_induct [where P = "\<lambda>lim fd c ts r. io_same c (fst (snd r))"])
  fix loop :: "int \<Rightarrow> int \<Rightarrow> 'a ep_io \<Rightarrow> ep_io_task list \<Rightarrow> (int \<times> 'a ep_io \<times> ep_io_task list) option" and lim fd c ts r
  assume IH: "\<And>lim fd c ts r. loop lim fd c ts = Some r \<Longrightarrow> io_same c (fst (snd r))"
    and e: "io_enqueue_round lim fd c \<bind>
      (\<lambda>x. case x of Inl x \<Rightarrow> Some (fst x, snd x, ts) | Inr x \<Rightarrow> loop lim fd (snd x) (ts @ [fst x])) = Some r"
  obtain x where x: "io_enqueue_round lim fd c = Some x"
    "(case x of Inl x \<Rightarrow> Some (fst x, snd x, ts) | Inr x \<Rightarrow> loop lim fd (snd x) (ts @ [fst x])) = Some r"
    using e by (auto split: bind_splits)
  show "io_same c (fst (snd r))"
  proof (cases x)
    case (Inl y)
    then show ?thesis using round_same [OF x(1)] x(2) by auto
  next
    case (Inr y)
    then show ?thesis using round_same [OF x(1)] x(2) IH io_same_trans by fastforce
  qed
qed assumption

lemma enqueue_sends:
  assumes m: "mgr_ok mgr" and e: "ep_io_enqueue mgr fd d n = Some (c, mgr')"
  shows "map io_send (mgr_list mgr') = map io_send (mgr_list mgr)" and "mgr_heap mgr' = mgr_heap mgr"
proof -
  have "map io_send (mgr_list mgr') = map io_send (mgr_list mgr) \<and> mgr_heap mgr' = mgr_heap mgr"
  proof (cases "ep_io_find mgr fd")
    case None
    then show ?thesis using e by (simp add: ep_io_enqueue_def)
  next
    case (Some child)
    have "child \<in> set (mgr_list mgr)" using Some by (auto simp: ep_io_find_def find_Some_iff)
    then have uniq: "d = child" if "d \<in> set (mgr_list mgr)" "io_id d = io_id child" for d
      using m that by (auto simp: mgr_ok_def distinct_map inj_on_def)
    obtain child' ts where c: "mgr_list mgr' = mgr_list (io_put child' mgr)" "mgr_heap mgr' = mgr_heap mgr" "io_same child child'"
    proof -
      obtain w recv where w: "ep_rb_write (io_recv child) d n = Some (w, recv)"
        using e Some by (auto simp: ep_io_enqueue_def split: bind_splits)
      have s: "io_same child (child\<lparr>io_recv := recv\<rparr>)" by (simp add: io_same_def)
      show ?thesis
        using e Some w s loop_same that
        by (fastforce simp: ep_io_enqueue_def Let_def split: if_splits bind_splits intro: io_same_trans)
    qed
    have "map io_send (mgr_list (io_put child' mgr)) = map io_send (mgr_list mgr)"
      using c(3) uniq by (auto simp: io_put_def io_same_def)
    with c show ?thesis by simp
  qed
  then show "map io_send (mgr_list mgr') = map io_send (mgr_list mgr)" and "mgr_heap mgr' = mgr_heap mgr" by simp_all
qed

text \<open>The callers feed what they receive until a call fails.\<close>

fun feed :: "'x ep_io_mgr \<Rightarrow> int \<Rightarrow> byte list list \<Rightarrow> int \<Rightarrow> (int \<times> 'x ep_io_mgr) option" where
  "feed mgr fd [] c = Some (c, mgr)"
| "feed mgr fd (d # ds) c = do {
     (ret, mgr') \<leftarrow> ep_io_enqueue mgr fd d (int (length d));
     (if ret < 0 then Some (ret, mgr') else feed mgr' fd ds ret)
   }"

lemma feed_spec:
  "mgr_ok mgr \<Longrightarrow> ep_io_find mgr fd = Some child \<Longrightarrow>
   list_all (\<lambda>d. int (length d) \<le> mgr_max_capacity mgr) ds \<Longrightarrow>
   parse_stream (mgr_max_capacity mgr) (io_pending child) = ([], c0, io_pending child) \<Longrightarrow> 0 \<le> c0 \<Longrightarrow>
   parse_stream (mgr_max_capacity mgr) (io_pending child @ concat ds) = (fs, c, r) \<Longrightarrow> c \<noteq> -4 \<Longrightarrow>
   \<exists>mgr' ts. feed mgr fd ds c0 = Some (c, mgr') \<and> mgr_ok mgr' \<and> mgr_tasks mgr' = mgr_tasks mgr @ ts \<and>
     list_all2 (task_carries fd) ts fs \<and> (\<forall>fd'. fd' \<noteq> fd \<longrightarrow> ep_io_find mgr' fd' = ep_io_find mgr fd') \<and>
     mgr_refor mgr' = mgr_refor mgr \<and> ep_io_get_aes mgr' fd = Some (io_aes child) \<and>
     map io_send (mgr_list mgr') = map io_send (mgr_list mgr) \<and> mgr_heap mgr' = mgr_heap mgr"
proof (induction ds arbitrary: mgr child c0 fs)
  case Nil
  then show ?case by (simp add: ep_io_get_aes_def)
next
  case (Cons d ds)
  let ?lim = "mgr_max_capacity mgr"
  obtain fs1 c1 r1 where p1: "parse_stream ?lim (io_pending child @ d) = (fs1, c1, r1)" by (metis prod_cases3)
  note app = parse_stream_append [OF p1, of "concat ds"]
  have c1: "c1 \<noteq> -4" using app(2) Cons.prems(6,7) by (cases "c1 < 0") auto
  obtain mgr1 child1 ts1 where e: "ep_io_enqueue mgr fd d (int (length d)) = Some (c1, mgr1)" "mgr_ok mgr1"
    "ep_io_find mgr1 fd = Some child1" "0 \<le> c1 \<longrightarrow> io_pending child1 = r1"
    "mgr_tasks mgr1 = mgr_tasks mgr @ ts1" "list_all2 (task_carries fd) ts1 fs1" "mgr_max_capacity mgr1 = ?lim"
    "mgr_refor mgr1 = mgr_refor mgr" "io_aes child1 = io_aes child" "\<forall>fd'. fd' \<noteq> fd \<longrightarrow> ep_io_find mgr1 fd' = ep_io_find mgr fd'"
    using enqueue_spec [OF Cons.prems(1,2) _ p1 c1] Cons.prems(3) by auto
  note sends = enqueue_sends [OF Cons.prems(1) e(1)]
  show ?case
  proof (cases "c1 < 0")
    case True
    with app(2) Cons.prems(6) have "c = c1 \<and> fs = fs1" by auto
    with e sends True show ?thesis by (simp add: ep_io_get_aes_def)
  next
    case False
    then have r1: "io_pending child1 = r1" using e(4) by simp
    obtain fs2 where p2: "parse_stream ?lim (r1 @ concat ds) = (fs2, c, r)" "fs = fs1 @ fs2"
      using app(1) Cons.prems(6) False by (auto simp: Let_def split: prod.splits)
    have "list_all (\<lambda>d. int (length d) \<le> mgr_max_capacity mgr1) ds" using Cons.prems(3) e(7) by simp
    moreover have "parse_stream (mgr_max_capacity mgr1) (io_pending child1) = ([], c1, io_pending child1)"
      using parse_stream_residue [OF p1] False e(7) r1 by simp
    ultimately obtain mgr' ts2 where "feed mgr1 fd ds c1 = Some (c, mgr')" "mgr_ok mgr'"
      "mgr_tasks mgr' = mgr_tasks mgr1 @ ts2" "list_all2 (task_carries fd) ts2 fs2"
      "\<forall>fd'. fd' \<noteq> fd \<longrightarrow> ep_io_find mgr' fd' = ep_io_find mgr1 fd'" "mgr_refor mgr' = mgr_refor mgr1"
      "ep_io_get_aes mgr' fd = Some (io_aes child1)" "map io_send (mgr_list mgr') = map io_send (mgr_list mgr1)" "mgr_heap mgr' = mgr_heap mgr1"
      using Cons.IH [OF e(2,3), of c1 fs2] p2 r1 False e(7) Cons.prems(7) by auto
    with e sends p2(2) False show ?thesis by (auto intro: list_all2_appendI)
  qed
qed

lemma ep_io_add_spec:
  assumes m: "mgr_ok mgr"
  shows "ep_io_find mgr fd = None \<Longrightarrow> \<exists>mgr' child. ep_io_add mgr fd extra = (1, mgr') \<and> mgr_ok mgr' \<and>
      ep_io_find mgr' = (ep_io_find mgr)(fd \<mapsto> child) \<and> io_extra child = extra \<and> io_pending child = [] \<and>
      mgr_max_capacity mgr' = mgr_max_capacity mgr \<and> mgr_tasks mgr' = mgr_tasks mgr"
    and "ep_io_find mgr fd \<noteq> None \<Longrightarrow> ep_io_add mgr fd extra = (0, mgr)"
proof -
  assume n: "ep_io_find mgr fd = None"
  have p: "0 < mgr_def_capacity mgr" "0 < mgr_max_capacity mgr" using m by (simp_all add: mgr_ok_def)
  obtain recv where recv: "ep_rb_new True True (mgr_def_capacity mgr) (mgr_max_capacity mgr) = Some recv"
    "rb_ok (mgr_max_capacity mgr) recv" "rb_content recv = []" using rb_new_ok [OF p] by metis
  define child where "child = \<lparr>io_id = mgr_next mgr, io_send = \<lparr>q_items = [] :: nat list, q_stop = False\<rparr>, io_recv = recv,
    io_shell = zero_shell, io_cached = False, io_aes = \<lparr>aes_key = replicate 16 0, aes_vec = replicate 16 0\<rparr>,
    io_fd = fd, io_extra = extra\<rparr>"
  let ?m = "mgr\<lparr>mgr_list := mgr_list mgr @ [child], mgr_next := mgr_next mgr + 1\<rparr>"
  have "ep_io_add mgr fd extra = (1, ?m)"
    using n recv(1) by (simp add: ep_io_add_def ep_queue_new_def child_def)
  moreover have "\<forall>c \<in> set (mgr_list mgr). io_fd c \<noteq> fd" using n by (auto simp: ep_io_find_def find_None_iff)
  then have "mgr_ok ?m" using m recv by (auto simp: mgr_ok_def child_def io_ok_def less_SucI)
  moreover have "ep_io_find ?m = (ep_io_find mgr)(fd \<mapsto> child)"
    using n by (auto simp: ep_io_find_def fun_eq_iff find_append child_def split: option.split)
  moreover have "io_extra child = extra" "io_pending child = []" using recv by (simp_all add: child_def io_pending_def)
  ultimately show "\<exists>mgr' child. ep_io_add mgr fd extra = (1, mgr') \<and> mgr_ok mgr' \<and>
      ep_io_find mgr' = (ep_io_find mgr)(fd \<mapsto> child) \<and> io_extra child = extra \<and> io_pending child = [] \<and>
      mgr_max_capacity mgr' = mgr_max_capacity mgr \<and> mgr_tasks mgr' = mgr_tasks mgr"
    by (intro exI [of _ ?m], intro exI [of _ child]) simp
next
  assume "ep_io_find mgr fd \<noteq> None"
  then show "ep_io_add mgr fd extra = (0, mgr)" by (auto simp: ep_io_add_def)
qed

lemma ep_io_init_ok:
  assumes "0 < conf_def_capacity conf" and "0 \<le> conf_max_capacity conf"
  obtains mgr where "ep_io_init True True True conf = Some mgr" and "mgr_ok mgr" and "mgr_list mgr = []"
    and "mgr_tasks mgr = []" and "mgr_max_capacity mgr = (if conf_max_capacity conf \<noteq> 0 then conf_max_capacity conf else conf_def_capacity conf)"
  using assms by (intro that [of "the (ep_io_init True True True conf)"])
    (auto simp: ep_io_init_def ep_queue_new_def mgr_ok_def)

text \<open>A server manager with a new connection, for evaluation.\<close>

definition demo_conf :: ep_io_conf where
  "demo_conf = \<lparr>conf_refor = ep_io_refor_server, conf_def_capacity = 4096, conf_max_capacity = 4194304,
     conf_mini_compress_if = 0\<rparr>"

definition demo_shell :: "32 word \<Rightarrow> ep_shell" where
  "demo_shell n = zero_shell\<lparr>magic := EP_MAGIC_NUMBER, shell_size := n\<rparr>"

lemma demo_mgr:
  obtains mgr mgr1 :: "unit ep_io_mgr" where "ep_io_init True True True demo_conf = Some mgr" and "mgr_ok mgr"
    and "ep_io_find mgr 5 = None" and "ep_io_add mgr 5 () = (1, mgr1)" and "mgr_max_capacity mgr = 4194304"
    and "mgr_def_capacity mgr = 4096" and "mgr_tasks mgr = []"
proof -
  obtain mgr :: "unit ep_io_mgr" where m: "ep_io_init True True True demo_conf = Some mgr" "mgr_ok mgr"
    "mgr_list mgr = []" "mgr_tasks mgr = []" "mgr_max_capacity mgr = 4194304"
    using ep_io_init_ok [of demo_conf] by (auto simp: demo_conf_def)
  then have f: "ep_io_find mgr 5 = None" by (simp add: ep_io_find_def)
  moreover have "mgr_def_capacity mgr = 4096" using m(1) by (auto simp: ep_io_init_def ep_queue_new_def demo_conf_def)
  ultimately show ?thesis using that m ep_io_add_spec(1) [OF m(2) f, of "()"] by blast
qed

section \<open>Properties of the receive side\<close>

text \<open>However the bytes of a sequence of messages are cut into received pieces (none longer than the
  maximum capacity), a new connection hands exactly these messages to the thread pool, each once, in
  order, with its header and body intact; an incomplete message at the end is kept; every call
  succeeds, the last with code 0; and no other connection is touched.\<close>

theorem enqueue_delivers_frames:
  assumes "mgr_ok mgr" and "ep_io_find mgr fd = None" and "ep_io_add mgr fd extra = (1, mgr1)"
    and "list_all (frame_ok (mgr_max_capacity mgr)) fs"
    and "concat chunks = concat (map frame_bytes fs) @ part" and "length part < 18"
    and "list_all (\<lambda>d. int (length d) \<le> mgr_max_capacity mgr) chunks"
  shows "\<exists>mgr' ts. feed mgr1 fd chunks 0 = Some (0, mgr') \<and> mgr_ok mgr' \<and> mgr_tasks mgr' = mgr_tasks mgr @ ts \<and>
    list_all2 (task_carries fd) ts fs \<and> (\<forall>fd'. fd' \<noteq> fd \<longrightarrow> ep_io_find mgr' fd' = ep_io_find mgr fd')"
proof -
  obtain child where a: "mgr_ok mgr1" "ep_io_find mgr1 = (ep_io_find mgr)(fd \<mapsto> child)" "io_pending child = []"
    "mgr_max_capacity mgr1 = mgr_max_capacity mgr" "mgr_tasks mgr1 = mgr_tasks mgr"
    using ep_io_add_spec(1) [OF assms(1,2), of extra] assms(3) by auto
  have "parse_stream (mgr_max_capacity mgr) part = ([], 0, part)" "parse_stream (mgr_max_capacity mgr) [] = ([], 0, [])"
    using assms(6) by (simp_all add: parse_stream.simps)
  then show ?thesis
    using feed_spec [OF a(1), of fd child chunks 0 fs 0 part] parse_frames [OF assms(4), of part] assms(5,7) a by auto
qed

theorem enqueue_delivers_frames_witness:
  "\<exists>(mgr :: unit ep_io_mgr) mgr1 mgr' ts. ep_io_add mgr 5 () = (1, mgr1) \<and>
     feed mgr1 5 [take 7 (shell_encode (demo_shell 2)), drop 7 (shell_encode (demo_shell 2)) @ [8], [9, 0x90]] 0 = Some (0, mgr') \<and>
     mgr_tasks mgr' = ts \<and> list_all2 (task_carries 5) ts [(demo_shell 2, [8, 9])]"
proof -
  obtain mgr mgr1 :: "unit ep_io_mgr" where m: "mgr_ok mgr" "ep_io_find mgr 5 = None" "ep_io_add mgr 5 () = (1, mgr1)"
    "mgr_max_capacity mgr = 4194304" "mgr_tasks mgr = []" using demo_mgr by metis
  let ?chunks = "[take 7 (shell_encode (demo_shell 2)), drop 7 (shell_encode (demo_shell 2)) @ [8], [9, 0x90]] :: byte list list"
  have f: "list_all (frame_ok (mgr_max_capacity mgr)) [(demo_shell 2, [8, 9])]"
    by (simp add: m(4) frame_ok_def demo_shell_def)
  have c: "concat ?chunks = concat (map frame_bytes [(demo_shell 2, [8, 9])]) @ [0x90]"
    by (simp add: frame_bytes_def)
  have l: "list_all (\<lambda>d. int (length d) \<le> mgr_max_capacity mgr) ?chunks" by (simp add: m(4))
  from enqueue_delivers_frames [OF m(1-3) f c _ l] m(3,5) show ?thesis by auto
qed

text \<open>C5. For every stream of bytes, well-formed or not, the receive side computes the reference parser,
  independently of how the stream is cut: the frames before the first defect are handed over in
  order, and the code of the last call made tells the defect (-1 wrong magic number, -2 a body above the
  maximum) or what is missing (0 a header, 1 a body). The case excluded is a header with a negative
  size.\<close>

theorem enqueue_refines_parser:
  assumes "mgr_ok mgr" and "ep_io_find mgr fd = None" and "ep_io_add mgr fd extra = (1, mgr1)"
    and "list_all (\<lambda>d. int (length d) \<le> mgr_max_capacity mgr) chunks"
    and "parse_stream (mgr_max_capacity mgr) (concat chunks) = (fs, c, rest)" and "c \<noteq> -4"
  shows "\<exists>mgr' ts. feed mgr1 fd chunks 0 = Some (c, mgr') \<and> mgr_tasks mgr' = mgr_tasks mgr @ ts \<and>
    list_all2 (task_carries fd) ts fs"
proof -
  obtain child where a: "mgr_ok mgr1" "ep_io_find mgr1 = (ep_io_find mgr)(fd \<mapsto> child)" "io_pending child = []"
    "mgr_max_capacity mgr1 = mgr_max_capacity mgr" "mgr_tasks mgr1 = mgr_tasks mgr"
    using ep_io_add_spec(1) [OF assms(1,2), of extra] assms(3) by auto
  have "parse_stream (mgr_max_capacity mgr) [] = ([], 0, [])" by (simp add: parse_stream.simps)
  then show ?thesis
    using feed_spec [OF a(1), of fd child chunks 0 fs c rest] assms(4-6) a by auto
qed

theorem enqueue_refines_parser_witness:
  "\<exists>(mgr :: unit ep_io_mgr) mgr1 mgr'. ep_io_add mgr 5 () = (1, mgr1) \<and>
     feed mgr1 5 [replicate 10 0, replicate 10 0] 0 = Some (-1, mgr') \<and> mgr_tasks mgr' = []"
proof -
  obtain mgr mgr1 :: "unit ep_io_mgr" where m: "mgr_ok mgr" "ep_io_find mgr 5 = None" "ep_io_add mgr 5 () = (1, mgr1)"
    "mgr_max_capacity mgr = 4194304" "mgr_tasks mgr = []" using demo_mgr by metis
  have "magic (shell_decode (replicate 18 0)) = 0"
    by (simp add: shell_ntoh_def shell_of_image_def le_word16_def bswap_16_def)
  then have "parse_stream (mgr_max_capacity mgr) (concat [replicate 10 0, replicate 10 0]) = ([], -1, replicate 20 0)"
    by (simp add: parse_header [OF _ refl refl] EP_MAGIC_NUMBER_def flip: replicate_add)
  then have "\<exists>mgr' ts. feed mgr1 5 [replicate 10 0, replicate 10 0] 0 = Some (-1, mgr') \<and>
      mgr_tasks mgr' = mgr_tasks mgr @ ts \<and> list_all2 (task_carries 5) ts []"
    by (intro enqueue_refines_parser [OF m(1-3)]) (simp_all add: m(4))
  with m show ?thesis by auto
qed

text \<open>A connection whose next header carries the size -18: reading the body moves the head of the
  receive buffer back to the header.\<close>

definition io_stuck :: "ep_shell \<Rightarrow> 'x ep_io \<Rightarrow> bool" where
  "io_stuck sh child \<longleftrightarrow> rb_inv (io_recv child) \<and> \<not> io_cached child \<and>
     (\<exists>rest. rb_content (io_recv child) = shell_encode sh @ rest) \<and> rb_head (io_recv child) + 18 < rb_capacity (io_recv child) \<and>
     magic sh = EP_MAGIC_NUMBER \<and> shell_size sh = -18"

lemma rb_read_back:
  assumes i: "rb_inv rb" and c: "rb_content rb = xs @ rest" and n: "0 < n" "n = int (length xs)"
    and h: "rb_head rb + n < rb_capacity rb"
  shows "ep_rb_read rb n = Some (n, xs, rb\<lparr>rb_head := rb_head rb + n\<rparr>)"
    and "ep_rb_read (rb\<lparr>rb_head := rb_head rb + n\<rparr>) (- n) = Some (- n, [], rb)"
    and "rb_inv (rb\<lparr>rb_head := rb_head rb + n\<rparr>)"
proof -
  have l: "n \<le> ep_rb_can_read rb" using io_can_read [of "rb_limit rb" rb] i c n by (simp add: rb_ok_def)
  have r: "0 \<le> rb_head rb" "int (length (rb_buffer rb)) = rb_capacity rb" using i by (simp_all add: rb_inv_def)
  obtain rb' where "ep_rb_read rb n = Some (n, xs, rb')" "rb_ok (rb_limit rb) rb'" "rb_content rb' = rest"
    using rb.rd_exact [of "rb_limit rb" rb xs rest n] i c n by (auto simp: rb_ok_def)
  moreover have "ep_rb_read rb n = do { data \<leftarrow> mem_read (rb_buffer rb) (rb_head rb) n;
      Some (n, data, rb\<lparr>rb_head := rb_head rb + n\<rparr>) }"
    using l n h r by (simp add: ep_rb_read_def Let_def min_def)
  ultimately show first: "ep_rb_read rb n = Some (n, xs, rb\<lparr>rb_head := rb_head rb + n\<rparr>)"
    by (auto split: Option.bind_splits)
  show inv: "rb_inv (rb\<lparr>rb_head := rb_head rb + n\<rparr>)"
    using rb_read_spec [OF i, of n] first n by auto
  then have "0 \<le> ep_rb_can_read (rb\<lparr>rb_head := rb_head rb + n\<rparr>)" using rb_can_read_range by blast
  then show "ep_rb_read (rb\<lparr>rb_head := rb_head rb + n\<rparr>) (- n) = Some (- n, [], rb)"
    using n h r by (simp add: ep_rb_read_def Let_def min_def)
qed

lemma round_stuck:
  assumes s: "io_stuck sh child" and lim: "0 \<le> lim"
  shows "io_enqueue_round lim fd child = Some (Inr (ep_io_request_dispatcher fd sh None, child\<lparr>io_shell := sh\<rparr>))"
proof -
  let ?rb = "io_recv child"
  obtain rest where i: "rb_inv ?rb" "\<not> io_cached child" "rb_content ?rb = shell_encode sh @ rest"
    "rb_head ?rb + 18 < rb_capacity ?rb" "magic sh = EP_MAGIC_NUMBER" "shell_size sh = -18"
    using s by (auto simp: io_stuck_def)
  let ?rb1 = "?rb\<lparr>rb_head := rb_head ?rb + 18\<rparr>"
  have len: "18 = int (length (shell_encode sh))" "(0 :: int) < 18" by simp_all
  note rd = rb_read_back [OF i(1,3) len(2,1) i(4)]
  have l: "\<not> ep_rb_can_read ?rb < 18" using io_can_read [of "rb_limit ?rb" ?rb] i by (simp add: rb_ok_def)
  have r1: "rb_inv ?rb1" using rd(3) .
  have c1: "\<not> ep_rb_can_read ?rb1 < -18" using rb_can_read_range [OF r1] by simp
  have neg: "sint (shell_size sh) = -18" using i(6) by simp
  have fetch: "io_fetch_shell child = Some (child\<lparr>io_recv := ?rb1, io_shell := sh\<rparr>)"
    using rd(1) i by (simp add: io_fetch_shell_def sizeof_ep_shell_def)
  have same: "child\<lparr>io_shell := sh, io_recv := ?rb\<rparr> = child\<lparr>io_shell := sh\<rparr>"
    "child\<lparr>io_shell := sh, io_cached := False\<rparr> = child\<lparr>io_shell := sh\<rparr>"
    by (rule ep_io.equality; simp add: i(2))+
  have body: "io_take_body (child\<lparr>io_recv := ?rb1, io_shell := sh\<rparr>) = Some (None, child\<lparr>io_shell := sh\<rparr>)"
    using rd(2) i(4,6) buffer_new_null [of "-18" "[]"] same(1) by (simp add: io_take_body_def)
  show ?thesis
    using l i(2,5) fetch body c1 neg lim same(2) by (simp add: io_enqueue_round_def sizeof_ep_shell_def)
qed

lemma loop_stuck:
  assumes "0 \<le> lim" and "io_stuck sh child"
  shows "io_enqueue_loop lim fd child tasks = None"
proof -
  have "\<not> (0 \<le> lim \<and> io_stuck sh child)" if "io_enqueue_loop lim fd child tasks = Some r" for r
  proof (rule io_enqueue_loop.raw_induct
      [where P = "\<lambda>lim fd child tasks r. \<not> (0 \<le> lim \<and> io_stuck sh child)", OF _ that])
    fix loop :: "int \<Rightarrow> int \<Rightarrow> 'a ep_io \<Rightarrow> ep_io_task list \<Rightarrow> (int \<times> 'a ep_io \<times> ep_io_task list) option"
    fix lim fd child tasks r
    assume IH: "\<And>lim fd child tasks r. loop lim fd child tasks = Some r \<Longrightarrow> \<not> (0 \<le> lim \<and> io_stuck sh child)"
      and run: "do { r \<leftarrow> io_enqueue_round lim fd child;
        (case r of Inl x \<Rightarrow> Some (fst x, snd x, tasks) | Inr x \<Rightarrow> loop lim fd (snd x) (tasks @ [fst x])) } = Some r"
    show "\<not> (0 \<le> lim \<and> io_stuck sh child)"
    proof
      assume st: "0 \<le> lim \<and> io_stuck sh child"
      then have "io_stuck sh (child\<lparr>io_shell := sh\<rparr>)" by (simp add: io_stuck_def)
      with IH run st round_stuck [of sh child lim fd] show False by auto
    qed
  qed
  with assms show ?thesis by (cases "io_enqueue_loop lim fd child tasks") auto
qed

lemma rb_write_room:
  assumes "rb_inv rb" and "0 < count" and "count \<le> rb_capacity rb - ep_rb_can_read rb"
    and "ep_rb_write rb data count = Some (k, rb')"
  shows "rb_head rb' = rb_head rb"
  using assms by (auto simp: ep_rb_write_def ep_rb_expand_limit_def Let_def split: Option.bind_splits if_splits)

text \<open>C12. A header with the size -18, eighteen bytes any peer can send, keeps the receiving thread in the
  loop for ever, with the manager locked: the call does not return, and every round succeeds and ends
  in the state it started from.\<close>

theorem enqueue_negative_size_never_returns:
  assumes "mgr_ok mgr" and "18 < mgr_def_capacity mgr" and "18 \<le> mgr_max_capacity mgr"
    and "ep_io_find mgr fd = None" and "ep_io_add mgr fd extra = (1, mgr1)"
    and "magic sh = EP_MAGIC_NUMBER" and "shell_size sh = -18"
  shows "ep_io_enqueue mgr1 fd (shell_encode sh) 18 = None \<and>
    (\<exists>child recv child' task. ep_io_find mgr1 fd = Some child \<and>
       ep_rb_write (io_recv child) (shell_encode sh) 18 = Some (18, recv) \<and>
       io_enqueue_round (mgr_max_capacity mgr) fd (child\<lparr>io_recv := recv\<rparr>) = Some (Inr (task, child')) \<and>
       io_enqueue_round (mgr_max_capacity mgr) fd child' = Some (Inr (task, child')))"
proof -
  let ?lim = "mgr_max_capacity mgr"
  have p: "0 < mgr_def_capacity mgr" "0 < ?lim" using assms(1) by (simp_all add: mgr_ok_def)
  obtain rb where rb: "ep_rb_new True True (mgr_def_capacity mgr) ?lim = Some rb" "rb_ok ?lim rb"
    "rb_content rb = []" "rb_capacity rb = mgr_def_capacity mgr" using rb_new_ok [OF p] .
  have z: "rb_head rb = 0" "ep_rb_can_read rb = 0" using rb(1) p by (auto simp: ep_rb_new_def ep_rb_can_read_def)
  obtain child where child: "ep_io_find mgr1 fd = Some child" "io_recv child = rb" "\<not> io_cached child"
    "mgr_max_capacity mgr1 = ?lim"
    using assms(4,5) rb(1)
    by (auto simp: ep_io_add_def ep_queue_new_def ep_io_find_def find_append split: option.splits)
  obtain recv where w: "ep_rb_write rb (shell_encode sh) 18 = Some (18, recv)" "rb_ok ?lim recv"
    "rb_content recv = shell_encode sh"
    using rb.wr_all [OF rb(2), of "shell_encode sh"] assms(3) rb(3) by auto
  have i: "rb_inv rb" using rb(2) by (simp add: rb_ok_def)
  have h: "rb_head recv = 0" using rb_write_room [OF i _ _ w(1)] rb(4) z assms(2) by simp
  obtain recv' where "ep_rb_write rb (shell_encode sh) 18 = Some (rb_accept rb 18, recv')" "rb_capacity recv' = mgr_def_capacity mgr"
    using rb_write_spec [OF i, of 18 "shell_encode sh"] rb(4) z assms(2) by auto
  then have cap: "rb_capacity recv = mgr_def_capacity mgr" using w(1) by simp
  let ?c = "child\<lparr>io_recv := recv\<rparr>"
  have st: "io_stuck sh ?c" using w h cap child assms(2,6,7) by (simp add: io_stuck_def rb_ok_def)
  then have st': "io_stuck sh (?c\<lparr>io_shell := sh\<rparr>)" by (simp add: io_stuck_def)
  have "io_enqueue_loop ?lim fd ?c [] = None" using loop_stuck [OF _ st] p by simp
  then have "ep_io_enqueue mgr1 fd (shell_encode sh) 18 = None"
    using child w(1) by (simp add: ep_io_enqueue_def)
  moreover have "\<exists>task child'. io_enqueue_round ?lim fd ?c = Some (Inr (task, child')) \<and>
      io_enqueue_round ?lim fd child' = Some (Inr (task, child'))"
    using round_stuck [OF st, of ?lim fd] round_stuck [OF st', of ?lim fd] p by auto
  ultimately show ?thesis using child(1,2) w(1) by blast
qed

theorem enqueue_negative_size_never_returns_witness:
  "\<exists>(mgr :: unit ep_io_mgr) mgr1. ep_io_init True True True demo_conf = Some mgr \<and> ep_io_add mgr 5 () = (1, mgr1) \<and>
     ep_io_enqueue mgr1 5 (shell_encode (demo_shell (-18))) 18 = None"
proof -
  obtain mgr mgr1 :: "unit ep_io_mgr" where m: "ep_io_init True True True demo_conf = Some mgr" "mgr_ok mgr"
    "ep_io_find mgr 5 = None" "ep_io_add mgr 5 () = (1, mgr1)" "mgr_max_capacity mgr = 4194304" "mgr_def_capacity mgr = 4096"
    using demo_mgr by metis
  have "magic (demo_shell (-18)) = EP_MAGIC_NUMBER" "shell_size (demo_shell (-18)) = -18"
    by (simp_all add: demo_shell_def)
  from enqueue_negative_size_never_returns [OF m(2) _ _ m(3,4) this] m show ?thesis by auto
qed

end
