(* ===== verification/EP_Send.thy ===== *)
theory EP_Send
  imports EP_IO
begin

text \<open>
  The send side of the connection manager (\<open>eventpack/src/ep_io.c\<close>): registration as a table, the send
  thread, notifications, and what deletion does to queued messages.
\<close>

section \<open>Live buffers\<close>

text \<open>The addresses queued for sending, over all connections, are distinct and live.\<close>

definition queued :: "'x ep_io_mgr \<Rightarrow> nat list" where
  "queued mgr = concat (map (\<lambda>c. q_items (io_send c)) (mgr_list mgr))"

definition send_ok :: "'x ep_io_mgr \<Rightarrow> bool" where
  "send_ok mgr \<longleftrightarrow> mgr_ok mgr \<and> distinct (queued mgr) \<and> (\<forall>p \<in> set (queued mgr). mgr_heap mgr p \<noteq> None)"

lemma free_buffers_spec:
  "distinct ps \<Longrightarrow> \<forall>p \<in> set ps. heap p \<noteq> None \<Longrightarrow> free_buffers ps heap = Some (heap |` (- set ps))"
proof (induction ps arbitrary: heap)
  case (Cons p ps)
  then obtain b where "heap p = Some b" by auto
  moreover have "heap(p := None) |` (- set ps) = heap |` (- set (p # ps))"
    by (auto simp: restrict_map_def fun_eq_iff)
  moreover have "\<forall>q \<in> set ps. (heap(p := None)) q \<noteq> None" using Cons.prems by auto
  ultimately show ?case using Cons by (simp add: heap_take_def)
qed (simp add: restrict_map_def)

lemma ep_io_find_split:
  assumes "ep_io_find mgr fd = Some c"
  obtains ys zs where "mgr_list mgr = ys @ c # zs" and "io_fd c = fd" and "\<forall>y \<in> set ys. io_fd y \<noteq> fd"
  using assms find_some_split [of "\<lambda>c. io_fd c = fd" "mgr_list mgr" c] by (auto simp: ep_io_find_def)

lemma find_by_id:
  assumes "mgr_ok mgr" and "c \<in> set (mgr_list mgr)"
  shows "find (\<lambda>d. io_id d = io_id c) (mgr_list mgr) = Some c" and "ep_io_find mgr (io_fd c) = Some c"
proof -
  have uniq: "find (\<lambda>d. f d = f c) xs = Some c" if "distinct (map f xs)" "c \<in> set xs" for f :: "'a ep_io \<Rightarrow> 'k" and xs
    using that by (induction xs) (auto simp: rev_image_eqI)
  then show "find (\<lambda>d. io_id d = io_id c) (mgr_list mgr) = Some c" "ep_io_find mgr (io_fd c) = Some c"
    using assms by (auto simp: mgr_ok_def ep_io_find_def)
qed

section \<open>Registration\<close>

definition io_reg_find :: "'x ep_io_mgr \<Rightarrow> int \<Rightarrow> (int \<times> 'x) option" where
  "io_reg_find mgr fd = map_option (\<lambda>c. (io_fd c, io_extra c)) (ep_io_find mgr fd)"

definition io_reg_add :: "int \<times> 'x \<Rightarrow> 'x ep_io_mgr \<Rightarrow> bool \<times> 'x ep_io_mgr" where
  "io_reg_add e mgr = (let (ret, mgr') = ep_io_add mgr (fst e) (snd e) in (ret = 1, mgr'))"

definition io_reg_del :: "int \<Rightarrow> 'x ep_io_mgr \<Rightarrow> bool \<times> 'x ep_io_mgr" where
  "io_reg_del fd mgr = (case ep_io_del mgr fd of None \<Rightarrow> (False, mgr) | Some (ret, mgr') \<Rightarrow> (ret = 1, mgr'))"

lemma ep_io_add_send_ok:
  assumes "send_ok mgr"
  shows "send_ok (snd (ep_io_add mgr fd extra))"
proof (cases "ep_io_find mgr fd")
  case None
  have m: "mgr_ok mgr" using assms by (simp add: send_ok_def)
  have "mgr_ok (snd (ep_io_add mgr fd extra))" using ep_io_add_spec(1) [OF m None, of extra] by auto
  moreover have "queued (snd (ep_io_add mgr fd extra)) = queued mgr \<and> mgr_heap (snd (ep_io_add mgr fd extra)) = mgr_heap mgr"
    using None by (auto simp: ep_io_add_def ep_queue_new_def queued_def split: option.split)
  ultimately show ?thesis using assms by (simp add: send_ok_def)
next
  case (Some c)
  then show ?thesis using assms by (simp add: ep_io_add_def)
qed

lemma ep_io_del_spec:
  assumes s: "send_ok mgr" and f: "ep_io_find mgr fd = Some c"
  obtains mgr' where "ep_io_del mgr fd = Some (1, mgr')" and "send_ok mgr'"
    and "ep_io_find mgr' = (ep_io_find mgr)(fd := None)"
proof -
  have m: "mgr_ok mgr" using s by (simp add: send_ok_def)
  obtain ys zs where l: "mgr_list mgr = ys @ c # zs" "io_fd c = fd" "\<forall>y \<in> set ys. io_fd y \<noteq> fd"
    using ep_io_find_split [OF f] .
  have ids: "filter (\<lambda>d. io_id d \<noteq> io_id c) (mgr_list mgr) = ys @ zs"
    using m by (auto simp: l(1) mgr_ok_def image_iff intro!: arg_cong2 [of _ _ _ _ "(@)"] filter_True)
  let ?ps = "q_items (io_send c)"
  let ?m = "mgr\<lparr>mgr_list := ys @ zs, mgr_heap := mgr_heap mgr |` (- set ?ps)\<rparr>"
  have q: "distinct ?ps" "\<forall>p \<in> set ?ps. mgr_heap mgr p \<noteq> None" "set ?ps \<inter> set (queued ?m) = {}" "distinct (queued ?m)"
    using s by (auto simp: send_ok_def queued_def l(1))
  have "ep_io_del mgr fd = Some (1, ?m)"
    using f ids free_buffers_spec [OF q(1,2)] by (simp add: ep_io_del_def queue_drain_all ep_queue_stop_def)
  moreover have "mgr_ok ?m" using m by (auto simp: mgr_ok_def l(1))
  moreover have "\<forall>p \<in> set (queued ?m). mgr_heap ?m p \<noteq> None"
    using s q(3) by (auto simp: send_ok_def queued_def l(1) restrict_map_def)
  moreover have "ep_io_find ?m = (ep_io_find mgr)(fd := None)"
  proof
    fix fd'
    have zs: "\<forall>z \<in> set zs. io_fd z \<noteq> fd" using m l(2) by (auto simp: mgr_ok_def l(1) image_iff)
    have "find (\<lambda>tmp. io_fd tmp = fd) ys = None" "find (\<lambda>tmp. io_fd tmp = fd) zs = None"
      using l(3) zs by (auto simp: find_None_iff)
    then show "ep_io_find ?m fd' = ((ep_io_find mgr)(fd := None)) fd'"
      using l(2) by (auto simp: ep_io_find_def l(1) find_append split: option.split)
  qed
  ultimately show ?thesis using that q(4) by (simp add: send_ok_def)
qed

interpretation io_reg: keyed_table send_ok fst io_reg_find io_reg_add io_reg_del
proof
  fix t :: "'a ep_io_mgr" and k :: int and e :: "int \<times> 'a"
  show "io_reg_find t k = Some e \<Longrightarrow> fst e = k"
    by (auto simp: io_reg_find_def ep_io_find_def find_Some_iff)
  show "send_ok t \<Longrightarrow> io_reg_find t (fst e) = None \<Longrightarrow>
      fst (io_reg_add e t) \<and> send_ok (snd (io_reg_add e t)) \<and> io_reg_find (snd (io_reg_add e t)) = (io_reg_find t)(fst e \<mapsto> e)"
  proof -
    assume s: "send_ok t" and n: "io_reg_find t (fst e) = None"
    then have m: "mgr_ok t" "ep_io_find t (fst e) = None" by (simp_all add: send_ok_def io_reg_find_def)
    obtain mgr' child where a: "ep_io_add t (fst e) (snd e) = (1, mgr')" "mgr_ok mgr'"
      "ep_io_find mgr' = (ep_io_find t)(fst e \<mapsto> child)" "io_extra child = snd e"
      using ep_io_add_spec(1) [OF m, of "snd e"] by auto
    have "io_fd child = fst e" using ep_io_find_ok [OF a(2), of "fst e" child] a(3) by simp
    with a(4) have "(io_fd child, io_extra child) = e" by simp
    then have "io_reg_find mgr' = (io_reg_find t)(fst e \<mapsto> e)" by (simp add: fun_eq_iff io_reg_find_def a(3))
    then show ?thesis using ep_io_add_send_ok [OF s, of "fst e" "snd e"] a(1) by (simp add: io_reg_add_def)
  qed
  show "io_reg_find t (fst e) \<noteq> None \<Longrightarrow> io_reg_add e t = (False, t)"
    by (auto simp: io_reg_find_def io_reg_add_def ep_io_add_def)
  show "send_ok t \<Longrightarrow> fst (io_reg_del k t) = (io_reg_find t k \<noteq> None) \<and> send_ok (snd (io_reg_del k t)) \<and>
      io_reg_find (snd (io_reg_del k t)) = (io_reg_find t)(k := None)"
  proof (cases "ep_io_find t k")
    case (Some c)
    assume s: "send_ok t"
    obtain mgr' where "ep_io_del t k = Some (1, mgr')" "send_ok mgr'" "ep_io_find mgr' = (ep_io_find t)(k := None)"
      using ep_io_del_spec [OF s Some] .
    with Some show ?thesis by (auto simp: io_reg_del_def io_reg_find_def fun_eq_iff)
  qed (auto simp: io_reg_del_def io_reg_find_def ep_io_del_def fun_eq_iff)
qed

section \<open>The send thread\<close>

text \<open>What the transport has seen after sending a list of buffers.\<close>

definition send_all :: "(int \<Rightarrow> byte list \<Rightarrow> int \<Rightarrow> 'x \<Rightarrow> 'w \<Rightarrow> int \<times> 'w) \<Rightarrow> int \<Rightarrow> 'x \<Rightarrow> ep_buffer list \<Rightarrow> 'w \<Rightarrow> 'w" where
  "send_all send fd extra bs w = foldl (\<lambda>w b. snd (send fd (bf_chunk b) (bf_used b) extra w)) w bs"

definition sends :: "(int \<Rightarrow> byte list \<Rightarrow> int \<Rightarrow> 'x \<Rightarrow> 'w \<Rightarrow> int \<times> 'w) \<Rightarrow> bool" where
  "sends send \<longleftrightarrow> (\<forall>fd chunk n extra w. 0 < fst (send fd chunk n extra w))"

lemma ep_io_find_heap [simp]: "ep_io_find (mgr\<lparr>mgr_heap := h\<rparr>) = ep_io_find mgr" "mgr_ok (mgr\<lparr>mgr_heap := h\<rparr>) = mgr_ok mgr"
  "ep_io_find (mgr\<lparr>mgr_send_queue := q\<rparr>) = ep_io_find mgr" "mgr_ok (mgr\<lparr>mgr_send_queue := q\<rparr>) = mgr_ok mgr"
  by (auto simp: ep_io_find_def mgr_ok_def fun_eq_iff)

lemma io_ok_send [simp]: "io_ok lim (c\<lparr>io_send := q\<rparr>) = io_ok lim c"
  by (simp add: io_ok_def)

text \<open>A get pops the front of the queue of the connection.\<close>

lemma io_put_send:
  assumes "mgr_ok mgr" and "ep_io_find mgr fd = Some c"
  shows "mgr_ok (io_put (c\<lparr>io_send := q\<rparr>) mgr)" and "ep_io_find (io_put (c\<lparr>io_send := q\<rparr>) mgr) = (ep_io_find mgr)(fd \<mapsto> c\<lparr>io_send := q\<rparr>)"
proof -
  have ids: "io_id (c\<lparr>io_send := q\<rparr>) = io_id c" "io_fd (c\<lparr>io_send := q\<rparr>) = io_fd c" by simp_all
  have ok: "io_ok (mgr_max_capacity mgr) (c\<lparr>io_send := q\<rparr>)" using ep_io_find_ok [OF assms] by simp
  note put = io_put_spec [OF assms ids ok]
  show "mgr_ok (io_put (c\<lparr>io_send := q\<rparr>) mgr)" by (rule put(1))
  show "ep_io_find (io_put (c\<lparr>io_send := q\<rparr>) mgr) = (ep_io_find mgr)(fd \<mapsto> c\<lparr>io_send := q\<rparr>)"
    using put(2,3) by (auto simp: fun_eq_iff)
qed

lemma send_loop_all:
  assumes "mgr_ok mgr" and "ep_io_find mgr fd = Some c" and "q_items (io_send c) = ps" and "distinct ps"
    and "\<forall>p \<in> set ps. mgr_heap mgr p \<noteq> None" and "sends send"
  shows "\<exists>mgr'. io_send_loop send on_error fd extra mgr w =
      Some (mgr', send_all send fd extra (map (\<lambda>p. the (mgr_heap mgr p)) ps) w) \<and> mgr_ok mgr' \<and>
    ep_io_find mgr' = (ep_io_find mgr)(fd \<mapsto> c\<lparr>io_send := (io_send c)\<lparr>q_items := []\<rparr>\<rparr>) \<and>
    mgr_heap mgr' = mgr_heap mgr |` (- set ps) \<and> mgr_send_queue mgr' = mgr_send_queue mgr"
  using assms
proof (induction ps arbitrary: mgr c w)
  case Nil
  have "c\<lparr>io_send := (io_send c)\<lparr>q_items := []\<rparr>\<rparr> = c" using Nil.prems(3) by (simp flip: Nil.prems(3))
  moreover have "io_put (c\<lparr>io_send := io_send c\<rparr>) mgr = mgr"
  proof -
    have "\<forall>d \<in> set (mgr_list mgr). io_id d = io_id c \<longrightarrow> d = c"
      using Nil.prems(1,2) by (auto simp: mgr_ok_def ep_io_find_def find_Some_iff distinct_map inj_on_def)
    then have "map (\<lambda>d. if io_id d = io_id c then c else d) (mgr_list mgr) = mgr_list mgr"
      by (auto intro!: map_idI)
    then show ?thesis by (simp add: io_put_def)
  qed
  ultimately show ?case
    using Nil.prems(1-3)
    by (subst io_send_loop.simps) (auto simp: ep_io_get_def ep_queue_get_begin_def send_all_def restrict_map_def fun_eq_iff)
next
  case (Cons p ps)
  obtain b where b: "mgr_heap mgr p = Some b" using Cons.prems(5) by auto
  let ?c = "c\<lparr>io_send := (io_send c)\<lparr>q_items := ps\<rparr>\<rparr>"
  let ?m = "(io_put ?c mgr)\<lparr>mgr_heap := (mgr_heap mgr)(p := None)\<rparr>"
  let ?w = "snd (send fd (bf_chunk b) (bf_used b) extra w)"
  note put = io_put_send [OF Cons.prems(1,2), of "(io_send c)\<lparr>q_items := ps\<rparr>"]
  have "0 < fst (send fd (bf_chunk b) (bf_used b) extra w)" using Cons.prems(6) by (simp add: sends_def)
  then have step: "io_send_loop send on_error fd extra mgr w = io_send_loop send on_error fd extra ?m ?w"
    using Cons.prems(2,3) b
    by (subst io_send_loop.simps)
      (auto simp: ep_io_get_def ep_queue_get_begin_def heap_take_def Let_def split: prod.splits)
  have same: "map (\<lambda>q. the (mgr_heap ?m q)) ps = map (\<lambda>q. the (mgr_heap mgr q)) ps"
    using Cons.prems(4) by auto
  have live: "\<forall>q \<in> set ps. mgr_heap ?m q \<noteq> None" using Cons.prems(4,5) by auto
  have "mgr_ok ?m" "ep_io_find ?m fd = Some ?c" "q_items (io_send ?c) = ps" "distinct ps" using put Cons.prems(4) by simp_all
  from Cons.IH [OF this live Cons.prems(6), of ?w]
  obtain mgr' where l: "io_send_loop send on_error fd extra ?m ?w = Some (mgr', send_all send fd extra (map (\<lambda>q. the (mgr_heap ?m q)) ps) ?w)"
    "mgr_ok mgr'" "ep_io_find mgr' = (ep_io_find ?m)(fd \<mapsto> ?c\<lparr>io_send := (io_send ?c)\<lparr>q_items := []\<rparr>\<rparr>)"
    "mgr_heap mgr' = mgr_heap ?m |` (- set ps)" "mgr_send_queue mgr' = mgr_send_queue ?m" by blast
  have "ep_io_find mgr' = (ep_io_find mgr)(fd \<mapsto> c\<lparr>io_send := (io_send c)\<lparr>q_items := []\<rparr>\<rparr>)"
    using l(3) put(2) by simp
  moreover have "mgr_heap mgr' = mgr_heap mgr |` (- set (p # ps))"
    using l(4) by (auto simp: restrict_map_def fun_eq_iff)
  moreover have "send_all send fd extra (map (\<lambda>q. the (mgr_heap ?m q)) ps) ?w =
      send_all send fd extra (map (\<lambda>q. the (mgr_heap mgr q)) (p # ps)) w"
    unfolding same using b by (simp add: send_all_def)
  ultimately show ?case using step l(1,2,5) by (simp add: fun_upd_def)
qed

lemma routine_item_spec:
  assumes m: "mgr_ok mgr" and c: "c \<in> set (mgr_list mgr)" and q: "q_items (mgr_send_queue mgr) = io_id c # rest"
    and d: "distinct (q_items (io_send c))" and live: "\<forall>p \<in> set (q_items (io_send c)). mgr_heap mgr p \<noteq> None"
    and s: "sends send"
  shows "\<exists>mgr'. ep_io_routine_item send on_error mgr w =
      Some (mgr', send_all send (io_fd c) (io_extra c) (map (\<lambda>p. the (mgr_heap mgr p)) (q_items (io_send c))) w) \<and>
    mgr_ok mgr' \<and> q_items (mgr_send_queue mgr') = rest \<and> mgr_heap mgr' = mgr_heap mgr |` (- set (q_items (io_send c))) \<and>
    ep_io_find mgr' = (ep_io_find mgr)(io_fd c \<mapsto> c\<lparr>io_send := (io_send c)\<lparr>q_items := []\<rparr>\<rparr>)"
proof -
  let ?m = "mgr\<lparr>mgr_send_queue := (mgr_send_queue mgr)\<lparr>q_items := rest\<rparr>\<rparr>"
  have f: "ep_io_find ?m (io_fd c) = Some c" "mgr_ok ?m" using find_by_id(2) [OF m c] m by simp_all
  have l: "\<forall>p \<in> set (q_items (io_send c)). mgr_heap ?m p \<noteq> None" using live by simp
  have "ep_io_routine_item send on_error mgr w = io_send_loop send on_error (io_fd c) (io_extra c) ?m w"
    using q find_by_id(1) [OF m c] by (simp add: ep_io_routine_item_def ep_queue_get_begin_def)
  then show ?thesis using send_loop_all [OF f(2,1) refl d l s, of on_error "io_extra c" w] by auto
qed

section \<open>Notifications\<close>

lemma nodify_loop_spec:
  "nodify_loop notify_type curfd inbuf ios =
     (int (length (filter (\<lambda>c. nodify_selects notify_type curfd (io_fd c)) ios)),
      map (\<lambda>c. if nodify_selects notify_type curfd (io_fd c) then c\<lparr>io_send := queue_push (io_send c) inbuf\<rparr> else c) ios,
      map io_id (filter (\<lambda>c. nodify_selects notify_type curfd (io_fd c)) ios))"
  by (induction ios) auto

lemma queue_push_all: "q_items (foldl queue_push q xs) = q_items q @ xs" "q_stop (foldl queue_push q xs) = q_stop q"
  by (induction xs arbitrary: q) (simp_all add: queue_push_def)

lemma queue_push_items [simp]: "q_items (queue_push q x) = q_items q @ [x]"
  by (simp add: queue_push_def)

lemma nodify_eq:
  "ep_io_nodify_fd mgr curfd notify_type inbuf =
     (int (length (filter (\<lambda>c. nodify_selects notify_type curfd (io_fd c)) (mgr_list mgr))),
      mgr\<lparr>mgr_list := map (\<lambda>c. if nodify_selects notify_type curfd (io_fd c)
            then c\<lparr>io_send := queue_push (io_send c) inbuf\<rparr> else c) (mgr_list mgr),
          mgr_send_queue := foldl queue_push (mgr_send_queue mgr)
            (map io_id (filter (\<lambda>c. nodify_selects notify_type curfd (io_fd c)) (mgr_list mgr)))\<rparr>)"
  by (simp add: ep_io_nodify_fd_def nodify_loop_spec)

lemma nodify_mgr_ok:
  assumes "mgr_ok mgr"
  shows "mgr_ok (snd (ep_io_nodify_fd mgr curfd notify_type inbuf))"
proof -
  have "map io_fd (map (\<lambda>c. if P c then c\<lparr>io_send := f c\<rparr> else c) xs) = map io_fd xs"
    "map io_id (map (\<lambda>c. if P c then c\<lparr>io_send := f c\<rparr> else c) xs) = map io_id xs" for P f and xs :: "'a ep_io list"
    by simp_all
  then show ?thesis using assms unfolding nodify_eq mgr_ok_def by (auto simp del: map_map)
qed

section \<open>Properties\<close>

text \<open>C10. Registration of connections is a table by descriptor: over every sequence of additions and
  deletions from a manager whose queued buffers are live and distinct, an addition succeeds exactly
  when the descriptor is free, a deletion exactly when it is taken and without a second free of any
  buffer, and a lookup gives the connection registered last.\<close>

theorem io_registration_is_table:
  assumes "send_ok mgr"
  shows "fst (table_run io_reg_add io_reg_del ops mgr) = fst (map_run fst ops (io_reg_find mgr)) \<and>
    io_reg_find (snd (table_run io_reg_add io_reg_del ops mgr)) = snd (map_run fst ops (io_reg_find mgr)) \<and>
    send_ok (snd (table_run io_reg_add io_reg_del ops mgr))"
  using io_reg.table_run_refines [OF assms] by blast

theorem io_registration_is_table_witness:
  "\<exists>mgr :: unit ep_io_mgr. ep_io_init True True True demo_conf = Some mgr \<and>
     fst (table_run io_reg_add io_reg_del [TAdd (5, ()), TAdd (5, ()), TDel 6, TDel 5, TDel 5] mgr) =
       [True, False, False, True, False]"
proof -
  obtain mgr :: "unit ep_io_mgr" where m: "ep_io_init True True True demo_conf = Some mgr" "mgr_ok mgr" "mgr_list mgr = []"
    using ep_io_init_ok [of demo_conf] by (auto simp: demo_conf_def)
  have "send_ok mgr" "io_reg_find mgr = Map.empty"
    using m by (auto simp: send_ok_def queued_def io_reg_find_def ep_io_find_def)
  from io_registration_is_table [OF this(1), of "[TAdd (5, ()), TAdd (5, ()), TDel 6, TDel 5, TDel 5]"] this(2) m(1)
  show ?thesis by (intro exI [of _ mgr]) simp
qed


text \<open>One idle connection with an empty send queue, for evaluation.\<close>

lemma demo_one:
  obtains mgr :: "unit ep_io_mgr" and c where "send_ok mgr" and "mgr_list mgr = [c]" and "io_fd c = 5" and "io_id c = 0"
    and "q_items (io_send c) = []" and "q_items (mgr_send_queue mgr) = []"
proof -
  obtain mgr mgr1 :: "unit ep_io_mgr" where m: "ep_io_init True True True demo_conf = Some mgr" "mgr_ok mgr"
    "ep_io_find mgr 5 = None" "ep_io_add mgr 5 () = (1, mgr1)" using demo_mgr by metis
  have l: "mgr_list mgr = []" "mgr_next mgr = 0" "q_items (mgr_send_queue mgr) = []"
    using m(1) by (auto simp: ep_io_init_def ep_queue_new_def)
  have "send_ok mgr" using m(2) l by (simp add: send_ok_def queued_def)
  from ep_io_add_send_ok [OF this, of 5 "()"] have "send_ok mgr1" using m(4) by simp
  moreover have "\<exists>c. mgr_list mgr1 = [c] \<and> io_fd c = 5 \<and> io_id c = 0 \<and> q_items (io_send c) = [] \<and> mgr_send_queue mgr1 = mgr_send_queue mgr"
    using m(3,4) l by (auto simp: ep_io_add_def ep_queue_new_def split: option.splits)
  ultimately show ?thesis using that l by auto
qed

lemma send_ok_heap: "send_ok mgr \<Longrightarrow> queued mgr = [] \<Longrightarrow> send_ok (mgr\<lparr>mgr_heap := h\<rparr>)"
  by (simp add: send_ok_def queued_def)

definition demo_buffer :: ep_buffer where
  "demo_buffer = \<lparr>bf_chunk = [1, 2, 3], bf_capacity = 3, bf_used = 3\<rparr>"

definition demo_send :: "int \<Rightarrow> byte list \<Rightarrow> int \<Rightarrow> unit \<Rightarrow> (int \<times> byte list) list \<Rightarrow> int \<times> (int \<times> byte list) list" where
  "demo_send fd chunk n extra w = (\<bar>n\<bar> + 1, w @ [(fd, chunk)])"

lemma demo_sends: "sends demo_send"
proof -
  have "(0::int) < \<bar>n\<bar> + 1" for n by linarith
  then show ?thesis by (simp add: sends_def demo_send_def)
qed


text \<open>A notification to several connections shares one buffer between their queues. Once the first of
  them has been served, the buffer is gone: the send thread then reads a freed buffer.\<close>

theorem broadcast_uses_freed_buffer:
  assumes m: "mgr_ok mgr" and l: "mgr_list mgr = c1 # c2 # cs" and e: "\<forall>c \<in> set (mgr_list mgr). q_items (io_send c) = []"
    and q: "q_items (mgr_send_queue mgr) = []" and p: "mgr_heap mgr p = Some b" and s: "sends send"
  shows "\<exists>mgr1. ep_io_routine_item send on_error (snd (ep_io_nodify_fd mgr curfd 0 p)) w =
      Some (mgr1, snd (send (io_fd c1) (bf_chunk b) (bf_used b) (io_extra c1) w)) \<and>
    (\<forall>w'. ep_io_routine_item send on_error mgr1 w' = None)"
proof -
  let ?m = "snd (ep_io_nodify_fd mgr curfd 0 p)"
  let ?c = "\<lambda>c. c\<lparr>io_send := queue_push (io_send c) p\<rparr>"
  have ok: "mgr_ok ?m" using nodify_mgr_ok [OF m] .
  have lm: "mgr_list ?m = map ?c (mgr_list mgr)" "q_items (mgr_send_queue ?m) = map io_id (mgr_list mgr)" "mgr_heap ?m = mgr_heap mgr"
    by (simp_all add: nodify_eq nodify_selects_def queue_push_all q)
  have i1: "q_items (io_send (?c c1)) = [p]" "q_items (io_send (?c c2)) = [p]" using e l by (simp_all add: queue_push_def)
  have fds: "io_fd c1 \<noteq> io_fd c2" using m l by (simp add: mgr_ok_def)
  have "?c c1 \<in> set (mgr_list ?m)" "?c c2 \<in> set (mgr_list ?m)" by (simp_all add: lm l)
  note in1 = this(1) and find2 = find_by_id(2) [OF ok this(2)]
  have q1: "q_items (mgr_send_queue ?m) = io_id (?c c1) # map io_id (c2 # cs)" by (simp add: lm l)
  have "distinct (q_items (io_send (?c c1)))" "\<forall>p \<in> set (q_items (io_send (?c c1))). mgr_heap ?m p \<noteq> None"
    using i1 lm p by simp_all
  from routine_item_spec [OF ok in1 q1 this s, of on_error w] i1 lm(3) p
  obtain mgr1 where r: "ep_io_routine_item send on_error ?m w = Some (mgr1, send_all send (io_fd c1) (io_extra c1) [b] w)"
    "mgr_ok mgr1" "q_items (mgr_send_queue mgr1) = map io_id (c2 # cs)" "mgr_heap mgr1 = mgr_heap mgr |` (- {p})"
    "ep_io_find mgr1 = (ep_io_find ?m)(io_fd c1 \<mapsto> (?c c1)\<lparr>io_send := (io_send (?c c1))\<lparr>q_items := []\<rparr>\<rparr>)"
    by auto
  have f2: "ep_io_find mgr1 (io_fd c2) = Some (?c c2)" using r(5) find2 fds by simp
  then have in2: "?c c2 \<in> set (mgr_list mgr1)" by (auto simp: ep_io_find_def find_Some_iff in_set_conv_nth)
  have "ep_io_routine_item send on_error mgr1 w' = None" for w'
    using r(3,4) f2 find_by_id(1) [OF r(2) in2] i1(2)
    by (auto simp: ep_io_routine_item_def ep_queue_get_begin_def io_send_loop.simps ep_io_get_def heap_take_def)
  then show ?thesis using r(1) by (intro exI [of _ mgr1]) (simp add: send_all_def)
qed

theorem broadcast_uses_freed_buffer_witness:
  "\<exists>(mgr :: unit ep_io_mgr) mgr1. length (mgr_list mgr) = 2 \<and> mgr_heap mgr 7 = Some demo_buffer \<and>
     ep_io_routine_item demo_send (\<lambda>fd m. Some m) (snd (ep_io_nodify_fd mgr 0 0 7)) [] = Some (mgr1, [(5, [1, 2, 3])]) \<and>
     ep_io_routine_item demo_send (\<lambda>fd m. Some m) mgr1 [] = None"
proof -
  obtain mgr :: "unit ep_io_mgr" and c where m: "send_ok mgr" "mgr_list mgr = [c]" "io_fd c = 5" "io_id c = 0"
    "q_items (io_send c) = []" "q_items (mgr_send_queue mgr) = []" by (rule demo_one)
  let ?n = "mgr\<lparr>mgr_heap := [7 \<mapsto> demo_buffer]\<rparr>"
  let ?m = "snd (ep_io_add ?n 6 ())"
  have s0: "send_ok ?n" using m by (intro send_ok_heap) (simp_all add: queued_def)
  then have p: "0 < mgr_def_capacity mgr" by (simp add: send_ok_def mgr_ok_def)
  have ok: "mgr_ok ?m" using ep_io_add_send_ok [OF s0] by (simp add: send_ok_def)
  have "\<exists>d. mgr_list ?m = [c, d] \<and> q_items (io_send d) = []"
    and r: "q_items (mgr_send_queue ?m) = []" "mgr_heap ?m 7 = Some demo_buffer"
    using m p by (simp_all add: ep_io_add_def ep_io_find_def ep_queue_new_def ep_rb_new_def)
  then obtain d where d: "mgr_list ?m = c # d # []" "q_items (io_send d) = []" by auto
  then have "\<forall>c \<in> set (mgr_list ?m). q_items (io_send c) = []" using m(5) by simp
  from broadcast_uses_freed_buffer [OF ok d(1) this r demo_sends, of "\<lambda>fd m. Some m" 0 "[]"] d r m(3)
  show ?thesis by - (rule exI [of _ ?m], auto simp: demo_send_def demo_buffer_def)
qed

text \<open>Deleting a connection leaves its address in the queue of the send thread: after a notification to
  one connection and its deletion, the send thread reads a freed connection.\<close>

theorem delete_leaves_dangling_connection:
  assumes s: "send_ok mgr" and f: "ep_io_find mgr fd = Some c" and q: "q_items (mgr_send_queue mgr) = []"
    and p: "mgr_heap mgr p = Some b" "p \<notin> set (queued mgr)"
  shows "\<exists>mgr1. ep_io_del (snd (ep_io_nodify_fd mgr fd 1 p)) fd = Some (1, mgr1) \<and>
    ep_io_routine_item send on_error mgr1 w = None"
proof -
  let ?m = "snd (ep_io_nodify_fd mgr fd 1 p)"
  have m: "mgr_ok mgr" using s by (simp add: send_ok_def)
  have ok: "mgr_ok ?m" using nodify_mgr_ok [OF m] .
  obtain ys zs where l: "mgr_list mgr = ys @ c # zs" "io_fd c = fd" "\<forall>y \<in> set ys. io_fd y \<noteq> fd"
    using ep_io_find_split [OF f] .
  have zs: "\<forall>z \<in> set zs. io_fd z \<noteq> fd" using m l(2) by (auto simp: mgr_ok_def l(1) image_iff)
  let ?c = "c\<lparr>io_send := queue_push (io_send c) p\<rparr>"
  have id: "map (\<lambda>c. if io_fd c = fd then c\<lparr>io_send := queue_push (io_send c) p\<rparr> else c) xs = xs"
    if "\<forall>x \<in> set xs. io_fd x \<noteq> fd" for xs :: "'a ep_io list" using that by (auto intro!: map_idI)
  have none: "filter (\<lambda>c. io_fd c = fd) ys = []" "filter (\<lambda>c. io_fd c = fd) zs = []"
    using l(3) zs by (auto simp: filter_empty_conv)
  have lm: "mgr_list ?m = ys @ ?c # zs" "q_items (mgr_send_queue ?m) = [io_id c]" "mgr_heap ?m = mgr_heap mgr"
    using l id [OF l(3)] id [OF zs] none by (simp_all add: nodify_eq nodify_selects_def queue_push_all q)
  have so: "send_ok ?m"
    using s ok p by (auto simp: send_ok_def queued_def lm l(1) queue_push_def)
  have "ep_io_find ?m fd = Some ?c" using find_by_id(2) [OF ok, of ?c] l(2) by (simp add: lm)
  with so obtain mgr1 where d: "ep_io_del ?m fd = Some (1, mgr1)" using ep_io_del_spec by metis
  have "mgr_list mgr1 = filter (\<lambda>d. io_id d \<noteq> io_id c) (mgr_list ?m) \<and> mgr_send_queue mgr1 = mgr_send_queue ?m"
    using d \<open>ep_io_find ?m fd = Some ?c\<close> by (auto simp: ep_io_del_def Let_def split: prod.splits Option.bind_splits)
  moreover have "find (\<lambda>d. io_id d = io_id c) (filter (\<lambda>d. io_id d \<noteq> io_id c) (mgr_list ?m)) = None"
    by (simp add: find_None_iff)
  ultimately have "ep_io_routine_item send on_error mgr1 w = None"
    using lm(2) by (simp add: ep_io_routine_item_def ep_queue_get_begin_def)
  with d show ?thesis by blast
qed

theorem delete_leaves_dangling_connection_witness:
  "\<exists>(mgr :: unit ep_io_mgr) mgr1. ep_io_del (snd (ep_io_nodify_fd mgr 5 1 7)) 5 = Some (1, mgr1) \<and>
     ep_io_routine_item demo_send (\<lambda>fd m. Some m) mgr1 [] = None"
proof -
  obtain mgr :: "unit ep_io_mgr" and c where m: "send_ok mgr" "mgr_list mgr = [c]" "io_fd c = 5" "io_id c = 0"
    "q_items (io_send c) = []" "q_items (mgr_send_queue mgr) = []" by (rule demo_one)
  let ?m = "mgr\<lparr>mgr_heap := [7 \<mapsto> demo_buffer]\<rparr>"
  have "send_ok ?m" using m by (intro send_ok_heap) (simp_all add: queued_def)
  moreover have "ep_io_find ?m 5 = Some c" "q_items (mgr_send_queue ?m) = []" "mgr_heap ?m 7 = Some demo_buffer" "7 \<notin> set (queued ?m)"
    using m by (simp_all add: ep_io_find_def queued_def)
  ultimately show ?thesis
    using delete_leaves_dangling_connection [of ?m 5 c 7 demo_buffer demo_send "\<lambda>fd m. Some m" "[]"] by blast
qed

end
