(* ===== verification/EP_Message.thy ===== *)
theory EP_Message
  imports EP_Send EP_Dispatch
begin

text \<open>
  Messages (\<open>eventpack/src/ep_io.c\<close>): what the sender does to a body and a header
  (\<open>ep_io_combine_shell\<close>), how the receiver undoes it (\<open>ep_io_recombine_original\<close>), and the work of a
  thread of the pool on one frame (\<open>ep_io_processor\<close>).

  Packets are opaque here: \<open>unpack\<close> is \<open>ep_pack_create\<close> on the bytes of a body and \<open>pack_bytes\<close> the
  bytes of a finished packet. \<open>beyond\<close> is the memory behind a block (see \<open>EP_Buffer\<close>).
\<close>

section \<open>The model\<close>

definition sender_compress :: "ep_io_refor \<Rightarrow> ep_shell \<Rightarrow> 3 word" where
  "sender_compress refor shell =
     (if refor = ep_io_refor_client then c_compress (proto shell) else s_compress (proto shell))"

definition sender_crypt :: "ep_io_refor \<Rightarrow> ep_shell \<Rightarrow> 3 word" where
  "sender_crypt refor shell = (if refor = ep_io_refor_client then c_crypt (proto shell) else s_crypt (proto shell))"

definition set_sender_compress :: "ep_io_refor \<Rightarrow> 3 word \<Rightarrow> ep_shell \<Rightarrow> ep_shell" where
  "set_sender_compress refor v shell =
     (if refor = ep_io_refor_client then shell\<lparr>proto := (proto shell)\<lparr>c_compress := v\<rparr>\<rparr>
      else shell\<lparr>proto := (proto shell)\<lparr>s_compress := v\<rparr>\<rparr>)"

text \<open>The compression step: 1 always, 2 only above the threshold, and then the header says which.\<close>

definition combine_compress :: "ep_ext \<Rightarrow> 'x ep_io_mgr \<Rightarrow> ep_shell \<Rightarrow> ep_buffer \<Rightarrow> (ep_shell \<times> ep_buffer) option option" where
  "combine_compress ext mgr shell b =
     (let compress = sender_compress (mgr_refor mgr) shell in
      if compress = 1 then on_value (ep_buffer_compress ext b) (\<lambda>b. Some (Some (shell, b)))
      else if compress = 2 then
        if ep_buffer_size b > mgr_mini_compress_if mgr
        then on_value (ep_buffer_compress ext b) (\<lambda>b. Some (Some (set_sender_compress (mgr_refor mgr) 1 shell, b)))
        else Some (Some (set_sender_compress (mgr_refor mgr) 0 shell, b))
      else Some (Some (shell, b)))"

definition combine_encrypt :: "ep_ext \<Rightarrow> byte list \<Rightarrow> 'x ep_io_mgr \<Rightarrow> int \<Rightarrow> 3 word \<Rightarrow> ep_buffer \<Rightarrow> ep_buffer option option" where
  "combine_encrypt ext beyond mgr fd crypt b =
     (if crypt = 1 then
        (case ep_io_get_aes mgr fd of
           None \<Rightarrow> Some None
         | Some aes \<Rightarrow> ep_buffer_encrypt ext beyond b aes)
      else Some (Some b))"

text \<open>The block of the message: the header in network order, then the body.\<close>

definition combine_out :: "ep_shell \<Rightarrow> byte list \<Rightarrow> int \<Rightarrow> ep_buffer option option" where
  "combine_out shell shell_buffer n =
     (case ep_malloc (sizeof_ep_shell + n + 1) of
        None \<Rightarrow> Some None
      | Some out_buf \<Rightarrow> do {
          let shell = shell_hton (shell\<lparr>shell_size := word_of_int n\<rparr>);
          out_buf \<leftarrow> mem_write out_buf 0 (shell_image shell);
          body \<leftarrow> mem_read shell_buffer 0 n;
          out_buf \<leftarrow> mem_write out_buf sizeof_ep_shell body;
          ep_buffer_new out_buf (sizeof_ep_shell + n)
        })"

definition ep_io_combine_shell ::
  "ep_ext \<Rightarrow> byte list \<Rightarrow> 'x ep_io_mgr \<Rightarrow> int \<Rightarrow> ep_shell \<Rightarrow> ep_buffer option \<Rightarrow> ep_buffer option option" where
  "ep_io_combine_shell ext beyond mgr fd shell inbuf =
     (case inbuf of
        Some b \<Rightarrow>
          (let shell = shell\<lparr>pack_size := word_of_int (ep_buffer_size b)\<rparr>;
               crypt = sender_crypt (mgr_refor mgr) shell in
           on_value (combine_compress ext mgr shell b) (\<lambda>(shell, b).
             let shell = shell\<lparr>decrypt_size := word_of_int (ep_buffer_size b)\<rparr> in
             on_value (combine_encrypt ext beyond mgr fd crypt b) (\<lambda>b.
               combine_out shell (ep_buffer_ptr b) (ep_buffer_size b))))
      | None \<Rightarrow> combine_out (shell\<lparr>pack_size := 0\<rparr>) [] 0)"

text \<open>The receiver reads the choices of the other side. A null body has no block to work on.\<close>

definition ep_io_recombine_original ::
  "ep_ext \<Rightarrow> byte list \<Rightarrow> 'x ep_io_mgr \<Rightarrow> int \<Rightarrow> ep_shell \<Rightarrow> ep_buffer option \<Rightarrow> ep_buffer option option" where
  "ep_io_recombine_original ext beyond mgr fd shell inbuf =
     (let compress = (if mgr_refor mgr = ep_io_refor_client then s_compress (proto shell) else c_compress (proto shell));
          crypt = (if mgr_refor mgr = ep_io_refor_client then s_crypt (proto shell) else c_crypt (proto shell)) in
      on_value
        (if crypt = 1 then
           (case ep_io_get_aes mgr fd of
              None \<Rightarrow> Some None
            | Some aes \<Rightarrow> do { b \<leftarrow> inbuf; ep_buffer_decrypt ext beyond b aes (sint (decrypt_size shell)) })
         else Some inbuf)
        (\<lambda>b. if compress = 1 then ep_buffer_decompress ext b (sint (pack_size shell)) else Some (Some b)))"

text \<open>A new buffer on the heap, pushed to a connection, and the connection to the send thread.\<close>

definition io_reply :: "'x ep_io_mgr \<Rightarrow> int \<Rightarrow> ep_buffer \<Rightarrow> 'x ep_io_mgr" where
  "io_reply mgr fd body =
     (case ep_io_find mgr fd of
        None \<Rightarrow> mgr
      | Some child \<Rightarrow>
          (let p = mgr_next mgr in
           (io_put (child\<lparr>io_send := queue_push (io_send child) p\<rparr>) mgr)
             \<lparr>mgr_send_queue := queue_push (mgr_send_queue mgr) (io_id child),
              mgr_heap := (mgr_heap mgr)(p \<mapsto> body), mgr_next := p + 1\<rparr>))"

definition processor_reply ::
  "ep_ext \<Rightarrow> byte list \<Rightarrow> ('p \<Rightarrow> byte list) \<Rightarrow> 'x ep_io_mgr \<Rightarrow> int \<Rightarrow> ep_shell \<Rightarrow> 'p option \<Rightarrow> 'x ep_io_mgr option" where
  "processor_reply ext beyond pack_bytes mgr fd shell ret_packet =
     (case ret_packet of
        None \<Rightarrow> Some mgr
      | Some pk \<Rightarrow>
          if pack_bytes pk = [] then Some mgr
          else do {
            inbuf \<leftarrow> ep_buffer_new (pack_bytes pk) (int (length (pack_bytes pk)));
            (case inbuf of
               None \<Rightarrow> Some mgr
             | Some b \<Rightarrow> do {
                 body \<leftarrow> ep_io_combine_shell ext beyond mgr fd (shell\<lparr>proto := (proto shell)\<lparr>req_type := 1\<rparr>\<rparr>) (Some b);
                 Some (case body of None \<Rightarrow> mgr | Some body \<Rightarrow> io_reply mgr fd body)
               })
          })"

definition ep_io_processor ::
  "ep_ext \<Rightarrow> byte list \<Rightarrow> (byte list \<Rightarrow> 'p option) \<Rightarrow> ('p \<Rightarrow> byte list) \<Rightarrow>
   ('cb \<Rightarrow> 'o \<Rightarrow> int \<Rightarrow> 'p option \<Rightarrow> 'w \<Rightarrow> 'p option \<times> bool \<times> 'w) \<Rightarrow> ('cb, 'o) ep_disp_mgr \<Rightarrow>
   'x ep_io_mgr \<Rightarrow> ep_io_task \<Rightarrow> 'w \<Rightarrow> ('x ep_io_mgr \<times> 'w) option" where
  "ep_io_processor ext beyond unpack pack_bytes invoke disp_mgr mgr task w =
     (let fd = task_fd task; shell = task_shell task in do {
        inbuf \<leftarrow> (if shell_size shell \<noteq> 0 then
                   ep_io_recombine_original ext beyond mgr fd shell (task_in task)
                 else Some (task_in task));
        (if shell_size shell \<noteq> 0 \<and> inbuf = None then Some (mgr, w)
         else do {
           pack \<leftarrow> (case inbuf of
                     None \<Rightarrow> Some (Some None)
                   | Some b \<Rightarrow> do {
                       bytes \<leftarrow> mem_read (ep_buffer_ptr b) 0 (ep_buffer_size b);
                       Some (map_option Some (unpack bytes))
                     });
           (case pack of
              None \<Rightarrow> Some (mgr, w)
            | Some pack \<Rightarrow>
                (case ep_disp_processor invoke disp_mgr (category (proto shell)) fd pack w of
                   (ret_packet, _, w) \<Rightarrow>
                     if req_type (proto shell) = 1 then Some (mgr, w)
                     else map_option (\<lambda>m. (m, w)) (processor_reply ext beyond pack_bytes mgr fd shell ret_packet)))
         })
      })"

section \<open>Lemmas\<close>

lemma combine_out_spec:
  assumes n: "n = int (length body)"
  obtains out where "combine_out shell (body @ r) n = Some (Some out)"
    and "buffer_holds out (frame_bytes (shell\<lparr>shell_size := word_of_int n\<rparr>, body))"
proof -
  let ?h = "shell_encode (shell\<lparr>shell_size := word_of_int n\<rparr>)"
  have m: "ep_malloc (sizeof_ep_shell + n + 1) = Some (mem_uninit (18 + n + 1))"
    using n by (simp add: ep_malloc_def sizeof_ep_shell_def)
  have "length ?h + length body \<le> length (mem_uninit (18 + n + 1))" using n by simp
  then obtain r1 r2 where w: "mem_write (mem_uninit (18 + n + 1)) 0 ?h = Some r1" "mem_write r1 (int (length ?h)) body = Some r2"
    "length r2 = length (mem_uninit (18 + n + 1))" "mem_read r2 0 (int (length ?h) + int (length body)) = Some (?h @ body)"
    by (rule mem_fill2)
  have "r2 = (?h @ body) @ drop (18 + length body) r2"
    using w(4) n by (auto simp: mem_read_def nat_add_distrib simp del: append_assoc split: if_splits)
      (metis append_take_drop_id)
  moreover have ne: "?h @ body \<noteq> []" "18 + n = int (length (?h @ body))"
    using n length_shell_image [of "shell_hton (shell\<lparr>shell_size := word_of_int n\<rparr>)"] by (auto simp del: length_shell_image)
  ultimately obtain out where "ep_buffer_new r2 (18 + n) = Some (Some out)" "buffer_holds out (?h @ body)"
    using buffer_new_spec [OF ne] by metis
  then show ?thesis
    using that m w(1,2) n by (simp add: combine_out_def Let_def mem_read_start sizeof_ep_shell_def frame_bytes_def)
qed

text \<open>What the sender sends for \<open>data\<close>: compressed or not, then encrypted with some padding or not.\<close>

definition wire_body :: "ep_ext \<Rightarrow> ep_aes_key \<Rightarrow> bool \<Rightarrow> bool \<Rightarrow> byte list \<Rightarrow> byte list \<Rightarrow> byte list \<Rightarrow> bool" where
  "wire_body ext aes packed crypt data z body \<longleftrightarrow> z = (if packed then bz_compress ext data else data) \<and>
     (if crypt then \<exists>pad. length (z @ pad) mod 16 = 0 \<and> body = aes_cbc ext True (aes_key aes) (aes_vec aes) (z @ pad)
      else body = z)"

lemma wire_body_cryptI:
  "z = (if packed then bz_compress ext data else data) \<Longrightarrow> length (z @ pad) mod 16 = 0 \<Longrightarrow>
   wire_body ext aes packed True data z (aes_cbc ext True (aes_key aes) (aes_vec aes) (z @ pad))"
  unfolding wire_body_def if_True by (intro conjI exI [of _ pad] refl)

lemma wire_body_cryptD:
  "wire_body ext aes packed True data z body \<Longrightarrow>
   \<exists>pad. length (z @ pad) mod 16 = 0 \<and> body = aes_cbc ext True (aes_key aes) (aes_vec aes) (z @ pad)"
  unfolding wire_body_def if_True by (rule conjunct2)

lemma sender_set_compress [simp]:
  "sender_compress r (set_sender_compress r v sh) = v" "sender_crypt r (set_sender_compress r v sh) = sender_crypt r sh"
  "magic (set_sender_compress r v sh) = magic sh" "pack_size (set_sender_compress r v sh) = pack_size sh"
  "category (proto (set_sender_compress r v sh)) = category (proto sh)"
  "req_type (proto (set_sender_compress r v sh)) = req_type (proto sh)"
  by (simp_all add: sender_compress_def sender_crypt_def set_sender_compress_def)

lemma sender_fields [simp]:
  "sender_compress r (sh\<lparr>pack_size := a\<rparr>) = sender_compress r sh" "sender_crypt r (sh\<lparr>pack_size := a\<rparr>) = sender_crypt r sh"
  "sender_compress r (sh\<lparr>decrypt_size := a\<rparr>) = sender_compress r sh" "sender_crypt r (sh\<lparr>decrypt_size := a\<rparr>) = sender_crypt r sh"
  "sender_compress r (sh\<lparr>shell_size := a\<rparr>) = sender_compress r sh" "sender_crypt r (sh\<lparr>shell_size := a\<rparr>) = sender_crypt r sh"
  by (simp_all add: sender_compress_def sender_crypt_def)

lemma combine_compress_spec:
  assumes l: "bz_laws ext" and b: "buffer_holds b data"
  obtains packed sh' b' where "combine_compress ext mgr sh b = Some (Some (sh', b'))"
    and "buffer_holds b' (if packed then bz_compress ext data else data)"
    and "sender_compress (mgr_refor mgr) sh' = 1 \<longleftrightarrow> packed" and "sender_crypt (mgr_refor mgr) sh' = sender_crypt (mgr_refor mgr) sh"
    and "magic sh' = magic sh" and "pack_size sh' = pack_size sh" and "category (proto sh') = category (proto sh)"
    and "req_type (proto sh') = req_type (proto sh)"
proof -
  obtain z where z: "ep_buffer_compress ext b = Some (Some z)" "buffer_holds z (bz_compress ext data)"
    using buffer_compress_spec [OF l b] .
  consider "sender_compress (mgr_refor mgr) sh = 1"
    | "sender_compress (mgr_refor mgr) sh = 2" "ep_buffer_size b > mgr_mini_compress_if mgr"
    | "sender_compress (mgr_refor mgr) sh = 2" "\<not> ep_buffer_size b > mgr_mini_compress_if mgr"
    | "sender_compress (mgr_refor mgr) sh \<noteq> 1" "sender_compress (mgr_refor mgr) sh \<noteq> 2" by blast
  then show ?thesis
  proof cases
    case 1
    with z show ?thesis by (intro that [of sh z True]) (simp_all add: combine_compress_def)
  next
    case 2
    with z show ?thesis
      by (intro that [of "set_sender_compress (mgr_refor mgr) 1 sh" z True]) (simp_all add: combine_compress_def)
  next
    case 3
    with b show ?thesis
      by (intro that [of "set_sender_compress (mgr_refor mgr) 0 sh" b False]) (simp_all add: combine_compress_def)
  next
    case 4
    with b show ?thesis by (intro that [of sh b False]) (simp_all add: combine_compress_def)
  qed
qed

lemma combine_shell_spec:
  assumes l: "aes_laws ext" "bz_laws ext" and b: "buffer_holds b data" and n: "16 \<le> length beyond"
    and k: "ep_io_get_aes mgr fd = Some aes"
  obtains out sh' packed z body where "ep_io_combine_shell ext beyond mgr fd sh (Some b) = Some (Some out)"
    and "buffer_holds out (frame_bytes (sh', body))"
    and "wire_body ext aes packed (sender_crypt (mgr_refor mgr) sh = 1) data z body"
    and "sender_compress (mgr_refor mgr) sh' = 1 \<longleftrightarrow> packed" and "sender_crypt (mgr_refor mgr) sh' = sender_crypt (mgr_refor mgr) sh"
    and "magic sh' = magic sh" and "pack_size sh' = word_of_int (int (length data))"
    and "decrypt_size sh' = word_of_int (int (length z))" and "shell_size sh' = word_of_int (int (length body))"
    and "category (proto sh') = category (proto sh)" and "req_type (proto sh') = req_type (proto sh)" and "body \<noteq> []"
proof -
  let ?sh = "sh\<lparr>pack_size := word_of_int (ep_buffer_size b)\<rparr>"
  have size: "ep_buffer_size b = int (length data)" using b by (simp add: ep_buffer_size_def buffer_holds_def)
  obtain packed sh1 b1 where c: "combine_compress ext mgr ?sh b = Some (Some (sh1, b1))"
    "buffer_holds b1 (if packed then bz_compress ext data else data)" "sender_compress (mgr_refor mgr) sh1 = 1 \<longleftrightarrow> packed"
    "sender_crypt (mgr_refor mgr) sh1 = sender_crypt (mgr_refor mgr) ?sh" "magic sh1 = magic ?sh" "pack_size sh1 = pack_size ?sh"
    "category (proto sh1) = category (proto ?sh)" "req_type (proto sh1) = req_type (proto ?sh)"
    using combine_compress_spec [OF l(2) b] .
  define z where "z = (if packed then bz_compress ext data else data)"
  let ?crypt = "sender_crypt (mgr_refor mgr) sh"
  have "\<exists>b2 body. combine_encrypt ext beyond mgr fd ?crypt b1 = Some (Some b2) \<and> buffer_holds b2 body \<and>
      wire_body ext aes packed (?crypt = 1) data z body"
  proof (cases "?crypt = 1")
    case True
    obtain b2 pad where e: "ep_buffer_encrypt ext beyond b1 aes = Some (Some b2)" "length (z @ pad) mod 16 = 0"
      "buffer_holds b2 (aes_cbc ext True (aes_key aes) (aes_vec aes) (z @ pad))"
      using buffer_encrypt_spec [OF l(1) c(2) n] unfolding z_def by metis
    have "combine_encrypt ext beyond mgr fd ?crypt b1 = Some (Some b2)" using True k e(1) by (simp add: combine_encrypt_def)
    moreover have "wire_body ext aes packed (?crypt = 1) data z (aes_cbc ext True (aes_key aes) (aes_vec aes) (z @ pad))"
      using wire_body_cryptI [OF z_def e(2)] True by simp
    ultimately show ?thesis using e(3) by blast
  next
    case False
    have "combine_encrypt ext beyond mgr fd ?crypt b1 = Some (Some b1)" using False by (simp add: combine_encrypt_def)
    moreover have "wire_body ext aes packed (?crypt = 1) data z z" using False by (simp add: wire_body_def z_def)
    ultimately show ?thesis using c(2) z_def by blast
  qed
  then obtain b2 body where e: "combine_encrypt ext beyond mgr fd ?crypt b1 = Some (Some b2)" "buffer_holds b2 body"
    "wire_body ext aes packed (?crypt = 1) data z body" by blast
  obtain r where r: "bf_chunk b2 = body @ r" "bf_used b2 = int (length body)" "body \<noteq> []" using e(2) by (auto simp: buffer_holds_def)
  have b1: "ep_buffer_size b1 = int (length z)" using c(2) by (simp add: ep_buffer_size_def buffer_holds_def z_def)
  let ?sh1 = "sh1\<lparr>decrypt_size := word_of_int (int (length z))\<rparr>"
  obtain out where o: "combine_out ?sh1 (body @ r) (int (length body)) = Some (Some out)"
    "buffer_holds out (frame_bytes (?sh1\<lparr>shell_size := word_of_int (int (length body))\<rparr>, body))"
    using combine_out_spec [of "int (length body)" body ?sh1 r] by blast
  have "ep_io_combine_shell ext beyond mgr fd sh (Some b) = Some (Some out)"
    using c(1) e(1) o(1) r b1 by (simp add: ep_io_combine_shell_def Let_def ep_buffer_ptr_def ep_buffer_size_def)
  then show ?thesis by (rule that [OF _ o(2) e(3)]) (use c size r(3) in simp_all)
qed

text \<open>The receiver recovers the data from any buffer that holds the body.\<close>

lemma recombine_spec:
  assumes l: "aes_laws ext" "bz_laws ext" and n: "16 \<le> length beyond" and k: "ep_io_get_aes mgr fd = Some aes"
    and d: "data \<noteq> []" and w: "wire_body ext aes packed crypt data z body" and b: "buffer_holds b body"
    and other: "mgr_refor mgr \<noteq> refor"
    and sh: "sender_compress refor sh = 1 \<longleftrightarrow> packed" "sender_crypt refor sh = 1 \<longleftrightarrow> crypt"
      "sint (decrypt_size sh) = int (length z)" "sint (pack_size sh) = int (length data)"
  obtains b' where "ep_io_recombine_original ext beyond mgr fd sh (Some b) = Some (Some b')" and "buffer_holds b' data"
proof -
  have z: "z = (if packed then bz_compress ext data else data)" using w by (simp add: wire_body_def)
  then have zne: "z \<noteq> []" using d l(2) by (auto simp: bz_laws_def)
  have f: "(if mgr_refor mgr = ep_io_refor_client then s_compress (proto sh) else c_compress (proto sh)) = 1 \<longleftrightarrow> packed"
    "(if mgr_refor mgr = ep_io_refor_client then s_crypt (proto sh) else c_crypt (proto sh)) = 1 \<longleftrightarrow> crypt"
    using sh(1,2) other
    by (cases "mgr_refor mgr"; cases refor; simp add: sender_compress_def sender_crypt_def)+
  have "\<exists>b1. (if crypt then ep_buffer_decrypt ext beyond b aes (sint (decrypt_size sh)) else Some (Some b)) = Some (Some b1) \<and>
      buffer_holds b1 z"
  proof (cases crypt)
    case True
    with w have w: "wire_body ext aes packed True data z body" by simp
    from wire_body_cryptD [OF w] obtain pad where
      pad: "length (z @ pad) mod 16 = 0" "body = aes_cbc ext True (aes_key aes) (aes_vec aes) (z @ pad)"
      by (elim exE conjE)
    obtain b1 where "ep_buffer_decrypt ext beyond b aes (int (length z)) = Some (Some b1)" "buffer_holds b1 z"
      using buffer_decrypt_spec [OF l(1) n zne pad(1)] b pad(2) by metis
    with True sh(3) show ?thesis by simp
  qed (use w b in \<open>simp add: wire_body_def\<close>)
  then obtain b1 where b1: "(if crypt then ep_buffer_decrypt ext beyond b aes (sint (decrypt_size sh)) else Some (Some b)) = Some (Some b1)"
    "buffer_holds b1 z" by blast
  have "\<exists>b'. (if packed then ep_buffer_decompress ext b1 (sint (pack_size sh)) else Some (Some b1)) = Some (Some b') \<and> buffer_holds b' data"
  proof (cases packed)
    case True
    then have "buffer_holds b1 (bz_compress ext data)" using b1(2) z by simp
    then show ?thesis using buffer_decompress_spec [OF l(2) d] True sh(4) by metis
  qed (use b1 z in simp)
  then obtain b' where "(if packed then ep_buffer_decompress ext b1 (sint (pack_size sh)) else Some (Some b1)) = Some (Some b')"
    "buffer_holds b' data" by blast
  with that b1(1) k show ?thesis by (simp add: ep_io_recombine_original_def Let_def f split: if_splits)
qed

lemma sint_word_of_int: "0 \<le> n \<Longrightarrow> n < 2 ^ 31 \<Longrightarrow> sint (word_of_int n :: 32 word) = n"
  by (simp add: int_word_sint)

lemma wire_body_length: "aes_laws ext \<Longrightarrow> wire_body ext aes packed crypt data z body \<Longrightarrow> length z \<le> length body"
proof (cases crypt)
  case True
  assume l: "aes_laws ext" and "wire_body ext aes packed crypt data z body"
  with True have w: "wire_body ext aes packed True data z body" by simp
  from wire_body_cryptD [OF w] obtain pad where
    pad: "length (z @ pad) mod 16 = 0" "body = aes_cbc ext True (aes_key aes) (aes_vec aes) (z @ pad)"
    by (elim exE conjE)
  then show ?thesis using aes_lawsD(1) [OF l pad(1)] by simp
qed (simp add: wire_body_def)

lemma message_roundtrip_body:
  assumes l: "aes_laws ext" "bz_laws ext" and b: "buffer_holds b data" and d: "int (length data) < 2 ^ 31"
    and mem: "16 \<le> length beyond" "16 \<le> length beyond'" and k: "ep_io_get_aes S sfd = Some aes"
    and m: "magic sh = EP_MAGIC_NUMBER" and lim: "lim < 2 ^ 31"
  obtains out sh' body where "ep_io_combine_shell ext beyond S sfd sh (Some b) = Some (Some out)"
    and "buffer_holds out (frame_bytes (sh', body))" and "category (proto sh') = category (proto sh)"
    and "req_type (proto sh') = req_type (proto sh)" and "body \<noteq> []"
    and "int (length body) \<le> lim \<longrightarrow> frame_ok lim (sh', body) \<and>
      (\<forall>(R :: 'x ep_io_mgr) rfd b'. mgr_refor R \<noteq> mgr_refor S \<longrightarrow> ep_io_get_aes R rfd = Some aes \<longrightarrow> buffer_holds b' body \<longrightarrow>
        (\<exists>b''. ep_io_recombine_original ext beyond' R rfd sh' (Some b') = Some (Some b'') \<and> buffer_holds b'' data))"
proof -
  obtain out sh' packed z body where c: "ep_io_combine_shell ext beyond S sfd sh (Some b) = Some (Some out)"
    "buffer_holds out (frame_bytes (sh', body))"
    "wire_body ext aes packed (sender_crypt (mgr_refor S) sh = 1) data z body"
    "sender_compress (mgr_refor S) sh' = 1 \<longleftrightarrow> packed" "sender_crypt (mgr_refor S) sh' = sender_crypt (mgr_refor S) sh"
    "magic sh' = magic sh" "pack_size sh' = word_of_int (int (length data))"
    "decrypt_size sh' = word_of_int (int (length z))" "shell_size sh' = word_of_int (int (length body))"
    "category (proto sh') = category (proto sh)" "req_type (proto sh') = req_type (proto sh)" "body \<noteq> []"
    using combine_shell_spec [OF l b mem(1) k] .
  have ne: "data \<noteq> []" using b by (simp add: buffer_holds_def)
  have "frame_ok lim (sh', body) \<and>
      (\<forall>(R :: 'x ep_io_mgr) rfd b'. mgr_refor R \<noteq> mgr_refor S \<longrightarrow> ep_io_get_aes R rfd = Some aes \<longrightarrow> buffer_holds b' body \<longrightarrow>
        (\<exists>b''. ep_io_recombine_original ext beyond' R rfd sh' (Some b') = Some (Some b'') \<and> buffer_holds b'' data))"
    if le: "int (length body) \<le> lim"
  proof (intro conjI allI impI)
    have s: "sint (shell_size sh') = int (length body)"
      unfolding c(9) by (rule sint_word_of_int) (use le lim in linarith)+
    then show "frame_ok lim (sh', body)" using le c(6) m by (simp add: frame_ok_def)
    have zs: "sint (decrypt_size sh') = int (length z)"
      unfolding c(8) by (rule sint_word_of_int) (use le lim wire_body_length [OF l(1) c(3)] in linarith)+
    have ps: "sint (pack_size sh') = int (length data)"
      unfolding c(7) by (rule sint_word_of_int) (use d in linarith)+
    fix R :: "'x ep_io_mgr" and rfd b'
    assume R: "mgr_refor R \<noteq> mgr_refor S" "ep_io_get_aes R rfd = Some aes" "buffer_holds b' body"
    show "\<exists>b''. ep_io_recombine_original ext beyond' R rfd sh' (Some b') = Some (Some b'') \<and> buffer_holds b'' data"
      using recombine_spec [OF l mem(2) R(2) ne c(3) R(3,1) c(4) _ zs ps] c(5) by metis
  qed
  then show ?thesis using that c by blast
qed

lemma io_reply_spec:
  assumes m: "mgr_ok mgr" and f: "ep_io_find mgr fd = Some c"
  shows "ep_io_find (io_reply mgr fd body) = (ep_io_find mgr)(fd \<mapsto> c\<lparr>io_send := queue_push (io_send c) (mgr_next mgr)\<rparr>)"
    and "mgr_heap (io_reply mgr fd body) = (mgr_heap mgr)(mgr_next mgr \<mapsto> body)"
    and "q_items (mgr_send_queue (io_reply mgr fd body)) = q_items (mgr_send_queue mgr) @ [io_id c]"
    and "mgr_ok (io_reply mgr fd body)"
proof -
  let ?put = "io_put (c\<lparr>io_send := queue_push (io_send c) (mgr_next mgr)\<rparr>) mgr"
  have r: "io_reply mgr fd body = ?put\<lparr>mgr_send_queue := queue_push (mgr_send_queue mgr) (io_id c),
      mgr_heap := (mgr_heap mgr)(mgr_next mgr \<mapsto> body), mgr_next := mgr_next mgr + 1\<rparr>"
    using f by (simp add: io_reply_def Let_def)
  have find: "ep_io_find (mg\<lparr>mgr_send_queue := q, mgr_heap := h, mgr_next := n\<rparr>) = ep_io_find mg" for mg q h n
    by (simp add: ep_io_find_def fun_eq_iff)
  note put = io_put_send [OF m f, of "queue_push (io_send c) (mgr_next mgr)"]
  show "ep_io_find (io_reply mgr fd body) = (ep_io_find mgr)(fd \<mapsto> c\<lparr>io_send := queue_push (io_send c) (mgr_next mgr)\<rparr>)"
    unfolding r find using put(2) .
  show "mgr_heap (io_reply mgr fd body) = (mgr_heap mgr)(mgr_next mgr \<mapsto> body)"
    "q_items (mgr_send_queue (io_reply mgr fd body)) = q_items (mgr_send_queue mgr) @ [io_id c]" by (simp_all add: r)
  have "mgr_next ?put = mgr_next mgr" by (simp add: io_put_def)
  then show "mgr_ok (io_reply mgr fd body)" unfolding r using put(1) by (auto simp: mgr_ok_def less_SucI)
qed

text \<open>The pool answers a request with the packet of its callback.\<close>

lemma processor_replies:
  assumes b: "shell_size (task_shell task) \<noteq> 0"
      "ep_io_recombine_original ext beyond mgr (task_fd task) (task_shell task) (task_in task) = Some (Some b)"
      "buffer_holds b data" "unpack data = Some pack"
    and d: "ep_disp_processor invoke disp_mgr (category (proto (task_shell task))) (task_fd task) (Some pack) w = (Some resp, rc, w')"
    and r: "pack_bytes resp \<noteq> []" "req_type (proto (task_shell task)) \<noteq> 1"
    and c: "ep_buffer_new (pack_bytes resp) (int (length (pack_bytes resp))) = Some (Some b1)"
      "ep_io_combine_shell ext beyond mgr (task_fd task) ((task_shell task)\<lparr>proto := (proto (task_shell task))\<lparr>req_type := 1\<rparr>\<rparr>) (Some b1) =
         Some (Some out)"
  shows "ep_io_processor ext beyond unpack pack_bytes invoke disp_mgr mgr task w = Some (io_reply mgr (task_fd task) out, w')"
proof -
  have "processor_reply ext beyond pack_bytes mgr (task_fd task) (task_shell task) (Some resp) = Some (io_reply mgr (task_fd task) out)"
    using r(1) c by (simp add: processor_reply_def)
  moreover have "mem_read (ep_buffer_ptr b) 0 (ep_buffer_size b) = Some data"
    using b(3) by (auto simp: buffer_holds_def ep_buffer_ptr_def ep_buffer_size_def mem_read_start)
  ultimately show ?thesis using b d r(2) by (simp add: ep_io_processor_def Let_def)
qed

text \<open>The bytes the transport is given for a buffer.\<close>

definition sent_bytes :: "ep_buffer \<Rightarrow> byte list" where
  "sent_bytes out = take (nat (ep_buffer_size out)) (ep_buffer_ptr out)"

lemma sent_bytes_holds: "buffer_holds out bs \<Longrightarrow> sent_bytes out = bs"
  by (auto simp: sent_bytes_def ep_buffer_ptr_def ep_buffer_size_def buffer_holds_def)

text \<open>A buffer with one message: unless its body is too large, it is a frame that a receiver accepts, and every receiver of
  the other side with the same key recovers the data from its body.\<close>

definition message_for ::
  "ep_ext \<Rightarrow> byte list \<Rightarrow> ep_aes_key \<Rightarrow> 'x ep_io_mgr \<Rightarrow> int \<Rightarrow> ep_shell \<times> byte list \<Rightarrow> byte list \<Rightarrow> bool" where
  "message_for ext beyond aes S lim frame data \<longleftrightarrow> snd frame \<noteq> [] \<and>
     (int (length (snd frame)) \<le> lim \<longrightarrow> frame_ok lim frame \<and>
        (\<forall>(R :: 'x ep_io_mgr) rfd b. mgr_refor R \<noteq> mgr_refor S \<longrightarrow> ep_io_get_aes R rfd = Some aes \<longrightarrow> buffer_holds b (snd frame) \<longrightarrow>
          (\<exists>b'. ep_io_recombine_original ext beyond R rfd (fst frame) (Some b) = Some (Some b') \<and> buffer_holds b' data)))"

lemma message_sent:
  fixes S :: "'x ep_io_mgr"
  assumes l: "aes_laws ext" "bz_laws ext" "16 \<le> length beyond" and d: "data \<noteq> []" "int (length data) < 2 ^ 31"
    and k: "ep_io_get_aes S sfd = Some aes" and m: "magic sh = EP_MAGIC_NUMBER" and lim: "lim < 2 ^ 31"
  obtains b out sh' body where "ep_buffer_new data (int (length data)) = Some (Some b)"
    and "ep_io_combine_shell ext beyond S sfd sh (Some b) = Some (Some out)"
    and "buffer_holds out (frame_bytes (sh', body))" and "category (proto sh') = category (proto sh)"
    and "req_type (proto sh') = req_type (proto sh)" and "message_for ext beyond aes S lim (sh', body) data"
proof -
  obtain b where b: "ep_buffer_new (data @ []) (int (length data)) = Some (Some b)" "buffer_holds b data"
    using buffer_new_spec [OF d(1) refl] by metis
  obtain out sh' body where f: "ep_io_combine_shell ext beyond S sfd sh (Some b) = Some (Some out)"
    "buffer_holds out (frame_bytes (sh', body))" "category (proto sh') = category (proto sh)"
    "req_type (proto sh') = req_type (proto sh)" "body \<noteq> []"
    "int (length body) \<le> lim \<longrightarrow> frame_ok lim (sh', body) \<and>
      (\<forall>(R :: 'x ep_io_mgr) rfd b'. mgr_refor R \<noteq> mgr_refor S \<longrightarrow> ep_io_get_aes R rfd = Some aes \<longrightarrow> buffer_holds b' body \<longrightarrow>
        (\<exists>b''. ep_io_recombine_original ext beyond R rfd sh' (Some b') = Some (Some b'') \<and> buffer_holds b'' data))"
    using message_roundtrip_body [OF l(1,2) b(2) d(2) l(3) l(3) k m lim] .
  have "message_for ext beyond aes S lim (sh', body) data" unfolding message_for_def fst_conv snd_conv using f(5,6) by (rule conjI)
  then show ?thesis using that b(1) f(1-4) by simp
qed

text \<open>A message that arrives on an idle connection, in whatever pieces, becomes one task, from which the pool recovers it.\<close>

lemma message_received:
  fixes R S :: "'x ep_io_mgr"
  assumes R: "mgr_ok R" "ep_io_find R fd = Some child" "io_pending child = []" "mgr_refor R \<noteq> mgr_refor S"
    and f: "message_for ext beyond (io_aes child) S (mgr_max_capacity R) (sh, body) data" "int (length body) \<le> mgr_max_capacity R"
    and ch: "concat chunks = frame_bytes (sh, body)" "list_all (\<lambda>d. int (length d) \<le> mgr_max_capacity R) chunks"
  obtains R' task b c' where "feed R fd chunks 0 = Some (0, R')" and "mgr_tasks R' = mgr_tasks R @ [task]"
    and "task_fd task = fd" and "task_shell task = sh" and "mgr_ok R'" and "mgr_refor R' = mgr_refor R"
    and "ep_io_find R' fd = Some c'" and "io_aes c' = io_aes child" and "shell_size sh \<noteq> 0"
    and "ep_io_recombine_original ext beyond R' fd sh (task_in task) = Some (Some b)" and "buffer_holds b data"
proof -
  let ?lim = "mgr_max_capacity R"
  have ok: "frame_ok ?lim (sh, body)" and ne: "body \<noteq> []" using f by (simp_all add: message_for_def)
  have nil: "parse_stream ?lim [] = ([], 0, [])" by (simp add: parse_stream.simps)
  have "list_all (frame_ok ?lim) [(sh, body)]" using ok by simp
  from parse_frames [OF this, of "[]"] nil have "parse_stream ?lim (frame_bytes (sh, body)) = ([(sh, body)], 0, [])" by simp
  with feed_spec [OF R(1,2) ch(2), of 0 "[(sh, body)]" 0 "[]"] R(3) nil ch(1)
  obtain R' ts where fd: "feed R fd chunks 0 = Some (0, R')" "mgr_ok R'" "mgr_tasks R' = mgr_tasks R @ ts"
    "list_all2 (task_carries fd) ts [(sh, body)]" "mgr_refor R' = mgr_refor R" "ep_io_get_aes R' fd = Some (io_aes child)"
    by auto
  obtain task where t: "ts = [task]" "task_carries fd task (sh, body)" using fd(4) by (auto simp: list_all2_Cons2)
  obtain b0 where b0: "task_in task = Some b0" "buffer_holds b0 body" "task_fd task = fd" "task_shell task = sh"
    using t(2) ne by (auto simp: task_carries_def split: option.splits if_splits)
  have "mgr_refor R' \<noteq> mgr_refor S" using R(4) fd(5) by simp
  then obtain b where b: "ep_io_recombine_original ext beyond R' fd sh (Some b0) = Some (Some b)" "buffer_holds b data"
    using f b0(2) fd(6) unfolding message_for_def fst_conv snd_conv by metis
  obtain c' where c': "ep_io_find R' fd = Some c'" "io_aes c' = io_aes child" using fd(6) by (auto simp: ep_io_get_aes_def)
  have "shell_size sh \<noteq> 0" using ok ne by (auto simp: frame_ok_def)
  with fd t(1) b0 b c' show ?thesis by (intro that [of R' task c' b]) simp_all
qed

text \<open>An idle connection of either side, for evaluation.\<close>

lemma demo_idle:
  obtains mgr :: "unit ep_io_mgr" and child where "mgr_ok mgr" and "mgr_refor mgr = refor" and "mgr_max_capacity mgr = 4194304"
    and "ep_io_find mgr 5 = Some child" and "io_pending child = []"
    and "ep_io_get_aes mgr 5 = Some \<lparr>aes_key = replicate 16 0, aes_vec = replicate 16 0\<rparr>" and "mgr_tasks mgr = []"
proof -
  obtain mgr :: "unit ep_io_mgr" where m: "ep_io_init True True True (demo_conf\<lparr>conf_refor := refor\<rparr>) = Some mgr" "mgr_ok mgr"
    "mgr_list mgr = []" "mgr_tasks mgr = []" "mgr_max_capacity mgr = 4194304"
    using ep_io_init_ok [of "demo_conf\<lparr>conf_refor := refor\<rparr>"] by (auto simp: demo_conf_def)
  have r: "mgr_refor mgr = refor" using m(1) by (auto simp: ep_io_init_def ep_queue_new_def)
  have n: "ep_io_find mgr 5 = None" using m(3) by (simp add: ep_io_find_def)
  let ?m = "snd (ep_io_add mgr 5 ())"
  obtain child where a: "mgr_ok ?m" "ep_io_find ?m 5 = Some child" "io_pending child = []" "mgr_max_capacity ?m = 4194304" "mgr_tasks ?m = []"
    using ep_io_add_spec(1) [OF m(2) n, of "()"] m(4,5) by auto
  have "mgr_refor ?m = refor" "ep_io_get_aes ?m 5 = Some \<lparr>aes_key = replicate 16 0, aes_vec = replicate 16 0\<rparr>"
    using n m(2,3) r by (auto simp: ep_io_add_def ep_queue_new_def ep_rb_new_def ep_io_get_aes_def ep_io_find_def mgr_ok_def)
  with a show ?thesis using that by blast
qed

section \<open>Properties\<close>

text \<open>A request that expects an answer gets it: when its body can be recovered and parsed and the
  callback of its category returns a packet, exactly one message is queued on the connection the
  request came from. It is a frame of the same category, marked as a post, and the connection is
  handed to the send thread; every other connection is untouched.\<close>

theorem processor_answers_get:
  assumes l: "aes_laws ext" "bz_laws ext" "16 \<le> length beyond" and m: "mgr_ok mgr" and f: "ep_io_find mgr (task_fd task) = Some c"
    and b: "shell_size (task_shell task) \<noteq> 0"
      "ep_io_recombine_original ext beyond mgr (task_fd task) (task_shell task) (task_in task) = Some (Some b)"
      "buffer_holds b data" "unpack data = Some pack"
    and d: "ep_disp_processor invoke disp_mgr (category (proto (task_shell task))) (task_fd task) (Some pack) w = (Some resp, rc, w')"
    and r: "pack_bytes resp \<noteq> []" "req_type (proto (task_shell task)) \<noteq> 1"
  shows "\<exists>mgr' p out sh body. ep_io_processor ext beyond unpack pack_bytes invoke disp_mgr mgr task w = Some (mgr', w') \<and>
    mgr_heap mgr' = (mgr_heap mgr)(p \<mapsto> out) \<and> buffer_holds out (frame_bytes (sh, body)) \<and>
    category (proto sh) = category (proto (task_shell task)) \<and> req_type (proto sh) = 1 \<and>
    ep_io_find mgr' = (ep_io_find mgr)(task_fd task \<mapsto> c\<lparr>io_send := queue_push (io_send c) p\<rparr>) \<and>
    q_items (mgr_send_queue mgr') = q_items (mgr_send_queue mgr) @ [io_id c]"
proof -
  let ?fd = "task_fd task" and ?sh = "task_shell task"
  let ?post = "?sh\<lparr>proto := (proto ?sh)\<lparr>req_type := 1\<rparr>\<rparr>"
  have k: "ep_io_get_aes mgr ?fd = Some (io_aes c)" using f by (simp add: ep_io_get_aes_def)
  obtain b1 where b1: "ep_buffer_new (pack_bytes resp @ []) (int (length (pack_bytes resp))) = Some (Some b1)"
    "buffer_holds b1 (pack_bytes resp)" using buffer_new_spec [OF r(1) refl] by metis
  obtain out sh body where c: "ep_io_combine_shell ext beyond mgr ?fd ?post (Some b1) = Some (Some out)"
    "buffer_holds out (frame_bytes (sh, body))" "category (proto sh) = category (proto ?post)" "req_type (proto sh) = req_type (proto ?post)"
    using combine_shell_spec [OF l(1,2) b1(2) l(3) k] by metis
  have "ep_io_processor ext beyond unpack pack_bytes invoke disp_mgr mgr task w = Some (io_reply mgr ?fd out, w')"
    using processor_replies [where unpack = unpack and pack_bytes = pack_bytes, OF b d r _ c(1)] b1(1) by simp
  then show ?thesis using io_reply_spec(1-3) [OF m f, of out] c by fastforce
qed

text \<open>A request of category 0 on the demonstration connection, echoed by its callback.\<close>

definition demo_task :: "3 word \<Rightarrow> ep_io_task" where
  "demo_task ty = \<lparr>task_fd = 5, task_shell = (demo_shell 3)\<lparr>proto := (proto zero_shell)\<lparr>req_type := ty\<rparr>\<rparr>, task_in = Some demo_buffer\<rparr>"

definition demo_disp :: "(unit, unit) ep_disp_mgr" where
  "demo_disp = [\<lparr>disp_category = 0, disp_cb = (), disp_opaque = ()\<rparr>]"

definition demo_invoke :: "unit \<Rightarrow> unit \<Rightarrow> int \<Rightarrow> byte list option \<Rightarrow> nat \<Rightarrow> byte list option \<times> bool \<times> nat" where
  "demo_invoke cb opaque fd pack w = (pack, True, w + 1)"

lemma demo_task_body:
  "ep_io_recombine_original plain_ext beyond mgr 5 (task_shell (demo_task ty)) (task_in (demo_task ty)) = Some (Some demo_buffer)"
  "buffer_holds demo_buffer [1, 2, 3]" "shell_size (task_shell (demo_task ty)) \<noteq> 0"
  by (simp_all add: ep_io_recombine_original_def demo_task_def demo_shell_def zero_shell_def buffer_holds_def demo_buffer_def)

theorem processor_answers_get_witness:
  "\<exists>(mgr :: unit ep_io_mgr) mgr' p out. ep_io_processor plain_ext (replicate 16 0) Some id demo_invoke demo_disp mgr (demo_task 0) 0 = Some (mgr', 1) \<and>
     mgr_heap mgr' = (mgr_heap mgr)(p \<mapsto> out)"
proof -
  obtain mgr :: "unit ep_io_mgr" and c where m: "send_ok mgr" "mgr_list mgr = [c]" "io_fd c = 5" by (rule demo_one)
  have f: "mgr_ok mgr" "ep_io_find mgr (task_fd (demo_task 0)) = Some c"
    using m by (simp_all add: send_ok_def ep_io_find_def demo_task_def)
  have d: "ep_disp_processor demo_invoke demo_disp (category (proto (task_shell (demo_task 0)))) (task_fd (demo_task 0)) (Some [1, 2, 3]) 0 =
      (Some [1, 2, 3], True, 1)"
    by (simp add: demo_disp_def demo_invoke_def demo_task_def demo_shell_def zero_shell_def)
  have fd: "task_fd (demo_task 0) = 5" "req_type (proto (task_shell (demo_task 0))) \<noteq> 1"
    by (simp_all add: demo_task_def)
  have "\<exists>mgr' p out sh body. ep_io_processor plain_ext (replicate 16 0) Some id demo_invoke demo_disp mgr (demo_task 0) 0 = Some (mgr', 1) \<and>
    mgr_heap mgr' = (mgr_heap mgr)(p \<mapsto> out) \<and> buffer_holds out (frame_bytes (sh, body)) \<and>
    category (proto sh) = category (proto (task_shell (demo_task 0))) \<and> req_type (proto sh) = 1 \<and>
    ep_io_find mgr' = (ep_io_find mgr)(task_fd (demo_task 0) \<mapsto> c\<lparr>io_send := queue_push (io_send c) p\<rparr>) \<and>
    q_items (mgr_send_queue mgr') = q_items (mgr_send_queue mgr) @ [io_id c]"
    by (rule processor_answers_get [OF plain_ext_laws _ f demo_task_body(3) _ demo_task_body(2) _ d])
      (simp_all add: fd demo_task_body(1))
  then show ?thesis by blast
qed

text \<open>The pool changes the connections for no other reason: work on a post, and work on a request
  whose connection has gone in the meantime, leaves the manager as it was.\<close>

theorem processor_replies_only_to_open_gets:
  assumes "req_type (proto (task_shell task)) = 1 \<or> ep_io_find mgr (task_fd task) = None"
    and "ep_io_processor ext beyond unpack pack_bytes invoke disp_mgr mgr task w = Some (mgr', w')"
  shows "mgr' = mgr"
proof -
  have "processor_reply ext beyond pack_bytes mgr (task_fd task) sh ret = Some mgr'' \<Longrightarrow> ep_io_find mgr (task_fd task) = None \<Longrightarrow> mgr'' = mgr"
    for sh ret mgr''
    by (auto simp: processor_reply_def io_reply_def split: option.splits if_splits Option.bind_splits)
  with assms show ?thesis
    by (auto simp: ep_io_processor_def Let_def split: if_splits option.splits prod.splits Option.bind_splits)
qed

theorem processor_replies_only_to_open_gets_witness:
  "\<exists>(mgr :: unit ep_io_mgr) mgr' w'. ep_io_processor plain_ext (replicate 16 0) Some id demo_invoke demo_disp mgr (demo_task 1) 0 = Some (mgr', w') \<and>
     w' = 1 \<and> mgr' = mgr"
proof -
  obtain mgr :: "unit ep_io_mgr" and c where m: "send_ok mgr" "mgr_list mgr = [c]" "io_fd c = 5" by (rule demo_one)
  have rd: "mem_read (ep_buffer_ptr demo_buffer) 0 (ep_buffer_size demo_buffer) = Some [1, 2, 3]"
    by (simp add: ep_buffer_ptr_def ep_buffer_size_def demo_buffer_def mem_read_def)
  have fd: "task_fd (demo_task 1) = 5" "req_type (proto (task_shell (demo_task 1))) = 1" "category (proto (task_shell (demo_task 1))) = 0"
    by (simp_all add: demo_task_def zero_shell_def)
  obtain mgr' w' where r: "ep_io_processor plain_ext (replicate 16 0) Some id demo_invoke demo_disp mgr (demo_task 1) 0 = Some (mgr', w')" "w' = 1"
    using demo_task_body(1) [of "replicate 16 0" mgr 1] demo_task_body(3) [of 1] rd fd
    by (simp add: ep_io_processor_def Let_def demo_disp_def demo_invoke_def)
  have "mgr' = mgr" by (rule processor_replies_only_to_open_gets [OF _ r(1)]) (simp add: fd)
  with r show ?thesis by blast
qed

end
