(* ===== verification/YM_Sha.thy ===== *)
theory YM_Sha
  imports EP_Prelude
begin

unbundle bit_operations_syntax

text \<open>
  SHA-1 of \<open>src/utils/sha.c\<close>, the digest of the stored passwords, and its equivalence with the
  definition of FIPS 180. The context of the C code is a record; words have their width in the source.
\<close>

section \<open>SHA-1\<close>

record SHA_CTX =
  sha_count :: "64 word"
  sha_buf :: "byte list"
  sha_state :: "32 word list"

definition rol :: "nat \<Rightarrow> 32 word \<Rightarrow> 32 word" where
  "rol bits value = push_bit bits value OR drop_bit (32 - bits) value"

definition sha_word :: "byte list \<Rightarrow> nat \<Rightarrow> 32 word" where
  "sha_word p t = push_bit 24 (ucast (p ! (4 * t))) OR push_bit 16 (ucast (p ! (4 * t + 1))) OR
     push_bit 8 (ucast (p ! (4 * t + 2))) OR ucast (p ! (4 * t + 3))"

definition sha_schedule :: "byte list \<Rightarrow> 32 word list" where
  "sha_schedule p = foldl (\<lambda>W t. W @ [rol 1 (W ! (t - 3) XOR W ! (t - 8) XOR W ! (t - 14) XOR W ! (t - 16))])
     (map (sha_word p) [0..<16]) [16..<80]"

type_synonym sha_regs = "32 word \<times> 32 word \<times> 32 word \<times> 32 word \<times> 32 word"

definition sha_round :: "32 word list \<Rightarrow> sha_regs \<Rightarrow> nat \<Rightarrow> sha_regs" where
  "sha_round W regs t =
     (case regs of (A, B, C, D, E) \<Rightarrow>
        let tmp = rol 5 A + E + W ! t;
            tmp = tmp + (if t < 20 then (D XOR (B AND (C XOR D))) + 0x5A827999
                         else if t < 40 then (B XOR C XOR D) + 0x6ED9EBA1
                         else if t < 60 then ((B AND C) OR (D AND (B OR C))) + 0x8F1BBCDC
                         else (B XOR C XOR D) + 0xCA62C1D6)
        in (tmp, A, rol 30 B, C, D))"

definition SHA1_transform :: "SHA_CTX \<Rightarrow> SHA_CTX" where
  "SHA1_transform ctx =
     (let W = sha_schedule (sha_buf ctx); st = sha_state ctx;
          (A, B, C, D, E) = foldl (sha_round W) (st ! 0, st ! 1, st ! 2, st ! 3, st ! 4) [0..<80]
      in ctx\<lparr>sha_state := [st ! 0 + A, st ! 1 + B, st ! 2 + C, st ! 3 + D, st ! 4 + E]\<rparr>)"

definition SHA_init :: "SHA_CTX \<Rightarrow> SHA_CTX" where
  "SHA_init ctx = ctx\<lparr>sha_state := [0x67452301, 0xEFCDAB89, 0x98BADCFE, 0x10325476, 0xC3D2E1F0], sha_count := 0\<rparr>"

text \<open>The loop over the bytes, with the index into the buffer.\<close>

primrec sha_feed :: "byte list \<Rightarrow> nat \<Rightarrow> SHA_CTX \<Rightarrow> SHA_CTX" where
  "sha_feed [] i ctx = ctx"
| "sha_feed (b # p) i ctx =
     (let ctx = ctx\<lparr>sha_buf := (sha_buf ctx)[i := b]\<rparr> in
      if i + 1 = 64 then sha_feed p 0 (SHA1_transform ctx) else sha_feed p (i + 1) ctx)"

definition SHA_update :: "SHA_CTX \<Rightarrow> byte list \<Rightarrow> SHA_CTX" where
  "SHA_update ctx data =
     sha_feed data (unat (sha_count ctx) mod 64) (ctx\<lparr>sha_count := sha_count ctx + of_nat (length data)\<rparr>)"

lemma sha_feed_count [simp]: "sha_count (sha_feed p i ctx) = sha_count ctx"
proof (induction p arbitrary: i ctx)
  case (Cons b p)
  have "sha_count (SHA1_transform c) = sha_count c" for c by (simp add: SHA1_transform_def Let_def split: prod.split)
  with Cons show ?case by (simp add: Let_def)
qed simp

lemma SHA_update_count: "sha_count (SHA_update ctx data) = sha_count ctx + of_nat (length data)"
  by (simp add: SHA_update_def)

lemma unat_mod_64: "unat (w + of_nat n :: 64 word) mod 64 = (unat w + n) mod 64"
proof -
  have "w + of_nat n = of_nat (unat w + n)" by simp
  then have "unat (w + of_nat n) = (unat w + n) mod 2 ^ 64" by (simp only: unat_of_nat) simp
  then show ?thesis by (simp add: mod_mod_cancel)
qed

text \<open>Padding with zeros up to 56 bytes of a block.\<close>

function sha_pad_zeros :: "SHA_CTX \<Rightarrow> SHA_CTX" where
  "sha_pad_zeros ctx =
     (if unat (sha_count ctx) mod 64 \<noteq> 56 then sha_pad_zeros (SHA_update ctx [0]) else ctx)"
  by pat_completeness auto
termination
proof (relation "measure (\<lambda>ctx. (120 - unat (sha_count ctx) mod 64) mod 64)")
  fix ctx :: SHA_CTX
  assume n: "unat (sha_count ctx) mod 64 \<noteq> 56"
  define i where "i = unat (sha_count ctx) mod 64"
  have i: "i < 64" "i \<noteq> 56" using n by (simp_all add: i_def)
  have "unat (sha_count (SHA_update ctx [0])) mod 64 = (unat (sha_count ctx) + 1) mod 64"
    unfolding SHA_update_count using unat_mod_64 [of "sha_count ctx" 1] by simp
  also have "\<dots> = (i + 1) mod 64" unfolding i_def by (simp add: mod_simps)
  finally have s: "unat (sha_count (SHA_update ctx [0])) mod 64 = (i + 1) mod 64" .
  have "(120 - (i + 1) mod 64) mod 64 < (120 - i) mod 64"
    using i by (cases "i < 56"; cases "i = 63") (auto simp: mod_if)
  then show "(SHA_update ctx [0], ctx) \<in> measure (\<lambda>ctx. (120 - unat (sha_count ctx) mod 64) mod 64)"
    by (simp add: s i_def)
qed simp

definition SHA_final :: "SHA_CTX \<Rightarrow> byte list" where
  "SHA_final ctx =
     (let cnt = sha_count ctx * 8;
          ctx = sha_pad_zeros (SHA_update ctx [0x80]);
          ctx = foldl (\<lambda>ctx i. SHA_update ctx [ucast (drop_bit ((7 - i) * 8) cnt)]) ctx [0..<8]
      in concat (map (\<lambda>i. let tmp = sha_state ctx ! i in
           [ucast (drop_bit 24 tmp), ucast (drop_bit 16 tmp), ucast (drop_bit 8 tmp), ucast tmp]) [0..<5]))"

text \<open>The context is a local variable: \<open>ctx0\<close> is whatever the stack holds.\<close>

definition SHA :: "SHA_CTX \<Rightarrow> byte list \<Rightarrow> byte list" where
  "SHA ctx0 data = SHA_final (SHA_update (SHA_init ctx0) data)"

section \<open>SHA-1 against FIPS 180\<close>

text \<open>The functions, the message schedule, the compression function and the padding of the standard.\<close>

definition fips_f :: "nat \<Rightarrow> 32 word \<Rightarrow> 32 word \<Rightarrow> 32 word \<Rightarrow> 32 word" where
  "fips_f t x y z =
     (if t < 20 then (x AND y) XOR (NOT x AND z)
      else if t < 40 then x XOR y XOR z
      else if t < 60 then (x AND y) XOR (x AND z) XOR (y AND z)
      else x XOR y XOR z)"

definition fips_K :: "nat \<Rightarrow> 32 word" where
  "fips_K t = (if t < 20 then 0x5A827999 else if t < 40 then 0x6ED9EBA1 else if t < 60 then 0x8F1BBCDC else 0xCA62C1D6)"

definition be_word :: "byte list \<Rightarrow> 32 word" where
  "be_word bs = foldl (\<lambda>w b. w * 256 + ucast b) 0 bs"

fun fips_W :: "byte list \<Rightarrow> nat \<Rightarrow> 32 word" where
  "fips_W M t =
     (if t < 16 then be_word (take 4 (drop (4 * t) M))
      else word_rotl 1 (fips_W M (t - 3) XOR fips_W M (t - 8) XOR fips_W M (t - 14) XOR fips_W M (t - 16)))"

declare fips_W.simps [simp del]

primrec fips_rounds :: "byte list \<Rightarrow> nat \<Rightarrow> sha_regs \<Rightarrow> sha_regs" where
  "fips_rounds M 0 r = r"
| "fips_rounds M (Suc t) r =
     (case fips_rounds M t r of (a, b, c, d, e) \<Rightarrow>
        (word_rotl 5 a + fips_f t b c d + e + fips_K t + fips_W M t, a, word_rotl 30 b, c, d))"

definition fips_compress :: "sha_regs \<Rightarrow> byte list \<Rightarrow> sha_regs" where
  "fips_compress H M =
     (case H of (h0, h1, h2, h3, h4) \<Rightarrow>
        case fips_rounds M 80 H of (a, b, c, d, e) \<Rightarrow> (a + h0, b + h1, c + h2, d + h3, e + h4))"

definition be_bytes :: "nat \<Rightarrow> nat \<Rightarrow> byte list" where
  "be_bytes n x = map (\<lambda>i. of_nat (x div 256 ^ (n - 1 - i))) [0..<n]"

definition fips_pad :: "byte list \<Rightarrow> byte list" where
  "fips_pad msg = msg @ [0x80] @ replicate ((119 - length msg mod 64) mod 64) 0 @ be_bytes 8 (8 * length msg)"

definition blocks64 :: "byte list \<Rightarrow> byte list list" where
  "blocks64 xs = map (\<lambda>k. take 64 (drop (64 * k) xs)) [0..<length xs div 64]"

definition fips_sha1 :: "byte list \<Rightarrow> byte list" where
  "fips_sha1 msg =
     (case foldl fips_compress (0x67452301, 0xEFCDAB89, 0x98BADCFE, 0x10325476, 0xC3D2E1F0) (blocks64 (fips_pad msg)) of
        (a, b, c, d, e) \<Rightarrow> concat (map (\<lambda>w. be_bytes 4 (unat w)) [a, b, c, d, e]))"

text \<open>One block.\<close>

lemma rol_rotl: "0 < n \<Longrightarrow> n < 32 \<Longrightarrow> rol n w = word_rotl n w"
proof (rule bit_word_eqI)
  fix k
  assume n: "0 < n" "n < 32" and k: "k < LENGTH(32)"
  define j where "j = (k + (32 - n)) mod 32"
  have rotl: "bit (word_rotl n w) k \<longleftrightarrow> bit w j"
    using n k by (simp add: bit_word_rotl_iff j_def)
  have rol: "bit (rol n w) k \<longleftrightarrow> n \<le> k \<and> bit w (k - n) \<or> bit w (32 - n + k)"
    using k by (simp add: rol_def bit_or_iff bit_push_bit_iff bit_drop_bit_eq)
  show "bit (rol n w) k = bit (word_rotl n w) k"
  proof (cases "k < n")
    case True
    then have "j = 32 - n + k" using n by (simp add: j_def add.commute)
    with True show ?thesis by (simp add: rotl rol)
  next
    case False
    then have "k + (32 - n) = (k - n) + 32" using n by simp
    then have "j = (k - n) mod 32" unfolding j_def by (simp only: mod_add_self2)
    then have "j = k - n" using k by simp
    moreover have "\<not> bit w (32 - n + k)" using False n bit_imp_le_length [of w "32 - n + k"] by auto
    ultimately show ?thesis using False by (simp add: rotl rol)
  qed
qed

lemma disjoint_or_add: "w AND v = 0 \<Longrightarrow> w OR v = w + (v :: 32 word)"
  by (simp add: disjunctive_add_eq_or)

lemma sha_word_be: "4 * t + 3 < length p \<Longrightarrow> sha_word p t = be_word (take 4 (drop (4 * t) p))"
proof -
  assume t: "4 * t + 3 < length p"
  have tk: "take 4 (drop (4 * t) p) = [p ! (4 * t), p ! (4 * t + 1), p ! (4 * t + 2), p ! (4 * t + 3)]"
    using t by (auto simp: list_eq_iff_nth_eq less_Suc_eq numeral_eq_Suc)
  have lo: "push_bit 8 w OR ucast (b :: byte) = w * 256 + (ucast b :: 32 word)" for w b
  proof -
    have "push_bit 8 w AND ucast b = (0 :: 32 word)"
      by (rule bit_word_eqI) (auto simp: bit_and_iff bit_push_bit_iff bit_ucast_iff dest: bit_imp_le_length)
    then show ?thesis by (simp add: disjoint_or_add push_bit_eq_mult)
  qed
  have sh: "push_bit n (a OR b) = push_bit n a OR push_bit n (b :: 32 word)" for n a b
    by (rule push_bit_or)
  have "sha_word p t = push_bit 8 (push_bit 8 (push_bit 8 (ucast (p ! (4 * t))) OR ucast (p ! (4 * t + 1))) OR ucast (p ! (4 * t + 2))) OR ucast (p ! (4 * t + 3))"
    by (simp add: sha_word_def sh or.assoc push_bit_push_bit)
  then show ?thesis by (simp add: tk be_word_def lo)
qed

lemma sha_schedule_nth:
  assumes p: "length p = 64"
  shows "n \<le> 64 \<Longrightarrow>
    length (foldl (\<lambda>W t. W @ [rol 1 (W ! (t - 3) XOR W ! (t - 8) XOR W ! (t - 14) XOR W ! (t - 16))])
      (map (sha_word p) [0..<16]) [16..<16 + n]) = 16 + n \<and>
    (\<forall>t < 16 + n. foldl (\<lambda>W t. W @ [rol 1 (W ! (t - 3) XOR W ! (t - 8) XOR W ! (t - 14) XOR W ! (t - 16))])
      (map (sha_word p) [0..<16]) [16..<16 + n] ! t = fips_W p t)"
proof (induction n)
  case 0
  then show ?case by (auto simp: fips_W.simps sha_word_be p simp del: upt_rec_numeral)
next
  case (Suc n)
  let ?f = "\<lambda>W t. W @ [rol 1 (W ! (t - 3) XOR W ! (t - 8) XOR W ! (t - 14) XOR W ! (t - 16))]"
  define W where "W = foldl ?f (map (sha_word p) [0..<16]) [16..<16 + n]"
  have W: "length W = 16 + n" "\<And>t. t < 16 + n \<Longrightarrow> W ! t = fips_W p t"
    using Suc.IH Suc.prems by (simp_all add: W_def)
  have st: "foldl ?f (map (sha_word p) [0..<16]) [16..<16 + Suc n] = ?f W (16 + n)"
  proof -
    have "[16..<16 + Suc n] = [16..<16 + n] @ [16 + n]" by (simp only: add_Suc_right upt_Suc) simp
    then show ?thesis unfolding W_def by (simp only: foldl_append foldl.simps)
  qed
  have "(?f W (16 + n)) ! t = fips_W p t" if "t < 16 + Suc n" for t
  proof (cases "t < 16 + n")
    case True
    then show ?thesis by (simp add: W nth_append)
  next
    case False
    then have t: "t = 16 + n" using that by simp
    show ?thesis unfolding t
      by (subst fips_W.simps) (simp add: nth_append W rol_rotl)
  qed
  then show ?case unfolding st using W by simp
qed

lemma sha_schedule_W: "length p = 64 \<Longrightarrow> t < 80 \<Longrightarrow> sha_schedule p ! t = fips_W p t"
proof -
  have "(16 :: nat) + 64 = 80" by simp
  then show "length p = 64 \<Longrightarrow> t < 80 \<Longrightarrow> sha_schedule p ! t = fips_W p t"
    using sha_schedule_nth [of p 64] unfolding sha_schedule_def by (simp only: order_refl simp_thms)
qed

lemma fips_f_code:
  "fips_f t x y z =
     (if t < 20 then z XOR (x AND (y XOR z)) else if t < 40 then x XOR y XOR z
      else if t < 60 then (x AND y) OR (z AND (x OR y)) else x XOR y XOR z)"
proof -
  have "(x AND y) XOR (NOT x AND z) = z XOR (x AND (y XOR z))"
    by (rule bit_word_eqI) (auto simp: bit_and_iff bit_xor_iff bit_not_iff)
  moreover have "(x AND y) XOR (x AND z) XOR (y AND z) = (x AND y) OR (z AND (x OR y))"
    by (rule bit_word_eqI) (auto simp: bit_and_iff bit_xor_iff bit_or_iff)
  ultimately show ?thesis by (simp add: fips_f_def)
qed

lemma sha_round_fips:
  "W ! t = w \<Longrightarrow> sha_round W (a, b, c, d, e) t = (word_rotl 5 a + fips_f t b c d + e + fips_K t + w, a, word_rotl 30 b, c, d)"
  by (simp add: sha_round_def Let_def fips_f_code fips_K_def rol_rotl add_ac)

lemma sha_rounds:
  "length p = 64 \<Longrightarrow> n \<le> 80 \<Longrightarrow> foldl (sha_round (sha_schedule p)) r [0..<n] = fips_rounds p n r"
proof (induction n)
  case (Suc n)
  then have IH: "foldl (sha_round (sha_schedule p)) r [0..<n] = fips_rounds p n r" by simp
  have W: "sha_schedule p ! n = fips_W p n" using Suc.prems by (simp add: sha_schedule_W)
  obtain a b c d e where r: "fips_rounds p n r = (a, b, c, d, e)" by (metis prod.exhaust)
  show ?case by (simp add: IH r sha_round_fips [OF W])
qed simp

definition sha_regs_of :: "32 word list \<Rightarrow> sha_regs" where
  "sha_regs_of st = (st ! 0, st ! 1, st ! 2, st ! 3, st ! 4)"

lemma SHA1_transform_fips:
  "length (sha_buf ctx) = 64 \<Longrightarrow>
   sha_regs_of (sha_state (SHA1_transform ctx)) = fips_compress (sha_regs_of (sha_state ctx)) (sha_buf ctx) \<and>
   sha_buf (SHA1_transform ctx) = sha_buf ctx \<and> sha_count (SHA1_transform ctx) = sha_count ctx"
  by (simp add: SHA1_transform_def Let_def sha_rounds fips_compress_def sha_regs_of_def add.commute split: prod.split)


text \<open>A context stands for the bytes it was fed: the state has consumed the complete blocks, the buffer
  holds the rest.\<close>

definition sha_H0 :: sha_regs where
  "sha_H0 = (0x67452301, 0xEFCDAB89, 0x98BADCFE, 0x10325476, 0xC3D2E1F0)"

definition sha_fed :: "byte list \<Rightarrow> SHA_CTX \<Rightarrow> bool" where
  "sha_fed bs ctx \<longleftrightarrow> length (sha_buf ctx) = 64 \<and>
     sha_regs_of (sha_state ctx) = foldl fips_compress sha_H0 (blocks64 bs) \<and>
     take (length bs mod 64) (sha_buf ctx) = drop (64 * (length bs div 64)) bs"

lemma Suc_mod_64:
  "n mod 64 \<noteq> 63 \<Longrightarrow> Suc n mod 64 = Suc (n mod 64) \<and> Suc n div 64 = n div 64" for n :: nat
proof -
  assume n: "n mod 64 \<noteq> 63"
  have "Suc n = 64 * (n div 64) + Suc (n mod 64)" by simp
  moreover have "Suc (n mod 64) < 64" using n mod_less_divisor [of 64 n] by linarith
  ultimately show ?thesis by (metis div_mult_self4 div_less mod_mult_self4 mod_less add.commute add_0 zero_neq_numeral)
qed

lemma blocks64_snoc:
  "blocks64 (xs @ [b]) =
     (if Suc (length xs) mod 64 = 0 then blocks64 xs @ [drop (64 * (length xs div 64)) xs @ [b]] else blocks64 xs)"
proof -
  define q r where "q = length xs div 64" and "r = length xs mod 64"
  have len: "length xs = 64 * q + r" "r < 64" by (simp_all add: q_def r_def)
  have same: "take 64 (drop (64 * k) (xs @ [b])) = take 64 (drop (64 * k) xs)" if "k < q" for k
    using that len by simp
  show ?thesis
  proof (cases "r = 63")
    case True
    then have "Suc (length xs) div 64 = Suc q" "Suc (length xs) mod 64 = 0" using len by simp_all
    then show ?thesis using same True len by (simp add: blocks64_def flip: q_def)
  next
    case False
    then have "Suc (length xs) div 64 = q" "Suc (length xs) mod 64 \<noteq> 0" using Suc_mod_64 [of "length xs"] by (simp_all add: q_def r_def)
    then show ?thesis using same by (simp add: blocks64_def flip: q_def)
  qed
qed

lemma sha_feed_fed:
  "sha_fed bs ctx \<Longrightarrow> sha_fed (bs @ p) (sha_feed p (length bs mod 64) ctx)"
proof (induction p arbitrary: bs ctx)
  case (Cons b p)
  define i where "i = length bs mod 64"
  define q where "q = length bs div 64"
  have len: "length bs = 64 * q + i" "i < 64" by (simp_all add: i_def q_def)
  define c where "c = ctx\<lparr>sha_buf := (sha_buf ctx)[i := b]\<rparr>"
  have c: "length (sha_buf c) = 64" "take (Suc i) (sha_buf c) = drop (64 * q) bs @ [b]"
    "sha_regs_of (sha_state c) = foldl fips_compress sha_H0 (blocks64 bs)"
    using Cons.prems len by (simp_all add: sha_fed_def c_def take_Suc_conv_app_nth flip: i_def q_def)
  show ?case
  proof (cases "Suc i = 64")
    case True
    then have m: "Suc (length bs) mod 64 = 0" "Suc (length bs) div 64 = Suc q" using len by simp_all
    have buf: "sha_buf c = drop (64 * q) bs @ [b]" using c True by simp
    have "sha_fed (bs @ [b]) (SHA1_transform c)"
      using SHA1_transform_fips [of c] c m len True
      by (simp add: sha_fed_def blocks64_snoc buf flip: q_def)
    from Cons.IH [OF this] m True show ?thesis by (simp add: Let_def c_def flip: i_def)
  next
    case False
    then have m: "Suc (length bs) mod 64 = Suc i" "Suc (length bs) div 64 = q"
      using Suc_mod_64 [of "length bs"] by (simp_all add: i_def q_def)
    have "sha_fed (bs @ [b]) c"
      using c m len by (simp add: sha_fed_def blocks64_snoc)
    from Cons.IH [OF this] m False show ?thesis by (simp add: Let_def c_def flip: i_def)
  qed
qed simp

definition sha_ctx :: "byte list \<Rightarrow> SHA_CTX \<Rightarrow> bool" where
  "sha_ctx bs ctx \<longleftrightarrow> sha_fed bs ctx \<and> sha_count ctx = of_nat (length bs)"

lemma sha_ctx_index: "sha_ctx bs ctx \<Longrightarrow> unat (sha_count ctx) mod 64 = length bs mod 64"
  using unat_mod_64 [of 0 "length bs"] by (simp add: sha_ctx_def)

lemma SHA_update_ctx: "sha_ctx bs ctx \<Longrightarrow> sha_ctx (bs @ p) (SHA_update ctx p)"
proof -
  assume c: "sha_ctx bs ctx"
  then have "sha_fed bs (ctx\<lparr>sha_count := sha_count ctx + of_nat (length p)\<rparr>)" by (simp add: sha_ctx_def sha_fed_def)
  from sha_feed_fed [OF this, of p] c sha_ctx_index [OF c] show ?thesis
    by (simp add: sha_ctx_def SHA_update_def)
qed

lemma pad_count_Suc:
  "n mod 64 \<noteq> 56 \<Longrightarrow> (120 - n mod 64) mod 64 = Suc ((120 - Suc n mod 64) mod 64)" for n :: nat
proof -
  define i where "i = n mod 64"
  assume n: "n mod 64 \<noteq> 56"
  have i: "i < 64" "i \<noteq> 56" "Suc n mod 64 = (if i = 63 then 0 else Suc i)" using n by (simp_all add: i_def mod_Suc)
  consider "i < 56" | "56 < i" "i < 63" | "i = 63" using i by linarith
  then show ?thesis
  proof cases
    case 1
    then have "120 - i = (56 - i) + 64" "120 - Suc i = (55 - i) + 64" by simp_all
    then have "(120 - i) mod 64 = 56 - i" "(120 - Suc i) mod 64 = 55 - i" using 1 by (simp_all only: mod_add_self2) simp_all
    with 1 i show ?thesis by (simp flip: i_def)
  next
    case 2
    with i show ?thesis by (simp flip: i_def)
  next
    case 3
    with i show ?thesis by (simp flip: i_def)
  qed
qed

declare sha_pad_zeros.simps [simp del]

lemma sha_pad_zeros_ctx:
  "sha_ctx bs ctx \<Longrightarrow> sha_ctx (bs @ replicate ((120 - length bs mod 64) mod 64) 0) (sha_pad_zeros ctx)"
proof (induction ctx arbitrary: bs rule: sha_pad_zeros.induct)
  case (1 ctx)
  note ix = sha_ctx_index [OF "1.prems"]
  show ?case
  proof (cases "length bs mod 64 = 56")
    case True
    then have "sha_pad_zeros ctx = ctx" using ix by (subst sha_pad_zeros.simps) simp
    with "1.prems" True show ?thesis by simp
  next
    case False
    have n: "(120 - length bs mod 64) mod 64 = Suc ((120 - Suc (length bs) mod 64) mod 64)"
      by (rule pad_count_Suc [OF False])
    have "sha_ctx ((bs @ [0]) @ replicate ((120 - length (bs @ [0]) mod 64) mod 64) 0) (sha_pad_zeros (SHA_update ctx [0]))"
      using False ix by (intro "1.IH" SHA_update_ctx "1.prems") simp
    moreover have "sha_pad_zeros ctx = sha_pad_zeros (SHA_update ctx [0])"
      using False ix by (subst sha_pad_zeros.simps) simp
    ultimately show ?thesis unfolding n by simp
  qed
qed

lemma be_byte_bits: "bit (of_nat (x div 256 ^ m) :: byte) j \<longleftrightarrow> j < 8 \<and> bit x (8 * m + j)" for x :: nat
proof -
  have "x div 256 ^ m = drop_bit (8 * m) x" by (simp add: drop_bit_eq_div power_mult)
  then show ?thesis by (simp add: bit_of_nat_iff bit_drop_bit_eq)
qed

lemma be_byte_of_nat: "8 * m + 8 \<le> 64 \<Longrightarrow> ucast (drop_bit (8 * m) (of_nat x :: 64 word)) = (of_nat (x div 256 ^ m) :: byte)"
proof (rule bit_word_eqI)
  fix j
  assume m: "8 * m + 8 \<le> 64" and j: "j < LENGTH(8)"
  then have "8 * m + j < 64" by simp
  then have "bit (ucast (drop_bit (8 * m) (of_nat x :: 64 word)) :: byte) j = bit x (8 * m + j)"
    using j by (simp add: bit_ucast_iff bit_drop_bit_eq bit_of_nat_iff)
  with j show "bit (ucast (drop_bit (8 * m) (of_nat x :: 64 word)) :: byte) j = bit (of_nat (x div 256 ^ m) :: byte) j"
    by (simp only: be_byte_bits) simp
qed

lemma be_byte_word: "ucast (drop_bit (8 * m) (w :: 32 word)) = (of_nat (unat w div 256 ^ m) :: byte)"
proof (rule bit_word_eqI)
  fix j
  assume j: "j < LENGTH(8)"
  have "bit (unat w) (8 * m + j) = bit w (8 * m + j)" by (simp add: bit_unsigned_iff)
  then show "bit (ucast (drop_bit (8 * m) w) :: byte) j = bit (of_nat (unat w div 256 ^ m) :: byte) j"
    using j by (simp only: be_byte_bits bit_ucast_iff bit_drop_bit_eq) simp
qed

lemma sha_updates_ctx:
  "sha_ctx bs ctx \<Longrightarrow> sha_ctx (bs @ map f is) (foldl (\<lambda>ctx i. SHA_update ctx [f i]) ctx is)"
proof (induction "is" arbitrary: bs ctx)
  case (Cons i "is")
  from Cons.IH [OF SHA_update_ctx [OF Cons.prems, of "[f i]"]] show ?case by simp
qed simp

lemma SHA_init_ctx: "length (sha_buf ctx) = 64 \<Longrightarrow> sha_ctx [] (SHA_init ctx)"
  by (simp add: sha_ctx_def sha_fed_def SHA_init_def sha_regs_of_def sha_H0_def blocks64_def)

lemma SHA_final_fips:
  assumes c: "sha_ctx msg ctx"
  shows "SHA_final ctx = fips_sha1 msg"
proof -
  define cnt where "cnt = sha_count ctx * 8"
  define lens where "lens = map (\<lambda>i. ucast (drop_bit ((7 - i) * 8) cnt) :: byte) [0..<8]"
  have "cnt = of_nat (8 * length msg)" using c by (simp add: cnt_def sha_ctx_def mult.commute)
  then have lens: "lens = be_bytes 8 (8 * length msg)"
    using be_byte_of_nat [of "7 - _" "8 * length msg"]
    by (auto simp: lens_def be_bytes_def mult.commute simp del: upt_rec_numeral of_nat_mult)
  define k where "k = (119 - length msg mod 64) mod 64"
  have "(120 - length (msg @ [0x80]) mod 64) mod 64 = (119 - length msg mod 64) mod 64"
  proof (cases "length msg mod 64 = 63")
    case True
    then have "Suc (length msg) mod 64 = 0" by (simp add: mod_Suc)
    with True show ?thesis by simp
  next
    case False
    then show ?thesis using Suc_mod_64 [of "length msg"] by simp
  qed
  then have "sha_ctx (msg @ [0x80] @ replicate k 0) (sha_pad_zeros (SHA_update ctx [0x80]))"
    using sha_pad_zeros_ctx [OF SHA_update_ctx [OF c, of "[0x80]"]] by (simp add: k_def)
  from sha_updates_ctx [OF this, of "\<lambda>i. ucast (drop_bit ((7 - i) * 8) cnt)" "[0..<8]"]
  have "sha_ctx (fips_pad msg) (foldl (\<lambda>ctx i. SHA_update ctx [ucast (drop_bit ((7 - i) * 8) cnt)])
      (sha_pad_zeros (SHA_update ctx [0x80])) [0..<8])" (is "sha_ctx _ ?c")
    unfolding fips_pad_def lens [symmetric] lens_def k_def by (simp only: append_assoc)
  then obtain c where c: "?c = c" "sha_ctx (fips_pad msg) c" by blast
  have regs: "foldl fips_compress sha_H0 (blocks64 (fips_pad msg)) = sha_regs_of (sha_state c)"
    using c by (simp add: sha_ctx_def sha_fed_def)
  have st: "fips_sha1 msg = concat (map (\<lambda>i. be_bytes 4 (unat (sha_state c ! i))) [0..<5])"
    unfolding fips_sha1_def sha_H0_def [symmetric] by (simp add: regs sha_regs_of_def upt_rec numeral_eq_Suc)
  have "[ucast (drop_bit 24 w), ucast (drop_bit 16 w), ucast (drop_bit 8 w), ucast w] = be_bytes 4 (unat w)" for w :: "32 word"
    using be_byte_word [of 3 w] be_byte_word [of 2 w] be_byte_word [of 1 w] be_byte_word [of 0 w]
    by (simp add: be_bytes_def upt_rec)
  then show ?thesis unfolding st by (simp only: SHA_final_def Let_def cnt_def [symmetric] c)
qed

lemma SHA_fips: "length (sha_buf ctx0) = 64 \<Longrightarrow> SHA ctx0 msg = fips_sha1 msg"
  unfolding SHA_def using SHA_update_ctx [OF SHA_init_ctx, of ctx0 msg] by (simp add: SHA_final_fips)

lemma sha_feed_append:
  "i < 64 \<Longrightarrow> sha_feed (xs @ ys) i ctx = sha_feed ys ((i + length xs) mod 64) (sha_feed xs i ctx)"
proof (induction xs arbitrary: i ctx)
  case (Cons b xs)
  show ?case
  proof (cases "Suc i = 64")
    case True
    then have "(i + length (b # xs)) mod 64 = length xs mod 64" by simp
    with True show ?thesis using Cons.IH [of 0] by (simp only: append_Cons sha_feed.simps Let_def) simp
  next
    case False
    with Cons show ?thesis by (simp add: Let_def)
  qed
qed simp

lemma sha_feed_count_update: "sha_feed p i (ctx\<lparr>sha_count := n\<rparr>) = (sha_feed p i ctx)\<lparr>sha_count := n\<rparr>"
proof (induction p arbitrary: i ctx)
  case (Cons b p)
  have "SHA1_transform (c\<lparr>sha_count := n\<rparr>) = (SHA1_transform c)\<lparr>sha_count := n\<rparr>" for c
    by (simp add: SHA1_transform_def Let_def split: prod.split)
  moreover have "ctx\<lparr>sha_count := n, sha_buf := bs\<rparr> = ctx\<lparr>sha_buf := bs, sha_count := n\<rparr>" for bs by simp
  ultimately show ?case using Cons
    by (simp only: sha_feed.simps Let_def SHA_CTX.select_convs SHA_CTX.surjective SHA_CTX.update_convs) simp
qed simp

interpretation sha: stream_digest SHA_update "\<lambda>_. True"
proof unfold_locales
  fix c xs ys
  show "SHA_update c [] = c" by (simp add: SHA_update_def)
  have "sha_feed ys i (sha_feed xs j (c\<lparr>sha_count := n\<rparr>)\<lparr>sha_count := m\<rparr>) = sha_feed ys i (sha_feed xs j (c\<lparr>sha_count := m\<rparr>))" for i j n m
    by (simp add: sha_feed_count_update)
  then show "SHA_update c (xs @ ys) = SHA_update (SHA_update c xs) ys"
    by (simp add: SHA_update_def sha_feed_append unat_mod_64 mod_simps add.assoc)
qed simp

text \<open>C19. SHA-1 as coded is the SHA-1 of FIPS 180: the digest of every message is that of the standard,
  whatever the uninitialised context holds, the same when the message is fed in pieces, and the padding
  loop of \<open>SHA_final\<close> ends.\<close>

theorem sha_is_fips180:
  assumes "length (sha_buf ctx0) = 64"
  shows "SHA ctx0 (concat pieces) = fips_sha1 (concat pieces) \<and>
    SHA_final (foldl SHA_update (SHA_init ctx0) pieces) = fips_sha1 (concat pieces)"
  using SHA_fips [OF assms] sha.upd_concat [of "SHA_init ctx0" pieces] by (simp add: SHA_def)

definition demo_ctx :: SHA_CTX where
  "demo_ctx = \<lparr>sha_count = 77, sha_buf = replicate 64 0xcc, sha_state = replicate 5 1\<rparr>"

theorem sha_is_fips180_witness:
  "SHA demo_ctx [0x61, 0x62, 0x63] = fips_sha1 [0x61, 0x62, 0x63]"
  using sha_is_fips180 [of demo_ctx "[[0x61, 0x62], [0x63]]"] by (simp add: demo_ctx_def)

end
