(* ===== verification/YM_Checksum.thy ===== *)
theory YM_Checksum
  imports EP_Prelude
begin

unbundle bit_operations_syntax

text \<open>
  The checksums of \<open>src/utils\<close>: CRC-32 (\<open>crc32.c\<close>) and Adler-32 (\<open>adler32.c\<close>), with their reference
  definitions and the equivalence of the two. The \<open>unsigned long\<close> of the code is taken at 32 bits, the
  smallest width it has on the supported targets, so that nothing rests on a wider one.
\<close>

section \<open>CRC-32\<close>

definition crc_table :: "32 word list" where
  "crc_table = [
    0x00000000, 0x77073096, 0xee0e612c, 0x990951ba, 0x076dc419, 0x706af48f, 0xe963a535, 0x9e6495a3,
    0x0edb8832, 0x79dcb8a4, 0xe0d5e91e, 0x97d2d988, 0x09b64c2b, 0x7eb17cbd, 0xe7b82d07, 0x90bf1d91,
    0x1db71064, 0x6ab020f2, 0xf3b97148, 0x84be41de, 0x1adad47d, 0x6ddde4eb, 0xf4d4b551, 0x83d385c7,
    0x136c9856, 0x646ba8c0, 0xfd62f97a, 0x8a65c9ec, 0x14015c4f, 0x63066cd9, 0xfa0f3d63, 0x8d080df5,
    0x3b6e20c8, 0x4c69105e, 0xd56041e4, 0xa2677172, 0x3c03e4d1, 0x4b04d447, 0xd20d85fd, 0xa50ab56b,
    0x35b5a8fa, 0x42b2986c, 0xdbbbc9d6, 0xacbcf940, 0x32d86ce3, 0x45df5c75, 0xdcd60dcf, 0xabd13d59,
    0x26d930ac, 0x51de003a, 0xc8d75180, 0xbfd06116, 0x21b4f4b5, 0x56b3c423, 0xcfba9599, 0xb8bda50f,
    0x2802b89e, 0x5f058808, 0xc60cd9b2, 0xb10be924, 0x2f6f7c87, 0x58684c11, 0xc1611dab, 0xb6662d3d,
    0x76dc4190, 0x01db7106, 0x98d220bc, 0xefd5102a, 0x71b18589, 0x06b6b51f, 0x9fbfe4a5, 0xe8b8d433,
    0x7807c9a2, 0x0f00f934, 0x9609a88e, 0xe10e9818, 0x7f6a0dbb, 0x086d3d2d, 0x91646c97, 0xe6635c01,
    0x6b6b51f4, 0x1c6c6162, 0x856530d8, 0xf262004e, 0x6c0695ed, 0x1b01a57b, 0x8208f4c1, 0xf50fc457,
    0x65b0d9c6, 0x12b7e950, 0x8bbeb8ea, 0xfcb9887c, 0x62dd1ddf, 0x15da2d49, 0x8cd37cf3, 0xfbd44c65,
    0x4db26158, 0x3ab551ce, 0xa3bc0074, 0xd4bb30e2, 0x4adfa541, 0x3dd895d7, 0xa4d1c46d, 0xd3d6f4fb,
    0x4369e96a, 0x346ed9fc, 0xad678846, 0xda60b8d0, 0x44042d73, 0x33031de5, 0xaa0a4c5f, 0xdd0d7cc9,
    0x5005713c, 0x270241aa, 0xbe0b1010, 0xc90c2086, 0x5768b525, 0x206f85b3, 0xb966d409, 0xce61e49f,
    0x5edef90e, 0x29d9c998, 0xb0d09822, 0xc7d7a8b4, 0x59b33d17, 0x2eb40d81, 0xb7bd5c3b, 0xc0ba6cad,
    0xedb88320, 0x9abfb3b6, 0x03b6e20c, 0x74b1d29a, 0xead54739, 0x9dd277af, 0x04db2615, 0x73dc1683,
    0xe3630b12, 0x94643b84, 0x0d6d6a3e, 0x7a6a5aa8, 0xe40ecf0b, 0x9309ff9d, 0x0a00ae27, 0x7d079eb1,
    0xf00f9344, 0x8708a3d2, 0x1e01f268, 0x6906c2fe, 0xf762575d, 0x806567cb, 0x196c3671, 0x6e6b06e7,
    0xfed41b76, 0x89d32be0, 0x10da7a5a, 0x67dd4acc, 0xf9b9df6f, 0x8ebeeff9, 0x17b7be43, 0x60b08ed5,
    0xd6d6a3e8, 0xa1d1937e, 0x38d8c2c4, 0x4fdff252, 0xd1bb67f1, 0xa6bc5767, 0x3fb506dd, 0x48b2364b,
    0xd80d2bda, 0xaf0a1b4c, 0x36034af6, 0x41047a60, 0xdf60efc3, 0xa867df55, 0x316e8eef, 0x4669be79,
    0xcb61b38c, 0xbc66831a, 0x256fd2a0, 0x5268e236, 0xcc0c7795, 0xbb0b4703, 0x220216b9, 0x5505262f,
    0xc5ba3bbe, 0xb2bd0b28, 0x2bb45a92, 0x5cb36a04, 0xc2d7ffa7, 0xb5d0cf31, 0x2cd99e8b, 0x5bdeae1d,
    0x9b64c2b0, 0xec63f226, 0x756aa39c, 0x026d930a, 0x9c0906a9, 0xeb0e363f, 0x72076785, 0x05005713,
    0x95bf4a82, 0xe2b87a14, 0x7bb12bae, 0x0cb61b38, 0x92d28e9b, 0xe5d5be0d, 0x7cdcefb7, 0x0bdbdf21,
    0x86d3d2d4, 0xf1d4e242, 0x68ddb3f8, 0x1fda836e, 0x81be16cd, 0xf6b9265b, 0x6fb077e1, 0x18b74777,
    0x88085ae6, 0xff0f6a70, 0x66063bca, 0x11010b5c, 0x8f659eff, 0xf862ae69, 0x616bffd3, 0x166ccf45,
    0xa00ae278, 0xd70dd2ee, 0x4e048354, 0x3903b3c2, 0xa7672661, 0xd06016f7, 0x4969474d, 0x3e6e77db,
    0xaed16a4a, 0xd9d65adc, 0x40df0b66, 0x37d83bf0, 0xa9bcae53, 0xdebb9ec5, 0x47b2cf7f, 0x30b5ffe9,
    0xbdbdf21c, 0xcabac28a, 0x53b39330, 0x24b4a3a6, 0xbad03605, 0xcdd70693, 0x54de5729, 0x23d967bf,
    0xb3667a2e, 0xc4614ab8, 0x5d681b02, 0x2a6f2b94, 0xb40bbe37, 0xc30c8ea1, 0x5a05df1b, 0x2d02ef8d
  ]"

text \<open>The generator of the table, as in \<open>make_crc_table\<close>.\<close>

definition crc_shift :: "32 word \<Rightarrow> 32 word" where
  "crc_shift c = (if bit c 0 then 0xedb88320 XOR drop_bit 1 c else drop_bit 1 c)"

definition make_crc_table :: "32 word list" where
  "make_crc_table = map (\<lambda>n. (crc_shift ^^ 8) (of_nat n)) [0..<256]"

definition crc_step :: "32 word \<Rightarrow> byte \<Rightarrow> 32 word" where
  "crc_step crc b = crc_table ! unat ((crc XOR ucast b) AND 0xff) XOR drop_bit 8 crc"

definition crc32 :: "32 word \<Rightarrow> byte list option \<Rightarrow> 32 word" where
  "crc32 crc buf =
     (case buf of
        None \<Rightarrow> 0
      | Some bs \<Rightarrow> foldl crc_step (crc XOR 0xffffffff) bs XOR 0xffffffff)"

section \<open>Adler-32\<close>

definition DO1 :: "32 word \<times> 32 word \<Rightarrow> byte \<Rightarrow> 32 word \<times> 32 word" where
  "DO1 s b = (let s1 = fst s + ucast b; s2 = snd s + s1 in (s1, s2))"

text \<open>Blocks of at most \<open>NMAX\<close> bytes; the unrolled groups of 16 are the same steps.\<close>

function adler_blocks :: "32 word \<times> 32 word \<Rightarrow> byte list \<Rightarrow> 32 word \<times> 32 word" where
  "adler_blocks s buf =
     (if buf = [] then s
      else let k = (if length buf < 5552 then length buf else 5552); s = foldl DO1 s (take k buf)
           in adler_blocks (fst s mod 65521, snd s mod 65521) (drop k buf))"
  by pat_completeness auto
termination by (relation "measure (\<lambda>(s, buf). length buf)") auto

definition adler32 :: "32 word \<Rightarrow> byte list option \<Rightarrow> 32 word" where
  "adler32 adler buf =
     (case buf of
        None \<Rightarrow> 1
      | Some bs \<Rightarrow>
          (case adler_blocks (adler AND 0xffff, drop_bit 16 adler AND 0xffff) bs of
             (s1, s2) \<Rightarrow> push_bit 16 s2 OR s1))"

section \<open>CRC-32 against its generator\<close>

text \<open>The generator on integers, for evaluation.\<close>

definition crc_shift_int :: "int \<Rightarrow> int" where
  "crc_shift_int c = (if odd c then 0xedb88320 XOR (c div 2) else c div 2)"

lemma crc_shift_int_range: "0 \<le> c \<Longrightarrow> c < 2 ^ 32 \<Longrightarrow> 0 \<le> crc_shift_int c \<and> crc_shift_int c < 2 ^ 32"
proof -
  assume c: "0 \<le> c" "c < 2 ^ 32"
  have "take_bit 32 (0xedb88320 XOR (c div 2)) = 0xedb88320 XOR (c div 2)"
    using c by (simp add: take_bit_xor take_bit_int_eq_self)
  then have "0xedb88320 XOR (c div 2) < 2 ^ 32" by (metis take_bit_int_less_exp)
  moreover have "c div 2 < 2 ^ 32" using c by linarith
  moreover have "0 \<le> c div 2" using c by linarith
  ultimately show ?thesis by (simp add: crc_shift_int_def)
qed

lemma crc_shift_of_int: "0 \<le> c \<Longrightarrow> c < 2 ^ 32 \<Longrightarrow> crc_shift (word_of_int c) = word_of_int (crc_shift_int c)"
proof -
  assume c: "0 \<le> c" "c < 2 ^ 32"
  have "drop_bit 1 (word_of_int c :: 32 word) = word_of_int (c div 2)"
  proof (rule bit_word_eqI)
    fix n
    assume "n < LENGTH(32)"
    have "bit (word_of_int c :: 32 word) (Suc n) \<longleftrightarrow> Suc n < 32 \<and> bit c (Suc n)" by (simp only: bit_word_of_int_iff) simp
    moreover have "bit (word_of_int (c div 2) :: 32 word) n \<longleftrightarrow> n < 32 \<and> bit c (Suc n)" by (simp only: bit_word_of_int_iff) (simp add: bit_Suc)
    moreover have "\<not> n < 31 \<Longrightarrow> \<not> bit c (Suc n)"
    proof -
      assume "\<not> n < 31"
      then have "Suc n = 32" using \<open>n < LENGTH(32)\<close> by simp
      then show ?thesis using c by (simp add: bit_iff_odd)
    qed
    ultimately show "bit (drop_bit 1 (word_of_int c :: 32 word)) n = bit (word_of_int (c div 2) :: 32 word) n"
      using \<open>n < LENGTH(32)\<close> by (simp only: bit_drop_bit_eq) (auto simp: less_Suc_eq)
  qed
  moreover have "bit (word_of_int c :: 32 word) 0 \<longleftrightarrow> odd c" by (simp only: bit_word_of_int_iff) (simp add: bit_0)
  moreover have "0xedb88320 XOR (word_of_int d :: 32 word) = word_of_int (0xedb88320 XOR d)" for d
    by (metis of_int_xor_eq of_int_numeral)
  ultimately show ?thesis by (simp add: crc_shift_def crc_shift_int_def)
qed

lemma crc_shifts_of_int:
  "0 \<le> c \<Longrightarrow> c < 2 ^ 32 \<Longrightarrow> (crc_shift ^^ n) (word_of_int c) = word_of_int ((crc_shift_int ^^ n) c) \<and>
     0 \<le> (crc_shift_int ^^ n) c \<and> (crc_shift_int ^^ n) c < 2 ^ 32"
proof (induction n)
  case (Suc n)
  then show ?case
    using crc_shift_of_int [of "(crc_shift_int ^^ n) c"] crc_shift_int_range [of "(crc_shift_int ^^ n) c"] by simp
qed simp

lemma crc_table_int: "crc_table = map (\<lambda>n. word_of_int ((crc_shift_int ^^ 8) n)) (map int [0..<256])"
  by code_simp

lemma crc_table_generated: "crc_table = make_crc_table"
proof -
  have "word_of_int ((crc_shift_int ^^ 8) (int n)) = (crc_shift ^^ 8) (of_nat n)" if "n < 256" for n
    using crc_shifts_of_int [of "int n" 8] that by simp
  then show ?thesis unfolding crc_table_int make_crc_table_def by (simp only: map_map comp_def map_eq_conv) simp
qed

text \<open>The bitwise definition: one shift per bit of the message.\<close>

definition crc_ref_step :: "32 word \<Rightarrow> byte \<Rightarrow> 32 word" where
  "crc_ref_step crc b = (crc_shift ^^ 8) (crc XOR ucast b)"

definition crc_ref :: "byte list \<Rightarrow> 32 word" where
  "crc_ref bs = foldl crc_ref_step 0xffffffff bs XOR 0xffffffff"

lemma crc_shift_xor: "crc_shift (a XOR b) = crc_shift a XOR crc_shift b"
proof -
  have "drop_bit 1 (a XOR b) = drop_bit 1 a XOR drop_bit 1 b" by (rule bit_eqI) (simp add: bit_simps)
  then show ?thesis by (auto simp: crc_shift_def bit_xor_iff xor.assoc xor.left_commute)
qed

lemma crc_shift_high: "\<not> bit a 0 \<Longrightarrow> crc_shift a = drop_bit 1 a"
  by (simp add: crc_shift_def)

lemma crc_shifts_xor: "(crc_shift ^^ n) (a XOR b) = (crc_shift ^^ n) a XOR (crc_shift ^^ n) b"
  by (induction n) (simp_all add: crc_shift_xor)

lemma crc_shifts_high: "(\<forall>i < n. \<not> bit a i) \<Longrightarrow> (crc_shift ^^ n) a = drop_bit n a"
proof (induction n)
  case (Suc n)
  then have "(crc_shift ^^ n) a = drop_bit n a" by simp
  moreover have "\<not> bit (drop_bit n a) 0" using Suc.prems by (simp add: bit_drop_bit_eq)
  ultimately show ?case by (simp add: crc_shift_high drop_bit_drop_bit add.commute)
qed simp

lemma crc_table_nth: "n < 256 \<Longrightarrow> crc_table ! n = (crc_shift ^^ 8) (of_nat n)"
  by (simp add: crc_table_generated make_crc_table_def)

lemma crc_step_ref: "crc_step crc b = crc_ref_step crc b"
proof -
  define x where "x = crc XOR ucast b"
  have lo: "unat (x AND 0xff) < 256"
  proof -
    have "x AND 0xff = take_bit 8 x" by (simp add: take_bit_eq_mask mask_eq_exp_minus_1)
    then show ?thesis using take_bit_nat_less_exp [of 8 "unat x"] by (simp add: unsigned_take_bit_eq)
  qed
  have split: "x = (x AND 0xff) XOR push_bit 8 (drop_bit 8 x)"
  proof (rule bit_word_eqI)
    fix n
    have mask: "(0xff :: 32 word) = mask 8" by (simp add: mask_eq_exp_minus_1)
    show "n < LENGTH(32) \<Longrightarrow> bit x n = bit ((x AND 0xff) XOR push_bit 8 (drop_bit 8 x)) n"
      unfolding mask by (auto simp add: bit_and_iff bit_xor_iff bit_mask_iff bit_push_bit_iff bit_drop_bit_eq)
  qed
  have hi: "(crc_shift ^^ 8) (push_bit 8 (drop_bit 8 x)) = drop_bit 8 x"
  proof -
    have "(crc_shift ^^ 8) (push_bit 8 (drop_bit 8 x)) = drop_bit 8 (push_bit 8 (drop_bit 8 x))"
      by (rule crc_shifts_high) (simp add: bit_push_bit_iff)
    also have "\<dots> = drop_bit 8 x" by (rule bit_eqI) (auto simp: bit_simps dest: bit_imp_le_length)
    finally show ?thesis .
  qed
  have "drop_bit 8 x = drop_bit 8 crc" unfolding x_def by (rule bit_eqI) (auto simp: bit_simps dest: bit_imp_le_length)
  then have "crc_step crc b = (crc_shift ^^ 8) (x AND 0xff) XOR drop_bit 8 x"
    using crc_table_nth [OF lo] by (simp add: crc_step_def flip: x_def)
  also have "\<dots> = (crc_shift ^^ 8) ((x AND 0xff) XOR push_bit 8 (drop_bit 8 x))" by (simp only: crc_shifts_xor hi)
  finally show ?thesis using split by (simp add: crc_ref_step_def flip: x_def)
qed

interpretation crc: stream_digest "\<lambda>crc bs. crc32 crc (Some bs)" "\<lambda>_. True"
  by unfold_locales (simp_all add: crc32_def xor.assoc)

text \<open>C20. The table-driven CRC-32 is the bitwise CRC of the reflected polynomial 0xEDB88320: its 256 table
  entries are what the generator computes, so that every message has the reference checksum; and
  feeding a message in pieces, each call starting from the result of the last, gives the same
  checksum as one call.\<close>

theorem crc32_is_bitwise_crc:
  "crc_table = make_crc_table \<and> crc32 0 (Some bs) = crc_ref bs \<and>
   foldl (\<lambda>crc bs. crc32 crc (Some bs)) 0 pieces = crc32 0 (Some (concat pieces))"
proof -
  have "crc_step = crc_ref_step" by (simp add: fun_eq_iff crc_step_ref)
  then show ?thesis using crc.upd_concat [of 0 pieces] by (simp add: crc_table_generated crc32_def crc_ref_def)
qed

section \<open>Adler-32 against its definition\<close>

text \<open>The two sums of RFC 1950, over unbounded numbers and reduced once at the end.\<close>

definition adler_sum :: "nat \<times> nat \<Rightarrow> byte \<Rightarrow> nat \<times> nat" where
  "adler_sum s b = (fst s + unat b, snd s + (fst s + unat b))"

definition adler_sums :: "nat \<times> nat \<Rightarrow> byte list \<Rightarrow> nat \<times> nat" where
  "adler_sums s bs = foldl adler_sum s bs"

definition adler_ref :: "byte list \<Rightarrow> nat" where
  "adler_ref bs = (case adler_sums (1, 0) bs of (a, b) \<Rightarrow> b mod 65521 * 65536 + a mod 65521)"

definition word_pair :: "nat \<times> nat \<Rightarrow> 32 word \<times> 32 word" where
  "word_pair s = (of_nat (fst s), of_nat (snd s))"

lemma DO1_sums: "foldl DO1 (word_pair s) bs = word_pair (adler_sums s bs)"
proof (induction bs arbitrary: s)
  case (Cons b bs)
  have "DO1 (word_pair s) b = word_pair (adler_sum s b)"
    by (simp add: DO1_def word_pair_def adler_sum_def Let_def)
  with Cons show ?case by (simp add: adler_sums_def)
qed (simp add: adler_sums_def)

lemma adler_sums_bound:
  "fst (adler_sums (a, b) bs) \<le> a + 255 * length bs \<and>
   2 * snd (adler_sums (a, b) bs) \<le> 2 * b + 2 * a * length bs + 255 * (length bs * Suc (length bs))"
proof (induction bs rule: rev_induct)
  case (snoc x bs)
  define u v n where "u = fst (adler_sums (a, b) bs)" and "v = snd (adler_sums (a, b) bs)" and "n = length bs"
  have x: "unat x \<le> 255" using unsigned_less [of x, where ?'a = nat] by simp
  have IH: "u \<le> a + 255 * n" "2 * v \<le> 2 * b + 2 * a * n + 255 * (n * Suc n)"
    using snoc by (simp_all add: u_def v_def n_def)
  have st: "adler_sums (a, b) (bs @ [x]) = (u + unat x, v + (u + unat x))"
    by (simp add: adler_sums_def adler_sum_def u_def v_def)
  have "2 * (v + (u + unat x)) = 2 * v + 2 * (u + unat x)" by simp
  also have "\<dots> \<le> (2 * b + 2 * a * n + 255 * (n * Suc n)) + 2 * (a + 255 * n + 255)" using IH x by (intro add_mono mult_le_mono2) auto
  also have "\<dots> = 2 * b + 2 * a * Suc n + 255 * (Suc n * Suc (Suc n))" by (simp add: algebra_simps)
  finally show ?case using IH x by (simp add: st flip: n_def)
qed (simp add: adler_sums_def)

lemma adler_sums_small:
  assumes "a \<le> 65535" "b \<le> 65535" "length bs \<le> 5552"
  shows "fst (adler_sums (a, b) bs) < 2 ^ 32 \<and> snd (adler_sums (a, b) bs) < 2 ^ 32"
proof -
  have "a * length bs \<le> 65535 * 5552" "length bs * Suc (length bs) \<le> 5552 * 5553" using assms by (intro mult_le_mono; simp)+
  moreover note adler_sums_bound [of a b bs]
  ultimately have "fst (adler_sums (a, b) bs) < 4294967296" "snd (adler_sums (a, b) bs) < 4294967296"
    using assms by linarith+
  then show ?thesis by simp
qed

lemma adler_sums_mod:
  "fst (adler_sums (a mod m, b mod m) bs) mod m = fst (adler_sums (a, b) bs) mod m \<and>
   snd (adler_sums (a mod m, b mod m) bs) mod m = snd (adler_sums (a, b) bs) mod m"
proof (induction bs rule: rev_induct)
  case (snoc x bs)
  then show ?case unfolding adler_sums_def foldl_append adler_sum_def by (simp, intro conjI mod_add_cong; simp)
qed (simp add: adler_sums_def)

definition adler_mod :: "nat \<times> nat \<Rightarrow> nat \<times> nat" where
  "adler_mod s = (fst s mod 65521, snd s mod 65521)"

lemma of_nat_mod_word: "x < 2 ^ 32 \<Longrightarrow> (of_nat x :: 32 word) mod 65521 = of_nat (x mod 65521)"
  by (rule word_unat_eq_iff [THEN iffD2]) (simp add: unat_mod_distrib unat_of_nat take_bit_nat_eq_self)

declare adler_blocks.simps [simp del]

lemma adler_blocks_sums:
  "a \<le> 65535 \<Longrightarrow> b \<le> 65535 \<Longrightarrow> bs \<noteq> [] \<Longrightarrow>
   adler_blocks (word_pair (a, b)) bs = word_pair (adler_mod (adler_sums (a, b) bs))"
proof (induction "length bs" arbitrary: a b bs rule: less_induct)
  case less
  define k where "k = (if length bs < 5552 then length bs else 5552)"
  obtain u v where uv: "adler_sums (a, b) (take k bs) = (u, v)" by (metis prod.exhaust)
  have small: "u < 2 ^ 32" "v < 2 ^ 32"
  proof -
    have "length (take k bs) \<le> 5552" by (simp add: k_def)
    then show "u < 2 ^ 32" "v < 2 ^ 32" using adler_sums_small [of a b "take k bs"] less.prems uv by simp_all
  qed
  have step: "adler_blocks (word_pair (a, b)) bs = adler_blocks (word_pair (adler_mod (u, v))) (drop k bs)"
    using less.prems small
    by (subst adler_blocks.simps)
      (simp only: Let_def DO1_sums uv adler_mod_def k_def [symmetric] if_False, simp add: word_pair_def of_nat_mod_word)
  have app: "adler_sums (a, b) bs = adler_sums (u, v) (drop k bs)"
    using uv by (metis adler_sums_def append_take_drop_id foldl_append)
  have mods: "adler_mod (adler_sums (adler_mod (u, v)) xs) = adler_mod (adler_sums (u, v) xs)" for xs
    using adler_sums_mod [of u 65521 v xs] by (simp add: adler_mod_def)
  show ?case
  proof (cases "drop k bs = []")
    case True
    moreover have "adler_blocks s [] = s" for s by (simp add: adler_blocks.simps)
    ultimately show ?thesis using app step by (simp add: adler_sums_def)
  next
    case False
    have "length (drop k bs) < length bs" using less.prems by (simp add: k_def)
    moreover have "u mod 65521 \<le> 65535" "v mod 65521 \<le> 65535"
      using mod_less_divisor [of 65521 u] mod_less_divisor [of 65521 v] by linarith+
    ultimately have "adler_blocks (word_pair (adler_mod (u, v))) (drop k bs) =
        word_pair (adler_mod (adler_sums (adler_mod (u, v)) (drop k bs)))"
      using less.hyps [of "drop k bs" "u mod 65521" "v mod 65521"] False by (simp add: adler_mod_def)
    then show ?thesis using mods [of "drop k bs"] by (simp add: step app)
  qed
qed


definition adler_value :: "nat \<times> nat \<Rightarrow> 32 word" where
  "adler_value s = of_nat (snd s * 65536 + fst s)"

lemma adler_split:
  assumes "a < 65536" "b < 65536"
  shows "adler_value (a, b) AND 0xffff = of_nat a" "drop_bit 16 (adler_value (a, b)) AND 0xffff = of_nat b"
    "push_bit 16 (of_nat b) OR of_nat a = adler_value (a, b)"
proof -
  have n: "b * 65536 + a < 2 ^ 32"
  proof -
    have "b * 65536 \<le> 65535 * 65536" using assms by (intro mult_le_mono1) simp
    with assms show ?thesis by simp
  qed
  have un: "unat (adler_value (a, b)) = b * 65536 + a"
    unfolding adler_value_def fst_conv snd_conv unat_of_nat using n by (simp add: take_bit_nat_eq_self)
  have mask: "(0xffff :: 32 word) = mask 16" by (simp add: mask_eq_exp_minus_1)
  have small: "unat (of_nat x :: 32 word) = x" if "x < 65536" for x
    using that by (simp add: unat_of_nat take_bit_nat_eq_self)
  show "adler_value (a, b) AND 0xffff = of_nat a"
    by (rule word_unat_eq_iff [THEN iffD2])
      (simp only: mask take_bit_eq_mask [symmetric] unsigned_take_bit_eq un small [OF assms(1)], simp add: take_bit_eq_mod assms)
  show "drop_bit 16 (adler_value (a, b)) AND 0xffff = of_nat b"
    by (rule word_unat_eq_iff [THEN iffD2])
      (simp only: mask take_bit_eq_mask [symmetric] unsigned_take_bit_eq unsigned_drop_bit_eq un small [OF assms(2)],
       use n assms in \<open>simp add: take_bit_eq_mod drop_bit_eq_div\<close>)
  have "push_bit 16 (of_nat b) AND of_nat a = (0 :: 32 word)"
  proof (rule bit_word_eqI)
    fix n
    have "16 \<le> n \<Longrightarrow> \<not> bit a n"
    proof -
      assume "16 \<le> n"
      then have "(2 :: nat) ^ 16 \<le> 2 ^ n" by (rule power_increasing) simp
      then have "a < 2 ^ n" using assms by simp
      then show ?thesis by (simp add: bit_iff_odd)
    qed
    then show "n < LENGTH(32) \<Longrightarrow> bit (push_bit 16 (of_nat b) AND of_nat a :: 32 word) n = bit (0 :: 32 word) n"
      by (auto simp: bit_and_iff bit_push_bit_iff bit_of_nat_iff)
  qed
  then show "push_bit 16 (of_nat b) OR of_nat a = adler_value (a, b)"
    by (simp add: adler_value_def push_bit_eq_mult mult.commute flip: disjunctive_add_eq_or)
qed

lemma adler32_value:
  assumes "a < 65521" "b < 65521"
  shows "adler32 (adler_value (a, b)) (Some bs) = adler_value (adler_mod (adler_sums (a, b) bs))"
proof -
  obtain u v where uv: "adler_mod (adler_sums (a, b) bs) = (u, v)" by (metis prod.exhaust)
  then have lt: "u < 65536" "v < 65536"
    using mod_less_divisor [of 65521 "fst (adler_sums (a, b) bs)"] mod_less_divisor [of 65521 "snd (adler_sums (a, b) bs)"]
    by (auto simp: adler_mod_def)
  have "adler_blocks (of_nat a, of_nat b) bs = (of_nat u, of_nat v)"
  proof (cases "bs = []")
    case True
    then show ?thesis using uv assms by (simp add: adler_blocks.simps adler_sums_def adler_mod_def)
  next
    case False
    then show ?thesis using adler_blocks_sums [of a b bs] uv assms by (simp add: word_pair_def)
  qed
  then show ?thesis using assms lt by (simp add: adler32_def adler_split uv)
qed

definition adler_good :: "32 word \<Rightarrow> bool" where
  "adler_good w \<longleftrightarrow> (\<exists>a b. a < 65521 \<and> b < 65521 \<and> w = adler_value (a, b))"

lemma adler_mod_less: "adler_mod s = (u, v) \<Longrightarrow> u < 65521 \<and> v < 65521"
  by (auto simp: adler_mod_def)

interpretation adler: stream_digest "\<lambda>w bs. adler32 w (Some bs)" adler_good
proof unfold_locales
  fix w xs ys
  assume "adler_good w"
  then obtain a b where ab: "a < 65521" "b < 65521" "w = adler_value (a, b)" by (auto simp: adler_good_def)
  obtain u v where uv: "adler_mod (adler_sums (a, b) xs) = (u, v)" by (metis prod.exhaust)
  note lt = adler_mod_less [OF uv]
  show "adler32 w (Some []) = w" using ab by (simp add: adler32_value adler_mod_def adler_sums_def)
  show "adler_good (adler32 w (Some xs))" using ab uv lt by (auto simp: adler32_value adler_good_def)
  have "adler_mod (adler_sums (u, v) ys) = adler_mod (adler_sums (a, b) (xs @ ys))"
    using adler_sums_mod [of "fst (adler_sums (a, b) xs)" 65521 "snd (adler_sums (a, b) xs)" ys] uv
    by (simp add: adler_mod_def adler_sums_def)
  then show "adler32 w (Some (xs @ ys)) = adler32 (adler32 w (Some xs)) (Some ys)"
    using ab lt uv by (simp add: adler32_value)
qed

text \<open>C21. Adler-32 as coded is that of RFC 1950: although the sums are kept in 32 bits and reduced only once per
  5552 bytes, the result is that of the unbounded sums modulo 65521; and a message fed in pieces has
  the checksum of the whole.\<close>

theorem adler32_is_rfc1950:
  "adler32 1 (Some bs) = of_nat (adler_ref bs) \<and> adler_ref bs < 2 ^ 32 \<and>
   foldl (\<lambda>w bs. adler32 w (Some bs)) 1 pieces = adler32 1 (Some (concat pieces))"
proof -
  have one: "1 = adler_value (1, 0)" by (simp add: adler_value_def)
  then have good: "adler_good 1" unfolding adler_good_def by (intro exI [of _ 1] exI [of _ 0]) simp
  obtain a b where ab: "adler_sums (1, 0) bs = (a, b)" by (metis prod.exhaust)
  have "b mod 65521 * 65536 + a mod 65521 < 2 ^ 32"
    using mod_less_divisor [of 65521 a] mod_less_divisor [of 65521 b] by simp
  moreover have "adler32 1 (Some bs) = of_nat (adler_ref bs)"
    using adler32_value [of 1 0 bs] ab by (simp add: adler_ref_def adler_mod_def adler_value_def)
  ultimately show ?thesis using adler.upd_concat [OF good, of pieces] ab by (simp add: adler_ref_def)
qed

end
