(* ===== verification/YM_Session.thy ===== *)
theory YM_Session
  imports EP_Prelude
begin

text \<open>
  The sessions of the server (\<open>src/server/session.c\<close>) and the reference counts that guard them
  (\<open>src/utils/pref.c\<close>).

  The character arrays of a session are only written by \<open>strcpy\<close>, by \<open>guid_generate\<close> and by storing a
  terminator, so that they are represented by the C string they hold. A pointer to a session in the
  list is the number of its node. The operations are sequences under one lock; the result \<open>None\<close> is a
  call that never returns: taking the mutex \<open>session_lock\<close> that is already held and never given
  back (it is not recursive), or waiting in \<open>pref_release\<close> for a count that nobody can lower, because the
  node has already left the list in which \<open>session_dref\<close> looks for it. Unlocking a mutex that is not
  held is undefined, hence \<open>None\<close> as well.
\<close>

section \<open>Reference counts\<close>

type_synonym pref = int

definition pref_init :: pref where
  "pref_init = 0"

definition pref_get :: "pref \<Rightarrow> int \<times> pref" where
  "pref_get ref = (ref + 1, ref + 1)"

definition pref_put :: "pref \<Rightarrow> int \<times> pref" where
  "pref_put ref = (ref - 1, ref - 1)"

definition pref_count :: "pref \<Rightarrow> int" where
  "pref_count ref = ref"

text \<open>The object is gone (\<open>None\<close>) or still there.\<close>

definition pref_try_release :: "pref \<Rightarrow> int \<times> pref option" where
  "pref_try_release ref = (if ref = 0 then (1, None) else (0, Some ref))"

definition pref_release :: "pref \<Rightarrow> unit option" where
  "pref_release ref = (if ref = 0 then Some () else None)"

section \<open>Sessions\<close>

datatype session_type = session_fd | session_token

record session =
  sess_a_type :: int
  sess_uid :: string
  sess_admin :: int
  sess_s_type :: session_type
  sess_token :: string
  sess_created :: "int \<times> int"
  sess_expired :: "int \<times> int"
  sess_fd :: int
  sess_heatbeat :: "int \<times> int"

record session_node =
  n_id :: nat
  n_session :: session
  n_ref :: pref

record session_state =
  session_list :: "session_node list"
  session_stop_sign :: int
  session_locked :: bool
  session_next :: nat

definition session_init :: session_state where
  "session_init = \<lparr>session_list = [], session_stop_sign = 0, session_locked = False, session_next = 0\<rparr>"

definition session_lock :: "session_state \<Rightarrow> session_state option" where
  "session_lock st = (if session_locked st then None else Some (st\<lparr>session_locked := True\<rparr>))"

definition session_unlock :: "session_state \<Rightarrow> session_state option" where
  "session_unlock st = (if session_locked st then Some (st\<lparr>session_locked := False\<rparr>) else None)"

text \<open>The conflict that \<open>session_add\<close> looks for in each element of the list.\<close>

definition session_conflict :: "session \<Rightarrow> session \<Rightarrow> bool" where
  "session_conflict s old =
     (if sess_s_type s = session_fd
      then sess_fd old = sess_fd s \<or> sess_s_type old = session_fd \<and> sess_uid old = sess_uid s
      else sess_s_type old = session_token \<and> sess_token old = sess_token s)"

definition session_add :: "session \<Rightarrow> session_state \<Rightarrow> (int \<times> session_state) option" where
  "session_add s st = do {
     st \<leftarrow> session_lock st;
     if list_ex (\<lambda>n. session_conflict s (n_session n)) (session_list st)
     then do { st \<leftarrow> session_unlock st; Some (0, st) }
     else do {
       let st = st\<lparr>session_list := session_list st @ [\<lparr>n_id = session_next st, n_session = s, n_ref = pref_init\<rparr>],
                   session_next := session_next st + 1\<rparr>;
       st \<leftarrow> session_unlock st;
       Some (1, st)
     }
   }"

text \<open>The caller's session is changed through the pointer: it is part of the result.\<close>

definition session_add_fd :: "session \<Rightarrow> session_state \<Rightarrow> (int \<times> session \<times> session_state) option" where
  "session_add_fd s st = do {
     let s = s\<lparr>sess_s_type := session_fd, sess_token := []\<rparr>;
     (r, st) \<leftarrow> session_add s st;
     Some (r, s, st)
   }"

definition session_add_token :: "session \<Rightarrow> session_state \<Rightarrow> (int \<times> session \<times> session_state) option" where
  "session_add_token s st = do {
     let s = s\<lparr>sess_s_type := session_token, sess_fd := - 1\<rparr>;
     (r, st) \<leftarrow> session_add s st;
     Some (r, s, st)
   }"

text \<open>The loop that unlinks and frees the matching elements, with their number.\<close>

fun session_del_loop :: "(session \<Rightarrow> bool) \<Rightarrow> session_node list \<Rightarrow> (nat \<times> session_node list) option" where
  "session_del_loop P [] = Some (0, [])"
| "session_del_loop P (n # ns) =
     (if P (n_session n) then do {
        _ \<leftarrow> pref_release (n_ref n);
        (r, ns) \<leftarrow> session_del_loop P ns;
        Some (r + 1, ns)
      } else do {
        (r, ns) \<leftarrow> session_del_loop P ns;
        Some (r, n # ns)
      })"

definition session_del :: "(session \<Rightarrow> bool) \<Rightarrow> session_state \<Rightarrow> (int \<times> session_state) option" where
  "session_del P st = do {
     st \<leftarrow> session_lock st;
     (r, ns) \<leftarrow> session_del_loop P (session_list st);
     st \<leftarrow> session_unlock (st\<lparr>session_list := ns\<rparr>);
     Some (if r = 0 then 0 else 1, st)
   }"

definition session_del_fd :: "int \<Rightarrow> session_state \<Rightarrow> (int \<times> session_state) option" where
  "session_del_fd fd = session_del (\<lambda>s. sess_fd s = fd)"

definition session_del_token :: "string \<Rightarrow> session_state \<Rightarrow> (int \<times> session_state) option" where
  "session_del_token uid = session_del (\<lambda>s. sess_s_type s = session_token \<and> sess_uid s = uid)"

definition session_destroy :: "session_state \<Rightarrow> session_state option" where
  "session_destroy st = do {
     st \<leftarrow> session_lock (st\<lparr>session_stop_sign := 1\<rparr>);
     (_, ns) \<leftarrow> session_del_loop (\<lambda>_. True) (session_list st);
     session_unlock (st\<lparr>session_list := ns\<rparr>)
   }"

text \<open>\<open>session_ref_fd\<close> takes a reference on every match and returns the last; the lock is taken after the
  traversal. The other two stop at the first match.\<close>

definition node_get :: "session_node \<Rightarrow> session_node" where
  "node_get n = n\<lparr>n_ref := snd (pref_get (n_ref n))\<rparr>"

fun ref_first :: "(session \<Rightarrow> bool) \<Rightarrow> session_node list \<Rightarrow> nat option \<times> session_node list" where
  "ref_first P [] = (None, [])"
| "ref_first P (n # ns) =
     (if P (n_session n) then (Some (n_id n), node_get n # ns)
      else case ref_first P ns of (p, ns) \<Rightarrow> (p, n # ns))"

fun ref_all :: "(session \<Rightarrow> bool) \<Rightarrow> session_node list \<Rightarrow> nat option \<Rightarrow> nat option \<times> session_node list" where
  "ref_all P [] p = (p, [])"
| "ref_all P (n # ns) p =
     (if P (n_session n) then case ref_all P ns (Some (n_id n)) of (p, ns) \<Rightarrow> (p, node_get n # ns)
      else case ref_all P ns p of (p, ns) \<Rightarrow> (p, n # ns))"

definition lock_if_found :: "nat option \<times> session_node list \<Rightarrow> session_state \<Rightarrow> (nat option \<times> session_state) option" where
  "lock_if_found r st =
     (case r of
        (None, ns) \<Rightarrow> Some (None, st\<lparr>session_list := ns\<rparr>)
      | (Some p, ns) \<Rightarrow> do { st \<leftarrow> session_lock (st\<lparr>session_list := ns\<rparr>); Some (Some p, st) })"

definition session_ref_fd :: "int \<Rightarrow> session_state \<Rightarrow> (nat option \<times> session_state) option" where
  "session_ref_fd fd st = lock_if_found (ref_all (\<lambda>s. sess_fd s = fd) (session_list st) None) st"

definition session_ref_uid :: "string \<Rightarrow> session_type \<Rightarrow> session_state \<Rightarrow> (nat option \<times> session_state) option" where
  "session_ref_uid uid type st =
     lock_if_found (ref_first (\<lambda>s. sess_s_type s = type \<and> sess_uid s = uid) (session_list st)) st"

definition session_ref_token :: "string \<Rightarrow> session_state \<Rightarrow> (nat option \<times> session_state) option" where
  "session_ref_token token st =
     lock_if_found (ref_first (\<lambda>s. sess_s_type s = session_token \<and> sess_token s = token) (session_list st)) st"

text \<open>Reading and writing through the pointer.\<close>

definition session_at :: "session_state \<Rightarrow> nat \<Rightarrow> session option" where
  "session_at st p = map_option n_session (find (\<lambda>n. n_id n = p) (session_list st))"

definition session_set :: "nat \<Rightarrow> (session \<Rightarrow> session) \<Rightarrow> session_state \<Rightarrow> session_state" where
  "session_set p f st =
     st\<lparr>session_list := map (\<lambda>n. if n_id n = p then n\<lparr>n_session := f (n_session n)\<rparr> else n) (session_list st)\<rparr>"

fun put_first :: "nat \<Rightarrow> session_node list \<Rightarrow> session_node list" where
  "put_first p [] = []"
| "put_first p (n # ns) = (if n_id n = p then n\<lparr>n_ref := snd (pref_put (n_ref n))\<rparr> # ns else n # put_first p ns)"

definition session_dref :: "nat \<Rightarrow> session_state \<Rightarrow> session_state option" where
  "session_dref p st = session_unlock (st\<lparr>session_list := put_first p (session_list st)\<rparr>)"

section \<open>The invariant\<close>

text \<open>Nobody is inside: the lock is free and no reference is out. At most one session per descriptor, at
  most one descriptor per user, at most one session per token.\<close>

abbreviation sessions :: "session_state \<Rightarrow> session list" where
  "sessions st \<equiv> map n_session (session_list st)"

definition is_fd :: "session \<Rightarrow> bool" where
  "is_fd s \<longleftrightarrow> sess_s_type s = session_fd"

definition sessions_unique :: "session list \<Rightarrow> bool" where
  "sessions_unique ss \<longleftrightarrow>
     distinct (map sess_fd (filter is_fd ss)) \<and> distinct (map sess_uid (filter is_fd ss)) \<and>
     distinct (map sess_token (filter (\<lambda>s. \<not> is_fd s) ss)) \<and>
     (\<forall>s \<in> set ss. is_fd s \<longrightarrow> 0 \<le> sess_fd s) \<and> (\<forall>s \<in> set ss. \<not> is_fd s \<longrightarrow> sess_fd s = - 1)"

definition session_ok :: "session_state \<Rightarrow> bool" where
  "session_ok st \<longleftrightarrow> \<not> session_locked st \<and> list_all (\<lambda>n. n_ref n = 0) (session_list st) \<and>
     distinct (map n_id (session_list st)) \<and> list_all (\<lambda>n. n_id n < session_next st) (session_list st) \<and>
     sessions_unique (sessions st)"

text \<open>The session of a descriptor, of a user and of a token, as the invariant makes them unique.\<close>

definition fd_session :: "session_state \<Rightarrow> int \<Rightarrow> session option" where
  "fd_session st fd = find (\<lambda>s. is_fd s \<and> sess_fd s = fd) (sessions st)"

definition uid_session :: "session_state \<Rightarrow> session_type \<Rightarrow> string \<Rightarrow> session option" where
  "uid_session st type uid = find (\<lambda>s. sess_s_type s = type \<and> sess_uid s = uid) (sessions st)"

definition token_session :: "session_state \<Rightarrow> string \<Rightarrow> session option" where
  "token_session st token = find (\<lambda>s. sess_s_type s = session_token \<and> sess_token s = token) (sessions st)"

text \<open>While a reference is out: the lock is held and one node has the count 1.\<close>

definition hold :: "nat \<Rightarrow> session_state \<Rightarrow> session_state" where
  "hold p st = st\<lparr>session_locked := True, session_list := map (\<lambda>n. if n_id n = p then n\<lparr>n_ref := 1\<rparr> else n) (session_list st)\<rparr>"

section \<open>Each operation from an unlocked state\<close>

lemma session_ok_init: "session_ok session_init"
  by (simp add: session_ok_def session_init_def sessions_unique_def)

lemma lock_free [simp]: "\<not> session_locked st \<Longrightarrow> session_lock st = Some (st\<lparr>session_locked := True\<rparr>)"
  by (simp add: session_lock_def)

lemma unlock_held [simp]: "session_locked st \<Longrightarrow> session_unlock st = Some (st\<lparr>session_locked := False\<rparr>)"
  by (simp add: session_unlock_def)

lemma session_okD:
  "session_ok st \<Longrightarrow> \<not> session_locked st" "session_ok st \<Longrightarrow> sessions_unique (sessions st)"
  "session_ok st \<Longrightarrow> distinct (map n_id (session_list st))"
  by (simp_all add: session_ok_def)

lemma session_del_loop_free:
  "list_all (\<lambda>n. n_ref n = 0) ns \<Longrightarrow>
   session_del_loop P ns = Some (length (filter (\<lambda>n. P (n_session n)) ns), filter (\<lambda>n. \<not> P (n_session n)) ns)"
  by (induction ns) (auto simp: pref_release_def)

lemma distinct_map_filter_sub: "distinct (map f (filter P xs)) \<Longrightarrow> distinct (map f (filter (\<lambda>x. Q x \<and> P x) xs))"
  by (induction xs) (auto split: if_splits)

lemma sessions_unique_filter: "sessions_unique ss \<Longrightarrow> sessions_unique (filter Q ss)"
  by (auto simp: sessions_unique_def distinct_map_filter_sub)

definition session_removed :: "(session \<Rightarrow> bool) \<Rightarrow> session_state \<Rightarrow> session_state" where
  "session_removed P st = st\<lparr>session_list := filter (\<lambda>n. \<not> P (n_session n)) (session_list st)\<rparr>"

lemma sessions_removed [simp]: "sessions (session_removed P st) = filter (\<lambda>s. \<not> P s) (sessions st)"
  by (simp add: session_removed_def filter_map comp_def)

lemma session_removed_ok: "session_ok st \<Longrightarrow> session_ok (session_removed P st)"
proof -
  assume ok: "session_ok st"
  then have "sessions_unique (sessions (session_removed P st))"
    unfolding sessions_removed by (intro sessions_unique_filter session_okD)
  with ok show ?thesis
    by (auto simp: session_ok_def session_removed_def list_all_iff intro: distinct_map_filter)
qed

lemma session_del_ok:
  assumes "session_ok st"
  shows "session_del P st = Some (if list_ex P (sessions st) then 1 else 0, session_removed P st)"
proof -
  have "list_all (\<lambda>n. n_ref n = 0) (session_list st)" "\<not> session_locked st" using assms by (simp_all add: session_ok_def)
  moreover have "filter (\<lambda>n. P (n_session n)) (session_list st) = [] \<longleftrightarrow> \<not> list_ex P (sessions st)"
    by (auto simp: filter_empty_conv list_ex_iff)
  ultimately show ?thesis
    by (simp add: session_del_def session_del_loop_free session_removed_def)
qed

definition session_added :: "session \<Rightarrow> session_state \<Rightarrow> session_state" where
  "session_added s st =
     st\<lparr>session_list := session_list st @ [\<lparr>n_id = session_next st, n_session = s, n_ref = 0\<rparr>], session_next := session_next st + 1\<rparr>"

lemma sessions_added [simp]: "sessions (session_added s st) = sessions st @ [s]"
  by (simp add: session_added_def)

lemma session_add_eq:
  "session_ok st \<Longrightarrow> session_add s st =
     (if list_ex (session_conflict s) (sessions st) then Some (0, st) else Some (1, session_added s st))"
  by (simp add: session_add_def session_ok_def list_ex_iff session_added_def pref_init_def Let_def)

definition session_wf :: "session \<Rightarrow> bool" where
  "session_wf s \<longleftrightarrow> (if is_fd s then 0 \<le> sess_fd s else sess_fd s = - 1)"

lemma session_added_ok:
  assumes ok: "session_ok st" and no: "\<not> list_ex (session_conflict s) (sessions st)" and wf: "session_wf s"
  shows "session_ok (session_added s st)"
proof -
  have "sessions_unique (ss @ [s])" if "sessions_unique ss" "\<not> list_ex (session_conflict s) ss" for ss
  proof (cases "is_fd s")
    case True
    with that wf show ?thesis by (auto simp: sessions_unique_def session_wf_def list_ex_iff session_conflict_def is_fd_def)
  next
    case False
    moreover have "sess_s_type s = session_token" using False by (cases "sess_s_type s") (auto simp: is_fd_def)
    moreover have "\<not> is_fd t \<longleftrightarrow> sess_s_type t = session_token" for t by (cases "sess_s_type t") (auto simp: is_fd_def)
    ultimately show ?thesis
      using that wf by (auto simp: sessions_unique_def session_wf_def list_ex_iff session_conflict_def)
  qed
  then have "sessions_unique (sessions (session_added s st))"
    unfolding sessions_added using no session_okD(2) [OF ok] by blast
  with ok show ?thesis
    by (auto simp: session_ok_def session_added_def list_all_iff)
qed

text \<open>References.\<close>

lemma hold_simps [simp]:
  "session_locked (hold p st)" "session_next (hold p st) = session_next st" "map n_id (session_list (hold p st)) = map n_id (session_list st)"
  "sessions (hold p st) = sessions st" "session_stop_sign (hold p st) = session_stop_sign st"
  by (auto simp: hold_def)

lemma session_at_hold [simp]: "session_at (hold p st) q = session_at st q"
proof -
  have "map_option n_session (find (\<lambda>n. n_id n = q) (map (\<lambda>n. if n_id n = p then n\<lparr>n_ref := 1\<rparr> else n) ns)) =
        map_option n_session (find (\<lambda>n. n_id n = q) ns)" for ns
    by (induction ns) auto
  then show ?thesis by (simp add: session_at_def hold_def)
qed

lemma put_first_hold:
  "distinct (map n_id ns) \<Longrightarrow> list_all (\<lambda>n. n_ref n = 0) ns \<Longrightarrow>
   put_first p (map (\<lambda>n. if n_id n = p then n\<lparr>n_ref := 1\<rparr> else n) ns) = ns"
proof (induction ns)
  case (Cons n ns)
  show ?case
  proof (cases "n_id n = p")
    case True
    then have "map (\<lambda>n. if n_id n = p then n\<lparr>n_ref := 1\<rparr> else n) ns = ns"
      using Cons.prems by (intro map_idI) (auto simp: image_iff)
    with True Cons.prems show ?thesis by (simp add: pref_put_def)
  next
    case False
    with Cons show ?thesis by simp
  qed
qed simp

lemma session_dref_hold: "session_ok st \<Longrightarrow> session_dref p (hold p st) = Some st"
proof -
  assume ok: "session_ok st"
  have "put_first p (session_list (hold p st)) = session_list st"
    using ok by (simp add: hold_def session_ok_def put_first_hold)
  with ok show ?thesis by (simp add: session_dref_def hold_def session_ok_def)
qed

lemma ref_first_spec:
  "distinct (map n_id ns) \<Longrightarrow> list_all (\<lambda>n. n_ref n = 0) ns \<Longrightarrow>
   ref_first P ns =
     (case find (\<lambda>n. P (n_session n)) ns of
        None \<Rightarrow> (None, ns)
      | Some n \<Rightarrow> (Some (n_id n), map (\<lambda>m. if n_id m = n_id n then m\<lparr>n_ref := 1\<rparr> else m) ns))"
proof (induction ns)
  case (Cons n ns)
  show ?case
  proof (cases "P (n_session n)")
    case True
    then have "map (\<lambda>m. if n_id m = n_id n then m\<lparr>n_ref := 1\<rparr> else m) ns = ns"
      using Cons.prems by (intro map_idI) (auto simp: image_iff)
    with True Cons.prems show ?thesis by (simp add: node_get_def pref_get_def)
  next
    case False
    moreover have "n_id n \<noteq> n_id m" if "find (\<lambda>n. P (n_session n)) ns = Some m" for m
      using that Cons.prems by (auto simp: find_Some_iff)
    ultimately show ?thesis using Cons by (auto split: option.split)
  qed
qed simp

lemma ref_all_none: "\<not> list_ex (\<lambda>n. P (n_session n)) ns \<Longrightarrow> ref_all P ns p = (p, ns)"
  by (induction ns) auto

lemma ref_all_first:
  "length (filter (\<lambda>n. P (n_session n)) ns) \<le> 1 \<Longrightarrow> ref_all P ns None = ref_first P ns"
proof (induction ns)
  case (Cons n ns)
  show ?case
  proof (cases "P (n_session n)")
    case True
    with Cons.prems have "\<not> list_ex (\<lambda>n. P (n_session n)) ns" by (auto simp: list_ex_iff filter_empty_conv)
    with True show ?thesis by (simp add: ref_all_none)
  qed (use Cons in simp)
qed simp

lemma find_map_session: "map_option n_session (find (\<lambda>n. P (n_session n)) ns) = find P (map n_session ns)"
  by (induction ns) auto

lemma find_id: "distinct (map n_id ns) \<Longrightarrow> n \<in> set ns \<Longrightarrow> find (\<lambda>m. n_id m = n_id n) ns = Some n"
  by (induction ns) (auto simp: image_iff)

lemma lock_if_found_spec:
  assumes ok: "session_ok st"
  shows "find P (sessions st) = None \<Longrightarrow> lock_if_found (ref_first P (session_list st)) st = Some (None, st)"
    and "find P (sessions st) = Some x \<Longrightarrow>
      \<exists>p h. lock_if_found (ref_first P (session_list st)) st = Some (Some p, h) \<and> session_at h p = Some x \<and> session_dref p h = Some st"
proof -
  have d: "distinct (map n_id (session_list st))" and r: "list_all (\<lambda>n. n_ref n = 0) (session_list st)" and l: "\<not> session_locked st"
    using ok by (simp_all add: session_ok_def)
  note spec = ref_first_spec [OF d r, of P]
  show "lock_if_found (ref_first P (session_list st)) st = Some (None, st)" if "find P (sessions st) = None"
  proof -
    have "find (\<lambda>n. P (n_session n)) (session_list st) = None"
      using that find_map_session [of P "session_list st"] by (metis map_option_is_None)
    then show ?thesis unfolding spec by (simp add: lock_if_found_def)
  qed
  show "\<exists>p h. lock_if_found (ref_first P (session_list st)) st = Some (Some p, h) \<and> session_at h p = Some x \<and> session_dref p h = Some st"
    if "find P (sessions st) = Some x"
  proof -
    have "map_option n_session (find (\<lambda>n. P (n_session n)) (session_list st)) = Some x"
      using that by (simp only: find_map_session)
    then obtain n where n: "find (\<lambda>n. P (n_session n)) (session_list st) = Some n" "n_session n = x" by auto
    have nth: "n \<in> set (session_list st)" using n(1) by (auto simp: find_Some_iff)
    have "session_at st (n_id n) = Some x"
    proof -
      have "find (\<lambda>m. n_id m = n_id n) (session_list st) = Some n"
        using find_id [OF d nth] .
      then show ?thesis using n by (simp add: session_at_def)
    qed
    moreover have "lock_if_found (ref_first P (session_list st)) st = Some (Some (n_id n), hold (n_id n) st)"
      unfolding spec n(1) option.case using l by (simp add: lock_if_found_def hold_def)
    ultimately show ?thesis using session_dref_hold [OF ok, of "n_id n"] by auto
  qed
qed

lemma fd_match:
  assumes "session_ok st" and "0 \<le> fd"
  shows "find (\<lambda>s. sess_fd s = fd) (sessions st) = fd_session st fd"
    "length (filter (\<lambda>n. sess_fd (n_session n) = fd) (session_list st)) \<le> 1"
proof -
  have u: "sessions_unique (sessions st)" using assms by (simp add: session_okD)
  have fdt: "sess_fd s = fd \<longleftrightarrow> is_fd s \<and> sess_fd s = fd" if "s \<in> set (sessions st)" for s
    using u that assms(2) by (auto simp: sessions_unique_def)
  then show "find (\<lambda>s. sess_fd s = fd) (sessions st) = fd_session st fd"
    unfolding fd_session_def by (intro find_cong) auto
  have "length (filter (\<lambda>s. sess_fd s = fd) ss) \<le> 1" if "distinct (map sess_fd (filter is_fd ss))" "\<forall>s \<in> set ss. sess_fd s = fd \<longrightarrow> is_fd s" for ss
    using that
  proof (induction ss)
    case (Cons s ss)
    show ?case
    proof (cases "sess_fd s = fd")
      case True
      with Cons.prems have "filter (\<lambda>s. sess_fd s = fd) ss = []" by (auto simp: filter_empty_conv image_iff)
      with True show ?thesis by simp
    qed (use Cons in \<open>auto split: if_splits\<close>)
  qed simp
  moreover have "distinct (map sess_fd (filter is_fd (sessions st)))" using u unfolding sessions_unique_def by blast
  moreover have "\<forall>s \<in> set (sessions st). sess_fd s = fd \<longrightarrow> is_fd s" using fdt by blast
  ultimately have "length (filter (\<lambda>s. sess_fd s = fd) (sessions st)) \<le> 1" by blast
  then show "length (filter (\<lambda>n. sess_fd (n_session n) = fd) (session_list st)) \<le> 1"
    by (simp add: filter_map comp_def)
qed

interpretation by_fd: guarded_store session_ok "\<lambda>st fd. fd_session st (int fd)" "\<lambda>fd. session_ref_fd (int fd)" session_at session_dref
proof unfold_locales
  fix st :: session_state and fd x
  assume ok: "session_ok st"
  have eq: "session_ref_fd (int fd) st = lock_if_found (ref_first (\<lambda>s. sess_fd s = int fd) (session_list st)) st"
    using fd_match [OF ok, of "int fd"] by (simp add: session_ref_fd_def ref_all_first)
  note find = fd_match(1) [OF ok, of "int fd"]
  show "session_ref_fd (int fd) st = Some (None, st)" if "fd_session st (int fd) = None"
    unfolding eq using that find by (intro lock_if_found_spec [OF ok]) simp
  show "\<exists>p h. session_ref_fd (int fd) st = Some (Some p, h) \<and> session_at h p = Some x \<and> session_dref p h = Some st"
    if "fd_session st (int fd) = Some x"
    unfolding eq using that find by (intro lock_if_found_spec [OF ok]) simp
qed

interpretation by_uid: guarded_store session_ok "\<lambda>st (uid, type). uid_session st type uid"
  "\<lambda>(uid, type). session_ref_uid uid type" session_at session_dref
  by unfold_locales (auto simp: session_ref_uid_def uid_session_def lock_if_found_spec)

interpretation by_token: guarded_store session_ok token_session session_ref_token session_at session_dref
  by unfold_locales (simp_all add: session_ref_token_def token_session_def lock_if_found_spec)

text \<open>Giving a reference back leaves the elements in place.\<close>

lemma session_at_dref: "session_dref p h = Some st \<Longrightarrow> session_at st q = session_at h q"
proof -
  have "map_option n_session (find (\<lambda>n. n_id n = q) (put_first p ns)) = map_option n_session (find (\<lambda>n. n_id n = q) ns)" for ns
    by (induction p ns rule: put_first.induct) auto
  then show "session_dref p h = Some st \<Longrightarrow> session_at st q = session_at h q"
    by (auto simp: session_dref_def session_at_def session_unlock_def split: if_splits)
qed

text \<open>While a reference is out, asking for any session that exists blocks.\<close>

lemma ref_all_found: "fst (ref_all P ns p) = None \<longleftrightarrow> p = None \<and> \<not> list_ex (\<lambda>n. P (n_session n)) ns"
  by (induction P ns p rule: ref_all.induct) (auto split: prod.splits)

lemma ref_all_sessions: "map n_session (snd (ref_all P ns p)) = map n_session ns"
  by (induction P ns p rule: ref_all.induct) (auto simp: node_get_def split: prod.splits)

lemma held_blocks:
  assumes "session_ref_fd fd st = Some (Some q, h)" and "\<exists>s \<in> set (sessions st). sess_fd s = fd'"
  shows "session_ref_fd fd' h = None"
proof -
  obtain ns where ns: "ref_all (\<lambda>s. sess_fd s = fd) (session_list st) None = (Some q, ns)" "h = st\<lparr>session_list := ns, session_locked := True\<rparr>"
    using assms(1) by (auto simp: session_ref_fd_def lock_if_found_def session_lock_def split: prod.splits option.splits if_splits)
  have "map n_session ns = sessions st" using ref_all_sessions [of "\<lambda>s. sess_fd s = fd" "session_list st" None] ns(1) by simp
  then have eq: "set (map n_session ns) = set (sessions st)" by (rule arg_cong)
  obtain s where s: "s \<in> set (map n_session ns)" "sess_fd s = fd'" using assms(2) unfolding eq by blast
  then have "list_ex (\<lambda>n. sess_fd (n_session n) = fd') ns" unfolding list_ex_iff by auto
  then have "fst (ref_all (\<lambda>s. sess_fd s = fd') ns None) \<noteq> None" unfolding ref_all_found by simp
  then obtain q' ns' where "ref_all (\<lambda>s. sess_fd s = fd') ns None = (Some q', ns')" by (metis not_None_eq prod.collapse)
  then show ?thesis by (simp add: session_ref_fd_def lock_if_found_def session_lock_def ns(2))
qed

section \<open>The sessions as two tables\<close>

text \<open>What the module promises: a table of the sessions by descriptor, with one session per user, and a
  table of the sessions by token.\<close>

datatype session_op = SAddFd session | SAddToken session | SDelFd int | SDelToken string

type_synonym session_tables = "(int \<rightharpoonup> session) \<times> (string \<rightharpoonup> session)"

definition session_tables :: "session_state \<Rightarrow> session_tables" where
  "session_tables st = (fd_session st, token_session st)"

fun session_op_ok :: "session_op \<Rightarrow> bool" where
  "session_op_ok (SAddFd s) = (0 \<le> sess_fd s)"
| "session_op_ok (SDelFd fd) = (0 \<le> fd)"
| "session_op_ok _ = True"

fun session_do :: "session_op \<Rightarrow> session_state \<Rightarrow> (int \<times> session_state) option" where
  "session_do (SAddFd s) st = map_option (\<lambda>(r, _, st). (r, st)) (session_add_fd s st)"
| "session_do (SAddToken s) st = map_option (\<lambda>(r, _, st). (r, st)) (session_add_token s st)"
| "session_do (SDelFd fd) st = session_del_fd fd st"
| "session_do (SDelToken uid) st = session_del_token uid st"

fun session_spec :: "session_op \<Rightarrow> session_tables \<Rightarrow> int \<times> session_tables" where
  "session_spec (SAddFd s) (F, T) =
     (if F (sess_fd s) \<noteq> None \<or> (\<exists>old \<in> ran F. sess_uid old = sess_uid s) then (0, (F, T))
      else (1, (F(sess_fd s \<mapsto> s\<lparr>sess_s_type := session_fd, sess_token := []\<rparr>), T)))"
| "session_spec (SAddToken s) (F, T) =
     (if T (sess_token s) \<noteq> None then (0, (F, T))
      else (1, (F, T(sess_token s \<mapsto> s\<lparr>sess_s_type := session_token, sess_fd := - 1\<rparr>))))"
| "session_spec (SDelFd fd) (F, T) = (if F fd = None then 0 else 1, (F(fd := None), T))"
| "session_spec (SDelToken uid) (F, T) =
     (if \<exists>s \<in> ran T. sess_uid s = uid then 1 else 0,
      (F, \<lambda>t. case T t of None \<Rightarrow> None | Some s \<Rightarrow> if sess_uid s = uid then None else Some s))"

fun session_run :: "session_op list \<Rightarrow> session_state \<Rightarrow> (int list \<times> session_state) option" where
  "session_run [] st = Some ([], st)"
| "session_run (op # ops) st = do {
     (r, st) \<leftarrow> session_do op st;
     (rs, st) \<leftarrow> session_run ops st;
     Some (r # rs, st)
   }"

fun session_spec_run :: "session_op list \<Rightarrow> session_tables \<Rightarrow> int list \<times> session_tables" where
  "session_spec_run [] t = ([], t)"
| "session_spec_run (op # ops) t =
     (let (r, t) = session_spec op t; (rs, t) = session_spec_run ops t in (r # rs, t))"

lemma find_keyed:
  "distinct (map k (filter Q ss)) \<Longrightarrow> find (\<lambda>s. Q s \<and> k s = x) ss = Some s \<longleftrightarrow> s \<in> set ss \<and> Q s \<and> k s = x"
  by (induction ss) (auto simp: image_iff split: if_splits)

lemma find_keyed_filter:
  assumes "distinct (map k (filter Q ss))"
  shows "find (\<lambda>s. Q s \<and> k s = x) (filter R ss) =
    (case find (\<lambda>s. Q s \<and> k s = x) ss of None \<Rightarrow> None | Some s \<Rightarrow> if R s then Some s else None)"
  using assms
proof (induction ss)
  case (Cons s ss)
  then have IH: "find (\<lambda>s. Q s \<and> k s = x) (filter R ss) =
    (case find (\<lambda>s. Q s \<and> k s = x) ss of None \<Rightarrow> None | Some s \<Rightarrow> if R s then Some s else None)"
    by (auto split: if_splits)
  have "find (\<lambda>s. Q s \<and> k s = x) (filter R ss) = None" if "Q s" "k s = x"
    using that Cons.prems by (auto simp: find_None_iff image_iff)
  with IH show ?case by simp
qed simp

lemma fd_session_iff:
  "session_ok st \<Longrightarrow> fd_session st fd = Some s \<longleftrightarrow> s \<in> set (sessions st) \<and> is_fd s \<and> sess_fd s = fd"
  unfolding fd_session_def by (rule find_keyed) (simp add: session_ok_def sessions_unique_def)

lemma not_is_fd: "\<not> is_fd s \<longleftrightarrow> sess_s_type s = session_token"
  by (cases "sess_s_type s") (auto simp: is_fd_def)

lemma token_session_alt: "token_session st t = find (\<lambda>s. \<not> is_fd s \<and> sess_token s = t) (sessions st)"
  by (simp add: token_session_def not_is_fd)

lemma token_session_iff:
  "session_ok st \<Longrightarrow> token_session st t = Some s \<longleftrightarrow> s \<in> set (sessions st) \<and> \<not> is_fd s \<and> sess_token s = t"
  unfolding token_session_alt by (rule find_keyed) (simp add: session_ok_def sessions_unique_def)

lemma ran_fd_session: "session_ok st \<Longrightarrow> ran (fd_session st) = {s \<in> set (sessions st). is_fd s}"
  by (auto simp: ran_def fd_session_iff)

lemma ran_token_session: "session_ok st \<Longrightarrow> ran (token_session st) = {s \<in> set (sessions st). \<not> is_fd s}"
  by (auto simp: ran_def token_session_iff)

lemma session_tables_added:
  "session_tables (session_added s st) =
     (if is_fd s then (if fd_session st (sess_fd s) = None then (fd_session st)(sess_fd s \<mapsto> s) else fd_session st, token_session st)
      else (fd_session st, if token_session st (sess_token s) = None then (token_session st)(sess_token s \<mapsto> s) else token_session st))"
  by (auto simp: session_tables_def fd_session_def token_session_alt find_append fun_eq_iff split: option.split)

lemma session_tables_removed:
  assumes "session_ok st"
  shows "session_tables (session_removed P st) =
    (\<lambda>fd. case fd_session st fd of None \<Rightarrow> None | Some s \<Rightarrow> if P s then None else Some s,
     \<lambda>t. case token_session st t of None \<Rightarrow> None | Some s \<Rightarrow> if P s then None else Some s)"
proof -
  have u: "distinct (map sess_fd (filter is_fd (sessions st)))" "distinct (map sess_token (filter (\<lambda>s. \<not> is_fd s) (sessions st)))"
    using assms by (simp_all add: session_ok_def sessions_unique_def)
  show ?thesis
    unfolding session_tables_def fd_session_def token_session_alt sessions_removed
      find_keyed_filter [OF u(1)] find_keyed_filter [OF u(2)] by (auto simp: fun_eq_iff split: option.split)
qed


lemma list_ex_conflict_fd:
  assumes ok: "session_ok st" and s: "is_fd s" "0 \<le> sess_fd s"
  shows "list_ex (session_conflict s) (sessions st) \<longleftrightarrow>
    fd_session st (sess_fd s) \<noteq> None \<or> (\<exists>old \<in> ran (fd_session st). sess_uid old = sess_uid s)"
proof -
  have "is_fd t" if "t \<in> set (sessions st)" "sess_fd t = sess_fd s" for t
    using ok s that unfolding session_ok_def sessions_unique_def by fastforce
  then have "list_ex (session_conflict s) (sessions st) \<longleftrightarrow>
      (\<exists>t \<in> set (sessions st). is_fd t \<and> sess_fd t = sess_fd s) \<or> (\<exists>t \<in> set (sessions st). is_fd t \<and> sess_uid t = sess_uid s)"
    using s(1) unfolding list_ex_iff session_conflict_def is_fd_def by auto
  moreover have "fd_session st (sess_fd s) \<noteq> None \<longleftrightarrow> (\<exists>t \<in> set (sessions st). is_fd t \<and> sess_fd t = sess_fd s)"
    unfolding fd_session_def by (auto simp: find_None_iff)
  ultimately show ?thesis unfolding ran_fd_session [OF ok] by blast
qed

lemma session_step_refines:
  assumes ok: "session_ok st" and op: "session_op_ok op"
  shows "\<exists>st'. session_do op st = Some (fst (session_spec op (session_tables st)), st') \<and> session_ok st' \<and>
    session_tables st' = snd (session_spec op (session_tables st))"
proof (cases op)
  case (SAddFd s)
  define s' where "s' = s\<lparr>sess_s_type := session_fd, sess_token := []\<rparr>"
  have s': "is_fd s'" "0 \<le> sess_fd s'" "sess_fd s' = sess_fd s" "sess_uid s' = sess_uid s"
    using op by (simp_all add: SAddFd s'_def is_fd_def)
  note c = list_ex_conflict_fd [OF ok s'(1,2), unfolded s'(3,4)]
  show ?thesis
  proof (cases "list_ex (session_conflict s') (sessions st)")
    case True
    with ok c show ?thesis by (simp add: SAddFd session_add_fd_def session_add_eq session_tables_def flip: s'_def)
  next
    case False
    with ok s' have "session_ok (session_added s' st)" by (intro session_added_ok) (simp_all add: session_wf_def)
    with ok False c s' show ?thesis
      by (simp add: SAddFd session_add_fd_def session_add_eq session_tables_added flip: s'_def) (simp add: session_tables_def s'_def)
  qed
next
  case (SAddToken s)
  define s' where "s' = s\<lparr>sess_s_type := session_token, sess_fd := - 1\<rparr>"
  have s': "\<not> is_fd s'" "sess_fd s' = - 1" "sess_token s' = sess_token s" by (simp_all add: s'_def is_fd_def)
  have c: "list_ex (session_conflict s') (sessions st) \<longleftrightarrow> token_session st (sess_token s) \<noteq> None"
    using s' by (auto simp: list_ex_iff session_conflict_def is_fd_def token_session_def find_None_iff)
  show ?thesis
  proof (cases "list_ex (session_conflict s') (sessions st)")
    case True
    with ok c show ?thesis by (simp add: SAddToken session_add_token_def session_add_eq session_tables_def flip: s'_def)
  next
    case False
    with ok s' have "session_ok (session_added s' st)" by (intro session_added_ok) (simp_all add: session_wf_def)
    with ok False c s' show ?thesis
      by (simp add: SAddToken session_add_token_def session_add_eq session_tables_added flip: s'_def) (simp add: session_tables_def s'_def)
  qed
next
  case (SDelFd fd)
  have "fd_session st fd' \<noteq> Some s \<or> sess_fd s = fd'" for fd' s using ok by (auto simp: fd_session_iff)
  moreover have "token_session st t \<noteq> Some s \<or> sess_fd s = - 1" for t s
    using ok by (auto simp: token_session_iff) (auto simp: session_ok_def sessions_unique_def)
  ultimately have t: "session_tables (session_removed (\<lambda>s. sess_fd s = fd) st) = ((fd_session st)(fd := None), token_session st)"
    using op unfolding session_tables_removed [OF ok] by (auto simp: SDelFd fun_eq_iff split: option.split)
  have "list_ex (\<lambda>s. sess_fd s = fd) (sessions st) \<longleftrightarrow> find (\<lambda>s. sess_fd s = fd) (sessions st) \<noteq> None"
    by (auto simp: list_ex_iff find_None_iff)
  also have "\<dots> \<longleftrightarrow> fd_session st fd \<noteq> None" using op fd_match(1) [OF ok, of fd] by (simp add: SDelFd)
  finally show ?thesis using t session_removed_ok [OF ok]
    by (simp add: SDelFd session_del_fd_def session_del_ok [OF ok]) (simp add: session_tables_def)
next
  case (SDelToken uid)
  let ?P = "\<lambda>s. sess_s_type s = session_token \<and> sess_uid s = uid"
  have t: "session_tables (session_removed ?P st) =
      (fd_session st, \<lambda>t. case token_session st t of None \<Rightarrow> None | Some s \<Rightarrow> if sess_uid s = uid then None else Some s)"
  proof -
    have "sess_s_type s = session_fd" if "fd_session st fd = Some s" for fd s
      using that by (simp add: fd_session_iff [OF ok] is_fd_def)
    moreover have "sess_s_type s = session_token" if "token_session st t = Some s" for t s
      using that by (simp add: token_session_iff [OF ok] not_is_fd)
    ultimately show ?thesis
      unfolding session_tables_removed [OF ok] by (auto simp: fun_eq_iff split: option.split)
  qed
  have "list_ex ?P (sessions st) \<longleftrightarrow> (\<exists>s \<in> ran (token_session st). sess_uid s = uid)"
    unfolding ran_token_session [OF ok] list_ex_iff not_is_fd by blast
  then show ?thesis using t session_removed_ok [OF ok]
    by (simp add: SDelToken session_del_token_def session_del_ok [OF ok]) (simp add: session_tables_def)
qed

text \<open>C18. The sessions are two tables: every sequence of additions and removals returns, with the outcomes
  it has on a table by descriptor and a table by token; and at any time no two descriptors are
  logged in for the same user.\<close>

theorem sessions_are_tables:
  assumes "session_ok st" and "list_all session_op_ok ops"
  shows "\<exists>st'. session_run ops st = Some (fst (session_spec_run ops (session_tables st)), st') \<and> session_ok st' \<and>
    session_tables st' = snd (session_spec_run ops (session_tables st)) \<and>
    (\<forall>fd fd' s s'. fd_session st' fd = Some s \<and> fd_session st' fd' = Some s' \<and> sess_uid s = sess_uid s' \<longrightarrow> fd = fd')"
  using assms
proof (induction ops arbitrary: st)
  case Nil
  have "s = s'" if "s \<in> set (sessions st)" "is_fd s" "s' \<in> set (sessions st)" "is_fd s'" "sess_uid s = sess_uid s'" for s s'
  proof -
    have "inj_on sess_uid (set (filter is_fd (sessions st)))"
      using Nil.prems by (simp add: session_ok_def sessions_unique_def distinct_map)
    then show ?thesis using that by (auto dest: inj_onD)
  qed
  then have "fd = fd'" if "fd_session st fd = Some s" "fd_session st fd' = Some s'" "sess_uid s = sess_uid s'" for fd fd' s s'
    using that unfolding fd_session_iff [OF Nil.prems(1)] by blast
  then show ?case using Nil.prems by simp blast
next
  case (Cons op ops)
  obtain st1 where 1: "session_do op st = Some (fst (session_spec op (session_tables st)), st1)" "session_ok st1"
    "session_tables st1 = snd (session_spec op (session_tables st))"
    using session_step_refines [of st op] Cons.prems by auto
  from Cons.IH [OF 1(2)] Cons.prems obtain st2 where
    "session_run ops st1 = Some (fst (session_spec_run ops (session_tables st1)), st2)" "session_ok st2"
    "session_tables st2 = snd (session_spec_run ops (session_tables st1))"
    "\<forall>fd fd' s s'. fd_session st2 fd = Some s \<and> fd_session st2 fd' = Some s' \<and> sess_uid s = sess_uid s' \<longrightarrow> fd = fd'"
    by auto
  with 1 show ?case by (auto simp: Let_def split: prod.splits)
qed

definition demo_session :: "int \<Rightarrow> string \<Rightarrow> session" where
  "demo_session fd uid = \<lparr>sess_a_type = 1, sess_uid = uid, sess_admin = 0, sess_s_type = session_fd, sess_token = ''t'',
     sess_created = (0, 0), sess_expired = (0, 0), sess_fd = fd, sess_heatbeat = (0, 0)\<rparr>"

theorem sessions_are_tables_witness:
  "\<exists>st'. session_run [SAddFd (demo_session 3 ''a''), SAddFd (demo_session 4 ''a''), SAddToken (demo_session 4 ''a''), SDelFd 3, SDelFd 3] session_init
     = Some ([1, 0, 1, 1, 0], st') \<and> session_ok st'"
proof -
  let ?ops = "[SAddFd (demo_session 3 ''a''), SAddFd (demo_session 4 ''a''), SAddToken (demo_session 4 ''a''), SDelFd 3, SDelFd 3]"
  have "fst (session_spec_run ?ops (session_tables session_init)) = [1, 0, 1, 1, 0]"
  proof -
    have "session_tables session_init = (Map.empty, Map.empty)"
      by (simp add: session_tables_def fd_session_def token_session_def session_init_def fun_eq_iff)
    then show ?thesis by (simp add: demo_session_def)
  qed
  moreover have "list_all session_op_ok ?ops" by (simp add: demo_session_def)
  ultimately show ?thesis using sessions_are_tables [OF session_ok_init, of ?ops] by auto
qed

end
