(* ===== verification/YM_Packet.thy ===== *)
theory YM_Packet
  imports EP_Prelude
begin

text \<open>
  Packets (\<open>eventpack/src/ep_packet.c\<close>): the documents that requests and replies carry, as the wrapper
  gives them to the application, with what its accessors do on a value of another type (they come
  from \<open>bson.c\<close>, which converts numbers and gives the empty string for what is not a string).

  A \<open>double\<close> is its 64 bits; conversions, comparisons and the printing of floating point numbers are the
  parameter \<open>c_fp\<close>. A string value may hold zeros; as a C string it ends at the first.
\<close>

type_synonym c_double = "64 word"

record c_fp =
  fp_of_int :: "int \<Rightarrow> c_double"
  fp_to_int :: "c_double \<Rightarrow> int"
  fp_narrow :: "c_double \<Rightarrow> c_double"
  fp_positive :: "c_double \<Rightarrow> bool"
  fp_print2 :: "c_double \<Rightarrow> string"
  fp_atof :: "string \<Rightarrow> c_double"

datatype bson =
    BSON_BINDATA "byte list"
  | BSON_STRING string
  | BSON_BOOL bool
  | BSON_INT int
  | BSON_LONG int
  | BSON_DOUBLE c_double
  | BSON_ARRAY "(string \<times> bson) list"
  | BSON_OBJECT "(string \<times> bson) list"
  | BSON_OTHER nat

type_synonym doc = "(string \<times> bson) list"

datatype ep_pack_type =
    PACKET_BINDATA | PACKET_STRING | PACKET_BOOL | PACKET_INT | PACKET_LONG | PACKET_DOUBLE
  | PACKET_ARRAY | PACKET_OBJECT | PACKET_UNKNOWN

fun bson_type_to_ep_pack_type :: "bson \<Rightarrow> ep_pack_type" where
  "bson_type_to_ep_pack_type (BSON_BINDATA _) = PACKET_BINDATA"
| "bson_type_to_ep_pack_type (BSON_STRING _) = PACKET_STRING"
| "bson_type_to_ep_pack_type (BSON_BOOL _) = PACKET_BOOL"
| "bson_type_to_ep_pack_type (BSON_INT _) = PACKET_INT"
| "bson_type_to_ep_pack_type (BSON_LONG _) = PACKET_LONG"
| "bson_type_to_ep_pack_type (BSON_DOUBLE _) = PACKET_DOUBLE"
| "bson_type_to_ep_pack_type (BSON_ARRAY _) = PACKET_ARRAY"
| "bson_type_to_ep_pack_type (BSON_OBJECT _) = PACKET_OBJECT"
| "bson_type_to_ep_pack_type (BSON_OTHER _) = PACKET_UNKNOWN"

section \<open>Reading\<close>

text \<open>An iterator stands on the first of the remaining elements; \<open>ep_pack_iterator_next\<close> refuses the end and
  every type that the wrapper does not know, which ends the loops of the callers.\<close>

definition ep_pack_iterator_next :: "doc \<Rightarrow> bool" where
  "ep_pack_iterator_next it = (case it of [] \<Rightarrow> False | (_, v) # _ \<Rightarrow> bson_type_to_ep_pack_type v \<noteq> PACKET_UNKNOWN)"

fun ep_pack_iterator_string :: "bson \<Rightarrow> string" where
  "ep_pack_iterator_string (BSON_STRING s) = takeWhile (\<lambda>c. c \<noteq> NUL) s"
| "ep_pack_iterator_string _ = []"

text \<open>Narrowing of a 64 bit value to \<open>int\<close>.\<close>

definition c_int_of_long :: "int \<Rightarrow> int" where
  "c_int_of_long i = signed_take_bit 31 i"

fun ep_pack_iterator_int :: "c_fp \<Rightarrow> bson \<Rightarrow> int" where
  "ep_pack_iterator_int fp (BSON_INT i) = i"
| "ep_pack_iterator_int fp (BSON_LONG i) = c_int_of_long i"
| "ep_pack_iterator_int fp (BSON_DOUBLE d) = fp_to_int fp d"
| "ep_pack_iterator_int fp _ = 0"

fun ep_pack_iterator_double :: "c_fp \<Rightarrow> bson \<Rightarrow> c_double" where
  "ep_pack_iterator_double fp (BSON_INT i) = fp_of_int fp i"
| "ep_pack_iterator_double fp (BSON_LONG i) = fp_of_int fp i"
| "ep_pack_iterator_double fp (BSON_DOUBLE d) = d"
| "ep_pack_iterator_double fp _ = fp_of_int fp 0"

text \<open>The loop over a packet, \<open>while (ep_pack_iterator_next(&iter))\<close>, with what it does on a key and a value.\<close>

fun pack_loop :: "(string \<Rightarrow> bson \<Rightarrow> 's \<Rightarrow> 's option) \<Rightarrow> doc \<Rightarrow> 's \<Rightarrow> 's option" where
  "pack_loop f [] s = Some s"
| "pack_loop f ((k, v) # it) s =
     (if ep_pack_iterator_next ((k, v) # it) then do { s \<leftarrow> f k v s; pack_loop f it s } else Some s)"

section \<open>Writing\<close>

text \<open>A packet under construction: the elements of the innermost open array or object, and for each open one
  its kind, its name and what precedes it.\<close>

record ep_pack =
  pk_doc :: doc
  pk_stack :: "(bool \<times> string \<times> doc) list"

definition ep_pack_new :: ep_pack where
  "ep_pack_new = \<lparr>pk_doc = [], pk_stack = []\<rparr>"

definition pk_append :: "string \<Rightarrow> bson \<Rightarrow> ep_pack \<Rightarrow> ep_pack" where
  "pk_append name v p = p\<lparr>pk_doc := pk_doc p @ [(name, v)]\<rparr>"

definition ep_pack_append_string :: "string \<Rightarrow> string \<Rightarrow> ep_pack \<Rightarrow> ep_pack" where
  "ep_pack_append_string name s = pk_append name (BSON_STRING s)"

definition ep_pack_append_int :: "string \<Rightarrow> int \<Rightarrow> ep_pack \<Rightarrow> ep_pack" where
  "ep_pack_append_int name i = pk_append name (BSON_INT i)"

definition ep_pack_append_double :: "string \<Rightarrow> c_double \<Rightarrow> ep_pack \<Rightarrow> ep_pack" where
  "ep_pack_append_double name d = pk_append name (BSON_DOUBLE d)"

definition pk_open :: "bool \<Rightarrow> string \<Rightarrow> ep_pack \<Rightarrow> ep_pack" where
  "pk_open arr name p = \<lparr>pk_doc = [], pk_stack = (arr, name, pk_doc p) # pk_stack p\<rparr>"

definition pk_close :: "ep_pack \<Rightarrow> ep_pack" where
  "pk_close p =
     (case pk_stack p of
        [] \<Rightarrow> p
      | (arr, name, outer) # st \<Rightarrow>
          \<lparr>pk_doc = outer @ [(name, if arr then BSON_ARRAY (pk_doc p) else BSON_OBJECT (pk_doc p))], pk_stack = st\<rparr>)"

definition ep_pack_append_start_array :: "string \<Rightarrow> ep_pack \<Rightarrow> ep_pack" where
  "ep_pack_append_start_array = pk_open True"

definition ep_pack_append_finish_array :: "ep_pack \<Rightarrow> ep_pack" where
  "ep_pack_append_finish_array = pk_close"

definition ep_pack_append_start_object :: "string \<Rightarrow> ep_pack \<Rightarrow> ep_pack" where
  "ep_pack_append_start_object = pk_open False"

definition ep_pack_append_finish_object :: "ep_pack \<Rightarrow> ep_pack" where
  "ep_pack_append_finish_object = pk_close"

section \<open>Lemmas\<close>

named_theorems pack_simps \<open>what the writing functions build\<close>

declare ep_pack_new_def [pack_simps] pk_append_def [pack_simps] ep_pack_append_string_def [pack_simps]
  ep_pack_append_int_def [pack_simps] ep_pack_append_double_def [pack_simps] pk_open_def [pack_simps]
  pk_close_def [pack_simps] ep_pack_append_start_array_def [pack_simps] ep_pack_append_finish_array_def [pack_simps]
  ep_pack_append_start_object_def [pack_simps] ep_pack_append_finish_object_def [pack_simps]

text \<open>The elements that the loop of a caller sees.\<close>

definition pack_items :: "doc \<Rightarrow> doc" where
  "pack_items d = takeWhile (\<lambda>(k, v). bson_type_to_ep_pack_type v \<noteq> PACKET_UNKNOWN) d"

lemma pack_loop_items: "pack_loop f d s = ofold (\<lambda>(k, v). f k v) (pack_items d) s"
  by (induction f d s rule: pack_loop.induct) (auto simp: pack_items_def ep_pack_iterator_next_def split: bind_splits)

lemma c_string_iterator_string [simp]: "c_string (ep_pack_iterator_string v)"
proof (cases v)
  case (BSON_STRING s)
  then show ?thesis by (auto simp: c_string_def dest: set_takeWhileD)
qed (simp_all add: c_string_def)

end
