(* ===== verification/YM_Provider.thy ===== *)
theory YM_Provider
  imports EP_Prelude
begin

text \<open>
  The database provider (\<open>dbprovider/db_provider.c\<close> and \<open>db_provider_sqlite.c\<close>).

  SQLite itself is the parameter \<open>sql_engine\<close>: what \<open>sqlite3_exec\<close> does to a database, and the rows of a query
  (a column is \<open>None\<close> where it is NULL). The provider keeps one prepared statement at a time under its
  lock: \<open>dbp_query\<close> takes the lock and \<open>dbp_query_reset\<close> gives it back, so that a second query before the
  reset blocks for ever (\<open>None\<close>). Fetched rows are allocated; freeing one that is not allocated,
  reading a NULL column and unlocking a free lock are undefined (\<open>None\<close>).
\<close>

record 'db sql_engine =
  sql_exec :: "'db \<Rightarrow> string \<Rightarrow> bool \<times> 'db"
  sql_rows :: "'db \<Rightarrow> string \<Rightarrow> string option list list option"

datatype dbp_query_ret = dbp_query_done | dbp_query_row | dbp_query_error

record dbp_cell =
  cell_data :: string
  cell_length :: nat

text \<open>The statement: the rows not yet fetched; \<open>None\<close> after an error.\<close>

record 'db dbp =
  dbp_db :: 'db
  dbp_locked :: bool
  dbp_stmt :: "string option list list option"
  dbp_fields :: nat
  dbp_live :: "nat list"
  dbp_next :: nat

definition dbp_create_new_sqlite :: "'db \<Rightarrow> 'db dbp" where
  "dbp_create_new_sqlite db = \<lparr>dbp_db = db, dbp_locked = False, dbp_stmt = None, dbp_fields = 0, dbp_live = [], dbp_next = 0\<rparr>"

definition dbp_query :: "'db sql_engine \<Rightarrow> string \<Rightarrow> 'db dbp \<Rightarrow> (dbp_query_ret \<times> 'db dbp) option" where
  "dbp_query eng sql p =
     (if dbp_locked p then None
      else
        let rows = sql_rows eng (dbp_db p) sql;
            p = p\<lparr>dbp_locked := True, dbp_stmt := rows, dbp_fields := (case rows of Some (r # _) \<Rightarrow> length r | _ \<Rightarrow> 0)\<rparr>
        in Some (case rows of None \<Rightarrow> dbp_query_error | Some [] \<Rightarrow> dbp_query_done | Some (_ # _) \<Rightarrow> dbp_query_row, p))"

definition dbp_num_fields :: "'db dbp \<Rightarrow> nat" where
  "dbp_num_fields p = dbp_fields p"

definition dbp_cells :: "string option list \<Rightarrow> dbp_cell list option" where
  "dbp_cells r =
     (if None \<in> set r then None
      else Some (map (\<lambda>c. \<lparr>cell_data = takeWhile (\<lambda>c. c \<noteq> NUL) (the c), cell_length = length (the c)\<rparr>) r))"

text \<open>The address and the contents of a fetched row, or nothing when there is none.\<close>

definition dbp_fetch_row :: "'db dbp \<Rightarrow> ((nat \<times> dbp_cell list) option \<times> 'db dbp) option" where
  "dbp_fetch_row p =
     (case dbp_stmt p of
        Some (r # rs) \<Rightarrow> do {
          cells \<leftarrow> dbp_cells r;
          Some (Some (dbp_next p, cells),
                p\<lparr>dbp_stmt := Some rs, dbp_live := dbp_next p # dbp_live p, dbp_next := dbp_next p + 1\<rparr>)
        }
      | _ \<Rightarrow> Some (None, p))"

definition dbp_fetch_row_free :: "nat \<Rightarrow> 'db dbp \<Rightarrow> 'db dbp option" where
  "dbp_fetch_row_free row p =
     (if row \<in> set (dbp_live p) then Some (p\<lparr>dbp_live := remove1 row (dbp_live p)\<rparr>) else None)"

definition dbp_query_reset :: "'db dbp \<Rightarrow> 'db dbp option" where
  "dbp_query_reset p = (if dbp_locked p then Some (p\<lparr>dbp_locked := False\<rparr>) else None)"

text \<open>\<open>dbp_ok\<close> is 1, \<open>dbp_error\<close> is 0.\<close>

definition dbp_exec :: "'db sql_engine \<Rightarrow> string \<Rightarrow> 'db dbp \<Rightarrow> (int \<times> 'db dbp) option" where
  "dbp_exec eng sql p =
     (if dbp_locked p then None
      else case sql_exec eng (dbp_db p) sql of (r, db) \<Rightarrow> Some (if r then 1 else 0, p\<lparr>dbp_db := db\<rparr>))"

section \<open>Statements as text\<close>

text \<open>\<open>sprintf\<close> into \<open>char sqlbuf[4096]\<close>, and a quoted parameter.\<close>

definition sqlbuf :: "string \<Rightarrow> string option" where
  "sqlbuf s = (if length s < 4096 then Some s else None)"

definition quoted :: "string \<Rightarrow> string" where
  "quoted s = CHR 0x27 # s @ [CHR 0x27]"

section \<open>Loops over a result\<close>

text \<open>\<open>while (dbp_fetch_row(...))\<close> with the row's contents stored into the element \<open>i\<close> of an array: outside of the
  array is undefined. \<open>free\<close> is what the loop does with the row afterwards.\<close>

partial_function (option) fetch_loop ::
  "(dbp_cell list \<Rightarrow> 'a \<Rightarrow> 'a option) \<Rightarrow> (nat \<Rightarrow> 'db dbp \<Rightarrow> 'db dbp option) \<Rightarrow> nat \<Rightarrow> 'a list \<Rightarrow> 'db dbp \<Rightarrow> ('a list \<times> 'db dbp) option" where
  "fetch_loop store free i arr p = do {
     (row, p) \<leftarrow> dbp_fetch_row p;
     (case row of
        None \<Rightarrow> Some (arr, p)
      | Some (addr, cells) \<Rightarrow>
          if i < length arr then do {
            x \<leftarrow> store cells (arr ! i);
            p \<leftarrow> free addr p;
            fetch_loop store free (i + 1) (arr[i := x]) p
          } else None)
   }"

text \<open>Copying a column into a character array, with its terminator.\<close>

definition column_copy :: "char list \<Rightarrow> dbp_cell \<Rightarrow> char list option" where
  "column_copy arr c =
     (if cell_length c < length arr then Some ((c_strncpy arr (cell_data c) (cell_length c))[cell_length c := NUL]) else None)"

section \<open>Lemmas\<close>

text \<open>The provider at rest: the lock is free and no row is allocated.\<close>

definition dbp_idle :: "'db dbp \<Rightarrow> bool" where
  "dbp_idle p \<longleftrightarrow> \<not> dbp_locked p \<and> dbp_live p = []"

lemma dbp_exec_idle:
  "dbp_idle p \<Longrightarrow> dbp_exec eng sql p =
     Some (if fst (sql_exec eng (dbp_db p) sql) then 1 else 0, p\<lparr>dbp_db := snd (sql_exec eng (dbp_db p) sql)\<rparr>)"
  by (simp add: dbp_exec_def dbp_idle_def split: prod.split)

lemma dbp_idle_db [simp]: "dbp_idle (p\<lparr>dbp_db := db\<rparr>) = dbp_idle p"
  by (simp add: dbp_idle_def)

text \<open>Texts without zeros and quotes.\<close>

definition plain :: "string \<Rightarrow> bool" where
  "plain s \<longleftrightarrow> NUL \<notin> set s \<and> CHR 0x27 \<notin> set s"

lemma plain_c_string: "plain s \<Longrightarrow> c_string s"
  by (simp add: plain_def c_string_def)

lemma takeWhile_plain: "NUL \<notin> set s \<Longrightarrow> takeWhile (\<lambda>c. c \<noteq> NUL) s = s"
  by (induction s) auto

lemma column_copy_fits:
  assumes "NUL \<notin> set s" "length s < length arr"
  shows "\<exists>r. column_copy arr \<lparr>cell_data = s, cell_length = length s\<rparr> = Some (s @ NUL # r) \<and> length (s @ NUL # r) = length arr"
proof -
  have "take (length s) (s @ replicate (length s) NUL) = s" by simp
  moreover obtain c r where d: "drop (length s) arr = c # r" using assms by (metis drop_eq_Nil2 linorder_not_le neq_Nil_conv)
  ultimately have "column_copy arr \<lparr>cell_data = s, cell_length = length s\<rparr> = Some (s @ NUL # r)"
    using assms by (simp add: column_copy_def c_strncpy_def list_update_append)
  moreover have "length arr - length s = Suc (length r)" using d by (metis length_Cons length_drop)
  ultimately show ?thesis using assms by auto
qed

text \<open>A query leaves the database alone: what every completed read promises of the provider.\<close>

definition dbp_same :: "'db dbp \<Rightarrow> 'db dbp \<Rightarrow> bool" where
  "dbp_same p p' \<longleftrightarrow> dbp_idle p' \<and> dbp_db p' = dbp_db p"

lemma dbp_same_trans: "dbp_same p p' \<Longrightarrow> dbp_same p' p'' \<Longrightarrow> dbp_same p p''"
  by (simp add: dbp_same_def)

lemma dbp_same_idle: "dbp_same p p' \<Longrightarrow> dbp_idle p'"
  by (simp add: dbp_same_def)

lemma dbp_query_idle:
  "dbp_idle p \<Longrightarrow> dbp_query eng sql p =
     Some (case sql_rows eng (dbp_db p) sql of None \<Rightarrow> dbp_query_error | Some [] \<Rightarrow> dbp_query_done | Some (_ # _) \<Rightarrow> dbp_query_row,
       p\<lparr>dbp_locked := True, dbp_stmt := sql_rows eng (dbp_db p) sql,
         dbp_fields := (case sql_rows eng (dbp_db p) sql of Some (r # _) \<Rightarrow> length r | _ \<Rightarrow> 0)\<rparr>)"
  by (simp add: dbp_query_def dbp_idle_def Let_def)

lemma query_reset_same:
  "dbp_live q = [] \<Longrightarrow> dbp_locked q \<Longrightarrow> dbp_db q = dbp_db p \<Longrightarrow> \<exists>p'. dbp_query_reset q = Some p' \<and> dbp_same p p'"
  by (simp add: dbp_query_reset_def dbp_same_def dbp_idle_def)

lemma fetch_free:
  assumes "dbp_live p = []" and "dbp_stmt p = Some (r # rs)" and "dbp_cells r = Some cells"
  shows "\<exists>q. dbp_fetch_row p = Some (Some (dbp_next p, cells), q) \<and>
    dbp_fetch_row_free (dbp_next p) q = Some (p\<lparr>dbp_stmt := Some rs, dbp_next := dbp_next p + 1\<rparr>)"
  using assms by (simp add: dbp_fetch_row_def dbp_fetch_row_free_def)

lemma fetch_none: "dbp_stmt p = Some [] \<Longrightarrow> dbp_fetch_row p = Some (None, p)"
  by (simp add: dbp_fetch_row_def)

lemma list_update_next: "(xs @ y # ys)[length xs := x] = (xs @ [x]) @ ys"
  by simp

text \<open>The loop stores every row and frees it again.\<close>

lemma fetch_loop_all:
  assumes "list_all2 (\<lambda>r x. \<exists>cells. dbp_cells r = Some cells \<and> store cells blank = Some x) rs xs"
    and "dbp_live p = []" and "dbp_stmt p = Some rs"
  shows "\<exists>p'. fetch_loop store dbp_fetch_row_free (length acc) (acc @ replicate (length rs) blank) p = Some (acc @ xs, p') \<and>
    dbp_live p' = [] \<and> dbp_db p' = dbp_db p \<and> dbp_locked p' = dbp_locked p"
  using assms
proof (induction rs xs arbitrary: acc p rule: list_all2_induct)
  case Nil
  then show ?case by (subst fetch_loop.simps) (simp add: fetch_none)
next
  case (Cons r rs x xs)
  then obtain cells where c: "dbp_cells r = Some cells" "store cells blank = Some x" by blast
  define p2 where "p2 = p\<lparr>dbp_stmt := Some rs, dbp_next := dbp_next p + 1\<rparr>"
  obtain q where q: "dbp_fetch_row p = Some (Some (dbp_next p, cells), q)" "dbp_fetch_row_free (dbp_next p) q = Some p2"
    using fetch_free [OF Cons.prems c(1)] by (auto simp: p2_def)
  have nth: "(acc @ blank # replicate (length rs) blank) ! length acc = blank" by simp
  have "fetch_loop store dbp_fetch_row_free (length acc) (acc @ replicate (length (r # rs)) blank) p =
      fetch_loop store dbp_fetch_row_free (length (acc @ [x])) ((acc @ [x]) @ replicate (length rs) blank) p2"
    by (subst fetch_loop.simps) (simp add: q c nth)
  with Cons.IH [of p2 "acc @ [x]"] Cons.prems show ?case by (simp add: p2_def)
qed

end
