(* ===== verification/YM_Db.thy ===== *)
theory YM_Db
  imports YM_Provider YM_Packet YM_Sha
begin

text \<open>
  The tables of the server (\<open>src/server/db_account.c\<close>, \<open>db_dish.c\<close>, \<open>db_seat.c\<close>, \<open>db_book.c\<close>, \<open>db.c\<close>): every
  statement as the text that \<open>sprintf\<close> builds, sent through the provider, and the rows read back into
  the structs. Character arrays of a struct are lists of their declared length. The build without
  \<open>DEBUG\<close> is modelled, in which passwords are stored as digests. A call with a null struct pointer has
  the argument \<open>None\<close>.
\<close>

section \<open>Structs\<close>

record account =
  acc_type :: int
  acc_uid :: "char list"
  acc_pwd :: "char list"
  acc_nick :: "char list"
  acc_comment :: "char list"

record dish =
  dish_id :: int
  dish_category :: int
  dish_name :: "char list"
  dish_summary :: "char list"
  dish_thumbnail :: "char list"
  dish_price_type :: int
  dish_price :: int

record seat =
  seat_id :: int
  seat_summary :: "char list"
  seat_qrcode :: "char list"

record book =
  book_id :: int
  book_seat_id :: int
  book_dish_id :: int
  book_jin_or_plate :: c_double
  book_comment :: "char list"
  book_accept_state :: int

text \<open>Memory from \<open>calloc\<close>.\<close>

definition account_zero :: account where
  "account_zero = \<lparr>acc_type = 0, acc_uid = replicate 17 NUL, acc_pwd = replicate 129 NUL, acc_nick = replicate 65 NUL,
     acc_comment = replicate 257 NUL\<rparr>"

definition dish_zero :: dish where
  "dish_zero = \<lparr>dish_id = 0, dish_category = 0, dish_name = replicate 65 NUL, dish_summary = replicate 257 NUL,
     dish_thumbnail = replicate 65 NUL, dish_price_type = 0, dish_price = 0\<rparr>"

definition book_zero :: book where
  "book_zero = \<lparr>book_id = 0, book_seat_id = 0, book_dish_id = 0, book_jin_or_plate = 0, book_comment = replicate 256 NUL,
     book_accept_state = 0\<rparr>"

definition seat_uninit :: seat where
  "seat_uninit = \<lparr>seat_id = undefined, seat_summary = replicate 257 undefined, seat_qrcode = replicate 65 undefined\<rparr>"

section \<open>Passwords\<close>

definition stack_ctx :: SHA_CTX where
  "stack_ctx = \<lparr>sha_count = undefined, sha_buf = replicate 64 undefined, sha_state = replicate 5 undefined\<rparr>"

definition hex_digit :: "nat \<Rightarrow> char" where
  "hex_digit d = (if d < 10 then char_of (48 + d) else char_of (55 + d))"

definition hex2 :: "byte \<Rightarrow> string" where
  "hex2 b = [hex_digit (unat b div 16), hex_digit (unat b mod 16)]"

definition str_bytes :: "string \<Rightarrow> byte list" where
  "str_bytes s = map (\<lambda>c. of_nat (of_char c)) s"

definition db_encrypt_pwd :: "string \<Rightarrow> string" where
  "db_encrypt_pwd pwd =
     (let tmp_sha = SHA stack_ctx (str_bytes pwd);
          tmp_sha = SHA stack_ctx tmp_sha
      in concat (map (\<lambda>n. hex2 (tmp_sha ! n)) (rev [0..<20])))"

section \<open>Common shapes\<close>

definition cell_at :: "dbp_cell list \<Rightarrow> nat \<Rightarrow> dbp_cell option" where
  "cell_at cells i = (if i < length cells then Some (cells ! i) else None)"

text \<open>A statement without a result.\<close>

definition db_run :: "'db sql_engine \<Rightarrow> string \<Rightarrow> 'db dbp \<Rightarrow> (int \<times> 'db dbp) option" where
  "db_run eng text p = do { sql \<leftarrow> sqlbuf text; dbp_exec eng sql p }"

text \<open>The number of rows, by a query of one column. The early returns of the callers give 0 as well.\<close>

definition db_count :: "'db sql_engine \<Rightarrow> string \<Rightarrow> 'db dbp \<Rightarrow> (int \<times> 'db dbp) option" where
  "db_count eng text p = do {
     sql \<leftarrow> sqlbuf text;
     (q, p) \<leftarrow> dbp_query eng sql p;
     if q \<noteq> dbp_query_row then do { p \<leftarrow> dbp_query_reset p; Some (0, p) }
     else if dbp_num_fields p \<noteq> 1 then do { p \<leftarrow> dbp_query_reset p; Some (0, p) }
     else do {
       (row, p) \<leftarrow> dbp_fetch_row p;
       (addr, cells) \<leftarrow> row;
       c \<leftarrow> cell_at cells 0;
       p \<leftarrow> dbp_fetch_row_free addr p;
       p \<leftarrow> dbp_query_reset p;
       Some (c_atoi (cell_data c), p)
     }
   }"

text \<open>All rows of a query into a fresh array of \<open>count\<close> elements.\<close>

definition db_fetch_all ::
  "'db sql_engine \<Rightarrow> string \<Rightarrow> nat \<Rightarrow> 'a \<Rightarrow> (dbp_cell list \<Rightarrow> 'a \<Rightarrow> 'a option) \<Rightarrow> (nat \<Rightarrow> 'db dbp \<Rightarrow> 'db dbp option) \<Rightarrow>
   int \<Rightarrow> 'db dbp \<Rightarrow> (int \<times> 'a list \<times> 'db dbp) option" where
  "db_fetch_all eng text cols blank store free count p = do {
     sql \<leftarrow> sqlbuf text;
     (q, p) \<leftarrow> dbp_query eng sql p;
     if q \<noteq> dbp_query_row then do { p \<leftarrow> dbp_query_reset p; Some (0, [], p) }
     else if dbp_num_fields p \<noteq> cols then do { p \<leftarrow> dbp_query_reset p; Some (0, [], p) }
     else do {
       (arr, p) \<leftarrow> fetch_loop store free 0 (replicate (nat count) blank) p;
       p \<leftarrow> dbp_query_reset p;
       Some (count, arr, p)
     }
   }"

text \<open>At most one row of a query into a struct.\<close>

definition db_fetch_one ::
  "'db sql_engine \<Rightarrow> string \<Rightarrow> nat \<Rightarrow> (dbp_cell list \<Rightarrow> 'a \<Rightarrow> 'a option) \<Rightarrow> 'a option \<Rightarrow> 'db dbp \<Rightarrow> (int \<times> 'a option \<times> 'db dbp) option" where
  "db_fetch_one eng text cols store out p = do {
     sql \<leftarrow> sqlbuf text;
     (q, p) \<leftarrow> dbp_query eng sql p;
     if q \<noteq> dbp_query_row then do { p \<leftarrow> dbp_query_reset p; Some (0, out, p) }
     else
       (case out of
          None \<Rightarrow> do { p \<leftarrow> dbp_query_reset p; Some (1, None, p) }
        | Some x \<Rightarrow>
            if dbp_num_fields p \<noteq> cols then do { p \<leftarrow> dbp_query_reset p; Some (0, out, p) }
            else do {
              (row, p) \<leftarrow> dbp_fetch_row p;
              (x, p) \<leftarrow> (case row of
                          None \<Rightarrow> Some (x, p)
                        | Some (addr, cells) \<Rightarrow> do { x \<leftarrow> store cells x; p \<leftarrow> dbp_fetch_row_free addr p; Some (x, p) });
              p \<leftarrow> dbp_query_reset p;
              Some (1, Some x, p)
            })
   }"

section \<open>Accounts\<close>

definition account_init_text :: string where
  "account_init_text = ''CREATE TABLE IF NOT EXISTS t_db_account (uid TEXT PRIMARY KEY,type INTEGER,pwd TEXT,nick TEXT,comment TEXT)''"

definition db_account_init :: "'db sql_engine \<Rightarrow> 'db dbp \<Rightarrow> (int \<times> 'db dbp) option" where
  "db_account_init eng = dbp_exec eng account_init_text"

definition db_account_reset :: "'db sql_engine \<Rightarrow> 'db dbp \<Rightarrow> (int \<times> 'db dbp) option" where
  "db_account_reset eng = dbp_exec eng ''TRUNCATE TABLE t_db_account''"

definition account_add_text :: "string \<Rightarrow> int \<Rightarrow> string \<Rightarrow> string \<Rightarrow> string \<Rightarrow> string" where
  "account_add_text uid type pwd nick comment =
     ''INSERT INTO t_db_account (uid,type,pwd,nick,comment) VALUES ('' @ quoted uid @ '','' @ c_int_str type @ '','' @ quoted pwd @
     '','' @ quoted nick @ '','' @ quoted comment @ '')''"

text \<open>The caller's account gets its uid in lower case.\<close>

definition db_account_add :: "'db sql_engine \<Rightarrow> account \<Rightarrow> 'db dbp \<Rightarrow> (int \<times> account \<times> 'db dbp) option" where
  "db_account_add eng a p = do {
     arr \<leftarrow> c_lower_loop (acc_uid a);
     let a = a\<lparr>acc_uid := arr\<rparr>;
     pwd \<leftarrow> cstr (acc_pwd a);
     uid \<leftarrow> cstr (acc_uid a);
     nick \<leftarrow> cstr (acc_nick a);
     comment \<leftarrow> cstr (acc_comment a);
     (r, p) \<leftarrow> db_run eng (account_add_text uid (acc_type a) (db_encrypt_pwd pwd) nick comment) p;
     Some (r, a, p)
   }"

definition account_get_one_text :: "string \<Rightarrow> string" where
  "account_get_one_text uid = ''SELECT * FROM t_db_account WHERE uid='' @ quoted uid"

definition account_store :: "dbp_cell list \<Rightarrow> account \<Rightarrow> account option" where
  "account_store row a = do {
     c0 \<leftarrow> cell_at row 0; uid \<leftarrow> column_copy (acc_uid a) c0;
     c1 \<leftarrow> cell_at row 1;
     c2 \<leftarrow> cell_at row 2; pwd \<leftarrow> column_copy (acc_pwd a) c2;
     c3 \<leftarrow> cell_at row 3; nick \<leftarrow> column_copy (acc_nick a) c3;
     c4 \<leftarrow> cell_at row 4; comment \<leftarrow> column_copy (acc_comment a) c4;
     Some (a\<lparr>acc_uid := uid, acc_type := c_atoi (cell_data c1), acc_pwd := pwd, acc_nick := nick, acc_comment := comment\<rparr>)
   }"

definition db_account_get_one :: "'db sql_engine \<Rightarrow> string \<Rightarrow> account option \<Rightarrow> 'db dbp \<Rightarrow> (int \<times> account option \<times> 'db dbp) option" where
  "db_account_get_one eng uid = db_fetch_one eng (account_get_one_text uid) 5 account_store"

definition db_account_get :: "'db sql_engine \<Rightarrow> 'db dbp \<Rightarrow> (int \<times> account list \<times> 'db dbp) option" where
  "db_account_get eng p = do {
     (count, p) \<leftarrow> db_count eng ''SELECT count(*) as count FROM t_db_account'' p;
     if count = 0 then Some (0, [], p)
     else db_fetch_all eng ''SELECT * FROM t_db_account'' 5 account_zero account_store dbp_fetch_row_free count p
   }"

definition account_pwd_text :: "string \<Rightarrow> string \<Rightarrow> string" where
  "account_pwd_text uid pwd = ''SELECT * FROM t_db_account WHERE uid='' @ quoted uid @ '' AND pwd='' @ quoted pwd"

definition db_account_pwd_check :: "'db sql_engine \<Rightarrow> string \<Rightarrow> string \<Rightarrow> 'db dbp \<Rightarrow> (int \<times> 'db dbp) option" where
  "db_account_pwd_check eng uid pwd p = do {
     sql \<leftarrow> sqlbuf (account_pwd_text uid (db_encrypt_pwd pwd));
     (q, p) \<leftarrow> dbp_query eng sql p;
     p \<leftarrow> dbp_query_reset p;
     Some (if q = dbp_query_row then 1 else 0, p)
   }"

definition account_update_text :: "string \<Rightarrow> string \<Rightarrow> string \<Rightarrow> string" where
  "account_update_text column val uid = ''UPDATE t_db_account SET '' @ column @ ''='' @ quoted val @ '' WHERE uid='' @ quoted uid"

definition db_account_update_pwd :: "'db sql_engine \<Rightarrow> string \<Rightarrow> string \<Rightarrow> 'db dbp \<Rightarrow> (int \<times> 'db dbp) option" where
  "db_account_update_pwd eng uid new_pwd = db_run eng (account_update_text ''pwd'' (db_encrypt_pwd new_pwd) uid)"

definition db_account_update_nick :: "'db sql_engine \<Rightarrow> string \<Rightarrow> string \<Rightarrow> 'db dbp \<Rightarrow> (int \<times> 'db dbp) option" where
  "db_account_update_nick eng uid nick = db_run eng (account_update_text ''nick'' nick uid)"

definition db_account_update_comment :: "'db sql_engine \<Rightarrow> string \<Rightarrow> string \<Rightarrow> 'db dbp \<Rightarrow> (int \<times> 'db dbp) option" where
  "db_account_update_comment eng uid comment = db_run eng (account_update_text ''comment'' comment uid)"

definition account_del_text :: "string \<Rightarrow> string" where
  "account_del_text uid = ''DELETE FROM t_db_account WHERE uid='' @ quoted uid"

definition db_account_del :: "'db sql_engine \<Rightarrow> string \<Rightarrow> 'db dbp \<Rightarrow> (int \<times> 'db dbp) option" where
  "db_account_del eng uid = db_run eng (account_del_text uid)"

section \<open>Dishes\<close>

definition dish_init_text :: string where
  "dish_init_text =
     ''CREATE TABLE IF NOT EXISTS t_db_dish (id INTEGER PRIMARY KEY,category INTEGER,name TEXT,summary TEXT,thumbnail TEXT,'' @
     ''price_type INTEGER,price INTEGER,created TIMESTAMPE NOT NULL DEFAULT (datetime('' @ quoted ''now'' @ '','' @
     quoted ''localtime'' @ '')))''"

definition db_dish_init :: "'db sql_engine \<Rightarrow> 'db dbp \<Rightarrow> (int \<times> 'db dbp) option" where
  "db_dish_init eng = dbp_exec eng dish_init_text"

definition db_dish_reset :: "'db sql_engine \<Rightarrow> 'db dbp \<Rightarrow> (int \<times> 'db dbp) option" where
  "db_dish_reset eng = dbp_exec eng ''TRUNCATE TABLE t_db_dish''"

definition dish_add_text :: "int \<Rightarrow> int \<Rightarrow> string \<Rightarrow> string \<Rightarrow> string \<Rightarrow> int \<Rightarrow> int \<Rightarrow> string" where
  "dish_add_text ident category name summary thumbnail price_type price =
     ''INSERT INTO t_db_dish (id, category,name,summary,thumbnail,price_type, price) VALUES ('' @ c_int_str ident @ '','' @
     c_int_str category @ '','' @ quoted name @ '','' @ quoted summary @ '','' @ quoted thumbnail @ '','' @ c_int_str price_type @
     '','' @ c_int_str price @ '')''"

definition db_dish_add :: "'db sql_engine \<Rightarrow> dish \<Rightarrow> 'db dbp \<Rightarrow> (int \<times> 'db dbp) option" where
  "db_dish_add eng d p = do {
     name \<leftarrow> cstr (dish_name d);
     summary \<leftarrow> cstr (dish_summary d);
     thumbnail \<leftarrow> cstr (dish_thumbnail d);
     db_run eng (dish_add_text (dish_id d) (dish_category d) name summary thumbnail (dish_price_type d) (dish_price d)) p
   }"

definition db_dish_del :: "'db sql_engine \<Rightarrow> int \<Rightarrow> 'db dbp \<Rightarrow> (int \<times> 'db dbp) option" where
  "db_dish_del eng ident = db_run eng (''DELETE FROM t_db_dish WHERE id='' @ quoted (c_int_str ident))"

definition dish_store :: "dbp_cell list \<Rightarrow> dish \<Rightarrow> dish option" where
  "dish_store row d = do {
     c0 \<leftarrow> cell_at row 0; c1 \<leftarrow> cell_at row 1;
     c2 \<leftarrow> cell_at row 2; name \<leftarrow> column_copy (dish_name d) c2;
     c3 \<leftarrow> cell_at row 3; summary \<leftarrow> column_copy (dish_summary d) c3;
     c4 \<leftarrow> cell_at row 4; thumbnail \<leftarrow> column_copy (dish_thumbnail d) c4;
     c5 \<leftarrow> cell_at row 5; c6 \<leftarrow> cell_at row 6;
     Some (d\<lparr>dish_id := c_atoi (cell_data c0), dish_category := c_atoi (cell_data c1), dish_name := name, dish_summary := summary,
       dish_thumbnail := thumbnail, dish_price_type := c_atoi (cell_data c5), dish_price := c_atoi (cell_data c6)\<rparr>)
   }"

text \<open>\<open>fill\<close> says whether the caller wants the array.\<close>

definition db_dish_get_by_category :: "'db sql_engine \<Rightarrow> int \<Rightarrow> bool \<Rightarrow> 'db dbp \<Rightarrow> (int \<times> dish list \<times> 'db dbp) option" where
  "db_dish_get_by_category eng category fill p = do {
     (count, p) \<leftarrow> db_count eng (''SELECT count(*) as count FROM t_db_dish WHERE category='' @ c_int_str category) p;
     if count = 0 then Some (0, [], p)
     else if fill then
       db_fetch_all eng (''SELECT * FROM t_db_dish WHERE category='' @ c_int_str category) 8 dish_zero dish_store dbp_fetch_row_free count p
     else do {
       sql \<leftarrow> sqlbuf (''SELECT * FROM t_db_dish WHERE category='' @ c_int_str category);
       (q, p) \<leftarrow> dbp_query eng sql p;
       p \<leftarrow> dbp_query_reset p;
       Some (if q \<noteq> dbp_query_row then 0 else count, [], p)
     }
   }"

definition dish_get_one_text :: "int \<Rightarrow> string" where
  "dish_get_one_text ident = ''SELECT * FROM t_db_dish WHERE id='' @ c_int_str ident"

definition db_dish_get_one :: "'db sql_engine \<Rightarrow> int \<Rightarrow> dish option \<Rightarrow> 'db dbp \<Rightarrow> (int \<times> dish option \<times> 'db dbp) option" where
  "db_dish_get_one eng ident = db_fetch_one eng (dish_get_one_text ident) 1 dish_store"

section \<open>Seats\<close>

definition seat_init_text :: string where
  "seat_init_text = ''CREATE TABLE IF NOT EXISTS t_db_seat (id INTEGER PRIMARY KEY,summary TEXT,qrcode TEXT)''"

definition db_seat_init :: "'db sql_engine \<Rightarrow> 'db dbp \<Rightarrow> (int \<times> 'db dbp) option" where
  "db_seat_init eng = dbp_exec eng seat_init_text"

definition db_seat_reset :: "'db sql_engine \<Rightarrow> 'db dbp \<Rightarrow> (int \<times> 'db dbp) option" where
  "db_seat_reset eng = dbp_exec eng ''TRUNCATE TABLE t_db_seat''"

definition seat_add_text :: "int \<Rightarrow> string \<Rightarrow> string \<Rightarrow> string" where
  "seat_add_text ident summary qrcode =
     ''INSERT INTO t_db_seat (id,summary,qrcode) VALUES ('' @ c_int_str ident @ '','' @ quoted summary @ '','' @ quoted qrcode @ '')''"

definition db_seat_add :: "'db sql_engine \<Rightarrow> seat \<Rightarrow> 'db dbp \<Rightarrow> (int \<times> 'db dbp) option" where
  "db_seat_add eng s p = do {
     summary \<leftarrow> cstr (seat_summary s);
     qrcode \<leftarrow> cstr (seat_qrcode s);
     db_run eng (seat_add_text (seat_id s) summary qrcode) p
   }"

definition db_seat_del :: "'db sql_engine \<Rightarrow> int \<Rightarrow> 'db dbp \<Rightarrow> (int \<times> 'db dbp) option" where
  "db_seat_del eng ident = db_run eng (''DELETE FROM t_db_seat WHERE id='' @ quoted (c_int_str ident))"

definition seat_store :: "dbp_cell list \<Rightarrow> seat \<Rightarrow> seat option" where
  "seat_store row s = do {
     c0 \<leftarrow> cell_at row 0;
     c1 \<leftarrow> cell_at row 1; summary \<leftarrow> column_copy (seat_summary s) c1;
     c2 \<leftarrow> cell_at row 2; qrcode \<leftarrow> column_copy (seat_qrcode s) c2;
     Some (s\<lparr>seat_id := c_atoi (cell_data c0), seat_summary := summary, seat_qrcode := qrcode\<rparr>)
   }"

definition db_seat_get :: "'db sql_engine \<Rightarrow> 'db dbp \<Rightarrow> (int \<times> seat list \<times> 'db dbp) option" where
  "db_seat_get eng p = do {
     (count, p) \<leftarrow> db_count eng ''SELECT count(*) as count FROM t_db_seat'' p;
     if count = 0 then Some (0, [], p)
     else db_fetch_all eng ''SELECT * FROM t_db_seat'' 3 seat_uninit seat_store dbp_fetch_row_free count p
   }"

text \<open>Here the terminator of the summary is put at the length of the fourth column, of three.\<close>

definition seat_store_one :: "dbp_cell list \<Rightarrow> seat \<Rightarrow> seat option" where
  "seat_store_one row s = do {
     c0 \<leftarrow> cell_at row 0; c1 \<leftarrow> cell_at row 1; c3 \<leftarrow> cell_at row 3; c2 \<leftarrow> cell_at row 2;
     qrcode \<leftarrow> column_copy (seat_qrcode s) c2;
     if cell_length c1 \<le> length (seat_summary s) \<and> cell_length c3 < length (seat_summary s)
     then Some (s\<lparr>seat_id := c_atoi (cell_data c0), seat_qrcode := qrcode,
       seat_summary := (c_strncpy (seat_summary s) (cell_data c1) (cell_length c1))[cell_length c3 := NUL]\<rparr>)
     else None
   }"

definition seat_get_one_text :: "int \<Rightarrow> string" where
  "seat_get_one_text ident = ''SELECT * FROM t_db_seat WHERE id='' @ c_int_str ident"

definition db_seat_get_one :: "'db sql_engine \<Rightarrow> int \<Rightarrow> seat option \<Rightarrow> 'db dbp \<Rightarrow> (int \<times> seat option \<times> 'db dbp) option" where
  "db_seat_get_one eng ident = db_fetch_one eng (seat_get_one_text ident) 3 seat_store_one"

section \<open>Bookings\<close>

definition book_init_text :: string where
  "book_init_text =
     ''CREATE TABLE IF NOT EXISTS t_db_book (book_id INTEGER PRIMARY KEY,seat_id INTEGER,dish_id INTEGER,jin_or_plate REAL,comment TEXT,accept_state int)''"

definition db_book_init :: "'db sql_engine \<Rightarrow> 'db dbp \<Rightarrow> (int \<times> 'db dbp) option" where
  "db_book_init eng = dbp_exec eng book_init_text"

definition db_book_reset :: "'db sql_engine \<Rightarrow> 'db dbp \<Rightarrow> (int \<times> 'db dbp) option" where
  "db_book_reset eng = dbp_exec eng ''TRUNCATE TABLE t_db_book''"

definition book_add_text :: "c_fp \<Rightarrow> int \<Rightarrow> int \<Rightarrow> c_double \<Rightarrow> string \<Rightarrow> int \<Rightarrow> string" where
  "book_add_text fp seat dish jin comment state =
     ''INSERT INTO t_db_book (seat_id,dish_id,jin_or_plate,comment,accept_state) VALUES ('' @ c_int_str seat @ '','' @ c_int_str dish @
     '','' @ fp_print2 fp jin @ '','' @ quoted comment @ '','' @ c_int_str state @ '')''"

definition db_book_add :: "c_fp \<Rightarrow> 'db sql_engine \<Rightarrow> book \<Rightarrow> 'db dbp \<Rightarrow> (int \<times> 'db dbp) option" where
  "db_book_add fp eng b p = do {
     comment \<leftarrow> cstr (book_comment b);
     db_run eng (book_add_text fp (book_seat_id b) (book_dish_id b) (book_jin_or_plate b) comment (book_accept_state b)) p
   }"

definition book_del_text :: "int \<Rightarrow> string" where
  "book_del_text ident = ''DELETE FROM t_db_book WHERE book_id='' @ c_int_str ident"

definition db_book_del :: "'db sql_engine \<Rightarrow> int \<Rightarrow> 'db dbp \<Rightarrow> (int \<times> 'db dbp) option" where
  "db_book_del eng ident = db_run eng (book_del_text ident)"

definition book_store :: "c_fp \<Rightarrow> dbp_cell list \<Rightarrow> book \<Rightarrow> book option" where
  "book_store fp row b = do {
     c0 \<leftarrow> cell_at row 0; c1 \<leftarrow> cell_at row 1; c2 \<leftarrow> cell_at row 2; c3 \<leftarrow> cell_at row 3;
     c4 \<leftarrow> cell_at row 4; comment \<leftarrow> column_copy (book_comment b) c4;
     c5 \<leftarrow> cell_at row 5;
     Some (b\<lparr>book_id := c_atoi (cell_data c0), book_seat_id := c_atoi (cell_data c1), book_dish_id := c_atoi (cell_data c2),
       book_jin_or_plate := fp_atof fp (cell_data c3), book_comment := comment,
       book_accept_state := fp_to_int fp (fp_atof fp (cell_data c5))\<rparr>)
   }"

text \<open>\<open>db_book_get_one\<close> loops over the rows; the last one stays in the struct.\<close>

partial_function (option) book_fetch_loop :: "c_fp \<Rightarrow> book \<Rightarrow> 'db dbp \<Rightarrow> (book \<times> 'db dbp) option" where
  "book_fetch_loop fp b p = do {
     (row, p) \<leftarrow> dbp_fetch_row p;
     (case row of
        None \<Rightarrow> Some (b, p)
      | Some (addr, cells) \<Rightarrow> do {
          b \<leftarrow> book_store fp cells b;
          p \<leftarrow> dbp_fetch_row_free addr p;
          book_fetch_loop fp b p
        })
   }"

definition book_columns :: string where
  "book_columns = ''SELECT book_id,seat_id,dish_id,jin_or_plate,comment,accept_state FROM t_db_book WHERE ''"

definition db_book_get_one :: "c_fp \<Rightarrow> 'db sql_engine \<Rightarrow> int \<Rightarrow> book option \<Rightarrow> 'db dbp \<Rightarrow> (int \<times> book option \<times> 'db dbp) option" where
  "db_book_get_one fp eng ident out p = do {
     sql \<leftarrow> sqlbuf (book_columns @ ''book_id='' @ c_int_str ident);
     (q, p) \<leftarrow> dbp_query eng sql p;
     if q \<noteq> dbp_query_row then do { p \<leftarrow> dbp_query_reset p; Some (0, out, p) }
     else
       (case out of
          None \<Rightarrow> do { p \<leftarrow> dbp_query_reset p; Some (1, None, p) }
        | Some b \<Rightarrow>
            if dbp_num_fields p \<noteq> 6 then do { p \<leftarrow> dbp_query_reset p; Some (0, out, p) }
            else do {
              (b, p) \<leftarrow> book_fetch_loop fp b p;
              p \<leftarrow> dbp_query_reset p;
              Some (1, Some b, p)
            })
   }"

text \<open>The loop of \<open>db_book_get\<close> frees each row twice.\<close>

definition free_twice :: "nat \<Rightarrow> 'db dbp \<Rightarrow> 'db dbp option" where
  "free_twice row p = do { p \<leftarrow> dbp_fetch_row_free row p; dbp_fetch_row_free row p }"

definition db_book_get :: "c_fp \<Rightarrow> 'db sql_engine \<Rightarrow> int \<Rightarrow> 'db dbp \<Rightarrow> (int \<times> book list \<times> 'db dbp) option" where
  "db_book_get fp eng seat p = do {
     (count, p) \<leftarrow> db_count eng (''SELECT count(*) as count FROM t_db_book WHERE seat_id = '' @ c_int_str seat) p;
     if count = 0 then Some (0, [], p)
     else db_fetch_all eng (book_columns @ ''seat_id = '' @ c_int_str seat) 6 book_zero (book_store fp) free_twice count p
   }"

definition db_book_modify_book :: "'db sql_engine \<Rightarrow> int \<Rightarrow> int \<Rightarrow> int \<Rightarrow> 'db dbp \<Rightarrow> (int \<times> 'db dbp) option" where
  "db_book_modify_book eng seat dish number = db_run eng (''UPDATE t_db_book SET book_numbers='' @ c_int_str number @
     '' WHERE seat_id='' @ c_int_str seat @ '' AND dish_id='' @ c_int_str dish)"

definition db_book_modify_accept :: "'db sql_engine \<Rightarrow> int \<Rightarrow> int \<Rightarrow> int \<Rightarrow> 'db dbp \<Rightarrow> (int \<times> 'db dbp) option" where
  "db_book_modify_accept eng seat dish number = db_run eng (''UPDATE t_db_book SET accept_numbers='' @ c_int_str number @
     '' WHERE seat_id='' @ c_int_str seat @ '' AND dish_id='' @ c_int_str dish)"

section \<open>Common shapes from an idle provider\<close>

lemma db_run_idle:
  "dbp_idle p \<Longrightarrow> length text < 4096 \<Longrightarrow> db_run eng text p =
     Some (if fst (sql_exec eng (dbp_db p) text) then 1 else 0, p\<lparr>dbp_db := snd (sql_exec eng (dbp_db p) text)\<rparr>)"
  by (simp add: db_run_def sqlbuf_def dbp_exec_idle)

lemma db_fetch_one_none:
  assumes "dbp_idle p" and "length text < 4096" and "sql_rows eng (dbp_db p) text = Some []"
  shows "\<exists>p'. db_fetch_one eng text cols store out p = Some (0, out, p') \<and> dbp_same p p'"
  using assms by (simp add: db_fetch_one_def sqlbuf_def dbp_query_idle dbp_query_reset_def dbp_same_def dbp_idle_def)

lemma db_fetch_one_null:
  assumes "dbp_idle p" and "length text < 4096" and "sql_rows eng (dbp_db p) text = Some (r # rs)"
  shows "\<exists>p'. db_fetch_one eng text cols store None p = Some (1, None, p') \<and> dbp_same p p'"
  using assms by (simp add: db_fetch_one_def sqlbuf_def dbp_query_idle dbp_query_reset_def dbp_same_def dbp_idle_def)

lemma db_fetch_one_row:
  assumes "dbp_idle p" and "length text < 4096" and "sql_rows eng (dbp_db p) text = Some (r # rs)"
    and "length r = cols" and "dbp_cells r = Some cells" and "store cells x = Some y"
  shows "\<exists>p'. db_fetch_one eng text cols store (Some x) p = Some (1, Some y, p') \<and> dbp_same p p'"
  using assms
  by (simp add: db_fetch_one_def sqlbuf_def dbp_query_idle dbp_query_reset_def dbp_same_def dbp_idle_def dbp_num_fields_def
      dbp_fetch_row_def dbp_fetch_row_free_def)

lemma db_count_row:
  assumes "dbp_idle p" and "length text < 4096" and "sql_rows eng (dbp_db p) text = Some [[Some s]]" and "NUL \<notin> set s"
  shows "\<exists>p'. db_count eng text p = Some (c_atoi s, p') \<and> dbp_same p p'"
  using assms
  by (simp add: db_count_def sqlbuf_def dbp_query_idle dbp_query_reset_def dbp_same_def dbp_idle_def dbp_num_fields_def
      dbp_fetch_row_def dbp_fetch_row_free_def dbp_cells_def cell_at_def takeWhile_plain)

lemma db_fetch_all_rows:
  assumes "dbp_idle p" and "length text < 4096" and "sql_rows eng (dbp_db p) text = Some rs" and "rs \<noteq> []"
    and "length (hd rs) = cols"
    and "list_all2 (\<lambda>r x. \<exists>cells. dbp_cells r = Some cells \<and> store cells blank = Some x) rs xs"
  shows "\<exists>p'. db_fetch_all eng text cols blank store dbp_fetch_row_free (int (length rs)) p = Some (int (length rs), xs, p') \<and> dbp_same p p'"
proof -
  obtain r rs' where rs: "rs = r # rs'" using assms(4) by (cases rs) auto
  define q where "q = p\<lparr>dbp_locked := True, dbp_stmt := Some rs, dbp_fields := length r\<rparr>"
  have "dbp_query eng text p = Some (dbp_query_row, q)"
    using assms(1,3) rs by (simp add: dbp_query_idle q_def)
  moreover have "dbp_num_fields q = cols" using assms(5) rs by (simp add: q_def dbp_num_fields_def)
  moreover obtain p' where p': "fetch_loop store dbp_fetch_row_free 0 (replicate (length rs) blank) q = Some (xs, p')"
    "dbp_live p' = []" "dbp_db p' = dbp_db p" "dbp_locked p'"
    using fetch_loop_all [where store = store and blank = blank and rs = rs and xs = xs and p = q and acc = "[]"] assms(1,6)
    by (auto simp: q_def dbp_idle_def)
  moreover obtain p'' where "dbp_query_reset p' = Some p''" "dbp_same p p''"
    using query_reset_same [OF p'(2,4,3)] by blast
  ultimately show ?thesis using assms(2) by (simp add: db_fetch_all_def sqlbuf_def)
qed

section \<open>Lengths\<close>

text \<open>No statement built from the strings of the structs reaches the end of \<open>sqlbuf\<close>.\<close>

lemma length_quoted [simp]: "length (quoted s) = length s + 2"
  by (simp add: quoted_def)

lemma length_nat_str: "n < 10 ^ k \<Longrightarrow> 0 < k \<Longrightarrow> length (c_nat_str n) \<le> k"
proof (induction n arbitrary: k rule: c_nat_str.induct)
  case (1 n)
  show ?case
  proof (cases "n < 10")
    case True
    then have "c_nat_str n = [digit_char n]" by (subst c_nat_str.simps) simp
    with "1.prems" show ?thesis by simp
  next
    case False
    then have e: "c_nat_str n = c_nat_str (n div 10) @ [digit_char (n mod 10)]" by (subst c_nat_str.simps) simp
    obtain j where k: "k = Suc j" using "1.prems"(2) by (cases k) auto
    have "n div 10 < 10 ^ j" using "1.prems"(1) by (simp add: k less_mult_imp_div_less mult.commute)
    moreover have "0 < j" using False "1.prems"(1) by (cases j) (auto simp: k)
    ultimately show ?thesis using "1.IH" [OF False] by (simp add: e k)
  qed
qed

text \<open>A C \<open>int\<close> prints in at most 11 characters.\<close>

lemma length_int_str: "\<bar>i\<bar> < 2 ^ 31 + 1 \<Longrightarrow> length (c_int_str i) \<le> 11"
proof -
  assume i: "\<bar>i\<bar> < 2 ^ 31 + 1"
  have "nat \<bar>i\<bar> < 10 ^ 10" using i by (simp add: nat_less_iff)
  from length_nat_str [OF this] show ?thesis by (simp add: c_int_str_def abs_if split: if_splits)
qed

lemma length_db_encrypt_pwd: "length (db_encrypt_pwd s) = 40"
  by (simp add: db_encrypt_pwd_def hex2_def length_concat comp_def Let_def upt_rec)

lemma hex_digit_plain: "d < 16 \<Longrightarrow> hex_digit d \<noteq> NUL \<and> hex_digit d \<noteq> CHR 0x27"
proof -
  assume d: "d < 16"
  then have "(of_char (hex_digit d) :: nat) = (if d < 10 then 48 + d else 55 + d)" by (simp add: hex_digit_def)
  then have "(of_char (hex_digit d) :: nat) \<noteq> of_char NUL" "(of_char (hex_digit d) :: nat) \<noteq> of_char (CHR 0x27)"
    using d by (auto split: if_splits)
  then show ?thesis by metis
qed

lemma plain_db_encrypt_pwd: "plain (db_encrypt_pwd s)"
proof -
  have "hex_digit (unat b div 16) \<noteq> NUL \<and> hex_digit (unat b div 16) \<noteq> CHR 0x27" for b :: byte
    using unsigned_less [of b, where ?'a = nat] by (intro hex_digit_plain) simp
  moreover have "hex_digit (unat b mod 16) \<noteq> NUL \<and> hex_digit (unat b mod 16) \<noteq> CHR 0x27" for b :: byte
    by (intro hex_digit_plain) simp
  ultimately show ?thesis by (auto simp: plain_def db_encrypt_pwd_def hex2_def Let_def) (metis+)
qed

text \<open>The digest is that of the standard, applied twice, last byte first.\<close>

lemma db_encrypt_pwd_fips:
  "db_encrypt_pwd s = concat (map (\<lambda>n. hex2 (fips_sha1 (fips_sha1 (str_bytes s)) ! n)) (rev [0..<20]))"
  by (simp add: db_encrypt_pwd_def SHA_fips stack_ctx_def Let_def)

end
