(* ===== verification/YM_Tables.thy ===== *)
theory YM_Tables
  imports YM_Db "HOL-Library.Multiset"
begin

text \<open>
  What the server relies on in SQLite, and what the functions of \<open>YM_Db\<close> then do to the tables.

  \<open>tables\<close> is the contents of the four tables; \<open>sql_laws eng tbl\<close> says that the statements of the server, for
  parameters without quotes and zeros, act on the contents \<open>tbl db\<close> of a database as the SQL standard and the
  documentation of SQLite say: rows come in any order, a second row under a primary key is refused, an
  \<open>INTEGER PRIMARY KEY\<close> that is not given is a fresh number. \<open>YM_MiniSql\<close> has an engine with these laws.
\<close>

section \<open>Tables\<close>

record account_row =
  ar_uid :: string
  ar_type :: int
  ar_pwd :: string
  ar_nick :: string
  ar_comment :: string

record dish_row =
  dr_id :: int
  dr_category :: int
  dr_name :: string
  dr_summary :: string
  dr_thumbnail :: string
  dr_price_type :: int
  dr_price :: int
  dr_created :: string

record seat_row =
  sr_id :: int
  sr_summary :: string
  sr_qrcode :: string

record book_row =
  br_id :: int
  br_seat :: int
  br_dish :: int
  br_jin :: string
  br_comment :: string
  br_state :: int

record tables =
  t_account :: "account_row list"
  t_dish :: "dish_row list"
  t_seat :: "seat_row list"
  t_book :: "book_row list"

text \<open>The columns of a row as text.\<close>

definition account_cols :: "account_row \<Rightarrow> string option list" where
  "account_cols r = map Some [ar_uid r, c_int_str (ar_type r), ar_pwd r, ar_nick r, ar_comment r]"

definition dish_cols :: "dish_row \<Rightarrow> string option list" where
  "dish_cols r = map Some [c_int_str (dr_id r), c_int_str (dr_category r), dr_name r, dr_summary r, dr_thumbnail r,
     c_int_str (dr_price_type r), c_int_str (dr_price r), dr_created r]"

definition seat_cols :: "seat_row \<Rightarrow> string option list" where
  "seat_cols r = map Some [c_int_str (sr_id r), sr_summary r, sr_qrcode r]"

definition book_cols :: "book_row \<Rightarrow> string option list" where
  "book_cols r = map Some [c_int_str (br_id r), c_int_str (br_seat r), c_int_str (br_dish r), br_jin r, br_comment r, c_int_str (br_state r)]"

section \<open>The laws\<close>

text \<open>The rows of a query, in some order, and the answer to \<open>count(*)\<close>.\<close>

definition rows_are :: "string option list list option \<Rightarrow> ('r \<Rightarrow> string option list) \<Rightarrow> 'r list \<Rightarrow> bool" where
  "rows_are res cols rs \<longleftrightarrow> (\<exists>l. mset l = mset rs \<and> res = Some (map cols l))"

definition count_is :: "string option list list option \<Rightarrow> nat \<Rightarrow> bool" where
  "count_is res n \<longleftrightarrow> res = Some [[Some (c_int_str (int n))]]"

definition account_laws :: "'db sql_engine \<Rightarrow> ('db \<Rightarrow> tables) \<Rightarrow> bool" where
  "account_laws eng tbl \<longleftrightarrow>
     (\<forall>db u t p n c. plain u \<and> plain p \<and> plain n \<and> plain c \<longrightarrow>
        (case sql_exec eng db (account_add_text u t p n c) of (ok, db') \<Rightarrow>
           if u \<in> set (map ar_uid (t_account (tbl db))) then \<not> ok \<and> tbl db' = tbl db
           else ok \<and> tbl db' = (tbl db)\<lparr>t_account := t_account (tbl db) @
             [\<lparr>ar_uid = u, ar_type = t, ar_pwd = p, ar_nick = n, ar_comment = c\<rparr>]\<rparr>)) \<and>
     (\<forall>db u. plain u \<longrightarrow> rows_are (sql_rows eng db (account_get_one_text u)) account_cols (filter (\<lambda>r. ar_uid r = u) (t_account (tbl db)))) \<and>
     (\<forall>db u p. plain u \<and> plain p \<longrightarrow>
        rows_are (sql_rows eng db (account_pwd_text u p)) account_cols (filter (\<lambda>r. ar_uid r = u \<and> ar_pwd r = p) (t_account (tbl db)))) \<and>
     (\<forall>db u v. plain u \<and> plain v \<longrightarrow>
        (case sql_exec eng db (account_update_text ''pwd'' v u) of (ok, db') \<Rightarrow>
           ok \<and> tbl db' = (tbl db)\<lparr>t_account := map (\<lambda>r. if ar_uid r = u then r\<lparr>ar_pwd := v\<rparr> else r) (t_account (tbl db))\<rparr>) \<and>
        (case sql_exec eng db (account_update_text ''nick'' v u) of (ok, db') \<Rightarrow>
           ok \<and> tbl db' = (tbl db)\<lparr>t_account := map (\<lambda>r. if ar_uid r = u then r\<lparr>ar_nick := v\<rparr> else r) (t_account (tbl db))\<rparr>) \<and>
        (case sql_exec eng db (account_update_text ''comment'' v u) of (ok, db') \<Rightarrow>
           ok \<and> tbl db' = (tbl db)\<lparr>t_account := map (\<lambda>r. if ar_uid r = u then r\<lparr>ar_comment := v\<rparr> else r) (t_account (tbl db))\<rparr>)) \<and>
     (\<forall>db u. plain u \<longrightarrow>
        (case sql_exec eng db (account_del_text u) of (ok, db') \<Rightarrow>
           ok \<and> tbl db' = (tbl db)\<lparr>t_account := filter (\<lambda>r. ar_uid r \<noteq> u) (t_account (tbl db))\<rparr>)) \<and>
     (\<forall>db. count_is (sql_rows eng db ''SELECT count(*) as count FROM t_db_account'') (length (t_account (tbl db))) \<and>
        rows_are (sql_rows eng db ''SELECT * FROM t_db_account'') account_cols (t_account (tbl db)))"

definition menu_laws :: "'db sql_engine \<Rightarrow> ('db \<Rightarrow> tables) \<Rightarrow> bool" where
  "menu_laws eng tbl \<longleftrightarrow>
     (\<forall>db c. count_is (sql_rows eng db (''SELECT count(*) as count FROM t_db_dish WHERE category='' @ c_int_str c))
          (length (filter (\<lambda>r. dr_category r = c) (t_dish (tbl db)))) \<and>
        rows_are (sql_rows eng db (''SELECT * FROM t_db_dish WHERE category='' @ c_int_str c)) dish_cols
          (filter (\<lambda>r. dr_category r = c) (t_dish (tbl db)))) \<and>
     (\<forall>db i. rows_are (sql_rows eng db (dish_get_one_text i)) dish_cols (filter (\<lambda>r. dr_id r = i) (t_dish (tbl db)))) \<and>
     (\<forall>db. count_is (sql_rows eng db ''SELECT count(*) as count FROM t_db_seat'') (length (t_seat (tbl db))) \<and>
        rows_are (sql_rows eng db ''SELECT * FROM t_db_seat'') seat_cols (t_seat (tbl db))) \<and>
     (\<forall>db i. rows_are (sql_rows eng db (seat_get_one_text i)) seat_cols (filter (\<lambda>r. sr_id r = i) (t_seat (tbl db))))"

definition book_laws :: "c_fp \<Rightarrow> 'db sql_engine \<Rightarrow> ('db \<Rightarrow> tables) \<Rightarrow> bool" where
  "book_laws fp eng tbl \<longleftrightarrow>
     (\<forall>db s d j c a. plain c \<longrightarrow>
        (case sql_exec eng db (book_add_text fp s d j c a) of (ok, db') \<Rightarrow>
           ok \<and> (\<exists>i t. i \<notin> set (map br_id (t_book (tbl db))) \<and>
             tbl db' = (tbl db)\<lparr>t_book := t_book (tbl db) @
               [\<lparr>br_id = i, br_seat = s, br_dish = d, br_jin = t, br_comment = c, br_state = a\<rparr>]\<rparr>))) \<and>
     (\<forall>db i. case sql_exec eng db (book_del_text i) of (ok, db') \<Rightarrow>
        ok \<and> tbl db' = (tbl db)\<lparr>t_book := filter (\<lambda>r. br_id r \<noteq> i) (t_book (tbl db))\<rparr>) \<and>
     (\<forall>db s. count_is (sql_rows eng db (''SELECT count(*) as count FROM t_db_book WHERE seat_id = '' @ c_int_str s))
          (length (filter (\<lambda>r. br_seat r = s) (t_book (tbl db)))) \<and>
        rows_are (sql_rows eng db (book_columns @ ''seat_id = '' @ c_int_str s)) book_cols
          (filter (\<lambda>r. br_seat r = s) (t_book (tbl db))))"

definition sql_laws :: "c_fp \<Rightarrow> 'db sql_engine \<Rightarrow> ('db \<Rightarrow> tables) \<Rightarrow> bool" where
  "sql_laws fp eng tbl \<longleftrightarrow> account_laws eng tbl \<and> menu_laws eng tbl \<and> book_laws fp eng tbl"

section \<open>Contents that fit the structs\<close>

definition fits :: "nat \<Rightarrow> string \<Rightarrow> bool" where
  "fits n s \<longleftrightarrow> plain s \<and> length s \<le> n"

definition account_row_ok :: "account_row \<Rightarrow> bool" where
  "account_row_ok r \<longleftrightarrow> fits 16 (ar_uid r) \<and> fits 128 (ar_pwd r) \<and> fits 64 (ar_nick r) \<and> fits 256 (ar_comment r) \<and> ar_type r \<in> {0..3}"

definition dish_row_ok :: "dish_row \<Rightarrow> bool" where
  "dish_row_ok r \<longleftrightarrow> fits 64 (dr_name r) \<and> fits 256 (dr_summary r) \<and> fits 64 (dr_thumbnail r) \<and> NUL \<notin> set (dr_created r)"

definition seat_row_ok :: "seat_row \<Rightarrow> bool" where
  "seat_row_ok r \<longleftrightarrow> fits 256 (sr_summary r) \<and> fits 64 (sr_qrcode r)"

definition tables_ok :: "tables \<Rightarrow> bool" where
  "tables_ok T \<longleftrightarrow> list_all account_row_ok (t_account T) \<and> distinct (map ar_uid (t_account T)) \<and>
     list_all dish_row_ok (t_dish T) \<and> list_all seat_row_ok (t_seat T)"

text \<open>The account of a user.\<close>

definition account_of :: "tables \<Rightarrow> string \<Rightarrow> account_row option" where
  "account_of T uid = find (\<lambda>r. ar_uid r = uid) (t_account T)"

text \<open>A struct that holds a row.\<close>

definition account_holds :: "account_row \<Rightarrow> account \<Rightarrow> bool" where
  "account_holds r a \<longleftrightarrow> acc_type a = ar_type r \<and> cstr (acc_uid a) = Some (ar_uid r) \<and> cstr (acc_pwd a) = Some (ar_pwd r) \<and>
     cstr (acc_nick a) = Some (ar_nick r) \<and> cstr (acc_comment a) = Some (ar_comment r)"

definition account_arrays :: "account \<Rightarrow> bool" where
  "account_arrays a \<longleftrightarrow> length (acc_uid a) = 17 \<and> length (acc_pwd a) = 129 \<and> length (acc_nick a) = 65 \<and> length (acc_comment a) = 257"

section \<open>Reading rows\<close>

lemma fits_NUL: "fits n s \<Longrightarrow> NUL \<notin> set s"
  by (simp add: fits_def plain_def)

lemma int_str_NUL: "NUL \<notin> set (c_int_str i)"
proof -
  have "\<not> c_isdigit NUL" by (simp add: c_isdigit_def)
  then show ?thesis using c_nat_str_digits by (auto simp: c_int_str_def)
qed

lemma dbp_cells_texts:
  "list_all (\<lambda>s. NUL \<notin> set s) ss \<Longrightarrow> dbp_cells (map Some ss) = Some (map (\<lambda>s. \<lparr>cell_data = s, cell_length = length s\<rparr>) ss)"
  by (simp add: dbp_cells_def takeWhile_plain list_all_iff image_iff)

lemma column_copy_cstr:
  assumes "fits n s" "n < length arr"
  shows "\<exists>arr'. column_copy arr \<lparr>cell_data = s, cell_length = length s\<rparr> = Some arr' \<and> cstr arr' = Some s \<and> length arr' = length arr"
proof -
  have "NUL \<notin> set s" "length s < length arr" using assms by (auto simp: fits_def plain_def)
  from column_copy_fits [OF this] obtain r where
    "column_copy arr \<lparr>cell_data = s, cell_length = length s\<rparr> = Some (s @ NUL # r)" "length (s @ NUL # r) = length arr" by blast
  moreover have "cstr (s @ NUL # r) = Some s" using assms by (simp add: cstr_append_NUL fits_def plain_c_string)
  ultimately show ?thesis by blast
qed

lemma account_cells:
  "account_row_ok r \<Longrightarrow> dbp_cells (account_cols r) =
     Some (map (\<lambda>s. \<lparr>cell_data = s, cell_length = length s\<rparr>) [ar_uid r, c_int_str (ar_type r), ar_pwd r, ar_nick r, ar_comment r])"
  unfolding account_cols_def by (intro dbp_cells_texts) (auto simp: account_row_ok_def fits_NUL int_str_NUL)

lemma account_store_row:
  assumes "account_row_ok r" and "account_arrays a"
  shows "\<exists>cells a'. dbp_cells (account_cols r) = Some cells \<and> account_store cells a = Some a' \<and> account_holds r a' \<and> account_arrays a'"
proof -
  have f: "fits 16 (ar_uid r)" "fits 128 (ar_pwd r)" "fits 64 (ar_nick r)" "fits 256 (ar_comment r)"
    and l: "16 < length (acc_uid a)" "128 < length (acc_pwd a)" "64 < length (acc_nick a)" "256 < length (acc_comment a)"
    using assms by (simp_all add: account_row_ok_def account_arrays_def)
  from column_copy_cstr [OF f(1) l(1)] column_copy_cstr [OF f(2) l(2)] column_copy_cstr [OF f(3) l(3)] column_copy_cstr [OF f(4) l(4)]
  show ?thesis
    using assms(2) by (auto simp: account_cells [OF assms(1)] account_store_def cell_at_def account_holds_def account_arrays_def)
qed

section \<open>The functions on accounts\<close>

lemma sql_lawsD:
  "sql_laws fp eng tbl \<Longrightarrow> account_laws eng tbl" "sql_laws fp eng tbl \<Longrightarrow> menu_laws eng tbl" "sql_laws fp eng tbl \<Longrightarrow> book_laws fp eng tbl"
  by (simp_all add: sql_laws_def)

lemma account_laws_all:
  assumes "account_laws eng tbl"
  shows "count_is (sql_rows eng db ''SELECT count(*) as count FROM t_db_account'') (length (t_account (tbl db)))"
    and "rows_are (sql_rows eng db ''SELECT * FROM t_db_account'') account_cols (t_account (tbl db))"
  using assms unfolding account_laws_def by blast+

lemma rows_are_find:
  assumes "rows_are res cols (filter P rs)"
  shows "find P rs = None \<Longrightarrow> res = Some []"
    and "find P rs \<noteq> None \<Longrightarrow> \<exists>r l. P r \<and> r \<in> set rs \<and> res = Some (cols r # map cols l)"
proof -
  obtain l where l: "mset l = mset (filter P rs)" "res = Some (map cols l)" using assms by (auto simp: rows_are_def)
  have s: "set l = set (filter P rs)" using l(1) by (metis set_mset_mset)
  show "find P rs = None \<Longrightarrow> res = Some []" using s l(2) by (auto simp: find_None_iff filter_empty_conv)
  show "find P rs \<noteq> None \<Longrightarrow> \<exists>r l. P r \<and> r \<in> set rs \<and> res = Some (cols r # map cols l)"
  proof -
    assume "find P rs \<noteq> None"
    then have "l \<noteq> []" using s by (auto simp: find_None_iff)
    then obtain r l' where r: "l = r # l'" by (cases l) auto
    then have "P r \<and> r \<in> set rs" using s by auto
    then show ?thesis using r l(2) by auto
  qed
qed

lemma account_of_unique:
  "distinct (map ar_uid (t_account T)) \<Longrightarrow> r \<in> set (t_account T) \<Longrightarrow> ar_uid r = uid \<Longrightarrow> account_of T uid = Some r"
proof -
  have "find (\<lambda>r. ar_uid r = uid) rs = Some r" if "distinct (map ar_uid rs)" "r \<in> set rs" "ar_uid r = uid" for rs
    using that by (induction rs) (auto simp: image_iff)
  then show "distinct (map ar_uid (t_account T)) \<Longrightarrow> r \<in> set (t_account T) \<Longrightarrow> ar_uid r = uid \<Longrightarrow> account_of T uid = Some r"
    by (simp add: account_of_def)
qed

lemma account_of_in: "account_of T uid = Some r \<Longrightarrow> r \<in> set (t_account T) \<and> ar_uid r = uid"
  by (auto simp: account_of_def find_Some_iff)

lemma account_get_one_length: "length uid \<le> 16 \<Longrightarrow> length (account_get_one_text uid) < 4096"
  by (simp add: account_get_one_text_def)

lemma db_account_get_one_null:
  assumes "account_laws eng tbl" and "dbp_idle p" and "fits 16 uid"
  shows "\<exists>p'. db_account_get_one eng uid None p = Some (if account_of (tbl (dbp_db p)) uid = None then 0 else 1, None, p') \<and> dbp_same p p'"
proof -
  have rows: "rows_are (sql_rows eng (dbp_db p) (account_get_one_text uid)) account_cols (filter (\<lambda>r. ar_uid r = uid) (t_account (tbl (dbp_db p))))"
    using assms(1,3) by (simp add: account_laws_def fits_def)
  have len: "length (account_get_one_text uid) < 4096" using assms(3) by (simp add: account_get_one_length fits_def)
  show ?thesis
  proof (cases "account_of (tbl (dbp_db p)) uid")
    case None
    then show ?thesis using rows_are_find(1) [OF rows] db_fetch_one_none [OF assms(2) len]
      by (simp add: db_account_get_one_def account_of_def)
  next
    case (Some r)
    then obtain r l where "sql_rows eng (dbp_db p) (account_get_one_text uid) = Some (account_cols r # map account_cols l)"
      using rows_are_find(2) [OF rows] by (auto simp: account_of_def)
    from db_fetch_one_null [OF assms(2) len this] Some show ?thesis by (simp add: db_account_get_one_def)
  qed
qed

lemma db_account_get_one_some:
  assumes "account_laws eng tbl" and "dbp_idle p" and "fits 16 uid" and "tables_ok (tbl (dbp_db p))"
    and "account_of (tbl (dbp_db p)) uid = Some r" and "account_arrays a"
  shows "\<exists>p' a'. db_account_get_one eng uid (Some a) p = Some (1, Some a', p') \<and> dbp_same p p' \<and> account_holds r a' \<and> account_arrays a'"
proof -
  have rows: "rows_are (sql_rows eng (dbp_db p) (account_get_one_text uid)) account_cols (filter (\<lambda>r. ar_uid r = uid) (t_account (tbl (dbp_db p))))"
    using assms(1,3) by (simp add: account_laws_def fits_def)
  have len: "length (account_get_one_text uid) < 4096" using assms(3) by (simp add: account_get_one_length fits_def)
  obtain q l where q: "ar_uid q = uid" "q \<in> set (t_account (tbl (dbp_db p)))"
    "sql_rows eng (dbp_db p) (account_get_one_text uid) = Some (account_cols q # map account_cols l)"
    using rows_are_find(2) [OF rows] assms(5) by (auto simp: account_of_def)
  have "q = r" using account_of_unique [OF _ q(2,1)] assms(4,5) by (simp add: tables_ok_def)
  have "account_row_ok r" using assms(4) q(2) \<open>q = r\<close> by (simp add: tables_ok_def list_all_iff)
  then obtain cells a' where c: "dbp_cells (account_cols r) = Some cells" "account_store cells a = Some a'" "account_holds r a'" "account_arrays a'"
    using account_store_row assms(6) by blast
  have "length (account_cols r) = 5" by (simp add: account_cols_def)
  from db_fetch_one_row [where store = account_store and x = a, OF assms(2) len q(3) [unfolded \<open>q = r\<close>] this c(1,2)] c(3,4)
  show ?thesis by (auto simp: db_account_get_one_def)
qed

lemma db_account_get_one_absent:
  assumes "account_laws eng tbl" and "dbp_idle p" and "fits 16 uid" and "account_of (tbl (dbp_db p)) uid = None"
  shows "\<exists>p'. db_account_get_one eng uid out p = Some (0, out, p') \<and> dbp_same p p'"
proof -
  have rows: "rows_are (sql_rows eng (dbp_db p) (account_get_one_text uid)) account_cols (filter (\<lambda>r. ar_uid r = uid) (t_account (tbl (dbp_db p))))"
    using assms(1,3) by (simp add: account_laws_def fits_def)
  have len: "length (account_get_one_text uid) < 4096" using assms(3) by (simp add: account_get_one_length fits_def)
  show ?thesis
    using assms(4) rows_are_find(1) [OF rows] db_fetch_one_none [OF assms(2) len] by (simp add: db_account_get_one_def account_of_def)
qed

lemma db_account_pwd_check_spec:
  assumes "account_laws eng tbl" and "dbp_idle p" and "fits 16 uid" and "distinct (map ar_uid (t_account (tbl (dbp_db p))))"
  shows "\<exists>p'. db_account_pwd_check eng uid pwd p =
      Some (case account_of (tbl (dbp_db p)) uid of None \<Rightarrow> 0 | Some r \<Rightarrow> if ar_pwd r = db_encrypt_pwd pwd then 1 else 0, p') \<and> dbp_same p p'"
proof -
  let ?P = "\<lambda>r. ar_uid r = uid \<and> ar_pwd r = db_encrypt_pwd pwd" and ?T = "tbl (dbp_db p)"
  let ?text = "account_pwd_text uid (db_encrypt_pwd pwd)"
  have rows: "rows_are (sql_rows eng (dbp_db p) ?text) account_cols (filter ?P (t_account ?T))"
    using assms(1,3) plain_db_encrypt_pwd [of pwd] by (simp add: account_laws_def fits_def)
  have len: "length ?text < 4096" using assms(3) by (simp add: account_pwd_text_def fits_def length_db_encrypt_pwd)
  have "(case account_of ?T uid of None \<Rightarrow> 0 | Some r \<Rightarrow> if ar_pwd r = db_encrypt_pwd pwd then 1 else (0 :: int)) =
      (if find ?P (t_account ?T) = None then 0 else 1)"
  proof (cases "account_of ?T uid")
    case None
    then have "find ?P (t_account ?T) = None" by (auto simp: account_of_def find_None_iff)
    with None show ?thesis by simp
  next
    case (Some r)
    have "r' = r" if "r' \<in> set (t_account ?T)" "ar_uid r' = uid" for r'
      using account_of_unique [OF assms(4) that] Some by simp
    with Some account_of_in [OF Some] show ?thesis by (auto simp: find_None_iff)
  qed
  moreover have "\<exists>p'. db_account_pwd_check eng uid pwd p = Some (if find ?P (t_account ?T) = None then 0 else 1, p') \<and> dbp_same p p'"
  proof (cases "find ?P (t_account ?T)")
    case None
    then show ?thesis using rows_are_find(1) [OF rows] assms(2) len
      by (simp add: db_account_pwd_check_def sqlbuf_def dbp_query_idle dbp_query_reset_def dbp_same_def dbp_idle_def)
  next
    case (Some r)
    then obtain q l where "sql_rows eng (dbp_db p) ?text = Some (account_cols q # map account_cols l)"
      using rows_are_find(2) [OF rows] by auto
    then show ?thesis using Some assms(2) len
      by (simp add: db_account_pwd_check_def sqlbuf_def dbp_query_idle dbp_query_reset_def dbp_same_def dbp_idle_def)
  qed
  ultimately show ?thesis by simp
qed

text \<open>A struct filled by the handlers.\<close>

definition account_filled :: "account \<Rightarrow> string \<Rightarrow> string \<Rightarrow> string \<Rightarrow> string \<Rightarrow> bool" where
  "account_filled a uid pwd nick comment \<longleftrightarrow> (\<exists>r. acc_uid a = uid @ NUL # r) \<and> cstr (acc_pwd a) = Some pwd \<and>
     cstr (acc_nick a) = Some nick \<and> cstr (acc_comment a) = Some comment \<and>
     fits 16 uid \<and> fits 64 nick \<and> fits 256 comment \<and> acc_type a \<in> {0..3}"

lemma c_tolower_plain: "c_tolower c = CHR 0x27 \<longleftrightarrow> c = CHR 0x27"
proof -
  have "(char_of (of_char c + 32 :: nat) :: char) \<noteq> CHR 0x27" if "65 \<le> (of_char c :: nat)" "(of_char c :: nat) \<le> 90"
  proof
    assume "(char_of (of_char c + 32 :: nat) :: char) = CHR 0x27"
    then have "(of_char (char_of (of_char c + 32 :: nat) :: char) :: nat) = of_char (CHR 0x27)" by simp
    then show False using that by simp
  qed
  then show ?thesis by (auto simp: c_tolower_def Let_def)
qed

lemma fits_lower [simp]: "fits n (map c_tolower s) = fits n s"
proof -
  have "NUL \<in> c_tolower ` set s \<longleftrightarrow> NUL \<in> set s" "CHR 0x27 \<in> c_tolower ` set s \<longleftrightarrow> CHR 0x27 \<in> set s"
    unfolding image_iff by (metis c_tolower_NUL, metis c_tolower_plain)
  then show ?thesis by (simp add: fits_def plain_def)
qed

lemma db_account_add_spec:
  assumes "account_laws eng tbl" and "dbp_idle p" and "account_filled a uid pwd nick comment"
    and "u = map c_tolower uid"
  shows "\<exists>a' db'. db_account_add eng a p =
      Some (if account_of (tbl (dbp_db p)) u = None then 1 else 0, a', p\<lparr>dbp_db := db'\<rparr>) \<and>
      tbl db' = (if account_of (tbl (dbp_db p)) u = None
        then (tbl (dbp_db p))\<lparr>t_account := t_account (tbl (dbp_db p)) @
          [\<lparr>ar_uid = u, ar_type = acc_type a, ar_pwd = db_encrypt_pwd pwd, ar_nick = nick, ar_comment = comment\<rparr>]\<rparr>
        else tbl (dbp_db p))"
proof -
  let ?text = "account_add_text u (acc_type a) (db_encrypt_pwd pwd) nick comment"
  obtain r where uid: "acc_uid a = uid @ NUL # r" using assms(3) by (auto simp: account_filled_def)
  have f: "fits 16 u" "fits 64 nick" "fits 256 comment" "acc_type a \<in> {0..3}" "c_string uid"
    using assms(3,4) by (simp_all add: account_filled_def) (simp add: fits_def plain_c_string)
  have low: "c_lower_loop (acc_uid a) = Some (u @ NUL # r)" using f(5) uid assms(4) by (simp add: c_lower_loop_string)
  have cu: "cstr (u @ NUL # r) = Some u" using f(1) by (simp add: cstr_append_NUL fits_def plain_c_string)
  have "length (c_int_str (acc_type a)) \<le> 11" using f(4) by (intro length_int_str) auto
  then have len: "length ?text < 4096" using f by (simp add: account_add_text_def length_db_encrypt_pwd fits_def)
  obtain ok db' where ex: "sql_exec eng (dbp_db p) ?text = (ok, db')" by (metis prod.exhaust)
  have law: "if u \<in> set (map ar_uid (t_account (tbl (dbp_db p)))) then \<not> ok \<and> tbl db' = tbl (dbp_db p)
      else ok \<and> tbl db' = (tbl (dbp_db p))\<lparr>t_account := t_account (tbl (dbp_db p)) @
        [\<lparr>ar_uid = u, ar_type = acc_type a, ar_pwd = db_encrypt_pwd pwd, ar_nick = nick, ar_comment = comment\<rparr>]\<rparr>"
  proof -
    have "plain u \<and> plain (db_encrypt_pwd pwd) \<and> plain nick \<and> plain comment" using f plain_db_encrypt_pwd by (simp add: fits_def)
    from conjunct1 [OF assms(1) [unfolded account_laws_def],
        THEN spec [where x = "dbp_db p"], THEN spec, THEN spec [where x = "acc_type a"], THEN spec, THEN spec, THEN spec, THEN mp, OF this]
    show ?thesis by (simp only: ex prod.case)
  qed
  have key: "u \<in> set (map ar_uid (t_account (tbl (dbp_db p)))) \<longleftrightarrow> account_of (tbl (dbp_db p)) u \<noteq> None"
    by (auto simp: account_of_def find_None_iff)
  have "db_account_add eng a p = Some (if ok then 1 else 0, a\<lparr>acc_uid := u @ NUL # r\<rparr>, p\<lparr>dbp_db := db'\<rparr>)"
    using assms(3) db_run_idle [OF assms(2) len, of eng]
    by (simp add: db_account_add_def low cu account_filled_def ex)
  with law key show ?thesis by (auto split: if_splits)
qed

lemma db_run_ok:
  assumes "dbp_idle p" and "length text < 4096" and "case sql_exec eng (dbp_db p) text of (ok, db') \<Rightarrow> ok \<and> tbl db' = T"
  shows "\<exists>db'. db_run eng text p = Some (1, p\<lparr>dbp_db := db'\<rparr>) \<and> tbl db' = T"
  using assms by (auto simp: db_run_idle)

definition set_accounts :: "(account_row \<Rightarrow> account_row) \<Rightarrow> string \<Rightarrow> tables \<Rightarrow> tables" where
  "set_accounts f uid T = T\<lparr>t_account := map (\<lambda>r. if ar_uid r = uid then f r else r) (t_account T)\<rparr>"

lemma db_account_update_spec:
  assumes "account_laws eng tbl" and "dbp_idle p" and "fits 16 uid"
  shows "\<exists>db'. db_account_update_pwd eng uid v p = Some (1, p\<lparr>dbp_db := db'\<rparr>) \<and>
      tbl db' = set_accounts (\<lambda>r. r\<lparr>ar_pwd := db_encrypt_pwd v\<rparr>) uid (tbl (dbp_db p))"
    and "fits 256 w \<Longrightarrow> \<exists>db'. db_account_update_nick eng uid w p = Some (1, p\<lparr>dbp_db := db'\<rparr>) \<and>
      tbl db' = set_accounts (\<lambda>r. r\<lparr>ar_nick := w\<rparr>) uid (tbl (dbp_db p))"
    and "fits 256 w \<Longrightarrow> \<exists>db'. db_account_update_comment eng uid w p = Some (1, p\<lparr>dbp_db := db'\<rparr>) \<and>
      tbl db' = set_accounts (\<lambda>r. r\<lparr>ar_comment := w\<rparr>) uid (tbl (dbp_db p))"
proof -
  have pl: "plain uid" using assms(3) by (simp add: fits_def)
  have len: "length (account_update_text c w uid) < 4096" if "length c \<le> 10" "length w \<le> 256" for c w
    using assms(3) that by (simp add: account_update_text_def fits_def)
  note law = assms(1) [unfolded account_laws_def]
  show "\<exists>db'. db_account_update_pwd eng uid v p = Some (1, p\<lparr>dbp_db := db'\<rparr>) \<and>
      tbl db' = set_accounts (\<lambda>r. r\<lparr>ar_pwd := db_encrypt_pwd v\<rparr>) uid (tbl (dbp_db p))"
    unfolding db_account_update_pwd_def set_accounts_def
    using law pl plain_db_encrypt_pwd by (intro db_run_ok [OF assms(2)] len) (auto simp: length_db_encrypt_pwd)
  show "\<exists>db'. db_account_update_nick eng uid w p = Some (1, p\<lparr>dbp_db := db'\<rparr>) \<and>
      tbl db' = set_accounts (\<lambda>r. r\<lparr>ar_nick := w\<rparr>) uid (tbl (dbp_db p))" if "fits 256 w"
    unfolding db_account_update_nick_def set_accounts_def
    using law pl that by (intro db_run_ok [OF assms(2)] len) (auto simp: fits_def)
  show "\<exists>db'. db_account_update_comment eng uid w p = Some (1, p\<lparr>dbp_db := db'\<rparr>) \<and>
      tbl db' = set_accounts (\<lambda>r. r\<lparr>ar_comment := w\<rparr>) uid (tbl (dbp_db p))" if "fits 256 w"
    unfolding db_account_update_comment_def set_accounts_def
    using law pl that by (intro db_run_ok [OF assms(2)] len) (auto simp: fits_def)
qed

lemma db_account_del_spec:
  assumes "account_laws eng tbl" and "dbp_idle p" and "fits 16 uid"
  shows "\<exists>db'. db_account_del eng uid p = Some (1, p\<lparr>dbp_db := db'\<rparr>) \<and>
      tbl db' = (tbl (dbp_db p))\<lparr>t_account := filter (\<lambda>r. ar_uid r \<noteq> uid) (t_account (tbl (dbp_db p)))\<rparr>"
proof -
  have "length (account_del_text uid) < 4096" "plain uid" using assms(3) by (simp_all add: account_del_text_def fits_def)
  then show ?thesis unfolding db_account_del_def
    using assms(1) by (intro db_run_ok [OF assms(2)]) (auto simp: account_laws_def)
qed

text \<open>Counting and then reading all rows.\<close>

lemma db_list_spec:
  assumes idle: "dbp_idle p" and cnt: "count_is (sql_rows eng (dbp_db p) ctext) (length rs)"
    and rows: "rows_are (sql_rows eng (dbp_db p) stext) cols rs" and len: "length ctext < 4096" "length stext < 4096"
    and store: "\<And>r. r \<in> set rs \<Longrightarrow> \<exists>cells x. dbp_cells (cols r) = Some cells \<and> store cells blank = Some x \<and> holds r x"
    and width: "\<And>r. length (cols r) = n"
  shows "\<exists>p' l xs. (do {
      (c, p) \<leftarrow> db_count eng ctext p;
      if c = 0 then Some (0, [], p) else db_fetch_all eng stext n blank store dbp_fetch_row_free c p
    }) = Some (int (length rs), xs, p') \<and> dbp_same p p' \<and> mset l = mset rs \<and> list_all2 holds l xs"
proof -
  have c: "sql_rows eng (dbp_db p) ctext = Some [[Some (c_int_str (int (length rs)))]]" using cnt by (simp add: count_is_def)
  obtain p1 where p1: "db_count eng ctext p = Some (int (length rs), p1)" "dbp_same p p1"
    using db_count_row [OF idle len(1) c] int_str_NUL by auto
  show ?thesis
  proof (cases "rs = []")
    case True
    then show ?thesis using p1 by simp
  next
    case False
    obtain l where l: "mset l = mset rs" "sql_rows eng (dbp_db p1) stext = Some (map cols l)"
      using rows p1(2) unfolding rows_are_def dbp_same_def by auto
    have ne: "l \<noteq> []" and s: "set l = set rs" using l(1) False by (auto dest: mset_eq_setD)
    obtain x where x: "\<forall>r \<in> set l. \<exists>cells. dbp_cells (cols r) = Some cells \<and> store cells blank = Some (x r) \<and> holds r (x r)"
      using store unfolding s by metis
    have "list_all2 (\<lambda>r x. \<exists>cells. dbp_cells r = Some cells \<and> store cells blank = Some x) (map cols l) (map x l)"
      and h: "list_all2 holds l (map x l)"
      using x by (auto simp: list_all2_conv_all_nth dest!: bspec [OF _ nth_mem])
    moreover have "length (hd (map cols l)) = n" using ne width by (cases l) auto
    ultimately obtain p2 where p2: "db_fetch_all eng stext n blank store dbp_fetch_row_free (int (length l)) p1 = Some (int (length l), map x l, p2)"
      "dbp_same p1 p2"
      using db_fetch_all_rows [where store = store and blank = blank and xs = "map x l", OF dbp_same_idle [OF p1(2)] len(2) l(2)] ne by auto
    have "length l = length rs" using l(1) by (metis size_mset)
    then show ?thesis using p1(1) p2(1) False dbp_same_trans [OF p1(2) p2(2)] h l(1) by auto
  qed
qed

lemma db_account_get_spec:
  assumes "account_laws eng tbl" and "dbp_idle p" and "tables_ok (tbl (dbp_db p))"
  shows "\<exists>p' l xs. db_account_get eng p = Some (int (length (t_account (tbl (dbp_db p)))), xs, p') \<and> dbp_same p p' \<and>
    mset l = mset (t_account (tbl (dbp_db p))) \<and> list_all2 account_holds l xs"
  unfolding db_account_get_def
proof (rule db_list_spec [OF assms(2) account_laws_all [OF assms(1)]])
  have arr: "account_arrays account_zero" by (simp add: account_arrays_def account_zero_def)
  show "\<exists>cells x. dbp_cells (account_cols r) = Some cells \<and> account_store cells account_zero = Some x \<and> account_holds r x"
    if "r \<in> set (t_account (tbl (dbp_db p)))" for r
    using account_store_row [OF _ arr, of r] that assms(3) by (auto simp: tables_ok_def list_all_iff)
qed (simp_all add: account_cols_def)

section \<open>Dishes, seats and bookings\<close>

lemma int_text_length: "length s \<le> 1000 \<Longrightarrow> - (2 ^ 31) \<le> i \<Longrightarrow> i < 2 ^ 31 \<Longrightarrow> length (s @ c_int_str i) < 4096"
proof -
  assume s: "length s \<le> 1000" and i: "- (2 ^ 31) \<le> i" "i < 2 ^ 31"
  have "\<bar>i\<bar> < 2 ^ 31 + 1" using i by linarith
  with s length_int_str [of i] show ?thesis by simp
qed

lemma db_dish_get_one_null:
  assumes "menu_laws eng tbl" and "dbp_idle p" and "- (2 ^ 31) \<le> i" and "i < 2 ^ 31"
  shows "\<exists>p'. db_dish_get_one eng i None p =
      Some (if \<exists>r \<in> set (t_dish (tbl (dbp_db p))). dr_id r = i then 1 else 0, None, p') \<and> dbp_same p p'"
proof -
  have rows: "rows_are (sql_rows eng (dbp_db p) (dish_get_one_text i)) dish_cols (filter (\<lambda>r. dr_id r = i) (t_dish (tbl (dbp_db p))))"
    using assms(1) by (simp add: menu_laws_def)
  have len: "length (dish_get_one_text i) < 4096" unfolding dish_get_one_text_def using assms(3,4) by (intro int_text_length) auto
  show ?thesis
  proof (cases "\<exists>r \<in> set (t_dish (tbl (dbp_db p))). dr_id r = i")
    case True
    then have "find (\<lambda>r. dr_id r = i) (t_dish (tbl (dbp_db p))) \<noteq> None" by (auto simp: find_None_iff)
    then obtain r l where "sql_rows eng (dbp_db p) (dish_get_one_text i) = Some (dish_cols r # map dish_cols l)"
      using rows_are_find(2) [OF rows] by blast
    from db_fetch_one_null [OF assms(2) len this] True show ?thesis by (simp add: db_dish_get_one_def)
  next
    case False
    then have "find (\<lambda>r. dr_id r = i) (t_dish (tbl (dbp_db p))) = None" by (auto simp: find_None_iff)
    then show ?thesis using rows_are_find(1) [OF rows] db_fetch_one_none [OF assms(2) len] False
      by (simp add: db_dish_get_one_def)
  qed
qed

lemma db_seat_get_one_null:
  assumes "menu_laws eng tbl" and "dbp_idle p" and "- (2 ^ 31) \<le> i" and "i < 2 ^ 31"
  shows "\<exists>p'. db_seat_get_one eng i None p =
      Some (if \<exists>r \<in> set (t_seat (tbl (dbp_db p))). sr_id r = i then 1 else 0, None, p') \<and> dbp_same p p'"
proof -
  have rows: "rows_are (sql_rows eng (dbp_db p) (seat_get_one_text i)) seat_cols (filter (\<lambda>r. sr_id r = i) (t_seat (tbl (dbp_db p))))"
    using assms(1) by (simp add: menu_laws_def)
  have len: "length (seat_get_one_text i) < 4096" unfolding seat_get_one_text_def using assms(3,4) by (intro int_text_length) auto
  show ?thesis
  proof (cases "\<exists>r \<in> set (t_seat (tbl (dbp_db p))). sr_id r = i")
    case True
    then have "find (\<lambda>r. sr_id r = i) (t_seat (tbl (dbp_db p))) \<noteq> None" by (auto simp: find_None_iff)
    then obtain r l where "sql_rows eng (dbp_db p) (seat_get_one_text i) = Some (seat_cols r # map seat_cols l)"
      using rows_are_find(2) [OF rows] by blast
    from db_fetch_one_null [OF assms(2) len this] True show ?thesis by (simp add: db_seat_get_one_def)
  next
    case False
    then have "find (\<lambda>r. sr_id r = i) (t_seat (tbl (dbp_db p))) = None" by (auto simp: find_None_iff)
    then show ?thesis using rows_are_find(1) [OF rows] db_fetch_one_none [OF assms(2) len] False
      by (simp add: db_seat_get_one_def)
  qed
qed

end
