(* ===== verification/YM_MiniSql.thy ===== *)
theory YM_MiniSql
  imports YM_Tables
begin

text \<open>
  A database engine for exactly the statements of the server, on the contents of the four tables, that has the
  laws of \<open>YM_Tables\<close>: it takes a statement apart at its quotes. It stands in for SQLite where the theorems
  about the server are applied to concrete inputs.
\<close>

fun split_on :: "char \<Rightarrow> string \<Rightarrow> string list" where
  "split_on q [] = [[]]"
| "split_on q (c # cs) = (if c = q then [] # split_on q cs else (case split_on q cs of [] \<Rightarrow> [[c]] | w # ws \<Rightarrow> (c # w) # ws))"

fun strip :: "string \<Rightarrow> string \<Rightarrow> string option" where
  "strip [] s = Some s"
| "strip (c # cs) [] = None"
| "strip (c # cs) (d # ds) = (if c = d then strip cs ds else None)"

definition mini_insert_account :: "string \<Rightarrow> int \<Rightarrow> string \<Rightarrow> string \<Rightarrow> string \<Rightarrow> tables \<Rightarrow> bool \<times> tables" where
  "mini_insert_account u t p n c T =
     (if u \<in> set (map ar_uid (t_account T)) then (False, T)
      else (True, T\<lparr>t_account := t_account T @ [\<lparr>ar_uid = u, ar_type = t, ar_pwd = p, ar_nick = n, ar_comment = c\<rparr>]\<rparr>))"

definition mini_insert_book :: "int \<Rightarrow> int \<Rightarrow> string \<Rightarrow> string \<Rightarrow> int \<Rightarrow> tables \<Rightarrow> bool \<times> tables" where
  "mini_insert_book s d j c a T =
     (True, T\<lparr>t_book := t_book T @ [\<lparr>br_id = Max (set (0 # map br_id (t_book T))) + 1, br_seat = s, br_dish = d, br_jin = j,
        br_comment = c, br_state = a\<rparr>]\<rparr>)"

definition mini_book_numbers :: "string \<Rightarrow> string \<Rightarrow> string \<Rightarrow> tables \<Rightarrow> bool \<times> tables" where
  "mini_book_numbers nums c state T =
     (case split_on (CHR 0x2C) nums of
        [s, d, j, _] \<Rightarrow> mini_insert_book (c_atoi s) (c_atoi d) j c (c_atoi (tl state)) T
      | _ \<Rightarrow> (False, T))"

text \<open>A dish and a seat, under numbers that are primary keys.\<close>

definition mini_insert_dish :: "int \<Rightarrow> int \<Rightarrow> string \<Rightarrow> string \<Rightarrow> string \<Rightarrow> int \<Rightarrow> int \<Rightarrow> tables \<Rightarrow> bool \<times> tables" where
  "mini_insert_dish i c n s t pt pr T =
     (if i \<in> set (map dr_id (t_dish T)) then (False, T)
      else (True, T\<lparr>t_dish := t_dish T @ [\<lparr>dr_id = i, dr_category = c, dr_name = n, dr_summary = s, dr_thumbnail = t, dr_price_type = pt,
        dr_price = pr, dr_created = ''now''\<rparr>]\<rparr>))"

definition mini_dish_numbers :: "string \<Rightarrow> string \<Rightarrow> string \<Rightarrow> string \<Rightarrow> string \<Rightarrow> tables \<Rightarrow> bool \<times> tables" where
  "mini_dish_numbers nums n s t price T =
     (case (split_on (CHR 0x2C) nums, split_on (CHR 0x2C) price) of
        ([i, c, _], [_, pt, pr]) \<Rightarrow> mini_insert_dish (c_atoi i) (c_atoi c) n s t (c_atoi pt) (c_atoi pr) T
      | _ \<Rightarrow> (False, T))"

definition mini_insert_seat :: "int \<Rightarrow> string \<Rightarrow> string \<Rightarrow> tables \<Rightarrow> bool \<times> tables" where
  "mini_insert_seat i s q T =
     (if i \<in> set (map sr_id (t_seat T)) then (False, T)
      else (True, T\<lparr>t_seat := t_seat T @ [\<lparr>sr_id = i, sr_summary = s, sr_qrcode = q\<rparr>]\<rparr>))"

definition mini_exec :: "tables \<Rightarrow> string \<Rightarrow> bool \<times> tables" where
  "mini_exec T text =
     (case split_on (CHR 0x27) text of
        [h, u, t, p, _, n, _, c, _] \<Rightarrow>
          if h = ''INSERT INTO t_db_account (uid,type,pwd,nick,comment) VALUES ('' then mini_insert_account u (c_atoi (tl t)) p n c T else (False, T)
      | [h, v, _, u, _] \<Rightarrow>
          if h = ''UPDATE t_db_account SET pwd='' then (True, set_accounts (\<lambda>r. r\<lparr>ar_pwd := v\<rparr>) u T)
          else if h = ''UPDATE t_db_account SET nick='' then (True, set_accounts (\<lambda>r. r\<lparr>ar_nick := v\<rparr>) u T)
          else if h = ''UPDATE t_db_account SET comment='' then (True, set_accounts (\<lambda>r. r\<lparr>ar_comment := v\<rparr>) u T)
          else (case strip ''INSERT INTO t_db_seat (id,summary,qrcode) VALUES ('' h of
                  Some num \<Rightarrow> mini_insert_seat (c_atoi num) v u T
                | None \<Rightarrow> (strip ''CREATE TABLE IF NOT EXISTS '' h \<noteq> None, T))
      | [h, n, _, s, _, t, price] \<Rightarrow>
          (case strip ''INSERT INTO t_db_dish (id, category,name,summary,thumbnail,price_type, price) VALUES ('' h of
             Some nums \<Rightarrow> mini_dish_numbers nums n s t price T
           | None \<Rightarrow> (False, T))
      | [h, u, e] \<Rightarrow>
          if h = ''DELETE FROM t_db_account WHERE uid='' then (True, T\<lparr>t_account := filter (\<lambda>r. ar_uid r \<noteq> u) (t_account T)\<rparr>)
          else (case strip ''INSERT INTO t_db_book (seat_id,dish_id,jin_or_plate,comment,accept_state) VALUES ('' h of
                  Some nums \<Rightarrow> mini_book_numbers nums u e T
                | None \<Rightarrow> (False, T))
      | [x] \<Rightarrow>
          (case strip ''DELETE FROM t_db_book WHERE book_id='' x of
             Some i \<Rightarrow> (True, T\<lparr>t_book := filter (\<lambda>r. br_id r \<noteq> c_atoi i) (t_book T)\<rparr>)
           | None \<Rightarrow> (strip ''CREATE TABLE IF NOT EXISTS '' x \<noteq> None, T))
      | _ \<Rightarrow> (False, T))"

definition mini_count :: "nat \<Rightarrow> string option list list option" where
  "mini_count n = Some [[Some (c_int_str (int n))]]"

text \<open>The statements without quotes: a prefix and a number.\<close>

definition mini_plain_rows :: "tables \<Rightarrow> string \<Rightarrow> string option list list option" where
  "mini_plain_rows T x =
     (case strip ''SELECT count(*) as count FROM t_db_dish WHERE category='' x of
        Some i \<Rightarrow> mini_count (length (filter (\<lambda>r. dr_category r = c_atoi i) (t_dish T)))
      | None \<Rightarrow>
     (case strip ''SELECT * FROM t_db_dish WHERE category='' x of
        Some i \<Rightarrow> Some (map dish_cols (filter (\<lambda>r. dr_category r = c_atoi i) (t_dish T)))
      | None \<Rightarrow>
     (case strip ''SELECT * FROM t_db_dish WHERE id='' x of
        Some i \<Rightarrow> Some (map dish_cols (filter (\<lambda>r. dr_id r = c_atoi i) (t_dish T)))
      | None \<Rightarrow>
     (case strip ''SELECT * FROM t_db_seat WHERE id='' x of
        Some i \<Rightarrow> Some (map seat_cols (filter (\<lambda>r. sr_id r = c_atoi i) (t_seat T)))
      | None \<Rightarrow>
     (case strip ''SELECT count(*) as count FROM t_db_book WHERE seat_id = '' x of
        Some i \<Rightarrow> mini_count (length (filter (\<lambda>r. br_seat r = c_atoi i) (t_book T)))
      | None \<Rightarrow>
     (case strip (book_columns @ ''seat_id = '') x of
        Some i \<Rightarrow> Some (map book_cols (filter (\<lambda>r. br_seat r = c_atoi i) (t_book T)))
      | None \<Rightarrow> None))))))"

definition mini_rows :: "tables \<Rightarrow> string \<Rightarrow> string option list list option" where
  "mini_rows T text =
     (case split_on (CHR 0x27) text of
        [h, u, m, p, _] \<Rightarrow>
          if h = ''SELECT * FROM t_db_account WHERE uid='' \<and> m = '' AND pwd=''
          then Some (map account_cols (filter (\<lambda>r. ar_uid r = u \<and> ar_pwd r = p) (t_account T))) else None
      | [h, u, _] \<Rightarrow>
          if h = ''SELECT * FROM t_db_account WHERE uid='' then Some (map account_cols (filter (\<lambda>r. ar_uid r = u) (t_account T))) else None
      | [x] \<Rightarrow>
          if x = ''SELECT count(*) as count FROM t_db_account'' then mini_count (length (t_account T))
          else if x = ''SELECT * FROM t_db_account'' then Some (map account_cols (t_account T))
          else if x = ''SELECT count(*) as count FROM t_db_seat'' then mini_count (length (t_seat T))
          else if x = ''SELECT * FROM t_db_seat'' then Some (map seat_cols (t_seat T))
          else mini_plain_rows T x
      | _ \<Rightarrow> None)"

definition mini_engine :: "tables sql_engine" where
  "mini_engine = \<lparr>sql_exec = mini_exec, sql_rows = mini_rows\<rparr>"

text \<open>Floating point for the examples.\<close>

definition demo_fp :: c_fp where
  "demo_fp = \<lparr>fp_of_int = of_int, fp_to_int = sint, fp_narrow = (\<lambda>d. d), fp_positive = (\<lambda>d. 0 < sint d),
     fp_print2 = (\<lambda>d. c_int_str (sint d) @ ''.00''), fp_atof = (\<lambda>s. of_int (c_atoi s))\<rparr>"

section \<open>Taking statements apart\<close>

lemma split_on_none: "q \<notin> set a \<Longrightarrow> split_on q a = [a]"
  by (induction a) auto

lemma split_on_append: "q \<notin> set a \<Longrightarrow> split_on q (a @ q # b) = a # split_on q b"
  by (induction a) auto

lemma strip_append [simp]: "strip p (p @ s) = Some s"
  by (induction p) auto

lemma int_str_chars: "c \<in> set (c_int_str i) \<Longrightarrow> c_isdigit c \<or> c = CHR ''-''"
  using c_nat_str_digits by (auto simp: c_int_str_def split: if_splits)

lemma int_str_no_quote: "CHR 0x27 \<notin> set (c_int_str i)" "CHR 0x2C \<notin> set (c_int_str i)"
  using int_str_chars [of "CHR 0x27" i] int_str_chars [of "CHR 0x2C" i] by (auto simp: c_isdigit_def)

lemma c_atoi_prefix: "\<not> c_isdigit c \<Longrightarrow> c_atoi (c_int_str i @ c # r) = i"
proof -
  assume c: "\<not> c_isdigit c"
  have tw: "takeWhile c_isdigit (c_nat_str m @ c # r) = takeWhile c_isdigit (c_nat_str m)" for m
  proof -
    have d: "\<And>x. x \<in> set (c_nat_str m) \<Longrightarrow> c_isdigit x" by (rule c_nat_str_digits)
    have "takeWhile c_isdigit (c_nat_str m @ c # r) = c_nat_str m @ takeWhile c_isdigit (c # r)"
      using d by (rule takeWhile_append2)
    moreover have "takeWhile c_isdigit (c_nat_str m) = c_nat_str m" using takeWhile_append2 [of "c_nat_str m" c_isdigit "[]", OF d] by simp
    ultimately show ?thesis using c by (metis append.right_neutral takeWhile.simps(2))
  qed
  then have dg: "c_digits (c_nat_str m @ c # r) = int m" for m using c_digits_nat_str [of m] by (simp add: c_digits_def)
  have pos: "c_atoi (c_nat_str m @ c # r) = int m" for m
  proof -
    obtain d cs where n: "c_nat_str m = d # cs" using c_nat_str_nonempty [of m] by (cases "c_nat_str m") auto
    moreover have "c_isdigit d" using c_nat_str_digits [of d m] n by simp
    ultimately show ?thesis using dg [of m] by (simp add: c_atoi_def c_isdigit_not_space)
  qed
  have "\<not> c_isspace (CHR ''-'')" by (simp add: c_isspace_def)
  then have "c_atoi (CHR ''-'' # c_nat_str m @ c # r) = - int m" for m by (simp add: c_atoi_def dg)
  then show ?thesis by (simp add: c_int_str_def pos)
qed

lemma plain_quote: "plain s \<Longrightarrow> CHR 0x27 \<notin> set s"
  by (simp add: plain_def)

lemma split_quoted: "plain s \<Longrightarrow> CHR 0x27 \<notin> set h \<Longrightarrow> split_on (CHR 0x27) (h @ quoted s @ r) = h # s # split_on (CHR 0x27) r"
  using split_on_append [of "CHR 0x27" h "s @ CHR 0x27 # r"] split_on_append [of "CHR 0x27" s r]
  by (simp add: quoted_def plain_quote)

lemma split_quoted_last: "plain s \<Longrightarrow> CHR 0x27 \<notin> set h \<Longrightarrow> split_on (CHR 0x27) (h @ quoted s) = [h, s, []]"
  using split_quoted [of s h "[]"] by simp

section \<open>The laws\<close>

lemma rows_are_map: "rows_are (Some (map cols rs)) cols rs"
  by (auto simp: rows_are_def)

lemma mini_add:
  assumes "plain u" "plain p" "plain n" "plain c"
  shows "mini_exec T (account_add_text u t p n c) = mini_insert_account u t p n c T"
proof -
  have t: "CHR 0x27 \<notin> set ('','' @ c_int_str t @ '','')" using int_str_no_quote(1) by simp
  have "c_atoi (c_int_str t @ '','') = t" using c_atoi_prefix [of "CHR '',''" t "[]"] by (simp add: c_isdigit_def)
  moreover have "split_on (CHR 0x27) (account_add_text u t p n c) =
      [''INSERT INTO t_db_account (uid,type,pwd,nick,comment) VALUES ('', u, '','' @ c_int_str t @ '','', p, '','', n, '','', c, '')'']"
  proof -
    have "split_on (CHR 0x27) (quoted u @ '','' @ c_int_str t @ '','' @ quoted p @ '','' @ quoted n @ '','' @ quoted c @ '')'') =
        [[], u, '','' @ c_int_str t @ '','', p, '','', n, '','', c, '')'']"
      using split_quoted [OF assms(1), of "[]"] split_quoted [OF assms(2) t] split_quoted [OF assms(3), of "'',''"]
        split_quoted [OF assms(4), of "'',''" "'')''"] by simp
    then show ?thesis by (simp add: account_add_text_def)
  qed
  ultimately show ?thesis by (simp add: mini_exec_def)
qed

lemma mini_update:
  assumes "plain u" "plain v"
  shows "mini_exec T (account_update_text ''pwd'' v u) = (True, set_accounts (\<lambda>r. r\<lparr>ar_pwd := v\<rparr>) u T)"
    "mini_exec T (account_update_text ''nick'' v u) = (True, set_accounts (\<lambda>r. r\<lparr>ar_nick := v\<rparr>) u T)"
    "mini_exec T (account_update_text ''comment'' v u) = (True, set_accounts (\<lambda>r. r\<lparr>ar_comment := v\<rparr>) u T)"
proof -
  have "split_on (CHR 0x27) (account_update_text c v u) = [''UPDATE t_db_account SET '' @ c @ ''='', v, '' WHERE uid='', u, []]"
    if "CHR 0x27 \<notin> set c" for c
    using split_quoted [OF assms(2), of "''UPDATE t_db_account SET '' @ c @ ''=''"] split_quoted_last [OF assms(1), of "'' WHERE uid=''"] that
    by (simp add: account_update_text_def)
  then show "mini_exec T (account_update_text ''pwd'' v u) = (True, set_accounts (\<lambda>r. r\<lparr>ar_pwd := v\<rparr>) u T)"
    "mini_exec T (account_update_text ''nick'' v u) = (True, set_accounts (\<lambda>r. r\<lparr>ar_nick := v\<rparr>) u T)"
    "mini_exec T (account_update_text ''comment'' v u) = (True, set_accounts (\<lambda>r. r\<lparr>ar_comment := v\<rparr>) u T)"
    by (simp_all add: mini_exec_def)
qed

lemma mini_del:
  "plain u \<Longrightarrow> mini_exec T (account_del_text u) = (True, T\<lparr>t_account := filter (\<lambda>r. ar_uid r \<noteq> u) (t_account T)\<rparr>)"
  using split_quoted_last [of u "''DELETE FROM t_db_account WHERE uid=''"] by (simp add: mini_exec_def account_del_text_def)

lemma mini_get_one:
  "plain u \<Longrightarrow> mini_rows T (account_get_one_text u) = Some (map account_cols (filter (\<lambda>r. ar_uid r = u) (t_account T)))"
  using split_quoted_last [of u "''SELECT * FROM t_db_account WHERE uid=''"] by (simp add: mini_rows_def account_get_one_text_def)

lemma mini_pwd:
  assumes "plain u" "plain p"
  shows "mini_rows T (account_pwd_text u p) = Some (map account_cols (filter (\<lambda>r. ar_uid r = u \<and> ar_pwd r = p) (t_account T)))"
proof -
  have "split_on (CHR 0x27) (account_pwd_text u p) = [''SELECT * FROM t_db_account WHERE uid='', u, '' AND pwd='', p, []]"
    using split_quoted [OF assms(1), of "''SELECT * FROM t_db_account WHERE uid=''"] split_quoted_last [OF assms(2), of "'' AND pwd=''"]
    by (simp add: account_pwd_text_def)
  then show ?thesis by (simp add: mini_rows_def)
qed

lemma mini_account_laws: "account_laws mini_engine (\<lambda>T. T)"
proof -
  have "mini_rows T ''SELECT count(*) as count FROM t_db_account'' = mini_count (length (t_account T))"
    "mini_rows T ''SELECT * FROM t_db_account'' = Some (map account_cols (t_account T))" for T
    by (simp_all add: mini_rows_def)
  then show ?thesis
    unfolding account_laws_def
    by (simp add: mini_engine_def mini_add mini_update mini_del mini_get_one mini_pwd rows_are_map count_is_def mini_count_def
        mini_insert_account_def set_accounts_def)
qed

lemma mini_plain:
  assumes "CHR 0x27 \<notin> set h"
  shows "split_on (CHR 0x27) (h @ c_int_str i) = [h @ c_int_str i]"
  using assms int_str_no_quote(1) [of i] by (intro split_on_none) simp

lemma mini_menu_laws: "menu_laws mini_engine (\<lambda>T. T)"
proof -
  have "mini_rows T (''SELECT count(*) as count FROM t_db_dish WHERE category='' @ c_int_str i) =
      mini_count (length (filter (\<lambda>r. dr_category r = i) (t_dish T)))" for T i
    using mini_plain [of "''SELECT count(*) as count FROM t_db_dish WHERE category=''" i] by (simp add: mini_rows_def mini_plain_rows_def)
  moreover have "mini_rows T (''SELECT * FROM t_db_dish WHERE category='' @ c_int_str i) =
      Some (map dish_cols (filter (\<lambda>r. dr_category r = i) (t_dish T)))" for T i
    using mini_plain [of "''SELECT * FROM t_db_dish WHERE category=''" i] by (simp add: mini_rows_def mini_plain_rows_def)
  moreover have "mini_rows T (dish_get_one_text i) = Some (map dish_cols (filter (\<lambda>r. dr_id r = i) (t_dish T)))" for T i
    using mini_plain [of "''SELECT * FROM t_db_dish WHERE id=''" i] by (simp add: mini_rows_def mini_plain_rows_def dish_get_one_text_def)
  moreover have "mini_rows T (seat_get_one_text i) = Some (map seat_cols (filter (\<lambda>r. sr_id r = i) (t_seat T)))" for T i
    using mini_plain [of "''SELECT * FROM t_db_seat WHERE id=''" i] by (simp add: mini_rows_def mini_plain_rows_def seat_get_one_text_def)
  moreover have "mini_rows T ''SELECT count(*) as count FROM t_db_seat'' = mini_count (length (t_seat T))"
    "mini_rows T ''SELECT * FROM t_db_seat'' = Some (map seat_cols (t_seat T))" for T
    by (simp_all add: mini_rows_def)
  ultimately show ?thesis
    unfolding menu_laws_def mini_engine_def sql_engine.select_convs by (simp only: rows_are_map count_is_def mini_count_def) simp
qed

lemma fresh_book_id: "Max (set (0 # ids)) + 1 \<notin> set (ids :: int list)"
proof
  assume "Max (set (0 # ids)) + 1 \<in> set ids"
  then have "Max (set (0 # ids)) + 1 \<le> Max (set (0 # ids))" by (intro Max_ge) auto
  then show False by simp
qed

lemma mini_book_add:
  assumes "plain c"
  shows "mini_exec T (book_add_text demo_fp s d j c a) = mini_insert_book s d (fp_print2 demo_fp j) c a T"
proof -
  define h where "h = c_int_str s @ CHR 0x2C # c_int_str d @ CHR 0x2C # fp_print2 demo_fp j @ [CHR 0x2C]"
  have jn: "CHR 0x27 \<notin> set (fp_print2 demo_fp j)" "CHR 0x2C \<notin> set (fp_print2 demo_fp j)"
    using int_str_no_quote by (auto simp: demo_fp_def)
  have q: "CHR 0x27 \<notin> set (''INSERT INTO t_db_book (seat_id,dish_id,jin_or_plate,comment,accept_state) VALUES ('' @ h)"
    using jn int_str_no_quote(1) by (simp add: h_def)
  have e: "split_on (CHR 0x27) ('','' @ c_int_str a @ '')'') = ['','' @ c_int_str a @ '')'']"
    using int_str_no_quote(1) [of a] by (intro split_on_none) simp
  have sp: "split_on (CHR 0x27) (book_add_text demo_fp s d j c a) =
      [''INSERT INTO t_db_book (seat_id,dish_id,jin_or_plate,comment,accept_state) VALUES ('' @ h, c, '','' @ c_int_str a @ '')'']"
    using split_quoted [OF assms q, of "'','' @ c_int_str a @ '')''"] e by (simp add: book_add_text_def h_def)
  have "split_on (CHR 0x2C) h = [c_int_str s, c_int_str d, fp_print2 demo_fp j, []]"
    unfolding h_def using int_str_no_quote(2) jn(2) by (simp add: split_on_append)
  moreover have "c_atoi (c_int_str a @ '')'') = a" using c_atoi_prefix [of "CHR '')''" a "[]"] by (simp add: c_isdigit_def)
  ultimately show ?thesis by (simp add: mini_exec_def sp mini_book_numbers_def)
qed

lemma mini_book_laws: "book_laws demo_fp mini_engine (\<lambda>T. T)"
proof -
  have del: "mini_exec T (book_del_text i) = (True, T\<lparr>t_book := filter (\<lambda>r. br_id r \<noteq> i) (t_book T)\<rparr>)" for T i
    using mini_plain [of "''DELETE FROM t_db_book WHERE book_id=''" i] by (simp add: mini_exec_def book_del_text_def)
  have cnt: "mini_rows T (''SELECT count(*) as count FROM t_db_book WHERE seat_id = '' @ c_int_str i) =
      mini_count (length (filter (\<lambda>r. br_seat r = i) (t_book T)))" for T i
    using mini_plain [of "''SELECT count(*) as count FROM t_db_book WHERE seat_id = ''" i] by (simp add: mini_rows_def mini_plain_rows_def)
  have all: "mini_rows T (book_columns @ ''seat_id = '' @ c_int_str i) = Some (map book_cols (filter (\<lambda>r. br_seat r = i) (t_book T)))" for T i
    using mini_plain [of "book_columns @ ''seat_id = ''" i] by (simp add: mini_rows_def mini_plain_rows_def book_columns_def)
  show ?thesis
    unfolding book_laws_def mini_engine_def sql_engine.select_convs del cnt all
    using fresh_book_id by (auto simp: mini_book_add mini_insert_book_def rows_are_map count_is_def mini_count_def simp del: set_map list.set)
qed

lemma mini_dish_add:
  assumes "plain n" "plain s" "plain t"
  shows "mini_exec T (dish_add_text i c n s t pt pr) = mini_insert_dish i c n s t pt pr T"
proof -
  let ?h = "''INSERT INTO t_db_dish (id, category,name,summary,thumbnail,price_type, price) VALUES (''"
  define h where "h = c_int_str i @ CHR 0x2C # c_int_str c @ [CHR 0x2C]"
  define e where "e = CHR 0x2C # c_int_str pt @ CHR 0x2C # c_int_str pr @ '')''"
  have q: "CHR 0x27 \<notin> set (?h @ h)" "CHR 0x27 \<notin> set e" using int_str_no_quote(1) by (simp_all add: h_def e_def)
  have "split_on (CHR 0x27) (dish_add_text i c n s t pt pr) = [?h @ h, n, '','', s, '','', t, e]"
    using split_quoted [OF assms(1) q(1)] split_quoted [OF assms(2), of "'',''"] split_quoted [OF assms(3), of "'',''" e] split_on_none [OF q(2)]
    by (simp add: dish_add_text_def h_def e_def)
  moreover have "split_on (CHR 0x2C) h = [c_int_str i, c_int_str c, []]" using int_str_no_quote(2) by (simp add: h_def split_on_append)
  moreover have "split_on (CHR 0x2C) e = [[], c_int_str pt, c_int_str pr @ '')'']"
    using int_str_no_quote(2) [of pt] int_str_no_quote(2) [of pr] by (simp add: e_def split_on_append split_on_none)
  moreover have "c_atoi (c_int_str pr @ '')'') = pr" using c_atoi_prefix [of "CHR '')''" pr "[]"] by (simp add: c_isdigit_def)
  ultimately show ?thesis by (simp add: mini_exec_def mini_dish_numbers_def)
qed

lemma mini_seat_add:
  assumes "plain s" "plain q"
  shows "mini_exec T (seat_add_text i s q) = mini_insert_seat i s q T"
proof -
  let ?h = "''INSERT INTO t_db_seat (id,summary,qrcode) VALUES (''"
  have h: "CHR 0x27 \<notin> set (?h @ c_int_str i @ '','')" using int_str_no_quote(1) by simp
  have "split_on (CHR 0x27) (seat_add_text i s q) = [?h @ c_int_str i @ '','', s, '','', q, '')'']"
    using split_quoted [OF assms(1) h] split_quoted [OF assms(2), of "'',''" "'')''"] by (simp add: seat_add_text_def)
  moreover have "c_atoi (c_int_str i @ '','') = i" using c_atoi_prefix [of "CHR '',''" i "[]"] by (simp add: c_isdigit_def)
  ultimately show ?thesis by (simp add: mini_exec_def)
qed

lemma mini_laws: "sql_laws demo_fp mini_engine (\<lambda>T. T)"
  by (simp add: sql_laws_def mini_account_laws mini_menu_laws mini_book_laws)

end
