(* ===== verification/YM_Account.thy ===== *)
theory YM_Account
  imports YM_Session YM_Tables
begin

text \<open>
  The handlers of account requests (\<open>src/server/res_account.c\<close>) and the token generator (\<open>src/utils/guid.c\<close>).

  A handler takes the descriptor of the connection and the packet of the request, and gives the reply and
  the new state of the server: its sessions and its database. \<open>None\<close> is undefined behaviour or a call that
  never returns, as in the components below. What a call finds in uninitialised locals, the time and the
  numbers of a new GUID are the arguments in \<open>env\<close>. The engine runs handlers one at a time, under the lock
  of the dispatcher.
\<close>

section \<open>Environment\<close>

record guid =
  guid_data1 :: "32 word"
  guid_data2 :: "16 word"
  guid_data3 :: "16 word"
  guid_data4 :: "byte list"

fun hex_str :: "nat \<Rightarrow> nat \<Rightarrow> string" where
  "hex_str 0 n = []"
| "hex_str (Suc k) n = hex_str k (n div 16) @ [hex_digit (n mod 16)]"

definition guid_generate :: "guid \<Rightarrow> string" where
  "guid_generate g =
     ''{'' @ hex_str 8 (unat (guid_data1 g)) @ ''-'' @ hex_str 4 (unat (guid_data2 g)) @ ''-'' @ hex_str 4 (unat (guid_data3 g)) @ ''-'' @
     concat (map (\<lambda>i. hex2 (guid_data4 g ! i)) [0..<2]) @ ''-'' @ concat (map (\<lambda>i. hex2 (guid_data4 g ! i)) [2..<8]) @ ''}''"

record 'db env =
  env_eng :: "'db sql_engine"
  env_fp :: c_fp
  env_now :: "int \<times> int"
  env_guid :: guid
  env_account :: account
  env_session :: session
  env_chars :: "char list"

record 'db server =
  srv_sessions :: session_state
  srv_dbp :: "'db dbp"

text \<open>Results: the numbers of the enumeration \<open>account_result\<close>.\<close>

abbreviation "account_r_ok \<equiv> (0 :: int)"
abbreviation "account_r_login_ok_conlict_another_address \<equiv> (2 :: int)"
abbreviation "account_r_login_user_not_exist \<equiv> (3 :: int)"
abbreviation "account_r_login_invalid_user_or_pwd \<equiv> (4 :: int)"
abbreviation "account_r_create_uid_exist \<equiv> (5 :: int)"
abbreviation "account_r_old_pwd_incorrect \<equiv> (6 :: int)"
abbreviation "account_r_modify_pwd_same \<equiv> (7 :: int)"
abbreviation "account_r_cannot_delete_last_admin \<equiv> (8 :: int)"
abbreviation "account_r_no_permission \<equiv> (9 :: int)"
abbreviation "account_r_session_expired \<equiv> (10 :: int)"
abbreviation "account_r_illegal_parameter \<equiv> (11 :: int)"
abbreviation "account_r_service_unavailable \<equiv> (12 :: int)"

abbreviation "account_admin \<equiv> (0 :: int)"

definition reply_result :: "int \<Rightarrow> ep_pack" where
  "reply_result r = ep_pack_append_int ''result'' r ep_pack_new"

section \<open>Parameters\<close>

text \<open>The macros of \<open>public.h\<close> on an array: \<open>strlen\<close> is only reached when the first character is not zero.\<close>

definition nonempty_upto :: "nat \<Rightarrow> char list \<Rightarrow> bool option" where
  "nonempty_upto n arr = (if arr ! 0 = NUL then Some False else do { s \<leftarrow> cstr arr; Some (length s \<le> n) })"

definition valid_uid :: "char list \<Rightarrow> bool option" where
  "valid_uid = nonempty_upto 16"

definition valid_pwd :: "char list \<Rightarrow> bool option" where
  "valid_pwd = nonempty_upto 16"

definition valid_token :: "char list \<Rightarrow> bool option" where
  "valid_token arr = (if arr ! 0 = NUL then Some False else do { s \<leftarrow> cstr arr; Some (length s = 38) })"

definition valid_type :: "int \<Rightarrow> bool" where
  "valid_type t \<longleftrightarrow> 0 \<le> t \<and> t \<le> 3"

definition valid_nick :: "char list \<Rightarrow> bool option" where
  "valid_nick arr = do { s \<leftarrow> cstr arr; Some (length s \<le> 64) }"

definition valid_comment :: "char list \<Rightarrow> bool option" where
  "valid_comment arr = do { s \<leftarrow> cstr arr; Some (length s \<le> 256) }"

text \<open>Conditions in a row, each evaluated only when the ones before hold.\<close>

fun c_and :: "bool option list \<Rightarrow> bool option" where
  "c_and [] = Some True"
| "c_and (c # cs) = do { b \<leftarrow> c; if b then c_and cs else Some False }"

text \<open>\<open>strncpy\<close> of a packet string into an array of its size; \<open>lower_uid\<close> then runs the loop to lower case.\<close>

definition take_string :: "char list \<Rightarrow> bson \<Rightarrow> char list" where
  "take_string arr v = c_strncpy arr (ep_pack_iterator_string v) (length arr)"

definition read_pack :: "(string \<Rightarrow> bson \<Rightarrow> 's \<Rightarrow> 's option) \<Rightarrow> doc option \<Rightarrow> 's \<Rightarrow> 's option" where
  "read_pack f pack s = (case pack of None \<Rightarrow> Some s | Some d \<Rightarrow> pack_loop f d s)"

section \<open>Login\<close>

definition end_session_of_uid :: "string \<Rightarrow> session_state \<Rightarrow> (bool \<times> session_state) option" where
  "end_session_of_uid uid st = do {
     (r, st) \<leftarrow> session_ref_uid uid session_fd st;
     (case r of
        None \<Rightarrow> Some (False, st)
      | Some p \<Rightarrow> do {
          old \<leftarrow> session_at st p;
          st \<leftarrow> session_dref p st;
          (_, st) \<leftarrow> session_del_fd (sess_fd old) st;
          Some (True, st)
        })
   }"

definition end_session_of_fd :: "int \<Rightarrow> session_state \<Rightarrow> (bool \<times> session_state) option" where
  "end_session_of_fd fd st = do {
     (r, st) \<leftarrow> session_ref_fd fd st;
     (case r of
        None \<Rightarrow> Some (False, st)
      | Some p \<Rightarrow> do {
          old \<leftarrow> session_at st p;
          st \<leftarrow> session_dref p st;
          (_, st) \<leftarrow> session_del_fd (sess_fd old) st;
          Some (True, st)
        })
   }"

definition res_account_check_session_exist :: "string \<Rightarrow> int \<Rightarrow> session_state \<Rightarrow> (bool \<times> session_state) option" where
  "res_account_check_session_exist uid fd st = do {
     (c1, st) \<leftarrow> end_session_of_uid uid st;
     (c2, st) \<leftarrow> end_session_of_fd fd st;
     Some (c1 \<or> c2, st)
   }"

record login_in =
  li_uid :: "char list"
  li_pwd :: "char list"
  li_token :: "char list"
  li_expire :: int

definition login_zero :: login_in where
  "login_zero = \<lparr>li_uid = replicate 17 NUL, li_pwd = replicate 17 NUL, li_token = replicate 39 NUL, li_expire = 0\<rparr>"

definition login_key :: "c_fp \<Rightarrow> string \<Rightarrow> bson \<Rightarrow> login_in \<Rightarrow> login_in option" where
  "login_key fp key v l =
     (if key = ''uid'' then do { arr \<leftarrow> c_lower_loop (take_string (li_uid l) v); Some (l\<lparr>li_uid := arr\<rparr>) }
      else if key = ''pwd'' then Some (l\<lparr>li_pwd := take_string (li_pwd l) v\<rparr>)
      else if key = ''token'' then Some (l\<lparr>li_token := take_string (li_token l) v\<rparr>)
      else if key = ''token_expire'' then Some (l\<lparr>li_expire := ep_pack_iterator_int fp v\<rparr>)
      else Some l)"

text \<open>The days of a token in seconds, in \<open>int\<close>: an overflow is undefined.\<close>

definition expire_seconds :: "int \<Rightarrow> int option" where
  "expire_seconds days = (if days * 86400 < 2 ^ 31 then Some (days * 86400) else None)"

text \<open>A new token for a user, in place of the old one.\<close>

definition remove_old_token :: "string \<Rightarrow> session_state \<Rightarrow> session_state option" where
  "remove_old_token uid st = do {
     (r, st) \<leftarrow> session_ref_uid uid session_token st;
     (case r of
        None \<Rightarrow> Some st
      | Some p \<Rightarrow> do {
          old \<leftarrow> session_at st p;
          st \<leftarrow> session_dref p st;
          (_, st) \<leftarrow> session_del_token (sess_uid old) st;
          Some st
        })
   }"

definition login_token :: "'db env \<Rightarrow> string \<Rightarrow> int \<Rightarrow> session \<Rightarrow> session_state \<Rightarrow> (string \<times> session_state) option" where
  "login_token env uid expire s st = do {
     secs \<leftarrow> expire_seconds expire;
     let s = s\<lparr>sess_s_type := session_token, sess_expired := (fst (sess_created s) + secs, snd (sess_created s)),
               sess_token := guid_generate (env_guid env), sess_fd := - 1\<rparr>;
     st \<leftarrow> remove_old_token uid st;
     (_, s, st) \<leftarrow> session_add_token s st;
     Some (sess_token s, st)
   }"

definition login_by_pwd ::
  "'db env \<Rightarrow> int \<Rightarrow> string \<Rightarrow> string \<Rightarrow> int \<Rightarrow> 'db server \<Rightarrow> (ep_pack \<times> 'db server) option" where
  "login_by_pwd env fd uid pwd expire srv = do {
     (r, _, p) \<leftarrow> db_account_get_one (env_eng env) uid None (srv_dbp srv);
     if r \<noteq> 1 then Some (reply_result account_r_login_user_not_exist, srv\<lparr>srv_dbp := p\<rparr>)
     else do {
       (r, p) \<leftarrow> db_account_pwd_check (env_eng env) uid pwd p;
       if r \<noteq> 1 then Some (reply_result account_r_login_invalid_user_or_pwd, srv\<lparr>srv_dbp := p\<rparr>)
       else do {
         (conflict, st) \<leftarrow> res_account_check_session_exist uid fd (srv_sessions srv);
         (r, a, p) \<leftarrow> db_account_get_one (env_eng env) uid (Some (env_account env)) p;
         if r \<noteq> 1 then Some (reply_result account_r_login_user_not_exist, srv\<lparr>srv_dbp := p, srv_sessions := st\<rparr>)
         else do {
           a \<leftarrow> a;
           let s = (env_session env)\<lparr>sess_uid := uid, sess_a_type := acc_type a, sess_fd := fd, sess_s_type := session_fd,
                     sess_token := [], sess_created := env_now env\<rparr>;
           (_, s, st) \<leftarrow> session_add_fd s st;
           (pack, st) \<leftarrow> (if expire > 0 then do {
                             (token, st) \<leftarrow> login_token env uid expire s st;
                             Some (ep_pack_append_string ''token'' token ep_pack_new, st)
                           } else Some (ep_pack_new, st));
           nick \<leftarrow> cstr (acc_nick a);
           comment \<leftarrow> cstr (acc_comment a);
           let pack = ep_pack_append_int ''type'' (acc_type a) pack;
           let pack = ep_pack_append_string ''nick'' nick pack;
           let pack = ep_pack_append_string ''comment'' comment pack;
           let pack = ep_pack_append_int ''result'' (if conflict then account_r_login_ok_conlict_another_address else account_r_ok) pack;
           Some (pack, srv\<lparr>srv_dbp := p, srv_sessions := st\<rparr>)
         }
       }
     }
   }"

definition login_by_token :: "'db env \<Rightarrow> int \<Rightarrow> string \<Rightarrow> 'db server \<Rightarrow> (ep_pack \<times> 'db server) option" where
  "login_by_token env fd token srv = do {
     (r, st) \<leftarrow> session_ref_token token (srv_sessions srv);
     (case r of
        None \<Rightarrow> Some (reply_result account_r_session_expired, srv\<lparr>srv_sessions := st\<rparr>)
      | Some q \<Rightarrow> do {
          s \<leftarrow> session_at st q;
          let ns = s\<lparr>sess_s_type := session_fd, sess_fd := fd, sess_token := []\<rparr>;
          st \<leftarrow> session_dref q st;
          (conflict, st) \<leftarrow> res_account_check_session_exist (sess_uid ns) fd st;
          (_, ns, st) \<leftarrow> session_add_fd ns st;
          (r, a, p) \<leftarrow> db_account_get_one (env_eng env) (sess_uid ns) (Some (env_account env)) (srv_dbp srv);
          if r \<noteq> 1 then Some (reply_result account_r_login_user_not_exist, srv\<lparr>srv_dbp := p, srv_sessions := st\<rparr>)
          else do {
            a \<leftarrow> a;
            uid \<leftarrow> cstr (acc_uid a);
            nick \<leftarrow> cstr (acc_nick a);
            comment \<leftarrow> cstr (acc_comment a);
            let pack = ep_pack_append_int ''type'' (acc_type a) ep_pack_new;
            let pack = ep_pack_append_string ''uid'' uid pack;
            let pack = ep_pack_append_string ''nick'' nick pack;
            let pack = ep_pack_append_string ''comment'' comment pack;
            let pack = ep_pack_append_int ''result'' (if conflict then account_r_login_ok_conlict_another_address else account_r_ok) pack;
            Some (pack, srv\<lparr>srv_dbp := p, srv_sessions := st\<rparr>)
          }
        })
   }"

definition res_account_login :: "'db env \<Rightarrow> int \<Rightarrow> doc option \<Rightarrow> 'db server \<Rightarrow> (ep_pack \<times> 'db server) option" where
  "res_account_login env fd pack srv = do {
     l \<leftarrow> read_pack (login_key (env_fp env)) pack login_zero;
     by_pwd \<leftarrow> c_and [valid_uid (li_uid l), valid_pwd (li_pwd l)];
     if by_pwd then do {
       uid \<leftarrow> cstr (li_uid l);
       pwd \<leftarrow> cstr (li_pwd l);
       login_by_pwd env fd uid pwd (li_expire l) srv
     } else do {
       by_token \<leftarrow> valid_token (li_token l);
       if by_token then do { token \<leftarrow> cstr (li_token l); login_by_token env fd token srv }
       else Some (reply_result account_r_illegal_parameter, srv)
     }
   }"

definition res_account_logout :: "'db env \<Rightarrow> int \<Rightarrow> doc option \<Rightarrow> 'db server \<Rightarrow> (ep_pack \<times> 'db server) option" where
  "res_account_logout env fd pack srv = do {
     (r, st) \<leftarrow> session_ref_fd fd (srv_sessions srv);
     (case r of
        None \<Rightarrow> Some (reply_result account_r_session_expired, srv\<lparr>srv_sessions := st\<rparr>)
      | Some p \<Rightarrow> do {
          st \<leftarrow> session_dref p st;
          (_, st) \<leftarrow> session_del_fd fd st;
          Some (reply_result account_r_ok, srv\<lparr>srv_sessions := st\<rparr>)
        })
   }"

section \<open>Creating accounts\<close>

definition create_key :: "c_fp \<Rightarrow> string \<Rightarrow> bson \<Rightarrow> account \<Rightarrow> account option" where
  "create_key fp key v a =
     (if key = ''type'' then Some (a\<lparr>acc_type := ep_pack_iterator_int fp v\<rparr>)
      else if key = ''uid'' then do { arr \<leftarrow> c_lower_loop (take_string (acc_uid a) v); Some (a\<lparr>acc_uid := arr\<rparr>) }
      else if key = ''pwd'' then Some (a\<lparr>acc_pwd := take_string (acc_pwd a) v\<rparr>)
      else if key = ''nick'' then Some (a\<lparr>acc_nick := take_string (acc_nick a) v\<rparr>)
      else if key = ''comment'' then Some (a\<lparr>acc_comment := take_string (acc_comment a) v\<rparr>)
      else Some a)"

text \<open>After the reference is given back, the handler reads the flag once more through the pointer; the
  element is still there, because only a handler removes elements.\<close>

definition res_account_create :: "'db env \<Rightarrow> int \<Rightarrow> doc option \<Rightarrow> 'db server \<Rightarrow> (ep_pack \<times> 'db server) option" where
  "res_account_create env fd pack srv = do {
     let a = env_account env;
     let a = a\<lparr>acc_uid := (acc_uid a)[0 := NUL], acc_pwd := (acc_pwd a)[0 := NUL], acc_nick := (acc_nick a)[0 := NUL],
               acc_comment := (acc_comment a)[0 := NUL]\<rparr>;
     a \<leftarrow> read_pack (create_key (env_fp env)) pack a;
     ok \<leftarrow> c_and [valid_uid (acc_uid a), valid_pwd (acc_pwd a), Some (valid_type (acc_type a)), valid_nick (acc_nick a),
                  valid_comment (acc_comment a)];
     if \<not> ok then Some (reply_result account_r_illegal_parameter, srv)
     else do {
       (r, st) \<leftarrow> session_ref_fd fd (srv_sessions srv);
       (case r of
          None \<Rightarrow> Some (reply_result account_r_no_permission, srv\<lparr>srv_sessions := st\<rparr>)
        | Some q \<Rightarrow> do {
            st \<leftarrow> session_dref q st;
            s \<leftarrow> session_at st q;
            if sess_admin s = 0 then Some (reply_result account_r_no_permission, srv\<lparr>srv_sessions := st\<rparr>)
            else do {
              uid \<leftarrow> cstr (acc_uid a);
              (r, _, p) \<leftarrow> db_account_get_one (env_eng env) uid None (srv_dbp srv);
              if r = 1 then Some (reply_result account_r_create_uid_exist, srv\<lparr>srv_sessions := st, srv_dbp := p\<rparr>)
              else do {
                (r, _, p) \<leftarrow> db_account_add (env_eng env) a p;
                Some (reply_result (if r \<noteq> 1 then account_r_service_unavailable else account_r_ok), srv\<lparr>srv_sessions := st, srv_dbp := p\<rparr>)
              }
            }
          })
     }
   }"

section \<open>Changing accounts\<close>

text \<open>Two arrays of 17 characters under two keys.\<close>

definition two_keys :: "string \<Rightarrow> string \<Rightarrow> string \<Rightarrow> bson \<Rightarrow> char list \<times> char list \<Rightarrow> (char list \<times> char list) option" where
  "two_keys k1 k2 key v s =
     (if key = k1 then Some (take_string (fst s) v, snd s)
      else if key = k2 then Some (fst s, take_string (snd s) v)
      else Some s)"

definition stack_17 :: "char list" where
  "stack_17 = NUL # replicate 16 undefined"

definition res_account_modify_pwd :: "'db env \<Rightarrow> int \<Rightarrow> doc option \<Rightarrow> 'db server \<Rightarrow> (ep_pack \<times> 'db server) option" where
  "res_account_modify_pwd env fd pack srv = do {
     (old, new) \<leftarrow> read_pack (two_keys ''old_pwd'' ''new_pwd'') pack (stack_17, stack_17);
     ok \<leftarrow> c_and [valid_pwd old, valid_pwd new];
     if \<not> ok then Some (reply_result account_r_illegal_parameter, srv)
     else do {
       old_pwd \<leftarrow> cstr old;
       new_pwd \<leftarrow> cstr new;
       if old_pwd = new_pwd then Some (reply_result account_r_modify_pwd_same, srv)
       else do {
         (r, st) \<leftarrow> session_ref_fd fd (srv_sessions srv);
         (case r of
            None \<Rightarrow> Some (reply_result account_r_session_expired, srv\<lparr>srv_sessions := st\<rparr>)
          | Some q \<Rightarrow> do {
              s \<leftarrow> session_at st q;
              (r, p) \<leftarrow> db_account_pwd_check (env_eng env) old_pwd old_pwd (srv_dbp srv);
              if r = 0 then do {
                st \<leftarrow> session_dref q st;
                Some (reply_result account_r_old_pwd_incorrect, srv\<lparr>srv_sessions := st, srv_dbp := p\<rparr>)
              } else do {
                (r, p) \<leftarrow> db_account_update_pwd (env_eng env) (sess_uid s) new_pwd p;
                st \<leftarrow> session_dref q st;
                Some (reply_result (if r = 0 then account_r_service_unavailable else account_r_ok), srv\<lparr>srv_sessions := st, srv_dbp := p\<rparr>)
              }
            })
       }
     }
   }"

text \<open>No branch of this handler gives the reference back.\<close>

definition res_account_modify_basic :: "'db env \<Rightarrow> int \<Rightarrow> doc option \<Rightarrow> 'db server \<Rightarrow> (ep_pack \<times> 'db server) option" where
  "res_account_modify_basic env fd pack srv = do {
     (nick, comment) \<leftarrow> read_pack (two_keys ''nick'' ''comment'') pack (stack_17, stack_17);
     (r, st) \<leftarrow> session_ref_fd fd (srv_sessions srv);
     (case r of
        None \<Rightarrow> Some (reply_result account_r_session_expired, srv\<lparr>srv_sessions := st\<rparr>)
      | Some q \<Rightarrow> do {
          s \<leftarrow> session_at st q;
          nick \<leftarrow> cstr nick;
          (r, p) \<leftarrow> db_account_update_nick (env_eng env) (sess_uid s) nick (srv_dbp srv);
          if r = 0 then Some (reply_result account_r_service_unavailable, srv\<lparr>srv_sessions := st, srv_dbp := p\<rparr>)
          else do {
            comment \<leftarrow> cstr comment;
            (r, p) \<leftarrow> db_account_update_comment (env_eng env) (sess_uid s) comment p;
            Some (reply_result (if r = 0 then account_r_service_unavailable else account_r_ok), srv\<lparr>srv_sessions := st, srv_dbp := p\<rparr>)
          }
        })
   }"

section \<open>Deleting and listing accounts\<close>

text \<open>The reference is not given back when the password is wrong.\<close>

definition res_account_delete :: "'db env \<Rightarrow> int \<Rightarrow> doc option \<Rightarrow> 'db server \<Rightarrow> (ep_pack \<times> 'db server) option" where
  "res_account_delete env fd pack srv = do {
     (old, arr) \<leftarrow> read_pack (two_keys ''old_pwd'' ''uid'') pack (stack_17, stack_17);
     ok \<leftarrow> c_and [valid_uid arr, valid_pwd old];
     if \<not> ok then Some (reply_result account_r_illegal_parameter, srv)
     else do {
       old_pwd \<leftarrow> cstr old;
       uid \<leftarrow> cstr arr;
       (r, st) \<leftarrow> session_ref_fd fd (srv_sessions srv);
       (case r of
          None \<Rightarrow> Some (reply_result account_r_session_expired, srv\<lparr>srv_sessions := st\<rparr>)
        | Some q \<Rightarrow> do {
            s \<leftarrow> session_at st q;
            (r, p) \<leftarrow> db_account_pwd_check (env_eng env) (sess_uid s) old_pwd (srv_dbp srv);
            if r = 0 then Some (reply_result account_r_old_pwd_incorrect, srv\<lparr>srv_sessions := st, srv_dbp := p\<rparr>)
            else if sess_uid s = uid then do {
              (last, p) \<leftarrow> (if sess_a_type s = account_admin then do {
                               (n, accounts, p) \<leftarrow> db_account_get (env_eng env) p;
                               let c = (if n \<noteq> 0 then length (filter (\<lambda>a. acc_type a = account_admin) accounts) else 0);
                               Some (c \<le> 1, p)
                             } else Some (False, p));
              st \<leftarrow> session_dref q st;
              if last then Some (reply_result account_r_cannot_delete_last_admin, srv\<lparr>srv_sessions := st, srv_dbp := p\<rparr>)
              else do {
                (_, st) \<leftarrow> session_del_fd fd st;
                (_, st) \<leftarrow> session_del_token uid st;
                (r, p) \<leftarrow> db_account_del (env_eng env) uid p;
                Some (reply_result (if r \<noteq> 0 then account_r_ok else account_r_service_unavailable), srv\<lparr>srv_sessions := st, srv_dbp := p\<rparr>)
              }
            } else do {
              st \<leftarrow> session_dref q st;
              if sess_admin s = 0 then Some (reply_result account_r_no_permission, srv\<lparr>srv_sessions := st, srv_dbp := p\<rparr>)
              else do {
                (r, p) \<leftarrow> db_account_del (env_eng env) uid p;
                Some (reply_result (if r \<noteq> 0 then account_r_ok else account_r_service_unavailable), srv\<lparr>srv_sessions := st, srv_dbp := p\<rparr>)
              }
            }
          })
     }
   }"

text \<open>The check that several handlers start with: a session of one of the given types.\<close>

definition check_permission :: "int \<Rightarrow> (int \<Rightarrow> bool) \<Rightarrow> session_state \<Rightarrow> (bool \<times> session_state) option" where
  "check_permission fd allowed st = do {
     (r, st) \<leftarrow> session_ref_fd fd st;
     (case r of
        None \<Rightarrow> Some (False, st)
      | Some q \<Rightarrow> do { s \<leftarrow> session_at st q; st \<leftarrow> session_dref q st; Some (allowed (sess_a_type s), st) })
   }"

abbreviation "dish_r_ok \<equiv> (0 :: int)"
abbreviation "dish_r_no_permission \<equiv> (5 :: int)"

definition append_account :: "account \<Rightarrow> ep_pack \<Rightarrow> ep_pack option" where
  "append_account a pack = do {
     uid \<leftarrow> cstr (acc_uid a);
     nick \<leftarrow> cstr (acc_nick a);
     comment \<leftarrow> cstr (acc_comment a);
     let pack = ep_pack_append_start_object ''account_one'' pack;
     let pack = ep_pack_append_int ''type'' (acc_type a) pack;
     let pack = ep_pack_append_string ''uid'' uid pack;
     let pack = ep_pack_append_string ''nick'' nick pack;
     let pack = ep_pack_append_string ''comment'' comment pack;
     Some (ep_pack_append_finish_object pack)
   }"

text \<open>The reply with a list: its length, then the array, one object for each element.\<close>

definition reply_list :: "string \<Rightarrow> ('a \<Rightarrow> ep_pack \<Rightarrow> ep_pack option) \<Rightarrow> int \<Rightarrow> 'a list \<Rightarrow> ep_pack option" where
  "reply_list name add n xs =
     (let pack = ep_pack_append_int ''count'' n (reply_result dish_r_ok) in
      if n = 0 then Some pack
      else do {
        pack \<leftarrow> ofold add xs (ep_pack_append_start_array name pack);
        Some (ep_pack_append_finish_array pack)
      })"

definition res_account_list :: "'db env \<Rightarrow> int \<Rightarrow> doc option \<Rightarrow> 'db server \<Rightarrow> (ep_pack \<times> 'db server) option" where
  "res_account_list env fd pack srv = do {
     (ok, st) \<leftarrow> check_permission fd (\<lambda>t. t = account_admin) (srv_sessions srv);
     if \<not> ok then Some (reply_result dish_r_no_permission, srv\<lparr>srv_sessions := st\<rparr>)
     else do {
       (n, accounts, p) \<leftarrow> db_account_get (env_eng env) (srv_dbp srv);
       pack \<leftarrow> reply_list ''account'' append_account n accounts;
       Some (pack, srv\<lparr>srv_sessions := st, srv_dbp := p\<rparr>)
     }
   }"

section \<open>Sessions around a login\<close>

definition drop_sessions :: "('k \<Rightarrow> session \<Rightarrow> bool) \<Rightarrow> ('k \<rightharpoonup> session) \<Rightarrow> ('k \<rightharpoonup> session)" where
  "drop_sessions P F = (\<lambda>fd. case F fd of None \<Rightarrow> None | Some s \<Rightarrow> if P fd s then None else Some s)"

lemma uid_session_fd:
  assumes "session_ok st"
  shows "uid_session st session_fd uid = Some s \<longleftrightarrow> fd_session st (sess_fd s) = Some s \<and> sess_uid s = uid"
    and "uid_session st session_fd uid = None \<longleftrightarrow> (\<forall>s \<in> ran (fd_session st). sess_uid s \<noteq> uid)"
proof -
  have u: "uid_session st session_fd uid = find (\<lambda>s. is_fd s \<and> sess_uid s = uid) (sessions st)"
    by (simp add: uid_session_def is_fd_def)
  have d: "distinct (map sess_uid (filter is_fd (sessions st)))" using assms by (simp add: session_ok_def sessions_unique_def)
  show "uid_session st session_fd uid = Some s \<longleftrightarrow> fd_session st (sess_fd s) = Some s \<and> sess_uid s = uid"
    unfolding u find_keyed [OF d] fd_session_iff [OF assms] by blast
  show "uid_session st session_fd uid = None \<longleftrightarrow> (\<forall>s \<in> ran (fd_session st). sess_uid s \<noteq> uid)"
    unfolding u ran_fd_session [OF assms] by (auto simp: find_None_iff)
qed

lemma session_del_fd_spec:
  assumes "session_ok st" and "0 \<le> fd"
  shows "\<exists>st'. session_del_fd fd st = Some (if fd_session st fd = None then 0 else 1, st') \<and> session_ok st' \<and>
    fd_session st' = (fd_session st)(fd := None) \<and> token_session st' = token_session st"
  using session_step_refines [OF assms(1), of "SDelFd fd"] assms(2) by (auto simp: session_tables_def)

lemma fd_session_key: "session_ok st \<Longrightarrow> fd_session st fd = Some s \<Longrightarrow> sess_fd s = fd \<and> 0 \<le> fd \<and> is_fd s"
  by (auto simp: fd_session_iff) (auto simp: session_ok_def sessions_unique_def)

lemma fd_session_uid:
  assumes "session_ok st" "fd_session st fd = Some s" "fd_session st fd' = Some s'" "sess_uid s = sess_uid s'"
  shows "fd = fd'"
  using assms uid_session_fd(1) [OF assms(1), of "sess_uid s" s] uid_session_fd(1) [OF assms(1), of "sess_uid s" s']
    fd_session_key [OF assms(1,2)] fd_session_key [OF assms(1,3)] by simp

lemma end_session_of_uid_spec:
  assumes ok: "session_ok st"
  shows "\<exists>st'. end_session_of_uid uid st = Some (\<exists>s \<in> ran (fd_session st). sess_uid s = uid, st') \<and> session_ok st' \<and>
    fd_session st' = drop_sessions (\<lambda>_ s. sess_uid s = uid) (fd_session st) \<and> token_session st' = token_session st"
proof (cases "uid_session st session_fd uid")
  case None
  then have n: "\<forall>s \<in> ran (fd_session st). sess_uid s \<noteq> uid" using uid_session_fd(2) [OF ok] by simp
  then have "drop_sessions (\<lambda>_ s. sess_uid s = uid) (fd_session st) = fd_session st"
    by (auto simp: drop_sessions_def fun_eq_iff ran_def split: option.split)
  moreover have "session_ref_uid uid session_fd st = Some (None, st)"
    using by_uid.ref_absent [OF ok, of "(uid, session_fd)"] None by simp
  ultimately show ?thesis using ok n by (auto simp: end_session_of_uid_def)
next
  case (Some s)
  then have s: "fd_session st (sess_fd s) = Some s" "sess_uid s = uid" using uid_session_fd(1) [OF ok] by auto
  obtain p h where ref: "session_ref_uid uid session_fd st = Some (Some p, h)" "session_at h p = Some s" "session_dref p h = Some st"
    using by_uid.ref_present [OF ok, of "(uid, session_fd)" s] Some by auto
  obtain st' where st': "session_del_fd (sess_fd s) st = Some (1, st')" "session_ok st'"
    "fd_session st' = (fd_session st)(sess_fd s := None)" "token_session st' = token_session st"
    using session_del_fd_spec [OF ok, of "sess_fd s"] s(1) fd_session_key [OF ok s(1)] by auto
  have "fd_session st' = drop_sessions (\<lambda>_ s. sess_uid s = uid) (fd_session st)"
  proof
    fix fd
    show "fd_session st' fd = drop_sessions (\<lambda>_ s. sess_uid s = uid) (fd_session st) fd"
    proof (cases "fd_session st fd")
      case (Some t)
      have "sess_uid t = uid \<longleftrightarrow> fd = sess_fd s" using fd_session_uid [OF ok s(1) Some] s Some by auto
      with Some st'(3) show ?thesis by (simp add: drop_sessions_def)
    qed (simp add: st'(3) drop_sessions_def)
  qed
  moreover have "\<exists>s \<in> ran (fd_session st). sess_uid s = uid" using s by (auto simp: ran_def)
  ultimately show ?thesis using ref st' by (simp add: end_session_of_uid_def)
qed

lemma end_session_of_fd_spec:
  assumes ok: "session_ok st" and fd: "0 \<le> fd"
  shows "\<exists>st'. end_session_of_fd fd st = Some (fd_session st fd \<noteq> None, st') \<and> session_ok st' \<and>
    fd_session st' = (fd_session st)(fd := None) \<and> token_session st' = token_session st"
proof (cases "fd_session st fd")
  case None
  have "session_ref_fd fd st = Some (None, st)" using by_fd.ref_absent [OF ok, of "nat fd"] fd None by simp
  with None ok show ?thesis by (auto simp: end_session_of_fd_def)
next
  case (Some s)
  obtain p h where ref: "session_ref_fd fd st = Some (Some p, h)" "session_at h p = Some s" "session_dref p h = Some st"
    using by_fd.ref_present [OF ok, of "nat fd" s] fd Some by auto
  have "sess_fd s = fd" using fd_session_key [OF ok Some] by simp
  with ref Some session_del_fd_spec [OF ok fd] show ?thesis by (auto simp: end_session_of_fd_def)
qed

lemma check_session_exist_spec:
  assumes ok: "session_ok st" and fd: "0 \<le> fd"
  shows "\<exists>st'. res_account_check_session_exist uid fd st =
      Some ((\<exists>s \<in> ran (fd_session st). sess_uid s = uid) \<or> fd_session st fd \<noteq> None, st') \<and> session_ok st' \<and>
    fd_session st' = drop_sessions (\<lambda>x s. sess_uid s = uid \<or> x = fd) (fd_session st) \<and> token_session st' = token_session st"
proof -
  obtain st1 where 1: "end_session_of_uid uid st = Some (\<exists>s \<in> ran (fd_session st). sess_uid s = uid, st1)" "session_ok st1"
    "fd_session st1 = drop_sessions (\<lambda>_ s. sess_uid s = uid) (fd_session st)" "token_session st1 = token_session st"
    using end_session_of_uid_spec [OF ok] by blast
  obtain st2 where 2: "end_session_of_fd fd st1 = Some (fd_session st1 fd \<noteq> None, st2)" "session_ok st2"
    "fd_session st2 = (fd_session st1)(fd := None)" "token_session st2 = token_session st1"
    using end_session_of_fd_spec [OF 1(2) fd] by blast
  have "fd_session st2 = drop_sessions (\<lambda>x s. sess_uid s = uid \<or> x = fd) (fd_session st)"
    unfolding 2(3) 1(3) by (auto simp: drop_sessions_def fun_eq_iff split: option.split)
  moreover have "((\<exists>s \<in> ran (fd_session st). sess_uid s = uid) \<or> fd_session st1 fd \<noteq> None) =
      ((\<exists>s \<in> ran (fd_session st). sess_uid s = uid) \<or> fd_session st fd \<noteq> None)"
    unfolding 1(3) by (auto simp: drop_sessions_def ran_def split: option.split)
  ultimately show ?thesis using 1 2 by (simp add: res_account_check_session_exist_def)
qed

lemma session_add_fd_fresh:
  assumes ok: "session_ok st" and fd: "0 \<le> sess_fd s" and "fd_session st (sess_fd s) = None"
    and "\<forall>old \<in> ran (fd_session st). sess_uid old \<noteq> sess_uid s" and s': "s' = s\<lparr>sess_s_type := session_fd, sess_token := []\<rparr>"
  shows "\<exists>st'. session_add_fd s st = Some (1, s', st') \<and> session_ok st' \<and>
    fd_session st' = (fd_session st)(sess_fd s \<mapsto> s') \<and> token_session st' = token_session st"
proof -
  obtain st' where "session_do (SAddFd s) st = Some (1, st')" "session_ok st'"
    "session_tables st' = ((fd_session st)(sess_fd s \<mapsto> s'), token_session st)"
    using session_step_refines [OF ok, of "SAddFd s"] assms by (auto simp: session_tables_def)
  then show ?thesis by (auto simp: session_add_fd_def s' session_tables_def Let_def split: bind_splits)
qed

end
