(* ===== verification/EP_Service.thy ===== *)
theory EP_Service
  imports EP_Dispatch EP_Send EP_Message
begin

text \<open>
  The service (\<open>eventpack/src/ep_service.c\<close>): the connection manager and the dispatcher of the server, and the
  three callbacks of the socket layer, which is a parameter: whether it starts, and that it calls
  these functions. A callback gives, with the new state, the events that the application's
  callback was called with, in order. The file-scope variables are the fields of the record;
  \<open>None\<close> is a null pointer there.
\<close>

datatype ep_event_type = event_fd_accept | event_fd_close | event_io_overflow | event_io_exception

record ('x, 'cb, 'o) ep_service =
  s_io_mgr :: "'x ep_io_mgr option"
  s_disp_mgr :: "('cb, 'o) ep_disp_mgr option"
  s_started :: bool
  s_event_cb :: bool

definition service_zero :: "('x, 'cb, 'o) ep_service" where
  "service_zero = \<lparr>s_io_mgr = None, s_disp_mgr = None, s_started = False, s_event_cb = False\<rparr>"

definition notify :: "('x, 'cb, 'o) ep_service \<Rightarrow> ep_event_type \<Rightarrow> int \<Rightarrow> (ep_event_type \<times> int) list" where
  "notify svc type fd = (if s_event_cb svc then [(type, fd)] else [])"

definition ep_service_on_accept ::
  "int \<Rightarrow> 'x \<Rightarrow> ('x, 'cb, 'o) ep_service \<Rightarrow> ('x, 'cb, 'o) ep_service \<times> (ep_event_type \<times> int) list" where
  "ep_service_on_accept fd extra svc =
     (case s_io_mgr svc of
        None \<Rightarrow> (svc, [])
      | Some mgr \<Rightarrow>
          (case ep_io_add mgr fd extra of
             (ret, mgr) \<Rightarrow> let svc = svc\<lparr>s_io_mgr := Some mgr\<rparr> in
               if ret = 0 then (svc, []) else (svc, notify svc event_fd_accept fd)))"

definition io_error_event :: "int \<Rightarrow> ep_event_type" where
  "io_error_event ret = (if ret = - 1 then event_io_exception else if ret = - 2 then event_io_overflow else event_fd_close)"

definition ep_service_on_read ::
  "int \<Rightarrow> byte list \<Rightarrow> int \<Rightarrow> ('x, 'cb, 'o) ep_service \<Rightarrow> (int \<times> ('x, 'cb, 'o) ep_service \<times> (ep_event_type \<times> int) list) option" where
  "ep_service_on_read fd buffer n svc =
     (case s_io_mgr svc of
        None \<Rightarrow> Some (0, svc, [])
      | Some mgr \<Rightarrow> do {
          (ret, mgr) \<leftarrow> ep_io_enqueue mgr fd buffer n;
          if ret \<ge> 0 then Some (1, svc\<lparr>s_io_mgr := Some mgr\<rparr>, [])
          else do {
            (_, mgr) \<leftarrow> ep_io_del mgr fd;
            let svc = svc\<lparr>s_io_mgr := Some mgr\<rparr>;
            Some (0, svc, notify svc (io_error_event ret) fd)
          }
        })"

definition ep_service_on_close ::
  "int \<Rightarrow> ('x, 'cb, 'o) ep_service \<Rightarrow> (('x, 'cb, 'o) ep_service \<times> (ep_event_type \<times> int) list) option" where
  "ep_service_on_close fd svc =
     (case s_io_mgr svc of
        None \<Rightarrow> Some (svc, notify svc event_fd_close fd)
      | Some mgr \<Rightarrow> do {
          (ret, mgr) \<leftarrow> ep_io_del mgr fd;
          let svc = svc\<lparr>s_io_mgr := Some mgr\<rparr>;
          Some (svc, if ret = 0 then [] else notify svc event_fd_close fd)
        })"

definition ep_service_send_error_cb ::
  "int \<Rightarrow> ('x, 'cb, 'o) ep_service \<Rightarrow> (('x, 'cb, 'o) ep_service \<times> (ep_event_type \<times> int) list) option" where
  "ep_service_send_error_cb = ep_service_on_close"

section \<open>Start and stop\<close>

text \<open>The flags say which allocations succeed: the dispatcher, then those of \<open>ep_io_init\<close>, then the registration
  of the internal category. \<open>security\<close> is the callback \<open>ep_cert_server_security\<close>, \<open>mgr_opaque\<close> its argument.\<close>

record service_conf =
  sc_def_capacity :: int
  sc_max_capacity :: int
  sc_mini_compress_if :: int

definition EP_CATEGORY_INTERNAL_KEY :: ep_category where
  "EP_CATEGORY_INTERNAL_KEY = - 1"

definition ep_service_init ::
  "bool \<Rightarrow> bool \<Rightarrow> bool \<Rightarrow> bool \<Rightarrow> bool \<Rightarrow> 'cb \<Rightarrow> 'o \<Rightarrow> service_conf \<Rightarrow> ('x, 'cb, 'o) ep_service \<Rightarrow> int \<times> ('x, 'cb, 'o) ep_service" where
  "ep_service_init a_disp a_mgr a_queue a_pool a_cb security mgr_opaque conf svc =
     (case ep_disp_init a_disp of
        None \<Rightarrow> (0, svc\<lparr>s_disp_mgr := None\<rparr>)
      | Some disp \<Rightarrow>
          (case ep_io_init a_mgr a_queue a_pool \<lparr>conf_refor = ep_io_refor_server, conf_def_capacity = sc_def_capacity conf,
                  conf_max_capacity = sc_max_capacity conf, conf_mini_compress_if = sc_mini_compress_if conf\<rparr> of
             None \<Rightarrow> (0, svc\<lparr>s_disp_mgr := ep_disp_destroy (Some disp), s_io_mgr := None\<rparr>)
           | Some mgr \<Rightarrow>
               (1, svc\<lparr>s_disp_mgr := Some (snd (ep_disp_add_cb a_cb disp EP_CATEGORY_INTERNAL_KEY security mgr_opaque)), s_io_mgr := Some mgr\<rparr>)))"

text \<open>\<open>core\<close> is the result of \<open>service_core_start\<close>. The error text is left out.\<close>

definition ep_service_start ::
  "bool \<Rightarrow> bool \<Rightarrow> bool \<Rightarrow> bool \<Rightarrow> bool \<Rightarrow> 'cb \<Rightarrow> 'o \<Rightarrow> int \<Rightarrow> service_conf \<Rightarrow> ('x, 'cb, 'o) ep_service \<Rightarrow> (int \<times> ('x, 'cb, 'o) ep_service) option" where
  "ep_service_start a_disp a_mgr a_queue a_pool a_cb security mgr_opaque core conf svc =
     (if s_started svc then Some (1, svc)
      else
        case ep_service_init a_disp a_mgr a_queue a_pool a_cb security mgr_opaque conf svc of
          (ret, svc) \<Rightarrow>
            if ret \<noteq> 1 then Some (0, svc)
            else if core \<noteq> 1 then do {
              mgr \<leftarrow> s_io_mgr svc;
              _ \<leftarrow> ep_io_destroy mgr;
              Some (0, svc\<lparr>s_disp_mgr := ep_disp_destroy (s_disp_mgr svc), s_io_mgr := None\<rparr>)
            } else Some (1, svc\<lparr>s_started := True\<rparr>))"

definition ep_service_event :: "('x, 'cb, 'o) ep_service \<Rightarrow> ('x, 'cb, 'o) ep_service" where
  "ep_service_event svc = svc\<lparr>s_event_cb := True\<rparr>"

definition ep_service_register ::
  "bool \<Rightarrow> ep_category \<Rightarrow> 'cb \<Rightarrow> 'o \<Rightarrow> ('x, 'cb, 'o) ep_service \<Rightarrow> (int \<times> ('x, 'cb, 'o) ep_service) option" where
  "ep_service_register alloc cat cb opaque svc = do {
     disp \<leftarrow> s_disp_mgr svc;
     let (ret, disp) = ep_disp_add_cb alloc disp cat cb opaque;
     Some (ret, svc\<lparr>s_disp_mgr := Some disp\<rparr>)
   }"

definition ep_service_stop :: "('x, 'cb, 'o) ep_service \<Rightarrow> ('x, 'cb, 'o) ep_service option" where
  "ep_service_stop svc =
     (if s_started svc then do {
        mgr \<leftarrow> s_io_mgr svc;
        _ \<leftarrow> ep_io_destroy mgr;
        Some (svc\<lparr>s_disp_mgr := ep_disp_destroy (s_disp_mgr svc), s_io_mgr := None, s_started := False\<rparr>)
      } else Some svc)"

section \<open>Pushing\<close>

record 'p ep_req_param =
  rp_type :: int
  rp_category :: ep_category
  rp_c_crypt :: int
  rp_c_compress :: int
  rp_s_crypt :: int
  rp_s_compress :: int
  rp_pack :: "'p option"

definition req_shell :: "'p ep_req_param \<Rightarrow> ep_shell" where
  "req_shell param = zero_shell\<lparr>magic := EP_MAGIC_NUMBER,
     proto := \<lparr>category = rp_category param, req_type = word_of_int (rp_type param), c_crypt = word_of_int (rp_c_crypt param),
       c_compress = word_of_int (rp_c_compress param), s_crypt = word_of_int (rp_s_crypt param),
       s_compress = word_of_int (rp_s_compress param), serverd = 0\<rparr>\<rparr>"

text \<open>The block that posts a request of a client to its connection, and the work of a push: 0 is one of its three failures. A message that no
  connection takes stays on the heap.\<close>

definition req_post ::
  "ep_ext \<Rightarrow> byte list \<Rightarrow> ('p \<Rightarrow> byte list) \<Rightarrow> 'x ep_io_mgr \<Rightarrow> int \<Rightarrow> int \<Rightarrow> ep_shell \<Rightarrow> 'p option \<Rightarrow> (int \<times> 'x ep_io_mgr) option" where
  "req_post ext beyond pack_bytes mgr fd notify_type shell pack = do {
     buffer \<leftarrow> (case pack of
                 Some pk \<Rightarrow> ep_buffer_new (pack_bytes pk) (int (length (pack_bytes pk)))
               | None \<Rightarrow> Some None);
     (if \<not> Option.is_none pack \<and> Option.is_none buffer then Some (0, mgr)
      else do {
        shellbuf \<leftarrow> ep_io_combine_shell ext beyond mgr fd shell buffer;
        (case shellbuf of
           None \<Rightarrow> Some (0, mgr)
         | Some b \<Rightarrow>
             (let p = mgr_next mgr in
              Some (ep_io_nodify_fd (mgr\<lparr>mgr_heap := (mgr_heap mgr)(p \<mapsto> b), mgr_next := p + 1\<rparr>) fd notify_type p)))
      })
   }"

text \<open>A push has the choices of the parameter except the type: it is a post. It is combined for the connection \<open>fd\<close> even
  when \<open>notify_type\<close> selects others.\<close>

definition ep_service_push ::
  "ep_ext \<Rightarrow> byte list \<Rightarrow> ('p \<Rightarrow> byte list) \<Rightarrow> int \<Rightarrow> int \<Rightarrow> 'p ep_req_param \<Rightarrow> ('x, 'cb, 'o) ep_service \<Rightarrow>
   (int \<times> ('x, 'cb, 'o) ep_service) option" where
  "ep_service_push ext beyond pack_bytes fd notify_type param svc = do {
     mgr \<leftarrow> s_io_mgr svc;
     (ret, mgr) \<leftarrow> req_post ext beyond pack_bytes mgr fd notify_type (req_shell (param\<lparr>rp_type := 1\<rparr>)) (rp_pack param);
     Some (ret, svc\<lparr>s_io_mgr := Some mgr\<rparr>)
   }"

section \<open>Starting gives a service at rest\<close>

lemma ep_service_start_ok:
  assumes "0 < sc_def_capacity conf" and "sc_def_capacity conf \<le> sc_max_capacity conf"
  shows "\<exists>svc :: ('x, 'cb, 'o) ep_service. ep_service_start True True True True True security mgr_opaque 1 conf service_zero = Some (1, svc) \<and>
    s_started svc \<and> \<not> s_event_cb svc \<and>
    s_disp_mgr svc = Some [\<lparr>disp_category = EP_CATEGORY_INTERNAL_KEY, disp_cb = security, disp_opaque = mgr_opaque\<rparr>] \<and>
    (\<exists>mgr. s_io_mgr svc = Some mgr \<and> mgr_list mgr = [] \<and> mgr_tasks mgr = [])"
  by (simp add: ep_service_start_def service_zero_def ep_service_init_def ep_disp_init_def ep_io_init_def ep_queue_new_def
      ep_disp_add_cb_def ep_disp_count_def disp_insert_def)

section \<open>Reading leaves the send side alone\<close>

lemma queued_sends: "queued mgr = concat (map q_items (map io_send (mgr_list mgr)))"
  by (simp add: queued_def comp_def)

lemma send_ok_enqueue:
  assumes "send_ok mgr" and "mgr_ok mgr'" and "ep_io_enqueue mgr fd d n = Some (c, mgr')"
  shows "send_ok mgr'"
proof -
  have "mgr_ok mgr" using assms(1) by (simp add: send_ok_def)
  from enqueue_sends [OF this assms(3)] assms(1,2) show ?thesis by (simp add: send_ok_def queued_sends)
qed

text \<open>Bytes that no sender of this protocol produces cost a connection its registration: when the stream of a
  connection, in whatever pieces it came, has a wrong magic number or a body above the maximum, the
  read is refused, the connection is removed from the manager, the application gets one event
  that says which of the two it was, and the other connections stay.\<close>

theorem bad_stream_closes_connection:
  assumes svc: "s_io_mgr svc = Some mgr" "s_event_cb svc" and m: "send_ok mgr" and f: "ep_io_find mgr fd = Some child"
    and d: "int (length d) \<le> mgr_max_capacity mgr"
    and p: "parse_stream (mgr_max_capacity mgr) (io_pending child @ d) = (fs, c, r)" and c: "c = -1 \<or> c = -2"
  shows "\<exists>svc' mgr'. ep_service_on_read fd d (int (length d)) svc =
      Some (0, svc', [(if c = -1 then event_io_exception else event_io_overflow, fd)]) \<and>
    s_io_mgr svc' = Some mgr' \<and> send_ok mgr' \<and> ep_io_find mgr' fd = None \<and> (\<forall>fd'. fd' \<noteq> fd \<longrightarrow> ep_io_find mgr' fd' = ep_io_find mgr fd')"
proof -
  have mok: "mgr_ok mgr" using m by (simp add: send_ok_def)
  have c4: "c \<noteq> -4" using c by auto
  obtain mgr1 child1 ts where e: "ep_io_enqueue mgr fd d (int (length d)) = Some (c, mgr1)" "mgr_ok mgr1" "ep_io_find mgr1 fd = Some child1"
    "\<forall>fd'. fd' \<noteq> fd \<longrightarrow> ep_io_find mgr1 fd' = ep_io_find mgr fd'"
    using enqueue_spec [OF mok f d p c4] by metis
  obtain mgr2 where del: "ep_io_del mgr1 fd = Some (1, mgr2)" "send_ok mgr2" "ep_io_find mgr2 = (ep_io_find mgr1)(fd := None)"
    using ep_io_del_spec [OF send_ok_enqueue [OF m e(2,1)] e(3)] by blast
  show ?thesis using svc e del c by (auto simp: ep_service_on_read_def notify_def io_error_event_def)
qed

theorem bad_stream_closes_connection_witness:
  "\<exists>(svc :: (unit, bool, unit) ep_service) svc' mgr'. ep_service_on_read 5 (shell_encode zero_shell) 18 svc = Some (0, svc', [(event_io_exception, 5)]) \<and>
    s_io_mgr svc' = Some mgr' \<and> ep_io_find mgr' 5 = None"
proof -
  obtain mgr mgr1 :: "unit ep_io_mgr" where m: "ep_io_init True True True demo_conf = Some mgr" "mgr_ok mgr"
    "ep_io_find mgr 5 = None" "ep_io_add mgr 5 () = (1, mgr1)" using demo_mgr by metis
  have l: "mgr_list mgr = []" "mgr_max_capacity mgr = 4194304" using m(1) by (auto simp: ep_io_init_def ep_queue_new_def demo_conf_def)
  have s: "send_ok mgr1" using ep_io_add_send_ok [of mgr 5 "()"] m(2,4) l(1) by (simp add: send_ok_def queued_def)
  obtain child where c: "ep_io_find mgr1 5 = Some child" "io_pending child = []" "mgr_max_capacity mgr1 = 4194304"
    using ep_io_add_spec(1) [OF m(2,3), of "()"] m(4) l(2) by auto
  have len: "length (shell_encode zero_shell) = 18" by (simp add: shell_image_def)
  have p: "parse_stream (mgr_max_capacity mgr1) (io_pending child @ shell_encode zero_shell) = ([], -1, shell_encode zero_shell)"
    using len by (simp add: c(2) parse_header [OF _ refl refl] EP_MAGIC_NUMBER_def zero_shell_def)
  let ?svc = "\<lparr>s_io_mgr = Some mgr1, s_disp_mgr = None, s_started = True, s_event_cb = True\<rparr> :: (unit, bool, unit) ep_service"
  have "\<exists>svc' mgr'. ep_service_on_read 5 (shell_encode zero_shell) (int (length (shell_encode zero_shell))) ?svc =
      Some (0, svc', [(if (- 1 :: int) = - 1 then event_io_exception else event_io_overflow, 5)]) \<and>
    s_io_mgr svc' = Some mgr' \<and> send_ok mgr' \<and> ep_io_find mgr' 5 = None \<and> (\<forall>fd'. fd' \<noteq> 5 \<longrightarrow> ep_io_find mgr' fd' = ep_io_find mgr1 fd')"
    by (rule bad_stream_closes_connection [OF _ _ s c(1) _ p]) (simp_all add: len c(3))
  then show ?thesis unfolding len by auto
qed

end
