(* ===== verification/YM_Login.thy ===== *)
theory YM_Login
  imports YM_Account YM_MiniSql
begin

text \<open>
  What the account handlers do to the accounts, the sessions and the tokens of the server, as functions on
  these three tables, and that the handlers keep the state of the server well-formed.
\<close>

section \<open>The state of the server\<close>

abbreviation srv_tables :: "('db \<Rightarrow> tables) \<Rightarrow> 'db server \<Rightarrow> tables" where
  "srv_tables tbl srv \<equiv> tbl (dbp_db (srv_dbp srv))"

abbreviation logged :: "'db server \<Rightarrow> int \<rightharpoonup> session" where
  "logged srv \<equiv> fd_session (srv_sessions srv)"

abbreviation tokens :: "'db server \<Rightarrow> string \<rightharpoonup> session" where
  "tokens srv \<equiv> token_session (srv_sessions srv)"

definition uids_fit :: "session_state \<Rightarrow> bool" where
  "uids_fit st \<longleftrightarrow> (\<forall>s \<in> ran (fd_session st) \<union> ran (token_session st). fits 16 (sess_uid s))"

definition srv_ok :: "('db \<Rightarrow> tables) \<Rightarrow> 'db server \<Rightarrow> bool" where
  "srv_ok tbl srv \<longleftrightarrow> session_ok (srv_sessions srv) \<and> uids_fit (srv_sessions srv) \<and> dbp_idle (srv_dbp srv) \<and> tables_ok (srv_tables tbl srv)"

definition env_ok :: "('db \<Rightarrow> tables) \<Rightarrow> 'db env \<Rightarrow> bool" where
  "env_ok tbl env \<longleftrightarrow> sql_laws (env_fp env) (env_eng env) tbl \<and> account_arrays (env_account env)"

lemma srv_okD:
  assumes "srv_ok tbl srv"
  shows "session_ok (srv_sessions srv)" "uids_fit (srv_sessions srv)" "dbp_idle (srv_dbp srv)" "tables_ok (srv_tables tbl srv)"
    "distinct (map ar_uid (t_account (srv_tables tbl srv)))"
  using assms by (simp_all add: srv_ok_def tables_ok_def)

lemma env_okD:
  assumes "env_ok tbl env"
  shows "account_laws (env_eng env) tbl" "account_arrays (env_account env)" "menu_laws (env_eng env) tbl"
    "book_laws (env_fp env) (env_eng env) tbl"
  using assms by (simp_all add: env_ok_def sql_laws_def)

lemma srv_ok_same:
  assumes "srv_ok tbl srv" "dbp_same (srv_dbp srv) p"
  shows "srv_ok tbl (srv\<lparr>srv_dbp := p\<rparr>)"
  using assms by (simp add: srv_ok_def dbp_same_def)

text \<open>The digest of a password by the standard: twice SHA-1, printed from the last byte to the first.\<close>

definition pwd_digest :: "string \<Rightarrow> string" where
  "pwd_digest pwd = concat (map (\<lambda>n. hex2 (fips_sha1 (fips_sha1 (str_bytes pwd)) ! n)) (rev [0..<20]))"

section \<open>Reading the request\<close>

definition login_doc :: "string \<Rightarrow> string \<Rightarrow> int \<Rightarrow> doc" where
  "login_doc uid pwd days = [(''uid'', BSON_STRING uid), (''pwd'', BSON_STRING pwd), (''token_expire'', BSON_INT days)]"

definition word_16 :: "string \<Rightarrow> bool" where
  "word_16 s \<longleftrightarrow> c_string s \<and> s \<noteq> [] \<and> length s \<le> 16"

lemma takeWhile_whole [simp]: "c_string s \<Longrightarrow> takeWhile (\<lambda>c. c \<noteq> NUL) s = s"
  by (simp add: takeWhile_plain c_string_def)

lemma take_string_c:
  assumes "c_string s" "length s < length arr"
  shows "\<exists>r. take_string arr (BSON_STRING s) = s @ NUL # r"
  using c_strncpy_fits [OF assms(2)] assms(1) by (simp add: take_string_def)

lemma nonempty_word: "word_16 s \<Longrightarrow> nonempty_upto 16 (s @ NUL # r) = Some True"
  using cstr_append_NUL [of s r] by (cases s) (auto simp: nonempty_upto_def word_16_def c_string_def)

lemma word_lower [simp]: "word_16 (map c_tolower s) = word_16 s"
  by (simp add: word_16_def)

lemma read_login:
  assumes "word_16 u" "word_16 p"
  shows "\<exists>r r' tk. read_pack (login_key fp) (Some (login_doc u p days)) login_zero =
    Some \<lparr>li_uid = map c_tolower u @ NUL # r, li_pwd = p @ NUL # r', li_token = tk, li_expire = days\<rparr>"
proof -
  obtain r where r: "take_string (replicate 17 NUL) (BSON_STRING u) = u @ NUL # r"
    using take_string_c [of u "replicate 17 NUL"] assms(1) by (auto simp: word_16_def)
  obtain r' where r': "take_string (replicate 17 NUL) (BSON_STRING p) = p @ NUL # r'"
    using take_string_c [of p "replicate 17 NUL"] assms(2) by (auto simp: word_16_def)
  show ?thesis using assms r r'
    by (simp add: read_pack_def login_doc_def login_zero_def login_key_def ep_pack_iterator_next_def c_lower_loop_string word_16_def)
qed

lemma res_account_login_pwd:
  assumes "word_16 u" "word_16 p"
  shows "res_account_login env fd (Some (login_doc u p days)) srv = login_by_pwd env fd (map c_tolower u) p days srv"
proof -
  obtain r r' tk where "read_pack (login_key (env_fp env)) (Some (login_doc u p days)) login_zero =
    Some \<lparr>li_uid = map c_tolower u @ NUL # r, li_pwd = p @ NUL # r', li_token = tk, li_expire = days\<rparr>"
    using read_login [OF assms] by blast
  moreover have "c_string (map c_tolower u)" "c_string p" using assms by (simp_all add: word_16_def)
  ultimately show ?thesis
    using assms by (simp add: res_account_login_def valid_uid_def valid_pwd_def nonempty_word cstr_append_NUL)
qed

section \<open>Tokens\<close>

lemma uid_session_token:
  assumes "session_ok st"
  shows "uid_session st session_token uid = None \<longleftrightarrow> (\<forall>s \<in> ran (token_session st). sess_uid s \<noteq> uid)"
    and "uid_session st session_token uid = Some s \<Longrightarrow> sess_uid s = uid"
proof -
  show "uid_session st session_token uid = None \<longleftrightarrow> (\<forall>s \<in> ran (token_session st). sess_uid s \<noteq> uid)"
    unfolding ran_token_session [OF assms] uid_session_def by (auto simp: find_None_iff not_is_fd)
  show "uid_session st session_token uid = Some s \<Longrightarrow> sess_uid s = uid"
    by (auto simp: uid_session_def find_Some_iff)
qed

lemma session_del_token_spec:
  assumes "session_ok st"
  shows "\<exists>r st'. session_del_token uid st = Some (r, st') \<and> session_ok st' \<and> fd_session st' = fd_session st \<and>
    token_session st' = drop_sessions (\<lambda>_ s. sess_uid s = uid) (token_session st)"
  using session_step_refines [OF assms, of "SDelToken uid"] by (auto simp: session_tables_def drop_sessions_def)

lemma session_add_token_fresh:
  assumes ok: "session_ok st" and "token_session st (sess_token s) = None" and s': "s' = s\<lparr>sess_s_type := session_token, sess_fd := - 1\<rparr>"
  shows "\<exists>st'. session_add_token s st = Some (1, s', st') \<and> session_ok st' \<and> fd_session st' = fd_session st \<and>
    token_session st' = (token_session st)(sess_token s \<mapsto> s')"
proof -
  obtain st' where "session_do (SAddToken s) st = Some (1, st')" "session_ok st'"
    "session_tables st' = (fd_session st, (token_session st)(sess_token s \<mapsto> s'))"
    using session_step_refines [OF ok, of "SAddToken s"] assms by (auto simp: session_tables_def)
  then show ?thesis by (auto simp: session_add_token_def s' session_tables_def Let_def split: bind_splits)
qed

lemma drop_none: "\<forall>s \<in> ran F. \<not> P s \<Longrightarrow> drop_sessions (\<lambda>_. P) F = F"
  by (auto simp: drop_sessions_def fun_eq_iff ran_def split: option.split)

lemma remove_old_token_spec:
  assumes ok: "session_ok st"
  shows "\<exists>st'. remove_old_token uid st = Some st' \<and> session_ok st' \<and> fd_session st' = fd_session st \<and>
    token_session st' = drop_sessions (\<lambda>_ s. sess_uid s = uid) (token_session st)"
proof (cases "uid_session st session_token uid")
  case None
  then have "\<forall>s \<in> ran (token_session st). sess_uid s \<noteq> uid" using uid_session_token(1) [OF ok] by simp
  moreover have "session_ref_uid uid session_token st = Some (None, st)"
    using by_uid.ref_absent [OF ok, of "(uid, session_token)"] None by simp
  ultimately show ?thesis using ok by (simp add: drop_none remove_old_token_def)
next
  case (Some s)
  obtain p h where "session_ref_uid uid session_token st = Some (Some p, h)" "session_at h p = Some s" "session_dref p h = Some st"
    using by_uid.ref_present [OF ok, of "(uid, session_token)" s] Some by auto
  moreover obtain r st' where "session_del_token uid st = Some (r, st')" "session_ok st'" "fd_session st' = fd_session st"
    "token_session st' = drop_sessions (\<lambda>_ s. sess_uid s = uid) (token_session st)"
    using session_del_token_spec [OF ok] by blast
  ultimately show ?thesis using uid_session_token(2) [OF ok Some] by (simp add: remove_old_token_def)
qed

text \<open>The session that a token stands for.\<close>

definition token_of :: "string \<Rightarrow> int \<Rightarrow> session \<Rightarrow> session" where
  "token_of token days s = s\<lparr>sess_s_type := session_token, sess_expired := (fst (sess_created s) + days * 86400, snd (sess_created s)),
     sess_token := token, sess_fd := - 1\<rparr>"

lemma login_token_spec:
  assumes ok: "session_ok st" and days: "days * 86400 < 2 ^ 31" and fresh: "token_session st (guid_generate (env_guid env)) = None"
  shows "\<exists>st'. login_token env uid days s st = Some (guid_generate (env_guid env), st') \<and> session_ok st' \<and> fd_session st' = fd_session st \<and>
    token_session st' = (drop_sessions (\<lambda>_ s. sess_uid s = uid) (token_session st))
      (guid_generate (env_guid env) \<mapsto> token_of (guid_generate (env_guid env)) days s)"
proof -
  let ?t = "guid_generate (env_guid env)"
  obtain st1 where 1: "remove_old_token uid st = Some st1" "session_ok st1" "fd_session st1 = fd_session st"
    "token_session st1 = drop_sessions (\<lambda>_ s. sess_uid s = uid) (token_session st)"
    using remove_old_token_spec [OF ok] by blast
  have f: "token_session st1 (sess_token (token_of ?t days s)) = None" using fresh 1(4) by (simp add: drop_sessions_def token_of_def)
  obtain st2 where 2: "session_add_token (token_of ?t days s) st1 = Some (1, token_of ?t days s, st2)" "session_ok st2"
    "fd_session st2 = fd_session st1" "token_session st2 = (token_session st1)(?t \<mapsto> token_of ?t days s)"
    using session_add_token_fresh [OF 1(2) f, of "token_of ?t days s"] by (auto simp: token_of_def)
  have tk: "sess_token (token_of ?t days s) = ?t" by (simp add: token_of_def)
  have "login_token env uid days s st = Some (?t, st2)"
    using 1(1) 2(1) tk days by (simp add: login_token_def expire_seconds_def Let_def token_of_def)
  with 1 2 show ?thesis by simp
qed

section \<open>Login by password\<close>

definition result_doc :: "int \<Rightarrow> doc" where
  "result_doc r = [(''result'', BSON_INT r)]"

lemma reply_result_doc [simp]: "pk_doc (reply_result r) = result_doc r" "pk_stack (reply_result r) = []"
  by (simp_all add: reply_result_def result_doc_def pack_simps)

definition profile_doc :: "account_row \<Rightarrow> doc" where
  "profile_doc r = [(''nick'', BSON_STRING (ar_nick r)), (''comment'', BSON_STRING (ar_comment r))]"

text \<open>Whether a login ends another session: one of the same user, or one of the same connection.\<close>

definition displaces :: "(int \<rightharpoonup> session) \<Rightarrow> string \<Rightarrow> int \<Rightarrow> bool" where
  "displaces F uid fd \<longleftrightarrow> (\<exists>s \<in> ran F. sess_uid s = uid) \<or> F fd \<noteq> None"

definition login_code :: "(int \<rightharpoonup> session) \<Rightarrow> string \<Rightarrow> int \<Rightarrow> int" where
  "login_code F uid fd = (if displaces F uid fd then account_r_login_ok_conlict_another_address else account_r_ok)"

definition log_in :: "int \<Rightarrow> session \<Rightarrow> (int \<rightharpoonup> session) \<Rightarrow> (int \<rightharpoonup> session)" where
  "log_in fd s F = (drop_sessions (\<lambda>x t. sess_uid t = sess_uid s \<or> x = fd) F)(fd \<mapsto> s)"

definition pwd_session :: "'db env \<Rightarrow> int \<Rightarrow> account_row \<Rightarrow> session" where
  "pwd_session env fd r = (env_session env)\<lparr>sess_uid := ar_uid r, sess_a_type := ar_type r, sess_fd := fd, sess_s_type := session_fd,
     sess_token := [], sess_created := env_now env\<rparr>"

text \<open>The outcome of a login by password: the reply, the sessions and the tokens afterwards.\<close>

definition login_outcome ::
  "'db env \<Rightarrow> tables \<Rightarrow> int \<Rightarrow> string \<Rightarrow> string \<Rightarrow> int \<Rightarrow> (int \<rightharpoonup> session) \<Rightarrow> (string \<rightharpoonup> session) \<Rightarrow> doc \<times> (int \<rightharpoonup> session) \<times> (string \<rightharpoonup> session)" where
  "login_outcome env T fd uid pwd days F K =
     (case account_of T uid of
        None \<Rightarrow> (result_doc account_r_login_user_not_exist, F, K)
      | Some r \<Rightarrow>
          if ar_pwd r \<noteq> pwd_digest pwd then (result_doc account_r_login_invalid_user_or_pwd, F, K)
          else
            let s = pwd_session env fd r; t = guid_generate (env_guid env) in
            ((if days > 0 then [(''token'', BSON_STRING t)] else []) @ [(''type'', BSON_INT (ar_type r))] @ profile_doc r @
               result_doc (login_code F uid fd),
             log_in fd s F,
             if days > 0 then (drop_sessions (\<lambda>_ s. sess_uid s = uid) K)(t \<mapsto> token_of t days s) else K))"

lemma log_in_new:
  assumes ok: "session_ok st" and fd: "0 \<le> fd" and s: "sess_fd s = fd" "sess_s_type s = session_fd" "sess_token s = []"
  shows "\<exists>st1 st'. res_account_check_session_exist (sess_uid s) fd st = Some (displaces (fd_session st) (sess_uid s) fd, st1) \<and>
    session_add_fd s st1 = Some (1, s, st') \<and> session_ok st1 \<and> session_ok st' \<and>
    fd_session st' = log_in fd s (fd_session st) \<and> token_session st' = token_session st"
proof -
  obtain st1 where 1: "res_account_check_session_exist (sess_uid s) fd st = Some (displaces (fd_session st) (sess_uid s) fd, st1)" "session_ok st1"
    "fd_session st1 = drop_sessions (\<lambda>x t. sess_uid t = sess_uid s \<or> x = fd) (fd_session st)" "token_session st1 = token_session st"
    using check_session_exist_spec [OF ok fd] unfolding displaces_def by blast
  have "fd_session st1 (sess_fd s) = None" "\<forall>old \<in> ran (fd_session st1). sess_uid old \<noteq> sess_uid s"
    unfolding 1(3) s(1) by (auto simp: drop_sessions_def ran_def split: option.splits if_splits)
  moreover have "s = s\<lparr>sess_s_type := session_fd, sess_token := []\<rparr>" using s by (cases s) simp
  ultimately obtain st' where "session_add_fd s st1 = Some (1, s, st')" "session_ok st'"
    "fd_session st' = (fd_session st1)(fd \<mapsto> s)" "token_session st' = token_session st1"
    using session_add_fd_fresh [OF 1(2), of s s] fd s(1) by auto
  with 1 show ?thesis by (auto simp: log_in_def)
qed

lemma pwd_digest_db [simp]: "pwd_digest p = db_encrypt_pwd p"
  by (simp add: pwd_digest_def db_encrypt_pwd_fips)

lemma ran_drop: "ran (drop_sessions P F) \<subseteq> ran F"
  by (auto simp: drop_sessions_def ran_def split: option.splits if_splits)

lemma ran_update: "ran (F(x \<mapsto> s)) \<subseteq> insert s (ran F)"
  by (auto simp: ran_def split: if_splits)

lemma ran_log_in: "ran (log_in fd s F) \<subseteq> insert s (ran F)"
  using ran_drop ran_update unfolding log_in_def by fast

lemma login_by_pwd_spec:
  assumes env: "env_ok tbl env" and srv: "srv_ok tbl srv" and fd: "0 \<le> fd" and uid: "fits 16 uid"
    and days: "days * 86400 < 2 ^ 31" "days > 0 \<Longrightarrow> tokens srv (guid_generate (env_guid env)) = None"
  shows "\<exists>reply srv'. login_by_pwd env fd uid pwd days srv = Some (reply, srv') \<and> srv_ok tbl srv' \<and>
    dbp_db (srv_dbp srv') = dbp_db (srv_dbp srv) \<and>
    (pk_doc reply, logged srv', tokens srv') = login_outcome env (srv_tables tbl srv) fd uid pwd days (logged srv) (tokens srv)"
proof -
  let ?T = "srv_tables tbl srv" and ?t = "guid_generate (env_guid env)"
  note e = env_okD [OF env] and k = srv_okD [OF srv]
  obtain p1 where p1: "db_account_get_one (env_eng env) uid None (srv_dbp srv) = Some (if account_of ?T uid = None then 0 else 1, None, p1)"
    "dbp_same (srv_dbp srv) p1" using db_account_get_one_null [OF e(1) k(3) uid] by blast
  have d1: "dbp_db p1 = dbp_db (srv_dbp srv)" using p1(2) by (simp add: dbp_same_def)
  show ?thesis
  proof (cases "account_of ?T uid")
    case None
    then show ?thesis using p1 srv_ok_same [OF srv p1(2)] d1 by (simp add: login_by_pwd_def login_outcome_def)
  next
    case (Some r)
    have r: "ar_uid r = uid" using account_of_in [OF Some] by simp
    obtain p2 where p2: "db_account_pwd_check (env_eng env) uid pwd p1 = Some (if ar_pwd r = db_encrypt_pwd pwd then 1 else 0, p2)" "dbp_same p1 p2"
      using db_account_pwd_check_spec [OF e(1) dbp_same_idle [OF p1(2)] uid, of pwd] k(5) Some by (auto simp: d1)
    have d2: "dbp_db p2 = dbp_db (srv_dbp srv)" using p2(2) d1 by (simp add: dbp_same_def)
    show ?thesis
    proof (cases "ar_pwd r = db_encrypt_pwd pwd")
      case False
      then show ?thesis using Some p1 p2 srv_ok_same [OF srv dbp_same_trans [OF p1(2) p2(2)]] d2 by (simp add: login_by_pwd_def login_outcome_def)
    next
      case True
      let ?s = "pwd_session env fd r"
      have su: "sess_uid ?s = uid" "sess_fd ?s = fd" using r by (simp_all add: pwd_session_def)
      obtain st1 st2 where st: "res_account_check_session_exist uid fd (srv_sessions srv) = Some (displaces (logged srv) uid fd, st1)"
        "session_add_fd ?s st1 = Some (1, ?s, st2)" "session_ok st2" "fd_session st2 = log_in fd ?s (logged srv)"
        "token_session st2 = tokens srv"
        using log_in_new [OF k(1) fd, of ?s] su by (auto simp: pwd_session_def)
      obtain p3 a where p3: "db_account_get_one (env_eng env) uid (Some (env_account env)) p2 = Some (1, Some a, p3)" "dbp_same p2 p3"
        "account_holds r a" using db_account_get_one_some [OF e(1) dbp_same_idle [OF p2(2)] uid _ _ e(2)] k(4) Some d2 by auto
      have d3: "dbp_db p3 = dbp_db (srv_dbp srv)" "dbp_idle p3" using p3(2) d2 by (simp_all add: dbp_same_def)
      have h: "cstr (acc_nick a) = Some (ar_nick r)" "cstr (acc_comment a) = Some (ar_comment r)" "acc_type a = ar_type r"
        using p3(3) by (simp_all add: account_holds_def)
      have se: "(env_session env)\<lparr>sess_uid := uid, sess_a_type := ar_type r, sess_fd := fd, sess_s_type := session_fd,
          sess_token := [], sess_created := env_now env\<rparr> = ?s"
        using r by (simp add: pwd_session_def)
      have fit: "\<forall>s \<in> ran (log_in fd ?s (logged srv)). fits 16 (sess_uid s)" "\<forall>s \<in> ran (tokens srv). fits 16 (sess_uid s)"
        using k(2) su uid ran_log_in [of fd ?s "logged srv"] by (auto simp: uids_fit_def)
      obtain st3 tk where st3: "(if days > 0 then do { (token, st) \<leftarrow> login_token env uid days ?s st2;
          Some (ep_pack_append_string ''token'' token ep_pack_new, st) } else Some (ep_pack_new, st2)) = Some (tk, st3)"
        "session_ok st3" "fd_session st3 = log_in fd ?s (logged srv)"
        "token_session st3 = (if days > 0 then (drop_sessions (\<lambda>_ s. sess_uid s = uid) (tokens srv))(?t \<mapsto> token_of ?t days ?s) else tokens srv)"
        "pk_doc tk = (if days > 0 then [(''token'', BSON_STRING ?t)] else [])"
        using login_token_spec [OF st(3) days(1), of env uid ?s] days(2) st by (cases "days > 0") (auto simp: pack_simps)
      have fit3: "uids_fit st3"
      proof -
        have "ran (token_session st3) \<subseteq> insert (token_of ?t days ?s) (ran (tokens srv))"
          using ran_drop [of "\<lambda>_ s. sess_uid s = uid" "tokens srv"] ran_update unfolding st3(4) by (simp split: if_splits) fast
        moreover have "sess_uid (token_of ?t days ?s) = uid" using su(1) by (simp add: token_of_def)
        ultimately show ?thesis using fit uid unfolding uids_fit_def st3(3) by blast
      qed
      show ?thesis
        using Some True p1 p2 st p3(1) st3 fit3 d3 h k(4)
        by (simp add: login_by_pwd_def se login_outcome_def srv_ok_def)
          (simp add: pack_simps profile_doc_def result_doc_def login_code_def Let_def)
    qed
  qed
qed

lemma login_done:
  assumes "env_ok tbl env" and "srv_ok tbl srv" and "0 \<le> fd" and "word_16 uid" and "plain uid" and "word_16 pwd"
    and "days * 86400 < 2 ^ 31" and "days > 0 \<Longrightarrow> tokens srv (guid_generate (env_guid env)) = None"
  shows "\<exists>reply srv'. res_account_login env fd (Some (login_doc uid pwd days)) srv = Some (reply, srv') \<and> srv_ok tbl srv' \<and>
    dbp_db (srv_dbp srv') = dbp_db (srv_dbp srv) \<and>
    (pk_doc reply, logged srv', tokens srv') =
      login_outcome env (srv_tables tbl srv) fd (map c_tolower uid) pwd days (logged srv) (tokens srv)"
proof -
  have "fits 16 uid" using assms(4,5) by (simp add: fits_def word_16_def)
  then have "fits 16 (map c_tolower uid)" by simp
  from login_by_pwd_spec [OF assms(1-3) this assms(7,8)] show ?thesis
    by (simp only: res_account_login_pwd [OF assms(4,6)])
qed

text \<open>C23. Login by password does what it promises, on every branch: an unknown user and a wrong password are
  refused and change nothing; the right password (compared by the digest of the standard) answers with
  the profile of the account and logs the connection in as this user, in place of any session of the
  user or the connection, which is what the result code says; with an expiry the user also gets a
  new token in place of the old ones. The database does not change.\<close>

theorem login_spec:
  assumes "env_ok tbl env" and "srv_ok tbl srv" and "0 \<le> fd" and "word_16 uid" and "plain uid" and "word_16 pwd"
    and "days * 86400 < 2 ^ 31" and "days > 0 \<Longrightarrow> tokens srv (guid_generate (env_guid env)) = None"
  shows "\<exists>reply srv'. res_account_login env fd (Some (login_doc uid pwd days)) srv = Some (reply, srv') \<and> srv_ok tbl srv' \<and>
    dbp_db (srv_dbp srv') = dbp_db (srv_dbp srv) \<and>
    (pk_doc reply, logged srv', tokens srv') =
      login_outcome env (srv_tables tbl srv) fd (map c_tolower uid) pwd days (logged srv) (tokens srv)"
  by (rule login_done [OF assms])

section \<open>Concrete states\<close>

text \<open>A server with one administrator, logged out, whose uninitialised locals hold zeros.\<close>

definition demo_row :: "string \<Rightarrow> int \<Rightarrow> string \<Rightarrow> account_row" where
  "demo_row uid type pwd = \<lparr>ar_uid = uid, ar_type = type, ar_pwd = db_encrypt_pwd pwd, ar_nick = ''n'', ar_comment = []\<rparr>"

definition demo_tables :: tables where
  "demo_tables = \<lparr>t_account = [demo_row ''root'' 0 ''pw''], t_dish = [], t_seat = [], t_book = []\<rparr>"

definition demo_env :: "tables env" where
  "demo_env = \<lparr>env_eng = mini_engine, env_fp = demo_fp, env_now = (1000, 5),
     env_guid = \<lparr>guid_data1 = 1, guid_data2 = 2, guid_data3 = 3, guid_data4 = replicate 8 0\<rparr>,
     env_account = account_zero, env_session = demo_session 0 [], env_chars = []\<rparr>"

definition demo_server :: "tables server" where
  "demo_server = \<lparr>srv_sessions = session_init, srv_dbp = dbp_create_new_sqlite demo_tables\<rparr>"

lemma demo_row_ok: "fits 16 uid \<Longrightarrow> type \<in> {0..3} \<Longrightarrow> account_row_ok (demo_row uid type pwd)"
  by (simp add: account_row_ok_def demo_row_def fits_def plain_db_encrypt_pwd length_db_encrypt_pwd) (simp add: plain_def)

lemma demo_env_ok: "env_ok (\<lambda>T. T) demo_env"
  using mini_laws by (simp add: env_ok_def demo_env_def account_arrays_def account_zero_def)

lemma init_sessions [simp]: "fd_session session_init = Map.empty" "token_session session_init = Map.empty"
  by (simp_all add: fd_session_def token_session_def session_init_def fun_eq_iff)

lemma demo_server_ok: "srv_ok (\<lambda>T. T) demo_server"
proof -
  have "account_row_ok (demo_row ''root'' 0 ''pw'')" by (intro demo_row_ok) (simp_all add: fits_def plain_def)
  then show ?thesis
    by (simp add: srv_ok_def demo_server_def session_ok_init uids_fit_def dbp_create_new_sqlite_def dbp_idle_def tables_ok_def demo_tables_def)
qed

theorem login_spec_witness:
  "\<exists>reply srv'. res_account_login demo_env 7 (Some (login_doc ''Root'' ''pw'' 1)) demo_server = Some (reply, srv') \<and>
    (''result'', BSON_INT account_r_ok) \<in> set (pk_doc reply) \<and> logged srv' 7 = Some (pwd_session demo_env 7 (demo_row ''root'' 0 ''pw''))"
proof -
  have low: "map c_tolower ''Root'' = ''root''" by code_simp
  have F: "logged demo_server = Map.empty" "tokens demo_server = Map.empty" by (simp_all add: demo_server_def)
  have a: "account_of (srv_tables (\<lambda>T. T) demo_server) ''root'' = Some (demo_row ''root'' 0 ''pw'')"
    by (simp add: account_of_def demo_server_def demo_tables_def demo_row_def dbp_create_new_sqlite_def)
  have d: "ar_pwd (demo_row ''root'' 0 ''pw'') = pwd_digest ''pw''" by (simp add: demo_row_def)
  have "\<exists>reply srv'. res_account_login demo_env 7 (Some (login_doc ''Root'' ''pw'' 1)) demo_server = Some (reply, srv') \<and> srv_ok (\<lambda>T. T) srv' \<and>
    dbp_db (srv_dbp srv') = dbp_db (srv_dbp demo_server) \<and>
    (pk_doc reply, logged srv', tokens srv') =
      login_outcome demo_env (srv_tables (\<lambda>T. T) demo_server) 7 (map c_tolower ''Root'') ''pw'' 1 (logged demo_server) (tokens demo_server)"
    by (rule login_spec [OF demo_env_ok demo_server_ok]) (simp_all add: word_16_def plain_def c_string_def F)
  then show ?thesis
    unfolding low F login_outcome_def a using d
    by (auto simp: result_doc_def login_code_def displaces_def log_in_def Let_def)
qed

section \<open>Login by token\<close>

definition token_doc :: "string \<Rightarrow> doc" where
  "token_doc token = [(''token'', BSON_STRING token)]"

definition token_outcome ::
  "tables \<Rightarrow> int \<Rightarrow> string \<Rightarrow> (int \<rightharpoonup> session) \<Rightarrow> (string \<rightharpoonup> session) \<Rightarrow> doc \<times> (int \<rightharpoonup> session)" where
  "token_outcome T fd token F K =
     (case K token of
        None \<Rightarrow> (result_doc account_r_session_expired, F)
      | Some s \<Rightarrow>
          (case account_of T (sess_uid s) of
             None \<Rightarrow> result_doc account_r_login_user_not_exist
           | Some r \<Rightarrow> [(''type'', BSON_INT (ar_type r)), (''uid'', BSON_STRING (ar_uid r))] @ profile_doc r @
               result_doc (login_code F (sess_uid s) fd),
           log_in fd (s\<lparr>sess_s_type := session_fd, sess_fd := fd, sess_token := []\<rparr>) F))"

lemma login_by_token_spec:
  assumes env: "env_ok tbl env" and srv: "srv_ok tbl srv" and fd: "0 \<le> fd"
  shows "\<exists>reply srv'. login_by_token env fd token srv = Some (reply, srv') \<and> srv_ok tbl srv' \<and>
    dbp_db (srv_dbp srv') = dbp_db (srv_dbp srv) \<and> tokens srv' = tokens srv \<and>
    (pk_doc reply, logged srv') = token_outcome (srv_tables tbl srv) fd token (logged srv) (tokens srv)"
proof (cases "tokens srv token")
  case None
  moreover have "session_ref_token token (srv_sessions srv) = Some (None, srv_sessions srv)"
    using by_token.ref_absent [OF srv_okD(1) [OF srv] None] .
  ultimately show ?thesis using srv by (simp add: login_by_token_def token_outcome_def srv_ok_def)
next
  case (Some s)
  note e = env_okD [OF env] and k = srv_okD [OF srv]
  let ?T = "srv_tables tbl srv" and ?ns = "s\<lparr>sess_s_type := session_fd, sess_fd := fd, sess_token := []\<rparr>"
  obtain q h where ref: "session_ref_token token (srv_sessions srv) = Some (Some q, h)" "session_at h q = Some s"
    "session_dref q h = Some (srv_sessions srv)" using by_token.ref_present [OF k(1) Some] by blast
  obtain st1 st2 where st: "res_account_check_session_exist (sess_uid s) fd (srv_sessions srv) = Some (displaces (logged srv) (sess_uid s) fd, st1)"
    "session_add_fd ?ns st1 = Some (1, ?ns, st2)" "session_ok st2" "fd_session st2 = log_in fd ?ns (logged srv)" "token_session st2 = tokens srv"
    using log_in_new [OF k(1) fd, of ?ns] by auto
  have fit: "fits 16 (sess_uid s)" using k(2) Some by (auto simp: uids_fit_def ran_def)
  have u2: "uids_fit st2" using k(2) fit ran_log_in [of fd ?ns "logged srv"] unfolding uids_fit_def st(4,5) by auto
  show ?thesis
  proof (cases "account_of ?T (sess_uid s)")
    case None
    obtain p where p: "db_account_get_one (env_eng env) (sess_uid s) (Some (env_account env)) (srv_dbp srv) = Some (0, Some (env_account env), p)"
      "dbp_same (srv_dbp srv) p" using db_account_get_one_absent [OF e(1) k(3) fit None] by blast
    then show ?thesis using ref st u2 Some None k(4)
      by (simp add: login_by_token_def token_outcome_def srv_ok_def dbp_same_def)
  next
    case (Some r)
    obtain p a where p: "db_account_get_one (env_eng env) (sess_uid s) (Some (env_account env)) (srv_dbp srv) = Some (1, Some a, p)"
      "dbp_same (srv_dbp srv) p" "account_holds r a" using db_account_get_one_some [OF e(1) k(3) fit k(4) Some e(2)] by blast
    then show ?thesis using ref st u2 \<open>tokens srv token = Some s\<close> Some k(4)
      by (simp add: login_by_token_def token_outcome_def srv_ok_def dbp_same_def account_holds_def login_code_def)
        (simp add: pack_simps profile_doc_def result_doc_def)
  qed
qed

lemma res_account_login_token:
  assumes "c_string t" "length t = 38"
  shows "res_account_login env fd (Some (token_doc t)) srv = login_by_token env fd t srv"
proof -
  obtain r where r: "take_string (replicate 39 NUL) (BSON_STRING t) = t @ NUL # r"
    using take_string_c [of t "replicate 39 NUL"] assms by auto
  have "read_pack (login_key (env_fp env)) (Some (token_doc t)) login_zero = Some (login_zero\<lparr>li_token := t @ NUL # r\<rparr>)"
    using r by (simp add: read_pack_def token_doc_def login_zero_def login_key_def ep_pack_iterator_next_def)
  moreover have "nonempty_upto 16 (replicate 17 NUL) = Some False" by (simp add: nonempty_upto_def)
  moreover have "valid_token (t @ NUL # r) = Some True"
    using assms cstr_append_NUL [OF assms(1), of r] by (cases t) (auto simp: valid_token_def c_string_def)
  ultimately show ?thesis
    using assms by (simp add: res_account_login_def valid_uid_def login_zero_def cstr_append_NUL)
qed

lemma length_hex_str: "length (hex_str k n) = k"
  by (induction k arbitrary: n) auto

lemma hex_str_plain: "c \<in> set (hex_str k n) \<Longrightarrow> c \<noteq> NUL"
proof (induction k arbitrary: n)
  case (Suc k)
  then show ?case using hex_digit_plain [of "n mod 16"] by auto
qed simp

lemma guid_string: "c_string (guid_generate g)" "length (guid_generate g) = 38"
proof -
  have "hex_digit (unat b div 16) \<noteq> NUL" for b :: byte
    using unsigned_less [of b, where ?'a = nat] hex_digit_plain [of "unat b div 16"] by simp
  moreover have "hex_digit (unat b mod 16) \<noteq> NUL" for b :: byte using hex_digit_plain [of "unat b mod 16"] by simp
  ultimately show "c_string (guid_generate g)"
    by (auto simp: guid_generate_def c_string_def hex2_def dest: hex_str_plain) (metis+)?
  show "length (guid_generate g) = 38"
    by (simp add: guid_generate_def length_hex_str hex2_def upt_rec)
qed

text \<open>C28. Login by token: an unknown token is refused and changes nothing; a known one logs the connection in
  with the session the token stands for, in place of any session of the user or the connection, and
  answers with the profile. Neither the clock nor the expiry of the token plays a role. (When the account
  has been deleted since, the answer says so, and the connection is logged in all the same.)\<close>

theorem token_login_spec:
  assumes "env_ok tbl env" and "srv_ok tbl srv" and "0 \<le> fd" and "c_string token" and "length token = 38"
  shows "\<exists>reply srv'. res_account_login env fd (Some (token_doc token)) srv = Some (reply, srv') \<and> srv_ok tbl srv' \<and>
    dbp_db (srv_dbp srv') = dbp_db (srv_dbp srv) \<and> tokens srv' = tokens srv \<and>
    (pk_doc reply, logged srv') = token_outcome (srv_tables tbl srv) fd token (logged srv) (tokens srv)"
  unfolding res_account_login_token [OF assms(4,5)] by (rule login_by_token_spec [OF assms(1-3)])

text \<open>A user whose account is gone, with a token.\<close>

definition ghost_token :: string where
  "ghost_token = replicate 38 (CHR ''t'')"

definition ghost :: session where
  "ghost = (demo_session (- 1) ''ghost'')\<lparr>sess_s_type := session_token, sess_token := ghost_token\<rparr>"

definition ghost_server :: "tables server" where
  "ghost_server = demo_server\<lparr>srv_sessions := session_added ghost session_init\<rparr>"

lemma ghost_tables: "logged ghost_server = Map.empty" "tokens ghost_server = [ghost_token \<mapsto> ghost]"
proof -
  have n: "\<not> is_fd ghost" "sess_token ghost = ghost_token" by (simp_all add: ghost_def is_fd_def)
  then show "logged ghost_server = Map.empty" "tokens ghost_server = [ghost_token \<mapsto> ghost]"
    using session_tables_added [of ghost session_init] by (simp_all add: session_tables_def ghost_server_def)
qed

lemma ghost_server_ok: "srv_ok (\<lambda>T. T) ghost_server"
proof -
  have "session_ok (session_added ghost session_init)"
    by (rule session_added_ok [OF session_ok_init]) (simp_all add: session_wf_def ghost_def is_fd_def session_init_def demo_session_def)
  moreover have "uids_fit (srv_sessions ghost_server)"
    unfolding uids_fit_def ghost_tables by (simp add: ghost_def demo_session_def fits_def plain_def)
  ultimately show ?thesis using demo_server_ok by (simp add: srv_ok_def ghost_server_def)
qed

theorem token_login_spec_witness:
  "\<exists>reply srv'. res_account_login demo_env 7 (Some (token_doc ghost_token)) ghost_server = Some (reply, srv') \<and>
    pk_doc reply = result_doc account_r_login_user_not_exist \<and> logged srv' 7 \<noteq> None"
proof -
  have "c_string ghost_token" "length ghost_token = 38" by (simp_all add: ghost_token_def c_string_def)
  from token_login_spec [OF demo_env_ok ghost_server_ok _ this, of 7] obtain reply srv' where
    l: "res_account_login demo_env 7 (Some (token_doc ghost_token)) ghost_server = Some (reply, srv')"
    "(pk_doc reply, logged srv') = token_outcome (srv_tables (\<lambda>T. T) ghost_server) 7 ghost_token (logged ghost_server) (tokens ghost_server)"
    by auto
  have "account_of (srv_tables (\<lambda>T. T) ghost_server) (sess_uid ghost) = None"
    by (simp add: account_of_def ghost_def ghost_server_def demo_server_def demo_tables_def demo_row_def demo_session_def dbp_create_new_sqlite_def)
  with l show ?thesis by (auto simp: token_outcome_def ghost_tables log_in_def)
qed

text \<open>C29. A token that a login returns can be used from any other connection at any later time, with the same
  database: it logs the connection in as the same user with the same type, and the first connection out.\<close>

theorem token_roundtrip:
  assumes "env_ok tbl env" and "srv_ok tbl srv" and "0 \<le> fd" and "word_16 uid" and "plain uid" and "word_16 pwd"
    and "0 < days" and "days * 86400 < 2 ^ 31" and "tokens srv (guid_generate (env_guid env)) = None"
    and "account_of (srv_tables tbl srv) (map c_tolower uid) = Some r" and "ar_pwd r = pwd_digest pwd"
    and "env_ok tbl env'" and "0 \<le> fd'" and "fd' \<noteq> fd"
  shows "\<exists>reply srv1 reply' srv2 token s. res_account_login env fd (Some (login_doc uid pwd days)) srv = Some (reply, srv1) \<and>
    (''token'', BSON_STRING token) \<in> set (pk_doc reply) \<and>
    res_account_login env' fd' (Some (token_doc token)) srv1 = Some (reply', srv2) \<and>
    (''uid'', BSON_STRING (map c_tolower uid)) \<in> set (pk_doc reply') \<and>
    (''result'', BSON_INT account_r_login_ok_conlict_another_address) \<in> set (pk_doc reply') \<and>
    logged srv2 fd' = Some s \<and> sess_uid s = map c_tolower uid \<and> sess_a_type s = ar_type r \<and> logged srv2 fd = None"
proof -
  let ?u = "map c_tolower uid" and ?t = "guid_generate (env_guid env)" and ?s = "pwd_session env fd r"
  have f: "fits 16 ?u" using assms(4,5) fits_lower [of 16 uid] by (simp add: fits_def word_16_def)
  have r: "ar_uid r = ?u" using account_of_in [OF assms(10)] by simp
  obtain reply srv1 where 1: "res_account_login env fd (Some (login_doc uid pwd days)) srv = Some (reply, srv1)" "srv_ok tbl srv1"
    "dbp_db (srv_dbp srv1) = dbp_db (srv_dbp srv)"
    "(pk_doc reply, logged srv1, tokens srv1) = login_outcome env (srv_tables tbl srv) fd ?u pwd days (logged srv) (tokens srv)"
    using login_by_pwd_spec [OF assms(1-3) f assms(8,9), of pwd] by (auto simp: res_account_login_pwd [OF assms(4,6)])
  have o: "(''token'', BSON_STRING ?t) \<in> set (pk_doc reply)" "logged srv1 = log_in fd ?s (logged srv)"
    "tokens srv1 ?t = Some (token_of ?t days ?s)"
    using 1(4) assms(7,10,11) by (simp_all add: login_outcome_def Let_def)
  have s1: "logged srv1 fd = Some ?s" unfolding o(2) by (simp add: log_in_def)
  have tu: "sess_uid (token_of ?t days ?s) = ?u" "sess_a_type (token_of ?t days ?s) = ar_type r"
    using r by (simp_all add: token_of_def pwd_session_def)
  obtain reply' srv2 where 2: "res_account_login env' fd' (Some (token_doc ?t)) srv1 = Some (reply', srv2)"
    "(pk_doc reply', logged srv2) = token_outcome (srv_tables tbl srv1) fd' ?t (logged srv1) (tokens srv1)"
    using login_by_token_spec [OF assms(12) 1(2) assms(13), of ?t] by (auto simp: res_account_login_token [OF guid_string])
  have "displaces (logged srv1) ?u fd'" using s1 r unfolding displaces_def ran_def by (auto simp: pwd_session_def)
  moreover have "sess_uid ?s = ?u" using r by (simp add: pwd_session_def)
  ultimately show ?thesis using 1(1) o(1) 2(1) 2(2) 1(3) o(3) tu assms(10,14) r s1
    by (auto simp: token_outcome_def result_doc_def login_code_def log_in_def drop_sessions_def intro!: exI)
qed

theorem token_roundtrip_witness:
  "\<exists>reply srv1 reply' srv2 token. res_account_login demo_env 7 (Some (login_doc ''root'' ''pw'' 30)) demo_server = Some (reply, srv1) \<and>
    res_account_login (demo_env\<lparr>env_now := (10 ^ 9, 0)\<rparr>) 8 (Some (token_doc token)) srv1 = Some (reply', srv2) \<and>
    logged srv2 8 \<noteq> None \<and> logged srv2 7 = None"
proof -
  have low: "map c_tolower ''root'' = ''root''" by code_simp
  have a: "account_of (srv_tables (\<lambda>T. T) demo_server) (map c_tolower ''root'') = Some (demo_row ''root'' 0 ''pw'')"
    unfolding low by (simp add: account_of_def demo_server_def demo_tables_def demo_row_def dbp_create_new_sqlite_def)
  have e: "env_ok (\<lambda>T. T) (demo_env\<lparr>env_now := (10 ^ 9, 0)\<rparr>)" using demo_env_ok by (simp add: env_ok_def)
  have "\<exists>reply srv1 reply' srv2 token s. res_account_login demo_env 7 (Some (login_doc ''root'' ''pw'' 30)) demo_server = Some (reply, srv1) \<and>
    (''token'', BSON_STRING token) \<in> set (pk_doc reply) \<and>
    res_account_login (demo_env\<lparr>env_now := (10 ^ 9, 0)\<rparr>) 8 (Some (token_doc token)) srv1 = Some (reply', srv2) \<and>
    (''uid'', BSON_STRING (map c_tolower ''root'')) \<in> set (pk_doc reply') \<and>
    (''result'', BSON_INT account_r_login_ok_conlict_another_address) \<in> set (pk_doc reply') \<and>
    logged srv2 8 = Some s \<and> sess_uid s = map c_tolower ''root'' \<and> sess_a_type s = ar_type (demo_row ''root'' 0 ''pw'') \<and> logged srv2 7 = None"
    by (rule token_roundtrip [OF demo_env_ok demo_server_ok _ _ _ _ _ _ _ a _ e])
      (simp_all add: word_16_def plain_def c_string_def demo_server_def demo_row_def)
  then show ?thesis by blast
qed

end
