(* ===== verification/YM_Listing.thy ===== *)
theory YM_Listing
  imports YM_Login
begin

text \<open>
  What the handlers that answer with a list share: the check of the session, the reading of the rows of a table and
  the reply. The contract of a reader of rows and of the function that writes one of them is the locale
  \<open>row_listing\<close>.
\<close>

section \<open>Permission\<close>

lemma ref_fd_cases:
  assumes "session_ok st" and "0 \<le> fd"
  shows "fd_session st fd = None \<Longrightarrow> session_ref_fd fd st = Some (None, st)"
    and "fd_session st fd = Some s \<Longrightarrow> \<exists>q h. session_ref_fd fd st = Some (Some q, h) \<and> session_at h q = Some s \<and> session_dref q h = Some st"
  using by_fd.ref_absent [OF assms(1), of "nat fd"] by_fd.ref_present [OF assms(1), of "nat fd" s] assms(2) by simp_all

definition permitted :: "(int \<rightharpoonup> session) \<Rightarrow> int \<Rightarrow> (int \<Rightarrow> bool) \<Rightarrow> bool" where
  "permitted F fd allowed \<longleftrightarrow> (case F fd of None \<Rightarrow> False | Some s \<Rightarrow> allowed (sess_a_type s))"

lemma check_permission_spec:
  assumes "session_ok st" and "0 \<le> fd"
  shows "check_permission fd allowed st = Some (permitted (fd_session st) fd allowed, st)"
proof (cases "fd_session st fd")
  case None
  then show ?thesis using ref_fd_cases(1) [OF assms] by (simp add: check_permission_def permitted_def)
next
  case (Some s)
  then show ?thesis using ref_fd_cases(2) [OF assms Some] by (auto simp: check_permission_def permitted_def)
qed

section \<open>Lists in replies\<close>

text \<open>The reply with a list holds one element per entry, in order.\<close>

definition list_doc :: "string \<Rightarrow> string \<Rightarrow> bson list \<Rightarrow> doc" where
  "list_doc name nm vs = [(''result'', BSON_INT dish_r_ok), (''count'', BSON_INT (int (length vs)))] @
     (if vs = [] then [] else [(name, BSON_ARRAY (map (\<lambda>v. (nm, v)) vs))])"

text \<open>\<open>get k\<close> reads the rows \<open>rows k T\<close> of the tables that a valid key selects, in some order, into structs that hold
  them; \<open>add\<close> writes a struct as the object of its row.\<close>

locale row_listing =
  fixes valid :: "'k \<Rightarrow> bool"
    and get :: "'k \<Rightarrow> 'db env \<Rightarrow> 'db dbp \<Rightarrow> (int \<times> 'a list \<times> 'db dbp) option"
    and rows :: "'k \<Rightarrow> tables \<Rightarrow> 'r list"
    and holds :: "'r \<Rightarrow> 'a \<Rightarrow> bool"
    and add :: "'a \<Rightarrow> ep_pack \<Rightarrow> ep_pack option"
    and nm :: string
    and obj :: "'r \<Rightarrow> bson"
  assumes get_rows: "valid k \<Longrightarrow> env_ok tbl env \<Longrightarrow> dbp_idle p \<Longrightarrow> tables_ok (tbl (dbp_db p)) \<Longrightarrow>
      \<exists>p' l xs. get k env p = Some (int (length (rows k (tbl (dbp_db p)))), xs, p') \<and> dbp_same p p' \<and>
        mset l = mset (rows k (tbl (dbp_db p))) \<and> list_all2 holds l xs"
    and add_row: "holds r x \<Longrightarrow> add x pack = Some (pk_append nm (obj r) pack)"
begin

lemma ofold_rows:
  "list_all2 holds l xs \<Longrightarrow> ofold add xs pack = Some (pack\<lparr>pk_doc := pk_doc pack @ map (\<lambda>r. (nm, obj r)) l\<rparr>)"
  by (induction l xs arbitrary: pack rule: list_all2_induct) (simp_all add: add_row pk_append_def)

lemma reply_rows:
  assumes "list_all2 holds l xs" and "n = int (length l)"
  shows "\<exists>reply. reply_list name add n xs = Some reply \<and> pk_doc reply = list_doc name nm (map obj l)"
  using ofold_rows [OF assms(1)] assms(2)
  by (cases "l = []") (simp_all add: reply_list_def list_doc_def reply_result_def pack_simps comp_def)

text \<open>Reading and replying: the server keeps its tables, and the reply holds every row once.\<close>

lemma listing:
  assumes k: "valid k" and env: "env_ok tbl env" and srv: "srv_ok tbl srv"
  shows "\<exists>reply p l. (do {
      (n, xs, p) \<leftarrow> get k env (srv_dbp srv);
      reply \<leftarrow> reply_list name add n xs;
      Some (reply, srv\<lparr>srv_sessions := srv_sessions srv, srv_dbp := p\<rparr>)
    }) = Some (reply, srv\<lparr>srv_dbp := p\<rparr>) \<and> srv_ok tbl (srv\<lparr>srv_dbp := p\<rparr>) \<and> dbp_db p = dbp_db (srv_dbp srv) \<and>
    mset l = mset (rows k (srv_tables tbl srv)) \<and> pk_doc reply = list_doc name nm (map obj l)"
proof -
  obtain p l xs where p: "get k env (srv_dbp srv) = Some (int (length (rows k (srv_tables tbl srv))), xs, p)" "dbp_same (srv_dbp srv) p"
    "mset l = mset (rows k (srv_tables tbl srv))" "list_all2 holds l xs"
    using get_rows [OF k env srv_okD(3,4) [OF srv]] by blast
  have "length l = length (rows k (srv_tables tbl srv))" using p(3) by (metis size_mset)
  then obtain reply where "reply_list name add (int (length (rows k (srv_tables tbl srv)))) xs = Some reply"
    "pk_doc reply = list_doc name nm (map obj l)" using reply_rows [OF p(4), of "int (length l)" name] by auto
  with p srv_ok_same [OF srv p(2)] show ?thesis by (auto simp: dbp_same_def)
qed

end

section \<open>Accounts\<close>

definition account_object :: "account_row \<Rightarrow> bson" where
  "account_object r = BSON_OBJECT ([(''type'', BSON_INT (ar_type r)), (''uid'', BSON_STRING (ar_uid r))] @ profile_doc r)"

interpretation accounts: row_listing "\<lambda>_. True" "\<lambda>_ :: unit. \<lambda>env. db_account_get (env_eng env)" "\<lambda>_. t_account" account_holds append_account "''account_one''" account_object
proof unfold_locales
  show "\<exists>p' l xs. db_account_get (env_eng env) p = Some (int (length (t_account (tbl (dbp_db p)))), xs, p') \<and> dbp_same p p' \<and>
      mset l = mset (t_account (tbl (dbp_db p))) \<and> list_all2 account_holds l xs"
    if "env_ok tbl env" "dbp_idle p" "tables_ok (tbl (dbp_db p))" for tbl and env :: "'a env" and p
    by (rule db_account_get_spec [OF env_okD(1) [OF that(1)] that(2,3)])
qed (simp add: append_account_def account_holds_def account_object_def profile_doc_def pack_simps)

end
