(* ===== verification/YM_AccountSpec.thy ===== *)
theory YM_AccountSpec
  imports YM_Listing
begin

text \<open>
  The outcomes of the other account handlers: logout, creation, change of password and profile, deletion and
  the list of accounts.
\<close>

section \<open>Logout\<close>

lemma srv_ok_fewer:
  assumes "srv_ok tbl srv" and "session_ok st" and "fd_session st \<subseteq>\<^sub>m logged srv" and "token_session st \<subseteq>\<^sub>m tokens srv"
  shows "srv_ok tbl (srv\<lparr>srv_sessions := st\<rparr>)"
proof -
  have "ran (fd_session st) \<subseteq> ran (logged srv)" "ran (token_session st) \<subseteq> ran (tokens srv)"
    using assms(3,4) by (auto simp: ran_def map_le_def) (metis domI)+
  with assms(1,2) show ?thesis by (fastforce simp: srv_ok_def uids_fit_def)
qed

text \<open>Logging out ends the session of the connection and no other, and a connection that is not logged in is
  told so; tokens survive.\<close>

theorem logout_spec:
  assumes "srv_ok tbl srv" and "0 \<le> fd"
  shows "\<exists>srv'. res_account_logout env fd pack srv =
      Some (reply_result (if logged srv fd = None then account_r_session_expired else account_r_ok), srv') \<and>
    srv_ok tbl srv' \<and> srv_dbp srv' = srv_dbp srv \<and> logged srv' = (logged srv)(fd := None) \<and> tokens srv' = tokens srv"
proof (cases "logged srv fd")
  case None
  then show ?thesis using ref_fd_cases(1) [OF srv_okD(1) [OF assms(1)] assms(2)] assms(1)
    by (auto simp: res_account_logout_def fun_upd_idem)
next
  case (Some s)
  note ok = srv_okD(1) [OF assms(1)]
  obtain q h where ref: "session_ref_fd fd (srv_sessions srv) = Some (Some q, h)" "session_dref q h = Some (srv_sessions srv)"
    using ref_fd_cases(2) [OF ok assms(2) Some] by blast
  obtain st where st: "session_del_fd fd (srv_sessions srv) = Some (1, st)" "session_ok st"
    "fd_session st = (logged srv)(fd := None)" "token_session st = tokens srv"
    using session_del_fd_spec [OF ok assms(2)] Some by auto
  have "srv_ok tbl (srv\<lparr>srv_sessions := st\<rparr>)"
    using st by (intro srv_ok_fewer [OF assms(1)]) (auto simp: map_le_def)
  with ref st Some show ?thesis by (simp add: res_account_logout_def)
qed

theorem logout_spec_witness:
  "\<exists>srv'. res_account_logout demo_env 3 None demo_server = Some (reply_result account_r_session_expired, srv') \<and> logged srv' = Map.empty"
  using logout_spec [OF demo_server_ok, of 3 demo_env None] by (auto simp: demo_server_def)

section \<open>Creating accounts\<close>

definition create_doc :: "int \<Rightarrow> string \<Rightarrow> string \<Rightarrow> string \<Rightarrow> string \<Rightarrow> doc" where
  "create_doc type uid pwd nick comment =
     [(''type'', BSON_INT type), (''uid'', BSON_STRING uid), (''pwd'', BSON_STRING pwd), (''nick'', BSON_STRING nick),
      (''comment'', BSON_STRING comment)]"

lemma c_tolower_idem [simp]: "c_tolower (c_tolower c) = c_tolower c"
proof -
  have "(of_char (char_of (n + 32 :: nat) :: char) :: nat) = n + 32" if "n \<le> 90" for n using that by simp
  then show ?thesis by (auto simp: c_tolower_def Let_def)
qed

lemma read_create:
  assumes arr: "account_arrays a" and u: "word_16 uid" "plain uid" and p: "word_16 pwd" and n: "fits 64 nick" and c: "fits 256 comment"
    and t: "0 \<le> type" "type \<le> 3"
  shows "\<exists>a'. read_pack (create_key fp) (Some (create_doc type uid pwd nick comment))
      (a\<lparr>acc_uid := (acc_uid a)[0 := NUL], acc_pwd := (acc_pwd a)[0 := NUL], acc_nick := (acc_nick a)[0 := NUL],
         acc_comment := (acc_comment a)[0 := NUL]\<rparr>) = Some a' \<and>
    acc_type a' = type \<and> account_filled a' (map c_tolower uid) pwd nick comment \<and> (\<exists>r. acc_pwd a' = pwd @ NUL # r)"
proof -
  have cs: "c_string uid" "c_string pwd" "c_string nick" "c_string comment"
    using u p n c by (simp_all add: word_16_def fits_def plain_c_string)
  obtain r1 r2 r3 r4 where r: "take_string ((acc_uid a)[0 := NUL]) (BSON_STRING uid) = uid @ NUL # r1"
    "take_string ((acc_pwd a)[0 := NUL]) (BSON_STRING pwd) = pwd @ NUL # r2"
    "take_string ((acc_nick a)[0 := NUL]) (BSON_STRING nick) = nick @ NUL # r3"
    "take_string ((acc_comment a)[0 := NUL]) (BSON_STRING comment) = comment @ NUL # r4"
    using take_string_c [OF cs(1), of "(acc_uid a)[0 := NUL]"] take_string_c [OF cs(2), of "(acc_pwd a)[0 := NUL]"]
      take_string_c [OF cs(3), of "(acc_nick a)[0 := NUL]"] take_string_c [OF cs(4), of "(acc_comment a)[0 := NUL]"] arr u p n c
    by (auto simp: account_arrays_def word_16_def fits_def)
  have f: "fits 16 uid" using u by (simp add: fits_def word_16_def)
  show ?thesis
    using r cs f n c t by (simp add: read_pack_def create_doc_def create_key_def ep_pack_iterator_next_def c_lower_loop_string
      account_filled_def cstr_append_NUL)
qed

definition create_outcome :: "tables \<Rightarrow> (int \<rightharpoonup> session) \<Rightarrow> int \<Rightarrow> account_row \<Rightarrow> int \<times> tables" where
  "create_outcome T F fd row =
     (case F fd of
        None \<Rightarrow> (account_r_no_permission, T)
      | Some s \<Rightarrow>
          if sess_admin s = 0 then (account_r_no_permission, T)
          else if account_of T (ar_uid row) \<noteq> None then (account_r_create_uid_exist, T)
          else (account_r_ok, T\<lparr>t_account := t_account T @ [row]\<rparr>))"

definition new_row :: "int \<Rightarrow> string \<Rightarrow> string \<Rightarrow> string \<Rightarrow> string \<Rightarrow> account_row" where
  "new_row type uid pwd nick comment = \<lparr>ar_uid = map c_tolower uid, ar_type = type, ar_pwd = pwd_digest pwd, ar_nick = nick, ar_comment = comment\<rparr>"

lemma valid_filled:
  assumes "account_filled a uid pwd nick comment" and "word_16 uid" and "word_16 pwd" and "acc_pwd a = pwd @ NUL # r"
  shows "c_and [valid_uid (acc_uid a), valid_pwd (acc_pwd a), Some (valid_type (acc_type a)), valid_nick (acc_nick a),
    valid_comment (acc_comment a)] = Some True" and "cstr (acc_uid a) = Some uid"
  using assms by (auto simp: account_filled_def valid_uid_def valid_pwd_def nonempty_word valid_type_def valid_nick_def valid_comment_def fits_def
      cstr_append_NUL plain_c_string)

lemma tables_ok_add:
  assumes "tables_ok T" and "account_of T (ar_uid row) = None" and "account_row_ok row"
  shows "tables_ok (T\<lparr>t_account := t_account T @ [row]\<rparr>)"
  using assms by (auto simp: tables_ok_def account_of_def find_None_iff)

lemma create_result:
  assumes env: "env_ok tbl env" and srv: "srv_ok tbl srv" and fd: "0 \<le> fd"
    and u: "word_16 uid" "plain uid" and p: "word_16 pwd" and n: "fits 64 nick" and c: "fits 256 comment" and t: "0 \<le> type" "type \<le> 3"
  shows "\<exists>r srv'. res_account_create env fd (Some (create_doc type uid pwd nick comment)) srv = Some (reply_result r, srv') \<and>
    srv_ok tbl srv' \<and> srv_sessions srv' = srv_sessions srv \<and>
    (r, srv_tables tbl srv') = create_outcome (srv_tables tbl srv) (logged srv) fd (new_row type uid pwd nick comment)"
proof -
  let ?u = "map c_tolower uid" and ?T = "srv_tables tbl srv" and ?row = "new_row type uid pwd nick comment"
  note e = env_okD [OF env] and k = srv_okD [OF srv]
  have uid: "fits 16 ?u" using u fits_lower [of 16 uid] by (simp add: fits_def word_16_def)
  obtain a rp where a: "read_pack (create_key (env_fp env)) (Some (create_doc type uid pwd nick comment))
      ((env_account env)\<lparr>acc_uid := (acc_uid (env_account env))[0 := NUL], acc_pwd := (acc_pwd (env_account env))[0 := NUL],
         acc_nick := (acc_nick (env_account env))[0 := NUL], acc_comment := (acc_comment (env_account env))[0 := NUL]\<rparr>) = Some a"
    "acc_type a = type" "account_filled a ?u pwd nick comment" "acc_pwd a = pwd @ NUL # rp"
    using read_create [OF e(2) u p n c t, of "env_fp env"] by blast
  have v: "c_and [valid_uid (acc_uid a), valid_pwd (acc_pwd a), Some (valid_type (acc_type a)), valid_nick (acc_nick a),
      valid_comment (acc_comment a)] = Some True" "cstr (acc_uid a) = Some ?u"
    using valid_filled [OF a(3) _ p a(4)] u by simp_all
  note def = res_account_create_def Let_def a(1) v(1) bind.bind_lunit
  show ?thesis
  proof (cases "logged srv fd")
    case None
    then show ?thesis using ref_fd_cases(1) [OF k(1) fd] srv by (auto simp: def create_outcome_def simp del: c_and.simps)
  next
    case (Some s)
    obtain q h where ref: "session_ref_fd fd (srv_sessions srv) = Some (Some q, h)" "session_at h q = Some s"
      "session_dref q h = Some (srv_sessions srv)" using ref_fd_cases(2) [OF k(1) fd Some] by blast
    have at: "session_at (srv_sessions srv) q = Some s" using session_at_dref [OF ref(3)] ref(2) by simp
    obtain p1 where p1: "db_account_get_one (env_eng env) ?u None (srv_dbp srv) = Some (if account_of ?T ?u = None then 0 else 1, None, p1)"
      "dbp_same (srv_dbp srv) p1" using db_account_get_one_null [OF e(1) k(3) uid] by blast
    have d1: "dbp_db p1 = dbp_db (srv_dbp srv)" "dbp_idle p1" using p1(2) by (simp_all add: dbp_same_def)
    obtain a' db' where add: "db_account_add (env_eng env) a p1 = Some (if account_of ?T ?u = None then 1 else 0, a', p1\<lparr>dbp_db := db'\<rparr>)"
      "account_of ?T ?u = None \<longrightarrow> tbl db' = ?T\<lparr>t_account := t_account ?T @ [?row]\<rparr>"
      using db_account_add_spec [OF e(1) d1(2) a(3), of ?u] a(2) by (auto simp: d1(1) new_row_def comp_def)
    have ok: "account_of ?T ?u = None \<Longrightarrow> tables_ok (?T\<lparr>t_account := t_account ?T @ [?row]\<rparr>)"
      using uid n c t by (intro tables_ok_add [OF k(4)])
        (simp_all add: new_row_def account_row_ok_def fits_def plain_db_encrypt_pwd length_db_encrypt_pwd)
    show ?thesis
      using Some ref at p1 add ok srv d1
      by (auto simp: def v(2) create_outcome_def srv_ok_def new_row_def simp del: c_and.simps)
  qed
qed

text \<open>C30. Creating an account: only from a session with the flag \<open>admin\<close>, only under a new user name (in lower
  case), and then the account table gets exactly one more row, with the digest of the password.\<close>

theorem create_spec:
  assumes "env_ok tbl env" and "srv_ok tbl srv" and "0 \<le> fd"
    and "word_16 uid" "plain uid" and "word_16 pwd" and "fits 64 nick" and "fits 256 comment" and "0 \<le> type" "type \<le> 3"
  shows "\<exists>r srv'. res_account_create env fd (Some (create_doc type uid pwd nick comment)) srv = Some (reply_result r, srv') \<and>
    srv_ok tbl srv' \<and> srv_sessions srv' = srv_sessions srv \<and>
    (r, srv_tables tbl srv') = create_outcome (srv_tables tbl srv) (logged srv) fd (new_row type uid pwd nick comment)"
  by (rule create_result [OF assms])

text \<open>A server with one session.\<close>

definition one_session :: "session \<Rightarrow> tables server" where
  "one_session s = demo_server\<lparr>srv_sessions := session_added s session_init\<rparr>"

lemma one_session:
  assumes "is_fd s" "0 \<le> sess_fd s" "fits 16 (sess_uid s)"
  shows "srv_ok (\<lambda>T. T) (one_session s)" "logged (one_session s) = [sess_fd s \<mapsto> s]" "tokens (one_session s) = Map.empty"
    "srv_tables (\<lambda>T. T) (one_session s) = demo_tables"
proof -
  have ok: "session_ok (session_added s session_init)"
    by (rule session_added_ok [OF session_ok_init]) (use assms in \<open>simp_all add: session_wf_def session_init_def\<close>)
  show t: "logged (one_session s) = [sess_fd s \<mapsto> s]" "tokens (one_session s) = Map.empty"
    using session_tables_added [of s session_init] assms(1) by (simp_all add: session_tables_def one_session_def)
  then show "srv_ok (\<lambda>T. T) (one_session s)"
    using demo_server_ok ok assms(3) by (simp add: srv_ok_def one_session_def uids_fit_def)
  show "srv_tables (\<lambda>T. T) (one_session s) = demo_tables"
    by (simp add: one_session_def demo_server_def dbp_create_new_sqlite_def)
qed

definition root_session :: "int \<Rightarrow> session" where
  "root_session adm = (demo_session 7 ''root'')\<lparr>sess_a_type := 0, sess_admin := adm\<rparr>"

lemma root_session: "srv_ok (\<lambda>T. T) (one_session (root_session adm))"
  "logged (one_session (root_session adm)) = [7 \<mapsto> root_session adm]"
  "srv_tables (\<lambda>T. T) (one_session (root_session adm)) = demo_tables" "tokens (one_session (root_session adm)) = Map.empty"
proof -
  have "is_fd (root_session adm)" "sess_fd (root_session adm) = 7" "fits 16 (sess_uid (root_session adm))"
    by (simp_all add: root_session_def demo_session_def is_fd_def fits_def plain_def)
  from this(2) one_session [OF this(1) _ this(3)] show "srv_ok (\<lambda>T. T) (one_session (root_session adm))"
    "logged (one_session (root_session adm)) = [7 \<mapsto> root_session adm]"
    "srv_tables (\<lambda>T. T) (one_session (root_session adm)) = demo_tables" "tokens (one_session (root_session adm)) = Map.empty"
    by simp_all
qed

lemma demo_accounts: "account_of demo_tables ''root'' = Some (demo_row ''root'' 0 ''pw'')" "uid \<noteq> ''root'' \<Longrightarrow> account_of demo_tables uid = None"
  by (simp_all add: account_of_def demo_tables_def demo_row_def)

lemma lower_bob: "map c_tolower ''bob'' = ''bob''" and lower_root: "map c_tolower ''root'' = ''root''"
  by code_simp+

theorem create_spec_witness:
  "\<exists>r srv'. res_account_create demo_env 7 (Some (create_doc 1 ''bob'' ''pb'' [] [])) (one_session (root_session 1)) = Some (reply_result account_r_ok, srv') \<and>
    account_of (srv_tables (\<lambda>T. T) srv') ''bob'' = Some r \<and> ar_pwd r = pwd_digest ''pb''"
proof -
  have row: "new_row 1 ''bob'' ''pb'' [] [] = \<lparr>ar_uid = ''bob'', ar_type = 1, ar_pwd = pwd_digest ''pb'', ar_nick = [], ar_comment = []\<rparr>"
    unfolding new_row_def lower_bob ..
  have "\<exists>r srv'. res_account_create demo_env 7 (Some (create_doc 1 ''bob'' ''pb'' [] [])) (one_session (root_session 1)) = Some (reply_result r, srv') \<and>
    srv_ok (\<lambda>T. T) srv' \<and> srv_sessions srv' = srv_sessions (one_session (root_session 1)) \<and>
    (r, srv_tables (\<lambda>T. T) srv') = create_outcome (srv_tables (\<lambda>T. T) (one_session (root_session 1))) (logged (one_session (root_session 1))) 7
      (new_row 1 ''bob'' ''pb'' [] [])"
    by (rule create_spec [OF demo_env_ok root_session(1)]) (simp_all add: word_16_def plain_def c_string_def fits_def)
  then show ?thesis unfolding root_session(2,3) row
    by (auto simp: create_outcome_def root_session_def demo_accounts account_of_def demo_tables_def demo_row_def)
qed

text \<open>Whether a user who has just logged in may create accounts does not depend on the account at all: the flag
  \<open>admin\<close> of the new session is what the uninitialised local of the login handler held.\<close>

theorem create_permission_uninitialised:
  assumes env: "env_ok tbl env" and srv: "srv_ok tbl srv" and fd: "0 \<le> fd"
    and u: "word_16 uid" "plain uid" "word_16 pwd" and a: "account_of (srv_tables tbl srv) (map c_tolower uid) = Some r" "ar_pwd r = pwd_digest pwd"
    and new: "word_16 uid'" "plain uid'" "word_16 pwd'" "account_of (srv_tables tbl srv) (map c_tolower uid') = None"
  shows "\<exists>reply srv1 srv2. res_account_login env fd (Some (login_doc uid pwd 0)) srv = Some (reply, srv1) \<and>
    res_account_create env fd (Some (create_doc 1 uid' pwd' [] [])) srv1 =
      Some (reply_result (if sess_admin (env_session env) = 0 then account_r_no_permission else account_r_ok), srv2)"
proof -
  have f: "fits 16 (map c_tolower uid)" using u fits_lower [of 16 uid] by (simp add: fits_def word_16_def)
  obtain reply srv1 where 1: "login_by_pwd env fd (map c_tolower uid) pwd 0 srv = Some (reply, srv1)" "srv_ok tbl srv1"
    "dbp_db (srv_dbp srv1) = dbp_db (srv_dbp srv)" "logged srv1 = log_in fd (pwd_session env fd r) (logged srv)"
    using login_by_pwd_spec [OF env srv fd f, of 0 pwd] a by (auto simp: login_outcome_def Let_def)
  have s: "logged srv1 fd = Some (pwd_session env fd r)" unfolding 1(4) by (simp add: log_in_def)
  obtain c srv2 where 2: "res_account_create env fd (Some (create_doc 1 uid' pwd' [] [])) srv1 = Some (reply_result c, srv2)"
    "(c, srv_tables tbl srv2) = create_outcome (srv_tables tbl srv1) (logged srv1) fd (new_row 1 uid' pwd' [] [])"
    using create_result [OF env 1(2) fd new(1-3), of "[]" "[]" 1] by (auto simp: fits_def plain_def)
  have "c = (if sess_admin (env_session env) = 0 then account_r_no_permission else account_r_ok)"
    using 2(2) s new(4) 1(3) by (auto simp: create_outcome_def new_row_def pwd_session_def split: if_splits)
  with 1(1) 2(1) show ?thesis by (auto simp: res_account_login_pwd [OF u(1,3)])
qed

theorem create_permission_uninitialised_witness:
  "\<exists>reply srv1 srv2. res_account_login demo_env 7 (Some (login_doc ''root'' ''pw'' 0)) demo_server = Some (reply, srv1) \<and>
    res_account_create demo_env 7 (Some (create_doc 1 ''bob'' ''pb'' [] [])) srv1 = Some (reply_result account_r_no_permission, srv2)"
proof -
  have T: "srv_tables (\<lambda>T. T) demo_server = demo_tables" by (simp add: demo_server_def dbp_create_new_sqlite_def)
  have "\<exists>reply srv1 srv2. res_account_login demo_env 7 (Some (login_doc ''root'' ''pw'' 0)) demo_server = Some (reply, srv1) \<and>
    res_account_create demo_env 7 (Some (create_doc 1 ''bob'' ''pb'' [] [])) srv1 =
      Some (reply_result (if sess_admin (env_session demo_env) = 0 then account_r_no_permission else account_r_ok), srv2)"
    by (rule create_permission_uninitialised [OF demo_env_ok demo_server_ok, where r = "demo_row ''root'' 0 ''pw''"])
      (simp_all add: word_16_def plain_def c_string_def T lower_root [simplified] lower_bob [simplified] demo_accounts, simp add: demo_row_def)
  then show ?thesis by (simp add: demo_env_def demo_session_def)
qed

section \<open>Changing the password and the profile\<close>

lemma read_two_keys:
  assumes "c_string s1" "length s1 \<le> 16" "c_string s2" "length s2 \<le> 16" and k: "k1 \<noteq> k2"
  shows "\<exists>r1 r2. read_pack (two_keys k1 k2) (Some [(k1, BSON_STRING s1), (k2, BSON_STRING s2)]) (stack_17, stack_17) = Some (s1 @ NUL # r1, s2 @ NUL # r2)"
proof -
  obtain r1 r2 where "take_string stack_17 (BSON_STRING s1) = s1 @ NUL # r1" "take_string stack_17 (BSON_STRING s2) = s2 @ NUL # r2"
    using take_string_c [OF assms(1), of stack_17] take_string_c [OF assms(3), of stack_17] assms(2,4) by (auto simp: stack_17_def)
  then show ?thesis using k by (simp add: read_pack_def two_keys_def ep_pack_iterator_next_def)
qed

definition modify_pwd_doc :: "string \<Rightarrow> string \<Rightarrow> doc" where
  "modify_pwd_doc old new = [(''old_pwd'', BSON_STRING old), (''new_pwd'', BSON_STRING new)]"

text \<open>The code takes the old password as the name of the account whose password it checks.\<close>

definition modify_pwd_outcome :: "tables \<Rightarrow> (int \<rightharpoonup> session) \<Rightarrow> int \<Rightarrow> string \<Rightarrow> string \<Rightarrow> int \<times> tables" where
  "modify_pwd_outcome T F fd old new =
     (if old = new then (account_r_modify_pwd_same, T)
      else case F fd of
        None \<Rightarrow> (account_r_session_expired, T)
      | Some s \<Rightarrow>
          (case account_of T old of
             Some r \<Rightarrow> if ar_pwd r = pwd_digest old then (account_r_ok, set_accounts (\<lambda>r. r\<lparr>ar_pwd := pwd_digest new\<rparr>) (sess_uid s) T)
               else (account_r_old_pwd_incorrect, T)
           | None \<Rightarrow> (account_r_old_pwd_incorrect, T)))"

lemma tables_ok_set:
  assumes "tables_ok T" and "\<And>r. account_row_ok r \<Longrightarrow> account_row_ok (f r) \<and> ar_uid (f r) = ar_uid r"
  shows "tables_ok (set_accounts f uid T)"
proof -
  have "map ar_uid (map (\<lambda>r. if ar_uid r = uid then f r else r) (t_account T)) = map ar_uid (t_account T)"
    using assms by (simp add: tables_ok_def list_all_iff)
  moreover have "list_all account_row_ok (map (\<lambda>r. if ar_uid r = uid then f r else r) (t_account T))"
    using assms by (auto simp: tables_ok_def list_all_iff)
  ultimately show ?thesis using assms(1) by (simp add: tables_ok_def set_accounts_def del: map_map)
qed

lemma modify_pwd_result:
  assumes env: "env_ok tbl env" and srv: "srv_ok tbl srv" and fd: "0 \<le> fd"
    and w: "word_16 old" "plain old" "word_16 new"
  shows "\<exists>r srv'. res_account_modify_pwd env fd (Some (modify_pwd_doc old new)) srv = Some (reply_result r, srv') \<and>
    srv_ok tbl srv' \<and> srv_sessions srv' = srv_sessions srv \<and>
    (r, srv_tables tbl srv') = modify_pwd_outcome (srv_tables tbl srv) (logged srv) fd old new"
proof -
  let ?T = "srv_tables tbl srv"
  note e = env_okD [OF env] and k = srv_okD [OF srv]
  have cs: "c_string old" "c_string new" "fits 16 old" using w by (simp_all add: word_16_def fits_def)
  obtain r1 r2 where rd: "read_pack (two_keys ''old_pwd'' ''new_pwd'') (Some (modify_pwd_doc old new)) (stack_17, stack_17) =
      Some (old @ NUL # r1, new @ NUL # r2)"
    using read_two_keys [of old new "''old_pwd''" "''new_pwd''"] w by (auto simp: word_16_def modify_pwd_doc_def)
  have v: "c_and [valid_pwd (old @ NUL # r1), valid_pwd (new @ NUL # r2)] = Some True"
    using w by (simp add: valid_pwd_def nonempty_word)
  note def = res_account_modify_pwd_def rd v modify_pwd_outcome_def
  show ?thesis
  proof (cases "old = new \<or> logged srv fd = None")
    case True
    then show ?thesis using ref_fd_cases(1) [OF k(1) fd] srv cs by (auto simp: def cstr_append_NUL simp del: c_and.simps)
  next
    case False
    then obtain s where s: "logged srv fd = Some s" "old \<noteq> new" by auto
    obtain q h where ref: "session_ref_fd fd (srv_sessions srv) = Some (Some q, h)" "session_at h q = Some s"
      "session_dref q h = Some (srv_sessions srv)" using ref_fd_cases(2) [OF k(1) fd s(1)] by blast
    have fit: "fits 16 (sess_uid s)" using k(2) s(1) by (auto simp: uids_fit_def ran_def)
    obtain p1 where p1: "db_account_pwd_check (env_eng env) old old (srv_dbp srv) =
        Some (case account_of ?T old of None \<Rightarrow> 0 | Some r \<Rightarrow> if ar_pwd r = db_encrypt_pwd old then 1 else 0, p1)" "dbp_same (srv_dbp srv) p1"
      using db_account_pwd_check_spec [OF e(1) k(3) cs(3) k(5)] by blast
    have d1: "dbp_db p1 = dbp_db (srv_dbp srv)" "dbp_idle p1" using p1(2) by (simp_all add: dbp_same_def)
    obtain db' where up: "db_account_update_pwd (env_eng env) (sess_uid s) new p1 = Some (1, p1\<lparr>dbp_db := db'\<rparr>)"
      "tbl db' = set_accounts (\<lambda>r. r\<lparr>ar_pwd := db_encrypt_pwd new\<rparr>) (sess_uid s) ?T"
      using db_account_update_spec(1) [OF e(1) d1(2) fit, of new] d1(1) by auto
    have ok: "tables_ok (set_accounts (\<lambda>r. r\<lparr>ar_pwd := db_encrypt_pwd new\<rparr>) (sess_uid s) ?T)"
      by (rule tables_ok_set [OF k(4)]) (simp add: account_row_ok_def fits_def plain_db_encrypt_pwd length_db_encrypt_pwd)
    show ?thesis
      using s ref p1 up ok srv d1 cs
      by (auto simp: def cstr_append_NUL srv_ok_def split: option.splits simp del: c_and.simps)
  qed
qed

text \<open>C31. What a change of password does: the same password is refused, a connection without a session is told so,
  and otherwise the answer depends on whether an account named like the old password has that
  password; if it has, the password of the session's user changes, and if not, the old password counts as
  incorrect. A user with the right old password is refused unless such an account exists.\<close>

theorem modify_pwd_spec:
  assumes "env_ok tbl env" and "srv_ok tbl srv" and "0 \<le> fd" and "word_16 old" "plain old" "word_16 new"
  shows "\<exists>r srv'. res_account_modify_pwd env fd (Some (modify_pwd_doc old new)) srv = Some (reply_result r, srv') \<and>
    srv_ok tbl srv' \<and> srv_sessions srv' = srv_sessions srv \<and>
    (r, srv_tables tbl srv') = modify_pwd_outcome (srv_tables tbl srv) (logged srv) fd old new"
  by (rule modify_pwd_result [OF assms])

theorem modify_pwd_spec_witness:
  "\<exists>srv'. res_account_modify_pwd demo_env 7 (Some (modify_pwd_doc ''pw'' ''new'')) (one_session (root_session 1)) =
    Some (reply_result account_r_old_pwd_incorrect, srv') \<and> srv_tables (\<lambda>T. T) srv' = demo_tables"
proof -
  have "\<exists>r srv'. res_account_modify_pwd demo_env 7 (Some (modify_pwd_doc ''pw'' ''new'')) (one_session (root_session 1)) = Some (reply_result r, srv') \<and>
    srv_ok (\<lambda>T. T) srv' \<and> srv_sessions srv' = srv_sessions (one_session (root_session 1)) \<and>
    (r, srv_tables (\<lambda>T. T) srv') = modify_pwd_outcome (srv_tables (\<lambda>T. T) (one_session (root_session 1))) (logged (one_session (root_session 1))) 7 ''pw'' ''new''"
    by (rule modify_pwd_spec [OF demo_env_ok root_session(1)]) (simp_all add: word_16_def plain_def c_string_def)
  then show ?thesis unfolding root_session(2,3) by (auto simp: modify_pwd_outcome_def demo_accounts(2))
qed

definition modify_basic_doc :: "string \<Rightarrow> string \<Rightarrow> doc" where
  "modify_basic_doc nick comment = [(''nick'', BSON_STRING nick), (''comment'', BSON_STRING comment)]"

definition set_profile :: "string \<Rightarrow> string \<Rightarrow> string \<Rightarrow> tables \<Rightarrow> tables" where
  "set_profile nick comment uid T = set_accounts (\<lambda>r. r\<lparr>ar_comment := comment\<rparr>) uid (set_accounts (\<lambda>r. r\<lparr>ar_nick := nick\<rparr>) uid T)"



section \<open>Deleting accounts\<close>

definition delete_doc :: "string \<Rightarrow> string \<Rightarrow> doc" where
  "delete_doc old uid = [(''old_pwd'', BSON_STRING old), (''uid'', BSON_STRING uid)]"

definition without_account :: "string \<Rightarrow> tables \<Rightarrow> tables" where
  "without_account uid T = T\<lparr>t_account := filter (\<lambda>r. ar_uid r \<noteq> uid) (t_account T)\<rparr>"

definition admins :: "tables \<Rightarrow> nat" where
  "admins T = length (filter (\<lambda>r. ar_type r = account_admin) (t_account T))"

definition right_pwd :: "tables \<Rightarrow> string \<Rightarrow> string \<Rightarrow> bool" where
  "right_pwd T uid pwd \<longleftrightarrow> (case account_of T uid of None \<Rightarrow> False | Some r \<Rightarrow> ar_pwd r = pwd_digest pwd)"

definition delete_outcome :: "tables \<Rightarrow> (int \<rightharpoonup> session) \<Rightarrow> (string \<rightharpoonup> session) \<Rightarrow> int \<Rightarrow> string \<Rightarrow>
    int \<times> tables \<times> (int \<rightharpoonup> session) \<times> (string \<rightharpoonup> session)" where
  "delete_outcome T F K fd uid =
     (case F fd of
        None \<Rightarrow> (account_r_session_expired, T, F, K)
      | Some s \<Rightarrow>
          if sess_uid s = uid then
            if sess_a_type s = account_admin \<and> admins T \<le> 1 then (account_r_cannot_delete_last_admin, T, F, K)
            else (account_r_ok, without_account uid T, F(fd := None), drop_sessions (\<lambda>_ s. sess_uid s = uid) K)
          else if sess_admin s = 0 then (account_r_no_permission, T, F, K)
          else (account_r_ok, without_account uid T, F, K))"

lemma tables_ok_without: "tables_ok T \<Longrightarrow> tables_ok (without_account uid T)"
  by (auto simp: tables_ok_def without_account_def list_all_iff intro: distinct_map_filter)

lemma admins_read:
  assumes "mset l = mset (t_account T)" and "list_all2 account_holds l xs"
  shows "length (filter (\<lambda>a. acc_type a = account_admin) xs) = admins T"
proof -
  have "length (filter (\<lambda>a. acc_type a = account_admin) xs) = length (filter (\<lambda>r. ar_type r = account_admin) l)"
    using assms(2) by (induction rule: list_all2_induct) (auto simp: account_holds_def)
  also have "\<dots> = size (filter_mset (\<lambda>r. ar_type r = account_admin) (mset l))" by (simp flip: mset_filter)
  also have "\<dots> = admins T" unfolding assms(1) admins_def by (simp flip: mset_filter)
  finally show ?thesis .
qed

lemma delete_own:
  assumes srv: "srv_ok tbl srv" and fd: "0 \<le> fd"
  shows "\<exists>n st1 m st2. session_del_fd fd (srv_sessions srv) = Some (n, st1) \<and> session_del_token uid st1 = Some (m, st2) \<and>
    session_ok st2 \<and> fd_session st2 = (logged srv)(fd := None) \<and>
    token_session st2 = drop_sessions (\<lambda>_ s. sess_uid s = uid) (tokens srv) \<and> uids_fit st2"
proof -
  note k = srv_okD [OF srv]
  obtain r st1 where 1: "session_del_fd fd (srv_sessions srv) = Some (r, st1)" "session_ok st1" "fd_session st1 = (logged srv)(fd := None)"
    "token_session st1 = tokens srv" using session_del_fd_spec [OF k(1) fd] by auto
  obtain r' st2 where 2: "session_del_token uid st1 = Some (r', st2)" "session_ok st2" "fd_session st2 = fd_session st1"
    "token_session st2 = drop_sessions (\<lambda>_ s. sess_uid s = uid) (token_session st1)" using session_del_token_spec [OF 1(2), of uid] by blast
  have "ran ((logged srv)(fd := None)) \<subseteq> ran (logged srv)" by (auto simp: ran_def)
  then have "uids_fit st2" using k(2) ran_drop [of "\<lambda>_ s. sess_uid s = uid" "tokens srv"] unfolding uids_fit_def 2(3,4) 1(3,4) by blast
  with 1 2 show ?thesis by auto
qed

lemma delete_read:
  assumes "word_16 old" "word_16 uid"
  shows "\<exists>r1 r2. read_pack (two_keys ''old_pwd'' ''uid'') (Some (delete_doc old uid)) (stack_17, stack_17) = Some (old @ NUL # r1, uid @ NUL # r2) \<and>
    c_and [valid_uid (uid @ NUL # r2), valid_pwd (old @ NUL # r1)] = Some True"
proof -
  obtain r1 r2 where "read_pack (two_keys ''old_pwd'' ''uid'') (Some (delete_doc old uid)) (stack_17, stack_17) = Some (old @ NUL # r1, uid @ NUL # r2)"
    using read_two_keys [of old uid "''old_pwd''" "''uid''"] assms by (auto simp: word_16_def delete_doc_def)
  then show ?thesis using assms by (auto simp: valid_pwd_def valid_uid_def nonempty_word)
qed

lemma delete_data:
  assumes env: "env_ok tbl env" and srv: "srv_ok tbl srv" and p1: "dbp_same (srv_dbp srv) p1" and uid: "fits 16 uid"
  shows "\<exists>xs p2 db1 db2. db_account_get (env_eng env) p1 = Some (int (length (t_account (srv_tables tbl srv))), xs, p2) \<and>
    (if int (length (t_account (srv_tables tbl srv))) \<noteq> 0 then length (filter (\<lambda>a. acc_type a = account_admin) xs) else 0) =
      admins (srv_tables tbl srv) \<and>
    db_account_del (env_eng env) uid p1 = Some (1, p1\<lparr>dbp_db := db1\<rparr>) \<and> tbl db1 = without_account uid (srv_tables tbl srv) \<and>
    db_account_del (env_eng env) uid p2 = Some (1, p2\<lparr>dbp_db := db2\<rparr>) \<and> tbl db2 = without_account uid (srv_tables tbl srv) \<and>
    dbp_same (srv_dbp srv) p2"
proof -
  let ?T = "srv_tables tbl srv"
  note e = env_okD [OF env] and k = srv_okD [OF srv]
  have d1: "dbp_db p1 = dbp_db (srv_dbp srv)" "dbp_idle p1" using p1 by (simp_all add: dbp_same_def)
  obtain p2 l xs where p2: "db_account_get (env_eng env) p1 = Some (int (length (t_account ?T)), xs, p2)" "dbp_same p1 p2"
    "mset l = mset (t_account ?T)" "list_all2 account_holds l xs"
    using db_account_get_spec [OF e(1) d1(2)] k(4) d1(1) by auto
  have d2: "dbp_db p2 = dbp_db (srv_dbp srv)" "dbp_idle p2" using p2(2) d1 by (simp_all add: dbp_same_def)
  have c: "(if int (length (t_account ?T)) \<noteq> 0 then length (filter (\<lambda>a. acc_type a = account_admin) xs) else 0) = admins ?T"
    using admins_read [OF p2(3,4)] by (auto simp: admins_def)
  obtain db1 where del1: "db_account_del (env_eng env) uid p1 = Some (1, p1\<lparr>dbp_db := db1\<rparr>)" "tbl db1 = without_account uid ?T"
    using db_account_del_spec [OF e(1) d1(2) uid] d1(1) by (auto simp: without_account_def)
  obtain db2 where del2: "db_account_del (env_eng env) uid p2 = Some (1, p2\<lparr>dbp_db := db2\<rparr>)" "tbl db2 = without_account uid ?T"
    using db_account_del_spec [OF e(1) d2(2) uid] d2(1) by (auto simp: without_account_def)
  show ?thesis using p2(1) c del1 del2 dbp_same_trans [OF p1 p2(2)] by blast
qed

text \<open>Deleting an account: with the right password of the session's user, the own account goes with its session
  and its tokens, unless it is the last administrator's, which is kept; another account goes only for a
  session with the flag \<open>admin\<close>. With a wrong password nothing changes, but the lock of the sessions
  is kept for ever.\<close>

theorem delete_spec:
  assumes env: "env_ok tbl env" and srv: "srv_ok tbl srv" and fd: "0 \<le> fd"
    and w: "word_16 old" "word_16 uid" "plain uid"
  shows "\<exists>r srv'. res_account_delete env fd (Some (delete_doc old uid)) srv = Some (reply_result r, srv') \<and>
    (if \<exists>s. logged srv fd = Some s \<and> \<not> right_pwd (srv_tables tbl srv) (sess_uid s) old
     then r = account_r_old_pwd_incorrect \<and> srv_tables tbl srv' = srv_tables tbl srv \<and>
       (\<forall>fd'. logged srv fd' \<noteq> None \<longrightarrow> session_ref_fd fd' (srv_sessions srv') = None)
     else srv_ok tbl srv' \<and>
       (r, srv_tables tbl srv', logged srv', tokens srv') = delete_outcome (srv_tables tbl srv) (logged srv) (tokens srv) fd uid)"
proof -
  let ?T = "srv_tables tbl srv"
  note e = env_okD [OF env] and k = srv_okD [OF srv]
  have cs: "c_string old" "c_string uid" "fits 16 uid" using w by (simp_all add: word_16_def fits_def)
  obtain r1 r2 where rd: "read_pack (two_keys ''old_pwd'' ''uid'') (Some (delete_doc old uid)) (stack_17, stack_17) = Some (old @ NUL # r1, uid @ NUL # r2)"
    "c_and [valid_uid (uid @ NUL # r2), valid_pwd (old @ NUL # r1)] = Some True"
    using delete_read [OF w(1,2)] by blast
  note def = res_account_delete_def rd cstr_append_NUL [OF cs(1)] cstr_append_NUL [OF cs(2)]
  show ?thesis
  proof (cases "logged srv fd")
    case None
    then show ?thesis using ref_fd_cases(1) [OF k(1) fd] srv by (simp add: def delete_outcome_def del: c_and.simps)
  next
    case (Some s)
    obtain q h where ref: "session_ref_fd fd (srv_sessions srv) = Some (Some q, h)" "session_at h q = Some s"
      "session_dref q h = Some (srv_sessions srv)" using ref_fd_cases(2) [OF k(1) fd Some] by blast
    have fit: "fits 16 (sess_uid s)" using k(2) Some by (auto simp: uids_fit_def ran_def)
    obtain p1 where p1: "db_account_pwd_check (env_eng env) (sess_uid s) old (srv_dbp srv) =
        Some (if right_pwd ?T (sess_uid s) old then 1 else 0, p1)" "dbp_same (srv_dbp srv) p1"
      using db_account_pwd_check_spec [OF e(1) k(3) fit k(5), of old] by (auto simp: right_pwd_def split: option.splits)
    have d1: "dbp_db p1 = dbp_db (srv_dbp srv)" "dbp_idle p1" using p1(2) by (simp_all add: dbp_same_def)
    have b: "session_ref_fd fd' h = None" if "logged srv fd' \<noteq> None" for fd'
      using that fd_session_iff [OF k(1)] by (intro held_blocks [OF ref(1)]) auto
    obtain xs p2 db1 db2 where p2: "db_account_get (env_eng env) p1 = Some (int (length (t_account ?T)), xs, p2)" "dbp_same (srv_dbp srv) p2"
      and c: "(if int (length (t_account ?T)) \<noteq> 0 then length (filter (\<lambda>a. acc_type a = account_admin) xs) else 0) = admins ?T"
      and del1: "db_account_del (env_eng env) uid p1 = Some (1, p1\<lparr>dbp_db := db1\<rparr>)" "tbl db1 = without_account uid ?T"
      and del2: "db_account_del (env_eng env) uid p2 = Some (1, p2\<lparr>dbp_db := db2\<rparr>)" "tbl db2 = without_account uid ?T"
      using delete_data [OF env srv p1(2) cs(3)] by blast
    have d2: "dbp_db p2 = dbp_db (srv_dbp srv)" "dbp_idle p2" using p2(2) by (simp_all add: dbp_same_def)
    obtain st1 st2 n m where st: "session_del_fd fd (srv_sessions srv) = Some (n, st1)" "session_del_token uid st1 = Some (m, st2)"
      "session_ok st2" "fd_session st2 = (logged srv)(fd := None)" "token_session st2 = drop_sessions (\<lambda>_ s. sess_uid s = uid) (tokens srv)" "uids_fit st2"
      using delete_own [OF srv fd, of uid] by blast
    note ok = tables_ok_without [OF k(4)]
    show ?thesis
    proof (cases "right_pwd ?T (sess_uid s) old")
      case False
      then show ?thesis using Some ref p1 b d1 by (simp add: def del: c_and.simps)
    next
      case True
      show ?thesis
      proof (cases "sess_uid s = uid")
        case own: True
        show ?thesis
          using Some ref True own p1(1) p2(1) c del1 del2 st ok srv d1 d2
          by (cases "sess_a_type s = account_admin")
            (simp_all add: def delete_outcome_def srv_ok_def Let_def del: c_and.simps split: if_splits)
      next
        case False
        show ?thesis
          using Some ref True False p1(1) del1 ok srv d1
          by (simp add: def delete_outcome_def srv_ok_def del: c_and.simps)
      qed
    qed
  qed
qed

theorem delete_spec_witness:
  "\<exists>srv'. res_account_delete demo_env 7 (Some (delete_doc ''pw'' ''root'')) (one_session (root_session 0)) =
    Some (reply_result account_r_cannot_delete_last_admin, srv') \<and> srv_tables (\<lambda>T. T) srv' = demo_tables"
proof -
  let ?srv = "one_session (root_session 0)"
  have s: "sess_uid (root_session 0) = ''root''" "sess_a_type (root_session 0) = 0" by (simp_all add: root_session_def demo_session_def)
  have r: "right_pwd demo_tables ''root'' ''pw''" unfolding right_pwd_def demo_accounts by (simp add: demo_row_def)
  have a: "admins demo_tables = 1" by (simp add: admins_def demo_tables_def demo_row_def)
  have "\<exists>r srv'. res_account_delete demo_env 7 (Some (delete_doc ''pw'' ''root'')) ?srv = Some (reply_result r, srv') \<and>
    (if \<exists>s. logged ?srv 7 = Some s \<and> \<not> right_pwd (srv_tables (\<lambda>T. T) ?srv) (sess_uid s) ''pw''
     then r = account_r_old_pwd_incorrect \<and> srv_tables (\<lambda>T. T) srv' = srv_tables (\<lambda>T. T) ?srv \<and>
       (\<forall>fd'. logged ?srv fd' \<noteq> None \<longrightarrow> session_ref_fd fd' (srv_sessions srv') = None)
     else srv_ok (\<lambda>T. T) srv' \<and>
       (r, srv_tables (\<lambda>T. T) srv', logged srv', tokens srv') = delete_outcome (srv_tables (\<lambda>T. T) ?srv) (logged ?srv) (tokens ?srv) 7 ''root'')"
    by (rule delete_spec [OF demo_env_ok root_session(1)]) (simp_all add: word_16_def plain_def c_string_def)
  then show ?thesis unfolding root_session(2-4) using s r a by (auto simp: delete_outcome_def)
qed

section \<open>The list of accounts\<close>

lemma accounts_listed:
  assumes env: "env_ok tbl env" and srv: "srv_ok tbl srv" and fd: "0 \<le> fd"
  shows "\<exists>reply srv'. res_account_list env fd pack srv = Some (reply, srv') \<and> srv_ok tbl srv' \<and>
    srv_sessions srv' = srv_sessions srv \<and> dbp_db (srv_dbp srv') = dbp_db (srv_dbp srv) \<and>
    (if permitted (logged srv) fd (\<lambda>t. t = account_admin)
     then \<exists>l. mset l = mset (t_account (srv_tables tbl srv)) \<and> pk_doc reply = list_doc ''account'' ''account_one'' (map account_object l)
     else reply = reply_result dish_r_no_permission)"
  using check_permission_spec [OF srv_okD(1) [OF srv] fd, of "\<lambda>t. t = account_admin"] accounts.listing [OF TrueI env srv, of "''account''"] srv
  by (auto simp: res_account_list_def)

text \<open>The list of accounts is for administrators, and gives every account exactly once, without its password.\<close>

theorem account_list_spec:
  assumes env: "env_ok tbl env" and srv: "srv_ok tbl srv" and fd: "0 \<le> fd"
  shows "\<exists>reply srv'. res_account_list env fd pack srv = Some (reply, srv') \<and> srv_ok tbl srv' \<and>
    srv_sessions srv' = srv_sessions srv \<and> dbp_db (srv_dbp srv') = dbp_db (srv_dbp srv) \<and>
    (if permitted (logged srv) fd (\<lambda>t. t = account_admin)
     then \<exists>l. mset l = mset (t_account (srv_tables tbl srv)) \<and> pk_doc reply = list_doc ''account'' ''account_one'' (map account_object l)
     else reply = reply_result dish_r_no_permission)"
  by (rule accounts_listed [OF assms])

theorem account_list_spec_witness:
  "\<exists>reply srv'. res_account_list demo_env 7 None (one_session (root_session 0)) = Some (reply, srv') \<and>
    pk_doc reply = list_doc ''account'' ''account_one'' [account_object (demo_row ''root'' 0 ''pw'')]"
proof -
  have "permitted [7 \<mapsto> root_session 0] 7 (\<lambda>t. t = account_admin)" by (simp add: permitted_def root_session_def)
  with account_list_spec [OF demo_env_ok root_session(1) [of 0], of 7 None] obtain reply srv' l where
    r: "res_account_list demo_env 7 None (one_session (root_session 0)) = Some (reply, srv')"
    "mset l = mset (t_account demo_tables)" "pk_doc reply = list_doc ''account'' ''account_one'' (map account_object l)"
    unfolding root_session(2,3) by auto
  from r(2) have "l = [demo_row ''root'' 0 ''pw'']" by (simp add: demo_tables_def)
  with r show ?thesis by simp
qed

end
