(* ===== verification/YM_Menu.thy ===== *)
theory YM_Menu
  imports YM_Account
begin

text \<open>
  The other handlers of the server: the menu (\<open>src/server/res_dish.c\<close>), the seats (\<open>res_seat.c\<close>), the kitchen
  (\<open>res_cook.c\<close>) and the platform (\<open>res_platform.c\<close>), in the shape of the account handlers.
\<close>

abbreviation "account_menu \<equiv> (1 :: int)"
abbreviation "account_cook \<equiv> (2 :: int)"

abbreviation "dish_r_seat_id_invalid \<equiv> (3 :: int)"
abbreviation "dish_r_dish_id_invalid \<equiv> (4 :: int)"
abbreviation "dish_r_illegal_parameter \<equiv> (6 :: int)"
abbreviation "dish_r_service_unavailable \<equiv> (7 :: int)"

abbreviation "cook_r_ok \<equiv> (0 :: int)"
abbreviation "cook_r_seat_id_invalid \<equiv> (1 :: int)"
abbreviation "cook_r_dish_id_invalid \<equiv> (2 :: int)"
abbreviation "cook_r_no_permission \<equiv> (5 :: int)"
abbreviation "cook_r_illegal_parameter \<equiv> (6 :: int)"

definition menu_user :: "int \<Rightarrow> bool" where
  "menu_user t \<longleftrightarrow> t = account_menu \<or> t = account_admin"

text \<open>One integer under one key.\<close>

definition int_key :: "c_fp \<Rightarrow> string \<Rightarrow> string \<Rightarrow> bson \<Rightarrow> int \<Rightarrow> int option" where
  "int_key fp k key v i = Some (if key = k then ep_pack_iterator_int fp v else i)"

section \<open>Dishes\<close>

definition append_dish :: "dish \<Rightarrow> ep_pack \<Rightarrow> ep_pack option" where
  "append_dish d pack = do {
     name \<leftarrow> cstr (dish_name d);
     summary \<leftarrow> cstr (dish_summary d);
     let pack = ep_pack_append_start_object ''dish_one'' pack;
     let pack = ep_pack_append_int ''id'' (dish_id d) pack;
     let pack = ep_pack_append_int ''category'' (dish_category d) pack;
     let pack = ep_pack_append_string ''name'' name pack;
     let pack = ep_pack_append_string ''summary'' summary pack;
     let pack = ep_pack_append_int ''price_type'' (dish_price_type d) pack;
     let pack = ep_pack_append_int ''price'' (dish_price d) pack;
     Some (ep_pack_append_finish_object pack)
   }"

definition res_dish_fetch :: "'db env \<Rightarrow> int \<Rightarrow> doc option \<Rightarrow> 'db server \<Rightarrow> (ep_pack \<times> 'db server) option" where
  "res_dish_fetch env fd pack srv = do {
     (ok, st) \<leftarrow> check_permission fd menu_user (srv_sessions srv);
     if \<not> ok then Some (reply_result dish_r_no_permission, srv\<lparr>srv_sessions := st\<rparr>)
     else do {
       category \<leftarrow> read_pack (int_key (env_fp env) ''category'') pack 0;
       (n, dishes, p) \<leftarrow> db_dish_get_by_category (env_eng env) category True (srv_dbp srv);
       reply \<leftarrow> reply_list ''dish'' append_dish n dishes;
       Some (reply, srv\<lparr>srv_sessions := st, srv_dbp := p\<rparr>)
     }
   }"

record book_in =
  bi_seat :: int
  bi_dish :: int
  bi_jin :: c_double
  bi_comment :: "char list"

definition book_key :: "c_fp \<Rightarrow> string \<Rightarrow> bson \<Rightarrow> book_in \<Rightarrow> book_in option" where
  "book_key fp key v b =
     (if key = ''seat_id'' then Some (b\<lparr>bi_seat := ep_pack_iterator_int fp v\<rparr>)
      else if key = ''dish_id'' then Some (b\<lparr>bi_dish := ep_pack_iterator_int fp v\<rparr>)
      else if key = ''jin_or_plate'' then Some (b\<lparr>bi_jin := fp_narrow fp (ep_pack_iterator_double fp v)\<rparr>)
      else if key = ''comment'' then Some (b\<lparr>bi_comment := take_string (bi_comment b) v\<rparr>)
      else Some b)"

text \<open>\<open>fp_positive d\<close> is the negation of the comparison \<open>d <= 0\<close>. The comment is copied without its terminator into
  the uninitialised array \<open>env_chars\<close> of the struct.\<close>

definition res_dish_book :: "'db env \<Rightarrow> int \<Rightarrow> doc option \<Rightarrow> 'db server \<Rightarrow> (ep_pack \<times> 'db server) option" where
  "res_dish_book env fd pack srv = do {
     (ok, st) \<leftarrow> check_permission fd menu_user (srv_sessions srv);
     let srv = srv\<lparr>srv_sessions := st\<rparr>;
     if \<not> ok then Some (reply_result dish_r_no_permission, srv)
     else do {
       b \<leftarrow> read_pack (book_key (env_fp env)) pack
              \<lparr>bi_seat = - 1, bi_dish = - 1, bi_jin = fp_narrow (env_fp env) (fp_of_int (env_fp env) (- 1)), bi_comment = NUL # replicate 255 undefined\<rparr>;
       if bi_seat b < 0 \<or> bi_dish b < 0 \<or> \<not> fp_positive (env_fp env) (bi_jin b) then Some (reply_result dish_r_illegal_parameter, srv)
       else do {
         (r, _, p) \<leftarrow> db_dish_get_one (env_eng env) (bi_dish b) None (srv_dbp srv);
         if r = 0 then Some (reply_result dish_r_dish_id_invalid, srv\<lparr>srv_dbp := p\<rparr>)
         else do {
           (r, _, p) \<leftarrow> db_seat_get_one (env_eng env) (bi_seat b) None p;
           if r = 0 then Some (reply_result dish_r_seat_id_invalid, srv\<lparr>srv_dbp := p\<rparr>)
           else do {
             comment \<leftarrow> cstr (bi_comment b);
             let book = \<lparr>book_id = undefined, book_seat_id = bi_seat b, book_dish_id = bi_dish b, book_jin_or_plate = bi_jin b,
                         book_comment = c_strncpy (env_chars env) comment (length comment), book_accept_state = 0\<rparr>;
             (r, p) \<leftarrow> db_book_add (env_fp env) (env_eng env) book p;
             Some (reply_result (if r = 0 then dish_r_service_unavailable else dish_r_ok), srv\<lparr>srv_dbp := p\<rparr>)
           }
         }
       }
     }
   }"

text \<open>The key of the deleted row is the number of the seat.\<close>

definition res_dish_cancel :: "'db env \<Rightarrow> int \<Rightarrow> doc option \<Rightarrow> 'db server \<Rightarrow> (ep_pack \<times> 'db server) option" where
  "res_dish_cancel env fd pack srv = do {
     (ok, st) \<leftarrow> check_permission fd menu_user (srv_sessions srv);
     let srv = srv\<lparr>srv_sessions := st\<rparr>;
     if \<not> ok then Some (reply_result dish_r_no_permission, srv)
     else do {
       seat \<leftarrow> read_pack (int_key (env_fp env) ''seat_id'') pack (- 1);
       if seat < 0 then Some (reply_result dish_r_illegal_parameter, srv)
       else do {
         (r, _, p) \<leftarrow> db_seat_get_one (env_eng env) seat None (srv_dbp srv);
         if r = 0 then Some (reply_result dish_r_seat_id_invalid, srv\<lparr>srv_dbp := p\<rparr>)
         else do {
           (r, p) \<leftarrow> db_book_del (env_eng env) seat p;
           Some (reply_result (if r = 0 then dish_r_service_unavailable else dish_r_ok), srv\<lparr>srv_dbp := p\<rparr>)
         }
       }
     }
   }"

definition append_book :: "book \<Rightarrow> ep_pack \<Rightarrow> ep_pack option" where
  "append_book b pack = do {
     comment \<leftarrow> cstr (book_comment b);
     let pack = ep_pack_append_start_object ''book_one'' pack;
     let pack = ep_pack_append_int ''book_id'' (book_id b) pack;
     let pack = ep_pack_append_int ''seat_id'' (book_seat_id b) pack;
     let pack = ep_pack_append_int ''dish_id'' (book_dish_id b) pack;
     let pack = ep_pack_append_double ''jin_or_plate'' (book_jin_or_plate b) pack;
     let pack = ep_pack_append_string ''comment'' comment pack;
     let pack = ep_pack_append_int ''accept_state'' (book_accept_state b) pack;
     Some (ep_pack_append_finish_object pack)
   }"

definition res_dish_list :: "'db env \<Rightarrow> int \<Rightarrow> doc option \<Rightarrow> 'db server \<Rightarrow> (ep_pack \<times> 'db server) option" where
  "res_dish_list env fd pack srv = do {
     (ok, st) \<leftarrow> check_permission fd menu_user (srv_sessions srv);
     let srv = srv\<lparr>srv_sessions := st\<rparr>;
     if \<not> ok then Some (reply_result dish_r_no_permission, srv)
     else do {
       seat \<leftarrow> read_pack (int_key (env_fp env) ''seat_id'') pack (- 1);
       if seat < 0 then Some (reply_result dish_r_illegal_parameter, srv)
       else do {
         (r, _, p) \<leftarrow> db_seat_get_one (env_eng env) seat None (srv_dbp srv);
         if r = 0 then Some (reply_result dish_r_seat_id_invalid, srv\<lparr>srv_dbp := p\<rparr>)
         else do {
           (n, books, p) \<leftarrow> db_book_get (env_fp env) (env_eng env) seat p;
           reply \<leftarrow> reply_list ''book'' append_book n books;
           Some (reply, srv\<lparr>srv_dbp := p\<rparr>)
         }
       }
     }
   }"

section \<open>Seats\<close>

definition append_seat :: "seat \<Rightarrow> ep_pack \<Rightarrow> ep_pack option" where
  "append_seat s pack = do {
     summary \<leftarrow> cstr (seat_summary s);
     qrcode \<leftarrow> cstr (seat_qrcode s);
     let pack = ep_pack_append_start_object ''seat_one'' pack;
     let pack = ep_pack_append_int ''id'' (seat_id s) pack;
     let pack = ep_pack_append_string ''summary'' summary pack;
     let pack = ep_pack_append_string ''qrcode'' qrcode pack;
     Some (ep_pack_append_finish_object pack)
   }"

definition res_seat_list :: "'db env \<Rightarrow> int \<Rightarrow> doc option \<Rightarrow> 'db server \<Rightarrow> (ep_pack \<times> 'db server) option" where
  "res_seat_list env fd pack srv = do {
     (ok, st) \<leftarrow> check_permission fd (\<lambda>t. True) (srv_sessions srv);
     if \<not> ok then Some (reply_result dish_r_no_permission, srv\<lparr>srv_sessions := st\<rparr>)
     else do {
       (n, seats, p) \<leftarrow> db_seat_get (env_eng env) (srv_dbp srv);
       reply \<leftarrow> reply_list ''seat'' append_seat n seats;
       Some (reply, srv\<lparr>srv_sessions := st, srv_dbp := p\<rparr>)
     }
   }"

section \<open>Kitchen\<close>

record cook_in =
  ci_seat :: int
  ci_cook :: int
  ci_number :: int

text \<open>The key \<open>cook_id\<close> sets the seat.\<close>

definition cook_key :: "c_fp \<Rightarrow> string \<Rightarrow> bson \<Rightarrow> cook_in \<Rightarrow> cook_in option" where
  "cook_key fp key v c =
     (if key = ''seat_id'' then Some (c\<lparr>ci_seat := ep_pack_iterator_int fp v\<rparr>)
      else if key = ''cook_id'' then Some (c\<lparr>ci_seat := ep_pack_iterator_int fp v\<rparr>)
      else if key = ''number'' then Some (c\<lparr>ci_number := ep_pack_iterator_int fp v\<rparr>)
      else Some c)"

definition res_cook_accept :: "'db env \<Rightarrow> int \<Rightarrow> doc option \<Rightarrow> 'db server \<Rightarrow> (ep_pack \<times> 'db server) option" where
  "res_cook_accept env fd pack srv = do {
     (r, st) \<leftarrow> session_ref_fd fd (srv_sessions srv);
     (case r of
        None \<Rightarrow> Some (reply_result cook_r_ok, srv\<lparr>srv_sessions := st\<rparr>)
      | Some q \<Rightarrow> do {
          s \<leftarrow> session_at st q;
          st \<leftarrow> session_dref q st;
          let srv = srv\<lparr>srv_sessions := st\<rparr>;
          if sess_a_type s \<noteq> account_cook \<and> sess_a_type s \<noteq> account_admin then Some (reply_result cook_r_no_permission, srv)
          else do {
            c \<leftarrow> read_pack (cook_key (env_fp env)) pack \<lparr>ci_seat = - 1, ci_cook = - 1, ci_number = - 1\<rparr>;
            if ci_seat c < 0 \<or> ci_cook c < 0 \<or> ci_number c < 0 then Some (reply_result cook_r_illegal_parameter, srv)
            else do {
              (r, _, p) \<leftarrow> db_dish_get_one (env_eng env) (ci_cook c) None (srv_dbp srv);
              if r = 0 then Some (reply_result cook_r_dish_id_invalid, srv\<lparr>srv_dbp := p\<rparr>)
              else do {
                (r, _, p) \<leftarrow> db_seat_get_one (env_eng env) (ci_seat c) None p;
                Some (reply_result (if r = 0 then cook_r_seat_id_invalid else cook_r_ok), srv\<lparr>srv_dbp := p\<rparr>)
              }
            }
          }
        })
   }"

section \<open>Platform\<close>

definition valid_pid :: "int \<Rightarrow> bool" where
  "valid_pid pid \<longleftrightarrow> 0 \<le> pid \<and> pid \<le> 6"

definition version_key :: "c_fp \<Rightarrow> string \<Rightarrow> bson \<Rightarrow> int \<times> int \<Rightarrow> (int \<times> int) option" where
  "version_key fp key v s =
     (if key = ''pid'' then Some (ep_pack_iterator_int fp v, snd s)
      else if key = ''cur_ver_id'' then Some (fst s, ep_pack_iterator_int fp v)
      else Some s)"

definition res_version_check :: "'db env \<Rightarrow> int \<Rightarrow> doc option \<Rightarrow> 'db server \<Rightarrow> (ep_pack \<times> 'db server) option" where
  "res_version_check env fd pack srv = do {
     (pid, ver) \<leftarrow> read_pack (version_key (env_fp env)) pack (- 1, - 1);
     if ver = - 1 \<or> \<not> valid_pid pid then Some (reply_result 3, srv)
     else
       let pack = reply_result 0;
           pack = ep_pack_append_int ''new_ver_id'' 1 pack;
           pack = ep_pack_append_string ''new_ver_string'' ''no need update current.'' pack;
           pack = ep_pack_append_string ''url'' ''www.honeysense.com'' pack;
           pack = ep_pack_append_string ''update_logs'' ''www.honeysense.com'' pack
       in Some (pack, srv)
   }"

definition res_heartbeat :: "'db env \<Rightarrow> int \<Rightarrow> doc option \<Rightarrow> 'db server \<Rightarrow> (ep_pack \<times> 'db server) option" where
  "res_heartbeat env fd pack srv = do {
     (r, st) \<leftarrow> session_ref_fd fd (srv_sessions srv);
     (case r of
        None \<Rightarrow> Some (reply_result 0, srv\<lparr>srv_sessions := st\<rparr>)
      | Some q \<Rightarrow> do {
          st \<leftarrow> session_dref q (session_set q (\<lambda>s. s\<lparr>sess_heatbeat := env_now env\<rparr>) st);
          Some (reply_result 1, srv\<lparr>srv_sessions := st\<rparr>)
        })
   }"

end
