(* ===== verification/YM_MenuSpec.thy ===== *)
theory YM_MenuSpec
  imports YM_AccountSpec YM_Menu
begin

text \<open>
  The outcomes of the handlers of \<open>YM_Menu\<close>: the menu and the seats as lists, bookings and their cancellation, the
  kitchen.
\<close>

section \<open>Integers of a request\<close>

text \<open>The value of the last element with the key, of those the loop of a handler sees.\<close>

definition int_field :: "c_fp \<Rightarrow> string \<Rightarrow> int \<Rightarrow> doc option \<Rightarrow> int" where
  "int_field fp k dflt pack =
     (case pack of
        None \<Rightarrow> dflt
      | Some d \<Rightarrow> fold (\<lambda>(key, v) i. if key = k then ep_pack_iterator_int fp v else i) (pack_items d) dflt)"

definition int_32 :: "int \<Rightarrow> bool" where
  "int_32 i \<longleftrightarrow> - (2 ^ 31) \<le> i \<and> i < 2 ^ 31"

lemma ofold_total: "(\<And>x s. f x s = Some (g x s)) \<Longrightarrow> ofold f xs s = Some (fold g xs s)"
  by (induction xs arbitrary: s) simp_all

lemma read_int: "read_pack (int_key fp k) pack dflt = Some (int_field fp k dflt pack)"
proof -
  have "ofold (\<lambda>(key, v). int_key fp k key v) d i = Some (fold (\<lambda>(key, v) i. if key = k then ep_pack_iterator_int fp v else i) d i)" for d i
    by (rule ofold_total) (simp add: int_key_def split: prod.split)
  then show ?thesis by (simp add: read_pack_def int_field_def pack_loop_items split: option.split)
qed

section \<open>Dishes and seats as lists\<close>

definition dish_holds :: "dish_row \<Rightarrow> dish \<Rightarrow> bool" where
  "dish_holds r d \<longleftrightarrow> dish_id d = dr_id r \<and> dish_category d = dr_category r \<and> cstr (dish_name d) = Some (dr_name r) \<and>
     cstr (dish_summary d) = Some (dr_summary r) \<and> cstr (dish_thumbnail d) = Some (dr_thumbnail r) \<and>
     dish_price_type d = dr_price_type r \<and> dish_price d = dr_price r"

definition dish_object :: "dish_row \<Rightarrow> bson" where
  "dish_object r = BSON_OBJECT [(''id'', BSON_INT (dr_id r)), (''category'', BSON_INT (dr_category r)), (''name'', BSON_STRING (dr_name r)),
     (''summary'', BSON_STRING (dr_summary r)), (''price_type'', BSON_INT (dr_price_type r)), (''price'', BSON_INT (dr_price r))]"

lemma dish_store_row:
  assumes "dish_row_ok r"
  shows "\<exists>cells d. dbp_cells (dish_cols r) = Some cells \<and> dish_store cells dish_zero = Some d \<and> dish_holds r d"
proof -
  have f: "fits 64 (dr_name r)" "fits 256 (dr_summary r)" "fits 64 (dr_thumbnail r)" "NUL \<notin> set (dr_created r)"
    using assms by (simp_all add: dish_row_ok_def)
  have c: "dbp_cells (dish_cols r) = Some (map (\<lambda>s. \<lparr>cell_data = s, cell_length = length s\<rparr>)
      [c_int_str (dr_id r), c_int_str (dr_category r), dr_name r, dr_summary r, dr_thumbnail r,
       c_int_str (dr_price_type r), c_int_str (dr_price r), dr_created r])"
    unfolding dish_cols_def by (intro dbp_cells_texts) (simp add: f fits_NUL [OF f(1)] fits_NUL [OF f(2)] fits_NUL [OF f(3)] int_str_NUL)
  have l: "64 < length (dish_name dish_zero)" "256 < length (dish_summary dish_zero)" "64 < length (dish_thumbnail dish_zero)"
    by (simp_all add: dish_zero_def)
  from column_copy_cstr [OF f(1) l(1)] column_copy_cstr [OF f(2) l(2)] column_copy_cstr [OF f(3) l(3)]
  show ?thesis by (auto simp: c dish_store_def cell_at_def dish_holds_def)
qed

definition in_category :: "int \<Rightarrow> tables \<Rightarrow> dish_row list" where
  "in_category c T = filter (\<lambda>r. dr_category r = c) (t_dish T)"

interpretation dishes: row_listing int_32 "\<lambda>c env. db_dish_get_by_category (env_eng env) c True" in_category dish_holds append_dish "''dish_one''" dish_object
proof unfold_locales
  show "\<exists>p' l xs. db_dish_get_by_category (env_eng env) c True p = Some (int (length (in_category c (tbl (dbp_db p)))), xs, p') \<and> dbp_same p p' \<and>
      mset l = mset (in_category c (tbl (dbp_db p))) \<and> list_all2 dish_holds l xs"
    if i: "int_32 c" "env_ok tbl env" "dbp_idle p" "tables_ok (tbl (dbp_db p))" for c tbl and env :: "'a env" and p
  proof -
    have len: "length (''SELECT count(*) as count FROM t_db_dish WHERE category='' @ c_int_str c) < 4096"
      "length (''SELECT * FROM t_db_dish WHERE category='' @ c_int_str c) < 4096"
      using i(1) unfolding int_32_def by (intro int_text_length; simp)+
    have law: "count_is (sql_rows (env_eng env) (dbp_db p) (''SELECT count(*) as count FROM t_db_dish WHERE category='' @ c_int_str c))
        (length (in_category c (tbl (dbp_db p))))"
      "rows_are (sql_rows (env_eng env) (dbp_db p) (''SELECT * FROM t_db_dish WHERE category='' @ c_int_str c)) dish_cols (in_category c (tbl (dbp_db p)))"
      using env_okD(3) [OF i(2)] unfolding menu_laws_def in_category_def by blast+
    have ok: "dish_row_ok r" if "r \<in> set (in_category c (tbl (dbp_db p)))" for r
      using that i(4) by (simp add: in_category_def tables_ok_def list_all_iff)
    have "length (dish_cols r) = 8" for r by (simp add: dish_cols_def)
    then show ?thesis
      using db_list_spec [OF i(3) law len, of dish_store dish_zero dish_holds 8] dish_store_row [OF ok]
      unfolding db_dish_get_by_category_def if_True by blast
  qed
qed (simp add: append_dish_def dish_holds_def dish_object_def pack_simps)

definition seat_holds :: "seat_row \<Rightarrow> seat \<Rightarrow> bool" where
  "seat_holds r s \<longleftrightarrow> seat_id s = sr_id r \<and> cstr (seat_summary s) = Some (sr_summary r) \<and> cstr (seat_qrcode s) = Some (sr_qrcode r)"

definition seat_object :: "seat_row \<Rightarrow> bson" where
  "seat_object r = BSON_OBJECT [(''id'', BSON_INT (sr_id r)), (''summary'', BSON_STRING (sr_summary r)), (''qrcode'', BSON_STRING (sr_qrcode r))]"

lemma seat_store_row:
  assumes "seat_row_ok r"
  shows "\<exists>cells s. dbp_cells (seat_cols r) = Some cells \<and> seat_store cells seat_uninit = Some s \<and> seat_holds r s"
proof -
  have f: "fits 256 (sr_summary r)" "fits 64 (sr_qrcode r)" using assms by (simp_all add: seat_row_ok_def)
  have c: "dbp_cells (seat_cols r) = Some (map (\<lambda>s. \<lparr>cell_data = s, cell_length = length s\<rparr>) [c_int_str (sr_id r), sr_summary r, sr_qrcode r])"
    unfolding seat_cols_def by (intro dbp_cells_texts) (simp add: fits_NUL [OF f(1)] fits_NUL [OF f(2)] int_str_NUL)
  have l: "256 < length (seat_summary seat_uninit)" "64 < length (seat_qrcode seat_uninit)" by (simp_all add: seat_uninit_def)
  from column_copy_cstr [OF f(1) l(1)] column_copy_cstr [OF f(2) l(2)]
  show ?thesis by (auto simp: c seat_store_def cell_at_def seat_holds_def)
qed

interpretation seats: row_listing "\<lambda>_. True" "\<lambda>_ :: unit. \<lambda>env. db_seat_get (env_eng env)" "\<lambda>_. t_seat" seat_holds append_seat "''seat_one''" seat_object
proof unfold_locales
  show "\<exists>p' l xs. db_seat_get (env_eng env) p = Some (int (length (t_seat (tbl (dbp_db p)))), xs, p') \<and> dbp_same p p' \<and>
      mset l = mset (t_seat (tbl (dbp_db p))) \<and> list_all2 seat_holds l xs"
    if i: "env_ok tbl env" "dbp_idle p" "tables_ok (tbl (dbp_db p))" for tbl and env :: "'a env" and p
  proof -
    have law: "count_is (sql_rows (env_eng env) (dbp_db p) ''SELECT count(*) as count FROM t_db_seat'') (length (t_seat (tbl (dbp_db p))))"
      "rows_are (sql_rows (env_eng env) (dbp_db p) ''SELECT * FROM t_db_seat'') seat_cols (t_seat (tbl (dbp_db p)))"
      using env_okD(3) [OF i(1)] unfolding menu_laws_def by blast+
    have ok: "seat_row_ok r" if "r \<in> set (t_seat (tbl (dbp_db p)))" for r
      using that i(3) by (simp add: tables_ok_def list_all_iff)
    have "length (seat_cols r) = 3" for r by (simp add: seat_cols_def)
    then show ?thesis unfolding db_seat_get_def
      using seat_store_row [OF ok] by (intro db_list_spec [OF i(2) law]) simp_all
  qed
qed (simp add: append_seat_def seat_holds_def seat_object_def pack_simps)

lemma dish_fetched:
  assumes env: "env_ok tbl env" and srv: "srv_ok tbl srv" and fd: "0 \<le> fd" and c: "int_32 (int_field (env_fp env) ''category'' 0 pack)"
  shows "\<exists>reply srv'. res_dish_fetch env fd pack srv = Some (reply, srv') \<and> srv_ok tbl srv' \<and>
    srv_sessions srv' = srv_sessions srv \<and> dbp_db (srv_dbp srv') = dbp_db (srv_dbp srv) \<and>
    (if permitted (logged srv) fd menu_user
     then \<exists>l. mset l = mset (in_category (int_field (env_fp env) ''category'' 0 pack) (srv_tables tbl srv)) \<and>
       pk_doc reply = list_doc ''dish'' ''dish_one'' (map dish_object l)
     else reply = reply_result dish_r_no_permission)"
  using check_permission_spec [OF srv_okD(1) [OF srv] fd, of menu_user] dishes.listing [OF c env srv, of "''dish''"] srv
  by (auto simp: res_dish_fetch_def read_int)

text \<open>The menu of a category: a menu or administrator session gets every dish of the category once, with what the
  table has of it; other connections are refused.\<close>

theorem dish_fetch_spec:
  assumes env: "env_ok tbl env" and srv: "srv_ok tbl srv" and fd: "0 \<le> fd" and c: "int_32 (int_field (env_fp env) ''category'' 0 pack)"
  shows "\<exists>reply srv'. res_dish_fetch env fd pack srv = Some (reply, srv') \<and> srv_ok tbl srv' \<and>
    srv_sessions srv' = srv_sessions srv \<and> dbp_db (srv_dbp srv') = dbp_db (srv_dbp srv) \<and>
    (if permitted (logged srv) fd menu_user
     then \<exists>l. mset l = mset (in_category (int_field (env_fp env) ''category'' 0 pack) (srv_tables tbl srv)) \<and>
       pk_doc reply = list_doc ''dish'' ''dish_one'' (map dish_object l)
     else reply = reply_result dish_r_no_permission)"
  by (rule dish_fetched [OF assms])

text \<open>The seats, for every session.\<close>

lemma seat_list_spec:
  assumes env: "env_ok tbl env" and srv: "srv_ok tbl srv" and fd: "0 \<le> fd"
  shows "\<exists>reply srv'. res_seat_list env fd pack srv = Some (reply, srv') \<and> srv_ok tbl srv' \<and>
    srv_sessions srv' = srv_sessions srv \<and> dbp_db (srv_dbp srv') = dbp_db (srv_dbp srv) \<and>
    (if logged srv fd \<noteq> None
     then \<exists>l. mset l = mset (t_seat (srv_tables tbl srv)) \<and> pk_doc reply = list_doc ''seat'' ''seat_one'' (map seat_object l)
     else reply = reply_result dish_r_no_permission)"
proof -
  have "permitted (logged srv) fd (\<lambda>t. True) \<longleftrightarrow> logged srv fd \<noteq> None" by (simp add: permitted_def split: option.split)
  then show ?thesis
    using check_permission_spec [OF srv_okD(1) [OF srv] fd, of "\<lambda>t. True"] seats.listing [OF TrueI env srv, of "''seat''"] srv
    by (auto simp: res_seat_list_def)
qed

section \<open>Bookings\<close>

definition has_dish :: "int \<Rightarrow> tables \<Rightarrow> bool" where
  "has_dish i T \<longleftrightarrow> (\<exists>r \<in> set (t_dish T). dr_id r = i)"

definition has_seat :: "int \<Rightarrow> tables \<Rightarrow> bool" where
  "has_seat i T \<longleftrightarrow> (\<exists>r \<in> set (t_seat T). sr_id r = i)"

lemma dish_looked_up:
  assumes "env_ok tbl env" and "dbp_idle p" and "int_32 i"
  shows "\<exists>p'. db_dish_get_one (env_eng env) i None p = Some (if has_dish i (tbl (dbp_db p)) then 1 else 0, None, p') \<and> dbp_same p p'"
  using db_dish_get_one_null [OF env_okD(3) [OF assms(1)] assms(2)] assms(3) by (simp add: int_32_def has_dish_def)

lemma seat_looked_up:
  assumes "env_ok tbl env" and "dbp_idle p" and "int_32 i"
  shows "\<exists>p'. db_seat_get_one (env_eng env) i None p = Some (if has_seat i (tbl (dbp_db p)) then 1 else 0, None, p') \<and> dbp_same p p'"
  using db_seat_get_one_null [OF env_okD(3) [OF assms(1)] assms(2)] assms(3) by (simp add: int_32_def has_seat_def)

text \<open>What the uninitialised array adds to a comment that is copied without its terminator.\<close>

definition stale :: "'db env \<Rightarrow> string \<Rightarrow> string" where
  "stale env comment = takeWhile (\<lambda>c. c \<noteq> NUL) (drop (length comment) (env_chars env))"

lemma book_comment_stale:
  assumes "plain comment" and "NUL \<in> set (drop (length comment) (env_chars env))"
  shows "cstr (c_strncpy (env_chars env) comment (length comment)) = Some (comment @ stale env comment)"
proof -
  have "takeWhile (\<lambda>c. c \<noteq> NUL) (comment @ xs) = comment @ takeWhile (\<lambda>c. c \<noteq> NUL) xs" for xs
    by (rule takeWhile_append2) (use assms(1) in \<open>auto simp: plain_def\<close>)
  then show ?thesis using assms(2) by (simp add: c_strncpy_def cstr_def stale_def)
qed

definition book_doc :: "int \<Rightarrow> int \<Rightarrow> c_double \<Rightarrow> string \<Rightarrow> doc" where
  "book_doc seat dish jin comment =
     [(''seat_id'', BSON_INT seat), (''dish_id'', BSON_INT dish), (''jin_or_plate'', BSON_DOUBLE jin), (''comment'', BSON_STRING comment)]"

lemma read_book:
  assumes "plain comment" and "length comment < 256"
  shows "\<exists>r. read_pack (book_key fp) (Some (book_doc seat dish jin comment))
      \<lparr>bi_seat = - 1, bi_dish = - 1, bi_jin = j, bi_comment = NUL # replicate 255 undefined\<rparr> =
    Some \<lparr>bi_seat = seat, bi_dish = dish, bi_jin = fp_narrow fp jin, bi_comment = comment @ NUL # r\<rparr>"
proof -
  obtain r where "take_string (NUL # replicate 255 undefined) (BSON_STRING comment) = comment @ NUL # r"
    using take_string_c [of comment "NUL # replicate 255 undefined"] assms by (auto simp: plain_c_string)
  then show ?thesis by (simp add: read_pack_def book_doc_def book_key_def ep_pack_iterator_next_def)
qed

lemma book_laws_add:
  "book_laws fp eng tbl \<Longrightarrow> plain c \<Longrightarrow> case sql_exec eng db (book_add_text fp s d j c a) of (ok, db') \<Rightarrow>
     ok \<and> (\<exists>i t. i \<notin> set (map br_id (t_book (tbl db))) \<and> tbl db' = (tbl db)\<lparr>t_book := t_book (tbl db) @
       [\<lparr>br_id = i, br_seat = s, br_dish = d, br_jin = t, br_comment = c, br_state = a\<rparr>]\<rparr>)"
  by (simp add: book_laws_def)

lemma db_book_add_spec:
  assumes laws: "book_laws fp eng tbl" and idle: "dbp_idle p" and i: "int_32 (book_seat_id b)" "int_32 (book_dish_id b)" "book_accept_state b = 0"
    and c: "cstr (book_comment b) = Some c" "plain c" "length c \<le> 1000" and j: "length (fp_print2 fp (book_jin_or_plate b)) \<le> 400"
  shows "\<exists>db n t. db_book_add fp eng b p = Some (1, p\<lparr>dbp_db := db\<rparr>) \<and> n \<notin> set (map br_id (t_book (tbl (dbp_db p)))) \<and>
    tbl db = (tbl (dbp_db p))\<lparr>t_book := t_book (tbl (dbp_db p)) @
      [\<lparr>br_id = n, br_seat = book_seat_id b, br_dish = book_dish_id b, br_jin = t, br_comment = c, br_state = 0\<rparr>]\<rparr>"
proof -
  let ?t = "book_add_text fp (book_seat_id b) (book_dish_id b) (book_jin_or_plate b) c 0"
  have n: "length (c_int_str k) \<le> 11" if "int_32 k" for k
    using that by (intro length_int_str) (simp add: int_32_def, linarith)
  have len: "length ?t < 4096"
    using n [OF i(1)] n [OF i(2)] n [of 0] c(3) j by (simp add: book_add_text_def int_32_def)
  obtain ok db where e: "sql_exec eng (dbp_db p) ?t = (ok, db)" by fastforce
  have "ok \<and> (\<exists>n t. n \<notin> set (map br_id (t_book (tbl (dbp_db p)))) \<and> tbl db = (tbl (dbp_db p))\<lparr>t_book := t_book (tbl (dbp_db p)) @
      [\<lparr>br_id = n, br_seat = book_seat_id b, br_dish = book_dish_id b, br_jin = t, br_comment = c, br_state = 0\<rparr>]\<rparr>)"
    using book_laws_add [OF laws c(2), where db = "dbp_db p" and s = "book_seat_id b" and d = "book_dish_id b" and j = "book_jin_or_plate b" and a = 0]
    unfolding e prod.case .
  then show ?thesis using db_run_idle [OF idle len, of eng] e i(3) c(1) by (auto simp: db_book_add_def)
qed

definition book_code :: "'db env \<Rightarrow> tables \<Rightarrow> bool \<Rightarrow> int \<Rightarrow> int \<Rightarrow> c_double \<Rightarrow> int" where
  "book_code env T allowed seat dish jin =
     (if \<not> allowed then dish_r_no_permission
      else if seat < 0 \<or> dish < 0 \<or> \<not> fp_positive (env_fp env) (fp_narrow (env_fp env) jin) then dish_r_illegal_parameter
      else if \<not> has_dish dish T then dish_r_dish_id_invalid
      else if \<not> has_seat seat T then dish_r_seat_id_invalid
      else dish_r_ok)"

lemma book_reaches_insert:
  assumes env: "env_ok tbl env" and srv: "srv_ok tbl srv" and fd: "0 \<le> fd" and i: "int_32 seat" "int_32 dish"
    and c: "plain comment" "length comment < 256"
  shows "\<exists>p. dbp_same (srv_dbp srv) p \<and> res_dish_book env fd (Some (book_doc seat dish jin comment)) srv =
    (if book_code env (srv_tables tbl srv) (permitted (logged srv) fd menu_user) seat dish jin = dish_r_ok
     then do {
       (r, p) \<leftarrow> db_book_add (env_fp env) (env_eng env) \<lparr>book_id = undefined, book_seat_id = seat, book_dish_id = dish,
         book_jin_or_plate = fp_narrow (env_fp env) jin, book_comment = c_strncpy (env_chars env) comment (length comment), book_accept_state = 0\<rparr> p;
       Some (reply_result (if r = 0 then dish_r_service_unavailable else dish_r_ok), srv\<lparr>srv_dbp := p\<rparr>)
     }
     else Some (reply_result (book_code env (srv_tables tbl srv) (permitted (logged srv) fd menu_user) seat dish jin), srv\<lparr>srv_dbp := p\<rparr>))"
proof -
  note perm = check_permission_spec [OF srv_okD(1) [OF srv] fd, of menu_user]
  obtain r where rd: "read_pack (book_key (env_fp env)) (Some (book_doc seat dish jin comment))
      \<lparr>bi_seat = - 1, bi_dish = - 1, bi_jin = fp_narrow (env_fp env) (fp_of_int (env_fp env) (- 1)), bi_comment = NUL # replicate 255 undefined\<rparr> =
    Some \<lparr>bi_seat = seat, bi_dish = dish, bi_jin = fp_narrow (env_fp env) jin, bi_comment = comment @ NUL # r\<rparr>"
    using read_book [OF c] by blast
  note cs = cstr_append_NUL [OF plain_c_string [OF c(1)], of r]
  obtain p1 where p1: "db_dish_get_one (env_eng env) dish None (srv_dbp srv) = Some (if has_dish dish (srv_tables tbl srv) then 1 else 0, None, p1)"
    "dbp_same (srv_dbp srv) p1" using dish_looked_up [OF env srv_okD(3) [OF srv] i(2)] by blast
  obtain p2 where p2: "db_seat_get_one (env_eng env) seat None p1 = Some (if has_seat seat (srv_tables tbl srv) then 1 else 0, None, p2)"
    "dbp_same p1 p2" using seat_looked_up [OF env dbp_same_idle [OF p1(2)] i(1)] p1(2) by (auto simp: dbp_same_def)
  have same: "dbp_same (srv_dbp srv) (srv_dbp srv)" using srv_okD(3) [OF srv] by (simp add: dbp_same_def)
  let ?bad = "\<not> permitted (logged srv) fd menu_user \<or> seat < 0 \<or> dish < 0 \<or> \<not> fp_positive (env_fp env) (fp_narrow (env_fp env) jin)"
  consider "?bad" | "\<not> ?bad" "\<not> has_dish dish (srv_tables tbl srv)" | "\<not> ?bad" "has_dish dish (srv_tables tbl srv)" by blast
  then show ?thesis
  proof cases
    case 1
    then show ?thesis using same by (intro exI [of _ "srv_dbp srv"]) (auto simp: res_dish_book_def perm rd book_code_def)
  next
    case 2
    then show ?thesis using p1 by (intro exI [of _ p1]) (simp add: res_dish_book_def perm rd book_code_def)
  next
    case 3
    then show ?thesis using p1 p2 cs dbp_same_trans [OF p1(2) p2(2)]
      by (intro exI [of _ p2]) (simp add: res_dish_book_def perm rd book_code_def)
  qed
qed

lemma tables_ok_book: "tables_ok (T\<lparr>t_book := bs\<rparr>) = tables_ok T"
  by (simp add: tables_ok_def)


lemma book_laws_del:
  "book_laws fp eng tbl \<Longrightarrow> case sql_exec eng db (book_del_text i) of (ok, db') \<Rightarrow>
     ok \<and> tbl db' = (tbl db)\<lparr>t_book := filter (\<lambda>r. br_id r \<noteq> i) (t_book (tbl db))\<rparr>"
  by (simp add: book_laws_def)

text \<open>Cancelling: the request names a seat, and the row that goes is the booking whose own number is that of the
  seat, whoever booked it; the bookings of the seat stay.\<close>

theorem cancel_spec:
  assumes env: "env_ok tbl env" and srv: "srv_ok tbl srv" and fd: "0 \<le> fd" and i: "seat = int_field (env_fp env) ''seat_id'' (- 1) pack" "int_32 seat"
  shows "\<exists>srv'. srv_ok tbl srv' \<and> srv_sessions srv' = srv_sessions srv \<and>
    (if permitted (logged srv) fd menu_user \<and> 0 \<le> seat \<and> has_seat seat (srv_tables tbl srv)
     then res_dish_cancel env fd pack srv = Some (reply_result dish_r_ok, srv') \<and>
       srv_tables tbl srv' = (srv_tables tbl srv)\<lparr>t_book := filter (\<lambda>r. br_id r \<noteq> seat) (t_book (srv_tables tbl srv))\<rparr>
     else srv_tables tbl srv' = srv_tables tbl srv \<and> res_dish_cancel env fd pack srv =
       Some (reply_result (if \<not> permitted (logged srv) fd menu_user then dish_r_no_permission
                           else if seat < 0 then dish_r_illegal_parameter else dish_r_seat_id_invalid), srv'))"
proof -
  note perm = check_permission_spec [OF srv_okD(1) [OF srv] fd, of menu_user] and rd = read_int [of "env_fp env" "''seat_id''" pack "- 1", folded i(1)]
  obtain p where p: "db_seat_get_one (env_eng env) seat None (srv_dbp srv) = Some (if has_seat seat (srv_tables tbl srv) then 1 else 0, None, p)"
    "dbp_same (srv_dbp srv) p" using seat_looked_up [OF env srv_okD(3) [OF srv] i(2)] by blast
  have d: "dbp_db p = dbp_db (srv_dbp srv)" "dbp_idle p" using p by (simp_all add: dbp_same_def)
  have "length (book_del_text seat) < 4096" unfolding book_del_text_def using i(2) by (intro int_text_length) (simp_all add: int_32_def)
  moreover have "case sql_exec (env_eng env) (dbp_db p) (book_del_text seat) of (ok, db') \<Rightarrow>
      ok \<and> tbl db' = (srv_tables tbl srv)\<lparr>t_book := filter (\<lambda>r. br_id r \<noteq> seat) (t_book (srv_tables tbl srv))\<rparr>"
    using book_laws_del [OF env_okD(4) [OF env]] by (simp add: d(1))
  ultimately obtain db where del: "db_book_del (env_eng env) seat p = Some (1, p\<lparr>dbp_db := db\<rparr>)"
    "tbl db = (srv_tables tbl srv)\<lparr>t_book := filter (\<lambda>r. br_id r \<noteq> seat) (t_book (srv_tables tbl srv))\<rparr>"
    unfolding db_book_del_def using db_run_idle [OF d(2)] by fastforce
  consider "\<not> (permitted (logged srv) fd menu_user \<and> 0 \<le> seat)" | "permitted (logged srv) fd menu_user \<and> 0 \<le> seat" by blast
  then show ?thesis
  proof cases
    case 1
    then show ?thesis using srv by (intro exI [of _ srv]) (auto simp: res_dish_cancel_def perm rd)
  next
    case 2
    then show ?thesis using p del srv_ok_same [OF srv p(2)] srv d
      by (cases "has_seat seat (srv_tables tbl srv)") (auto simp: res_dish_cancel_def perm rd srv_ok_def tables_ok_book)
  qed
qed

section \<open>The list of bookings\<close>

text \<open>The loop of \<open>db_book_get\<close> frees its first row twice.\<close>

lemma fetch_loop_free_twice:
  assumes "dbp_live p = []" and "dbp_stmt p = Some (r # rs)"
  shows "fetch_loop store free_twice i arr p = None"
proof (cases "dbp_cells r")
  case None
  then show ?thesis using assms by (subst fetch_loop.simps) (simp add: dbp_fetch_row_def)
next
  case (Some cells)
  then show ?thesis using assms
    by (subst fetch_loop.simps) (simp add: dbp_fetch_row_def free_twice_def dbp_fetch_row_free_def)
qed

lemma db_book_get_spec:
  assumes env: "env_ok tbl env" and idle: "dbp_idle p" and i: "int_32 seat"
  shows "if \<exists>r \<in> set (t_book (tbl (dbp_db p))). br_seat r = seat then db_book_get (env_fp env) (env_eng env) seat p = None
    else \<exists>p'. db_book_get (env_fp env) (env_eng env) seat p = Some (0, [], p') \<and> dbp_same p p'"
proof -
  let ?bs = "filter (\<lambda>r. br_seat r = seat) (t_book (tbl (dbp_db p)))"
  have len: "length (''SELECT count(*) as count FROM t_db_book WHERE seat_id = '' @ c_int_str seat) < 4096"
    "length ((book_columns @ ''seat_id = '') @ c_int_str seat) < 4096"
    using i unfolding int_32_def by (intro int_text_length; simp add: book_columns_def)+
  have law: "count_is (sql_rows (env_eng env) (dbp_db p) (''SELECT count(*) as count FROM t_db_book WHERE seat_id = '' @ c_int_str seat)) (length ?bs)"
    "rows_are (sql_rows (env_eng env) (dbp_db p) (book_columns @ ''seat_id = '' @ c_int_str seat)) book_cols ?bs"
    using env_okD(4) [OF env] by (simp_all add: book_laws_def)
  obtain p1 where p1: "db_count (env_eng env) (''SELECT count(*) as count FROM t_db_book WHERE seat_id = '' @ c_int_str seat) p = Some (int (length ?bs), p1)"
    "dbp_same p p1" using db_count_row [OF idle len(1)] law(1) int_str_NUL unfolding count_is_def by fastforce
  show ?thesis
  proof (cases "?bs = []")
    case True
    then show ?thesis using p1 by (auto simp: db_book_get_def filter_empty_conv)
  next
    case False
    then have ex: "\<exists>r \<in> set (t_book (tbl (dbp_db p))). br_seat r = seat" by (auto simp: filter_empty_conv)
    obtain l where "mset l = mset ?bs" "sql_rows (env_eng env) (dbp_db p1) (book_columns @ ''seat_id = '' @ c_int_str seat) = Some (map book_cols l)"
      using law(2) p1(2) unfolding rows_are_def dbp_same_def by auto
    moreover from this(1) False obtain b l' where "l = b # l'" by (cases l) (metis mset_zero_iff mset.simps(1))+
    ultimately have "db_fetch_all (env_eng env) (book_columns @ ''seat_id = '' @ c_int_str seat) 6 book_zero (book_store (env_fp env)) free_twice (int (length ?bs)) p1 = None"
      using len(2) dbp_same_idle [OF p1(2)]
      by (simp add: db_fetch_all_def sqlbuf_def dbp_query_idle dbp_num_fields_def book_cols_def fetch_loop_free_twice dbp_idle_def)
    then show ?thesis using ex False p1(1) by (simp add: db_book_get_def)
  qed
qed

text \<open>C34. The list of bookings of a seat: without bookings it is empty; with one, the request has no defined result,
  for the row that was read is freed twice. Refusals and errors are answered.\<close>

theorem book_list_spec:
  assumes env: "env_ok tbl env" and srv: "srv_ok tbl srv" and fd: "0 \<le> fd" and i: "seat = int_field (env_fp env) ''seat_id'' (- 1) pack" "int_32 seat"
  shows "if permitted (logged srv) fd menu_user \<and> 0 \<le> seat \<and> has_seat seat (srv_tables tbl srv)
    then if \<exists>b \<in> set (t_book (srv_tables tbl srv)). br_seat b = seat then res_dish_list env fd pack srv = None
      else \<exists>reply srv'. res_dish_list env fd pack srv = Some (reply, srv') \<and> pk_doc reply = list_doc ''book'' ''book_one'' [] \<and> srv_ok tbl srv'
    else \<exists>srv'. srv_ok tbl srv' \<and> res_dish_list env fd pack srv =
      Some (reply_result (if \<not> permitted (logged srv) fd menu_user then dish_r_no_permission
                          else if seat < 0 then dish_r_illegal_parameter else dish_r_seat_id_invalid), srv')"
proof -
  note perm = check_permission_spec [OF srv_okD(1) [OF srv] fd, of menu_user] and rd = read_int [of "env_fp env" "''seat_id''" pack "- 1", folded i(1)]
  obtain p where p: "db_seat_get_one (env_eng env) seat None (srv_dbp srv) = Some (if has_seat seat (srv_tables tbl srv) then 1 else 0, None, p)"
    "dbp_same (srv_dbp srv) p" using seat_looked_up [OF env srv_okD(3) [OF srv] i(2)] by blast
  have d: "dbp_db p = dbp_db (srv_dbp srv)" "dbp_idle p" using p by (simp_all add: dbp_same_def)
  note get = db_book_get_spec [OF env d(2) i(2), unfolded d(1)]
  consider "\<not> (permitted (logged srv) fd menu_user \<and> 0 \<le> seat)" | "permitted (logged srv) fd menu_user" "0 \<le> seat" "\<not> has_seat seat (srv_tables tbl srv)"
    | "permitted (logged srv) fd menu_user" "0 \<le> seat" "has_seat seat (srv_tables tbl srv)" by blast
  then show ?thesis
  proof cases
    case 1
    then show ?thesis using srv by (auto simp: res_dish_list_def perm rd)
  next
    case 2
    then show ?thesis using p srv_ok_same [OF srv p(2)] by (simp add: res_dish_list_def perm rd)
  next
    case 3
    show ?thesis
    proof (cases "\<exists>b \<in> set (t_book (srv_tables tbl srv)). br_seat b = seat")
      case True
      then show ?thesis using 3 p get by (simp add: res_dish_list_def perm rd)
    next
      case False
      then obtain p' where p': "db_book_get (env_fp env) (env_eng env) seat p = Some (0, [], p')" "dbp_same (srv_dbp srv) p'"
        using get dbp_same_trans [OF p(2)] by auto
      have "\<exists>reply. reply_list ''book'' append_book 0 [] = Some reply \<and> pk_doc reply = list_doc ''book'' ''book_one'' []"
        by (simp add: reply_list_def list_doc_def reply_result_def pack_simps)
      then show ?thesis using 3 p p'(1) False srv_ok_same [OF srv p'(2)] by (auto simp: res_dish_list_def perm rd)
    qed
  qed
qed

section \<open>The kitchen\<close>

lemma read_cook: "\<exists>c. read_pack (cook_key fp) pack \<lparr>ci_seat = s, ci_cook = - 1, ci_number = n\<rparr> = Some c \<and> ci_cook c = - 1"
proof -
  have step: "\<exists>c. cook_key fp k v b = Some c \<and> ci_cook c = ci_cook b" for k v b by (simp add: cook_key_def)
  have "\<exists>c. ofold (\<lambda>(k, v). cook_key fp k v) d b = Some c \<and> ci_cook c = ci_cook b" for d b
  proof (induction d arbitrary: b)
    case (Cons x d)
    obtain k v where x: "x = (k, v)" by fastforce
    obtain b' where "cook_key fp k v b = Some b'" "ci_cook b' = ci_cook b" using step by blast
    with Cons.IH [of b'] x show ?case by simp
  qed simp
  from this [of "pack_items (the pack)" "\<lparr>ci_seat = s, ci_cook = - 1, ci_number = n\<rparr>"]
  show ?thesis by (cases pack) (auto simp: read_pack_def pack_loop_items)
qed

text \<open>C35. Accepting in the kitchen never does anything: every request of a cook or an administrator is refused as
  illegal, whatever it holds, since no key sets the cook; and a connection that is not logged in is
  told that all went well.\<close>

theorem cook_accept_never_accepts:
  assumes "srv_ok tbl srv" and "0 \<le> fd"
  shows "res_cook_accept env fd pack srv =
    Some (reply_result (case logged srv fd of
        None \<Rightarrow> cook_r_ok
      | Some s \<Rightarrow> if sess_a_type s \<in> {account_cook, account_admin} then cook_r_illegal_parameter else cook_r_no_permission), srv)"
proof (cases "logged srv fd")
  case None
  then show ?thesis using ref_fd_cases(1) [OF srv_okD(1) [OF assms(1)] assms(2)] by (simp add: res_cook_accept_def)
next
  case (Some s)
  then obtain q h where "session_ref_fd fd (srv_sessions srv) = Some (Some q, h)" "session_at h q = Some s" "session_dref q h = Some (srv_sessions srv)"
    using ref_fd_cases(2) [OF srv_okD(1) [OF assms(1)] assms(2)] by blast
  then show ?thesis using Some read_cook [of "env_fp env" pack "- 1" "- 1"] by (auto simp: res_cook_accept_def)
qed

section \<open>Examples\<close>

text \<open>The demonstration server with one session and one dish, one seat and one booking.\<close>

definition soup :: dish_row where
  "soup = \<lparr>dr_id = 4, dr_category = 0, dr_name = ''soup'', dr_summary = [], dr_thumbnail = [], dr_price_type = 0, dr_price = 30, dr_created = []\<rparr>"

definition menu_tables :: tables where
  "menu_tables = demo_tables\<lparr>t_dish := [soup], t_seat := [\<lparr>sr_id = 2, sr_summary = [], sr_qrcode = []\<rparr>],
     t_book := [\<lparr>br_id = 9, br_seat = 2, br_dish = 4, br_jin = ''1.00'', br_comment = [], br_state = 0\<rparr>]\<rparr>"

definition menu_server :: "tables server" where
  "menu_server = (one_session (root_session 0))\<lparr>srv_dbp := dbp_create_new_sqlite menu_tables\<rparr>"

definition menu_env :: "tables env" where
  "menu_env = demo_env\<lparr>env_chars := ''abc'' @ replicate 253 NUL\<rparr>"

lemma menu_env_ok: "env_ok (\<lambda>T. T) menu_env"
  using demo_env_ok by (simp add: env_ok_def menu_env_def)

lemma menu_server:
  "srv_ok (\<lambda>T. T) menu_server" "srv_tables (\<lambda>T. T) menu_server = menu_tables" "logged menu_server = [7 \<mapsto> root_session 0]"
  "permitted (logged menu_server) 7 menu_user"
proof -
  have "tables_ok menu_tables"
    using srv_okD(4) [OF root_session(1) [of 0]] unfolding root_session(3)
    by (simp add: tables_ok_def menu_tables_def soup_def dish_row_ok_def seat_row_ok_def fits_def plain_def)
  then show "srv_ok (\<lambda>T. T) menu_server"
    using root_session(1) [of 0] by (simp add: srv_ok_def menu_server_def dbp_create_new_sqlite_def dbp_idle_def)
  show "srv_tables (\<lambda>T. T) menu_server = menu_tables" by (simp add: menu_server_def dbp_create_new_sqlite_def)
  show l: "logged menu_server = [7 \<mapsto> root_session 0]" using root_session(2) [of 0] by (simp add: menu_server_def)
  show "permitted (logged menu_server) 7 menu_user" unfolding l by (simp add: permitted_def menu_user_def root_session_def)
qed

theorem dish_fetch_spec_witness:
  "\<exists>reply srv'. res_dish_fetch menu_env 7 (Some [(''category'', BSON_INT 0)]) menu_server = Some (reply, srv') \<and>
    pk_doc reply = list_doc ''dish'' ''dish_one'' [dish_object soup]"
proof -
  let ?pack = "Some [(''category'', BSON_INT 0)]"
  have c: "int_field (env_fp menu_env) ''category'' 0 ?pack = 0" by (simp add: int_field_def pack_items_def)
  have rows: "in_category 0 menu_tables = [soup]" by (simp add: in_category_def menu_tables_def soup_def)
  obtain reply srv' l where r: "res_dish_fetch menu_env 7 ?pack menu_server = Some (reply, srv')"
    "mset l = mset (in_category 0 menu_tables)" "pk_doc reply = list_doc ''dish'' ''dish_one'' (map dish_object l)"
    using dish_fetch_spec [OF menu_env_ok menu_server(1), of 7 ?pack] menu_server(4) unfolding c menu_server(2) by (auto simp: int_32_def)
  from r(2) have "l = [soup]" by (simp add: rows)
  with r show ?thesis by simp
qed


theorem cancel_spec_witness:
  "\<exists>srv'. res_dish_cancel menu_env 7 (Some [(''seat_id'', BSON_INT 2)]) menu_server = Some (reply_result dish_r_ok, srv') \<and>
    t_book (srv_tables (\<lambda>T. T) srv') = t_book menu_tables"
proof -
  let ?pack = "Some [(''seat_id'', BSON_INT 2)]"
  have c: "2 = int_field (env_fp menu_env) ''seat_id'' (- 1) ?pack" by (simp add: int_field_def pack_items_def)
  have h: "has_seat 2 menu_tables" "filter (\<lambda>r. br_id r \<noteq> 2) (t_book menu_tables) = t_book menu_tables"
    by (simp_all add: has_seat_def menu_tables_def)
  from cancel_spec [OF menu_env_ok menu_server(1) _ c, of 7] menu_server(4) h show ?thesis
    unfolding menu_server(2) by (auto simp: int_32_def)
qed

theorem book_list_spec_witness:
  "res_dish_list menu_env 7 (Some [(''seat_id'', BSON_INT 2)]) menu_server = None"
proof -
  let ?pack = "Some [(''seat_id'', BSON_INT 2)]"
  have c: "2 = int_field (env_fp menu_env) ''seat_id'' (- 1) ?pack" by (simp add: int_field_def pack_items_def)
  have h: "has_seat 2 menu_tables" "\<exists>b \<in> set (t_book menu_tables). br_seat b = 2" by (simp_all add: has_seat_def menu_tables_def)
  from book_list_spec [OF menu_env_ok menu_server(1) _ c, of 7] menu_server(4) h show ?thesis
    unfolding menu_server(2) by (simp add: int_32_def)
qed

theorem cook_accept_never_accepts_witness:
  "res_cook_accept menu_env 7 (Some [(''seat_id'', BSON_INT 2), (''cook_id'', BSON_INT 4), (''number'', BSON_INT 1)]) menu_server =
    Some (reply_result cook_r_illegal_parameter, menu_server)"
proof -
  have "sess_a_type (root_session 0) = account_admin" by (simp add: root_session_def)
  with cook_accept_never_accepts [OF menu_server(1), of 7] show ?thesis unfolding menu_server(3) by simp
qed

end
