(* ===== verification/YM_Server.thy ===== *)
theory YM_Server
  imports YM_Menu EP_Service
begin

text \<open>
  The server program (\<open>src/server/server.c\<close>): the table of handlers, the events of the service, the start of the
  database and of the network; and the server as a state machine, whose steps are the requests and events
  that return.
\<close>

section \<open>Handlers\<close>

datatype handler =
    ep_cert_server_security
  | H_version_check | H_heartbeat
  | H_account_login | H_account_logout | H_account_create | H_account_modify_pwd | H_account_modify_basic | H_account_delete | H_account_list
  | H_dish_fetch | H_dish_book | H_dish_cancel | H_dish_list
  | H_seat_list
  | H_cook_accept

text \<open>The key exchange is a parameter: it changes neither sessions nor tables.\<close>

fun run_handler :: "(int \<Rightarrow> doc option \<Rightarrow> ep_pack) \<Rightarrow> handler \<Rightarrow> 'db env \<Rightarrow> int \<Rightarrow> doc option \<Rightarrow> 'db server \<Rightarrow> (ep_pack \<times> 'db server) option" where
  "run_handler cert ep_cert_server_security env fd pack srv = Some (cert fd pack, srv)"
| "run_handler cert H_version_check env fd pack srv = res_version_check env fd pack srv"
| "run_handler cert H_heartbeat env fd pack srv = res_heartbeat env fd pack srv"
| "run_handler cert H_account_login env fd pack srv = res_account_login env fd pack srv"
| "run_handler cert H_account_logout env fd pack srv = res_account_logout env fd pack srv"
| "run_handler cert H_account_create env fd pack srv = res_account_create env fd pack srv"
| "run_handler cert H_account_modify_pwd env fd pack srv = res_account_modify_pwd env fd pack srv"
| "run_handler cert H_account_modify_basic env fd pack srv = res_account_modify_basic env fd pack srv"
| "run_handler cert H_account_delete env fd pack srv = res_account_delete env fd pack srv"
| "run_handler cert H_account_list env fd pack srv = res_account_list env fd pack srv"
| "run_handler cert H_dish_fetch env fd pack srv = res_dish_fetch env fd pack srv"
| "run_handler cert H_dish_book env fd pack srv = res_dish_book env fd pack srv"
| "run_handler cert H_dish_cancel env fd pack srv = res_dish_cancel env fd pack srv"
| "run_handler cert H_dish_list env fd pack srv = res_dish_list env fd pack srv"
| "run_handler cert H_seat_list env fd pack srv = res_seat_list env fd pack srv"
| "run_handler cert H_cook_accept env fd pack srv = res_cook_accept env fd pack srv"

text \<open>The call through the function pointer: a call that does not return leaves no server.\<close>

definition call_handler ::
  "(int \<Rightarrow> doc option \<Rightarrow> ep_pack) \<Rightarrow> 'db env \<Rightarrow> handler \<Rightarrow> unit option \<Rightarrow> int \<Rightarrow> doc option \<Rightarrow> 'db server option \<Rightarrow> doc option \<times> bool \<times> 'db server option" where
  "call_handler cert env h opaque fd pack w =
     (case w of
        None \<Rightarrow> (None, True, None)
      | Some srv \<Rightarrow>
          (case run_handler cert h env fd pack srv of
             None \<Rightarrow> (None, True, None)
           | Some (reply, srv) \<Rightarrow> (Some (pk_doc reply), True, Some srv)))"

section \<open>Network\<close>

definition server_handlers :: "(ep_category \<times> handler) list" where
  "server_handlers =
     [(0, H_version_check), (1, H_heartbeat),
      (7, H_account_login), (8, H_account_logout), (9, H_account_create), (10, H_account_modify_pwd),
      (11, H_account_modify_basic), (12, H_account_delete), (13, H_account_list),
      (14, H_dish_fetch), (153, H_dish_book), (15, H_dish_cancel), (178, H_dish_list),
      (19, H_seat_list), (21, H_cook_accept)]"

fun register_all :: "(ep_category \<times> handler) list \<Rightarrow> ('x, handler, unit option) ep_service \<Rightarrow> ('x, handler, unit option) ep_service option" where
  "register_all [] svc = Some svc"
| "register_all ((c, h) # hs) svc = do { (_, svc) \<leftarrow> ep_service_register True c h None svc; register_all hs svc }"

definition server_init_network ::
  "bool \<Rightarrow> bool \<Rightarrow> bool \<Rightarrow> bool \<Rightarrow> int \<Rightarrow> session_state \<Rightarrow> ('x, handler, unit option) ep_service \<Rightarrow>
   (int \<times> session_state \<times> ('x, handler, unit option) ep_service) option" where
  "server_init_network a_disp a_mgr a_queue a_pool core st svc = do {
     (r, svc) \<leftarrow> ep_service_start a_disp a_mgr a_queue a_pool True ep_cert_server_security (Some ()) core
                  \<lparr>sc_def_capacity = 4 * 1024, sc_max_capacity = 4 * 1024 * 1024, sc_mini_compress_if = 1024\<rparr> svc;
     if r \<noteq> 1 then Some (0, st, svc)
     else do {
       let st = session_init;
       let svc = ep_service_event svc;
       svc \<leftarrow> register_all server_handlers svc;
       Some (1, st, svc)
     }
   }"

definition service_event_cb :: "ep_event_type \<Rightarrow> int \<Rightarrow> session_state \<Rightarrow> session_state option" where
  "service_event_cb type fd st =
     (if type = event_fd_close \<or> type = event_io_overflow \<or> type = event_io_exception
      then do { (_, st) \<leftarrow> session_del_fd fd st; Some st } else Some st)"

text \<open>A request that reached the pool of the service.\<close>

definition server_request ::
  "(int \<Rightarrow> doc option \<Rightarrow> ep_pack) \<Rightarrow> 'db env \<Rightarrow> ('x, handler, unit option) ep_service \<Rightarrow> ep_category \<Rightarrow> int \<Rightarrow> doc option \<Rightarrow> 'db server \<Rightarrow>
   doc option \<times> bool \<times> 'db server option" where
  "server_request cert env svc c fd pack srv =
     (case s_disp_mgr svc of
        None \<Rightarrow> (None, True, None)
      | Some disp \<Rightarrow> ep_disp_processor (call_handler cert env) disp c fd pack (Some srv))"

section \<open>Database\<close>

definition default_comment :: string where
  "default_comment = ''This is the youmenu default account, please change the password as soon as possible.''"

definition ensure_admin :: "'db env \<Rightarrow> 'db dbp \<Rightarrow> (bool \<times> 'db dbp) option" where
  "ensure_admin env p = do {
     (r, _, p) \<leftarrow> db_account_get_one (env_eng env) ''youmenu'' None p;
     if r = 1 then Some (True, p)
     else do {
       let a = env_account env;
       uid \<leftarrow> c_strcpy (acc_uid a) ''youmenu'';
       pwd \<leftarrow> c_strcpy (acc_pwd a) ''youmenu'';
       nick \<leftarrow> c_strcpy (acc_nick a) ''youmenu'';
       comment \<leftarrow> c_strcpy (acc_comment a) default_comment;
       (r, _, p) \<leftarrow> db_account_add (env_eng env) (a\<lparr>acc_type := account_admin, acc_uid := uid, acc_pwd := pwd, acc_nick := nick, acc_comment := comment\<rparr>) p;
       Some (r = 1, p)
     }
   }"

definition ensure_dish :: "'db env \<Rightarrow> dish \<Rightarrow> 'db dbp \<Rightarrow> (bool \<times> 'db dbp) option" where
  "ensure_dish env d p = do {
     (n, _, p) \<leftarrow> db_dish_get_by_category (env_eng env) 0 False p;
     (ok, p) \<leftarrow> (if n = 0 then do {
                    name \<leftarrow> c_strcpy (dish_name d) ''dish_name'';
                    summary \<leftarrow> c_strcpy (dish_summary d) ''summary'';
                    thumbnail \<leftarrow> c_strcpy (dish_thumbnail d) ''thumbnail'';
                    (r, p) \<leftarrow> db_dish_add (env_eng env) (d\<lparr>dish_category := 0, dish_id := 0, dish_name := name, dish_price_type := 0,
                                 dish_price := 30, dish_summary := summary, dish_thumbnail := thumbnail\<rparr>) p;
                    Some (r = 1, p)
                  } else Some (True, p));
     if \<not> ok then Some (False, p)
     else do {
       (n, _, p) \<leftarrow> db_dish_get_by_category (env_eng env) 0 True p;
       if n = 0 then None else Some (True, p)
     }
   }"

definition ensure_seat :: "'db env \<Rightarrow> seat \<Rightarrow> 'db dbp \<Rightarrow> (bool \<times> 'db dbp) option" where
  "ensure_seat env s p = do {
     (r, _, p) \<leftarrow> db_seat_get_one (env_eng env) 0 None p;
     (ok, p) \<leftarrow> (if r = 0 then do {
                    summary \<leftarrow> c_strcpy (seat_summary s) ''summary'';
                    qrcode \<leftarrow> c_strcpy (seat_qrcode s) ''qrcode'';
                    (r, p) \<leftarrow> db_seat_add (env_eng env) (s\<lparr>seat_id := 0, seat_summary := summary, seat_qrcode := qrcode\<rparr>) p;
                    Some (r = 1, p)
                  } else Some (True, p));
     if \<not> ok then Some (False, p)
     else do {
       (n, _, p) \<leftarrow> db_seat_get (env_eng env) p;
       if n = 0 then None else Some (True, p)
     }
   }"

text \<open>\<open>server_init_db\<close> on an open database. \<open>VERIFY_OK\<close>: the first step that fails ends the start. The locals \<open>all\<close> of the two test blocks are not
  initialised, so that freeing them after an empty result is undefined. \<open>d\<close> and \<open>s\<close> are the uninitialised
  structs of these blocks.\<close>

definition server_init_tables :: "'db env \<Rightarrow> dish \<Rightarrow> seat \<Rightarrow> 'db dbp \<Rightarrow> (int \<times> 'db dbp) option" where
  "server_init_tables env d s p = do {
     (r, p) \<leftarrow> db_account_init (env_eng env) p;
     if r \<noteq> 1 then Some (0, p)
     else do {
       (ok, p) \<leftarrow> ensure_admin env p;
       if \<not> ok then Some (0, p)
       else do {
         (r, p) \<leftarrow> db_dish_init (env_eng env) p;
         if r \<noteq> 1 then Some (0, p)
         else do {
           (ok, p) \<leftarrow> ensure_dish env d p;
           if \<not> ok then Some (0, p)
           else do {
             (r, p) \<leftarrow> db_seat_init (env_eng env) p;
             if r \<noteq> 1 then Some (0, p)
             else do {
               (ok, p) \<leftarrow> ensure_seat env s p;
               if \<not> ok then Some (0, p)
               else do {
                 (r, p) \<leftarrow> db_book_init (env_eng env) p;
                 Some (if r \<noteq> 1 then 0 else 1, p)
               }
             }
           }
         }
       }
     }
   }"

section \<open>Routing\<close>

lemma register_all_fresh:
  assumes "s_disp_mgr svc = Some disp" and "distinct (map fst hs)" and "\<forall>c \<in> set (map fst hs). disp_find disp c = None"
  shows "\<exists>svc'. register_all hs svc = Some svc' \<and>
    s_disp_mgr svc' = Some (rev (map (\<lambda>(c, h). \<lparr>disp_category = c, disp_cb = h, disp_opaque = None\<rparr>) hs) @ disp)"
  using assms
proof (induction hs arbitrary: svc disp)
  case (Cons x hs)
  obtain c h where x: "x = (c, h)" by fastforce
  have "\<not> ep_disp_count disp c \<ge> 1" using Cons.prems(3) x by (simp add: disp_count_find)
  then have r: "ep_service_register True c h None svc = Some (1, svc\<lparr>s_disp_mgr := Some (\<lparr>disp_category = c, disp_cb = h, disp_opaque = None\<rparr> # disp)\<rparr>)"
    using Cons.prems(1) by (simp add: ep_service_register_def ep_disp_add_cb_def disp_insert_def)
  have "\<forall>c' \<in> set (map fst hs). disp_find (\<lparr>disp_category = c, disp_cb = h, disp_opaque = None\<rparr> # disp) c' = None"
    using Cons.prems(2,3) x by (auto simp: disp_find_def)
  with Cons.IH [of "svc\<lparr>s_disp_mgr := Some (\<lparr>disp_category = c, disp_cb = h, disp_opaque = None\<rparr> # disp)\<rparr>"] Cons.prems(2) r x
  show ?case by simp
qed simp

text \<open>What a category stands for.\<close>

definition route :: "ep_category \<Rightarrow> handler option" where
  "route c = (if c = EP_CATEGORY_INTERNAL_KEY then Some ep_cert_server_security else map_of server_handlers c)"

lemma network_up:
  "\<exists>svc :: ('x, handler, unit option) ep_service. server_init_network True True True True 1 st service_zero = Some (1, session_init, svc) \<and>
    (\<forall>c. server_request cert env svc c fd pack srv =
       (case route c of
          None \<Rightarrow> (None, True, Some srv)
        | Some h \<Rightarrow> call_handler cert env h (if h = ep_cert_server_security then Some () else None) fd pack (Some srv)))"
proof -
  obtain svc0 :: "('x, handler, unit option) ep_service" where s0: "ep_service_start True True True True True ep_cert_server_security (Some ()) 1
      \<lparr>sc_def_capacity = 4 * 1024, sc_max_capacity = 4 * 1024 * 1024, sc_mini_compress_if = 1024\<rparr> service_zero = Some (1, svc0)"
    "s_disp_mgr svc0 = Some [\<lparr>disp_category = EP_CATEGORY_INTERNAL_KEY, disp_cb = ep_cert_server_security, disp_opaque = Some ()\<rparr>]"
    using ep_service_start_ok [of "\<lparr>sc_def_capacity = 4 * 1024, sc_max_capacity = 4 * 1024 * 1024, sc_mini_compress_if = 1024\<rparr>"
        ep_cert_server_security "Some ()"] by auto
  have d: "distinct (map fst server_handlers)" "\<forall>c \<in> set (map fst server_handlers). c \<noteq> EP_CATEGORY_INTERNAL_KEY"
    by (simp_all add: server_handlers_def EP_CATEGORY_INTERNAL_KEY_def)
  let ?disp = "[\<lparr>disp_category = EP_CATEGORY_INTERNAL_KEY, disp_cb = ep_cert_server_security, disp_opaque = Some ()\<rparr>]"
  have n: "\<forall>c \<in> set (map fst server_handlers). disp_find ?disp c = None"
  proof
    fix c assume "c \<in> set (map fst server_handlers)"
    with d(2) show "disp_find ?disp c = None" by (auto simp: disp_find_def)
  qed
  have e: "s_disp_mgr (ep_service_event svc0) = Some ?disp" using s0(2) by (simp add: ep_service_event_def)
  obtain svc where s: "register_all server_handlers (ep_service_event svc0) = Some svc"
    "s_disp_mgr svc = Some (rev (map (\<lambda>(c, h). \<lparr>disp_category = c, disp_cb = h, disp_opaque = None\<rparr>) server_handlers) @ ?disp)"
    using register_all_fresh [OF e d(1) n] by blast
  have find: "disp_find (rev (map (\<lambda>(c, h). \<lparr>disp_category = c, disp_cb = h, disp_opaque = None\<rparr>) server_handlers) @ ?disp) c =
      map_option (\<lambda>h. \<lparr>disp_category = c, disp_cb = h, disp_opaque = if h = ep_cert_server_security then Some () else None\<rparr>) (route c)" for c
    by (simp add: disp_find_def route_def server_handlers_def EP_CATEGORY_INTERNAL_KEY_def)
  have "server_init_network True True True True 1 st service_zero = Some (1, session_init, svc)"
    using s0(1) s(1) by (simp add: server_init_network_def)
  moreover have "server_request cert env svc c fd pack srv =
       (case route c of
          None \<Rightarrow> (None, True, Some srv)
        | Some h \<Rightarrow> call_handler cert env h (if h = ep_cert_server_security then Some () else None) fd pack (Some srv))" for c
    unfolding server_request_def s(2) option.case ep_disp_processor_find find by (simp split: option.split)
  ultimately show ?thesis by blast
qed

text \<open>Once the network is up, a request of a category of \<open>identity.h\<close> is answered by its handler, the internal
  category by the key exchange, and every other request is dropped without touching the server.\<close>

theorem requests_reach_handlers:
  "\<exists>svc :: ('x, handler, unit option) ep_service. server_init_network True True True True 1 st service_zero = Some (1, session_init, svc) \<and>
    (\<forall>c. server_request cert env svc c fd pack srv =
       (case route c of
          None \<Rightarrow> (None, True, Some srv)
        | Some h \<Rightarrow> call_handler cert env h (if h = ep_cert_server_security then Some () else None) fd pack (Some srv)))"
  by (rule network_up)

end
