(* ===== verification/YM_Reach.thy ===== *)
theory YM_Reach
  imports YM_Server YM_Login
begin

text \<open>
  The server as a state machine: every request and every event that returns is a step. Whatever the packets,
  the database engine and the uninitialised memory are, the sessions stay unique in every reachable state,
  also after a handler has kept the lock.
\<close>

section \<open>Steps\<close>

inductive server_step :: "'db server \<Rightarrow> 'db server \<Rightarrow> bool" where
  request: "0 \<le> fd \<Longrightarrow> run_handler cert h env fd pack srv = Some (reply, srv') \<Longrightarrow> server_step srv srv'"
| event: "0 \<le> fd \<Longrightarrow> service_event_cb type fd (srv_sessions srv) = Some st \<Longrightarrow> server_step srv (srv\<lparr>srv_sessions := st\<rparr>)"

inductive server_reach :: "'db server \<Rightarrow> bool" where
  start: "srv_sessions srv = session_init \<Longrightarrow> server_reach srv"
| step: "server_reach srv \<Longrightarrow> server_step srv srv' \<Longrightarrow> server_reach srv'"

inductive_cases server_stepE: "server_step srv srv'"

section \<open>The invariant of the sessions\<close>

text \<open>Nobody is inside, or the lock is held for good; the sessions are unique in both cases.\<close>

definition session_inv :: "session_state \<Rightarrow> bool" where
  "session_inv st \<longleftrightarrow> session_ok st \<or> session_locked st \<and> sessions_unique (sessions st)"

lemma session_inv_ok: "session_ok st \<Longrightarrow> session_inv st"
  by (simp add: session_inv_def)

lemma session_inv_unique: "session_inv st \<Longrightarrow> sessions_unique (sessions st)"
  by (auto simp: session_inv_def session_okD)

lemma session_inv_locked: "session_inv st \<Longrightarrow> \<not> session_ok st \<Longrightarrow> session_locked st"
  by (simp add: session_inv_def)

text \<open>What a reference gives: nothing, or the lock with the sessions as they were.\<close>

definition held :: "session_state \<Rightarrow> nat \<Rightarrow> session_state \<Rightarrow> bool" where
  "held st q h \<longleftrightarrow> session_ok st \<and> session_dref q h = Some st \<and> session_inv h"

lemma ref_first_sessions: "map n_session (snd (ref_first P ns)) = map n_session ns"
  by (induction P ns rule: ref_first.induct) (auto simp: node_get_def split: prod.splits)

lemma ref_first_found: "fst (ref_first P ns) = None \<Longrightarrow> snd (ref_first P ns) = ns"
  by (induction P ns rule: ref_first.induct) (auto split: prod.splits if_splits)

lemma lock_found_held:
  assumes "lock_if_found r st = Some (Some q, h)" and "map n_session (snd r) = sessions st"
  shows "session_locked h" and "sessions h = sessions st" and "\<not> session_locked st"
  using assms by (auto simp: lock_if_found_def session_lock_def split: prod.splits option.splits if_splits)

lemma lock_found_none:
  assumes "lock_if_found r st = Some (None, h)" and "fst r = None \<Longrightarrow> snd r = session_list st"
  shows "h = st"
  using assms by (auto simp: lock_if_found_def split: prod.splits option.splits bind_splits)

lemma held_intro:
  assumes "lock_if_found r st = Some (Some q, h)" and "map n_session (snd r) = sessions st" and "session_inv st"
    and "session_ok st \<Longrightarrow> session_dref q h = Some st"
  shows "held st q h"
proof -
  have h: "session_locked h" "sessions h = sessions st" "\<not> session_locked st" using lock_found_held [OF assms(1,2)] .
  then have "session_ok st" using assms(3) by (auto simp: session_inv_def)
  with h assms(4) show ?thesis by (simp add: held_def session_inv_def session_okD)
qed

lemma ref_fd_inv:
  assumes "session_inv st" and "0 \<le> fd" and "session_ref_fd fd st = Some (r, h)"
  shows "case r of None \<Rightarrow> h = st | Some q \<Rightarrow> held st q h"
proof (cases r)
  case None
  let ?r = "ref_all (\<lambda>s. sess_fd s = fd) (session_list st) None"
  have n: "fst ?r = None \<Longrightarrow> snd ?r = session_list st" by (simp add: ref_all_found ref_all_none)
  show ?thesis using lock_found_none [of ?r st h, OF _ n] None assms(3) by (simp add: session_ref_fd_def)
next
  case (Some q)
  have l: "lock_if_found (ref_all (\<lambda>s. sess_fd s = fd) (session_list st) None) st = Some (Some q, h)"
    using assms(3) Some by (simp add: session_ref_fd_def)
  have "session_dref q h = Some st" if ok: "session_ok st"
  proof (cases "fd_session st fd")
    case None
    then show ?thesis using by_fd.ref_absent [OF ok, of "nat fd"] assms(2,3) Some by simp
  next
    case (Some s)
    then show ?thesis using by_fd.ref_present [OF ok, of "nat fd" s] assms(2,3) \<open>r = Some q\<close> by auto
  qed
  then show ?thesis using Some held_intro [OF l ref_all_sessions assms(1)] by simp
qed

lemma ref_first_inv:
  assumes "session_inv st" and "lock_if_found (ref_first P (session_list st)) st = Some (r, h)"
  shows "case r of None \<Rightarrow> h = st | Some q \<Rightarrow> held st q h"
proof (cases r)
  case None
  then show ?thesis using lock_found_none [OF _ ref_first_found] assms(2) by simp
next
  case (Some q)
  have "session_dref q h = Some st" if ok: "session_ok st"
  proof (cases "find P (sessions st)")
    case None
    then show ?thesis using lock_if_found_spec(1) [OF ok None] assms(2) Some by simp
  next
    case (Some s)
    then show ?thesis using lock_if_found_spec(2) [OF ok Some] assms(2) \<open>r = Some q\<close> by auto
  qed
  then show ?thesis using Some held_intro [OF _ ref_first_sessions assms(1)] assms(2) by simp
qed

lemma ref_uid_inv: "session_inv st \<Longrightarrow> session_ref_uid uid type st = Some (r, h) \<Longrightarrow> case r of None \<Rightarrow> h = st | Some q \<Rightarrow> held st q h"
  unfolding session_ref_uid_def by (rule ref_first_inv)

lemma ref_token_inv: "session_inv st \<Longrightarrow> session_ref_token t st = Some (r, h) \<Longrightarrow> case r of None \<Rightarrow> h = st | Some q \<Rightarrow> held st q h"
  unfolding session_ref_token_def by (rule ref_first_inv)

lemma held_dref: "held st q h \<Longrightarrow> session_dref q h = Some st' \<Longrightarrow> session_inv st'"
  by (auto simp: held_def session_inv_def)

lemma held_inv: "held st q h \<Longrightarrow> session_inv h" "held st q h \<Longrightarrow> session_inv st"
  by (auto simp: held_def session_inv_def)

text \<open>Additions and removals.\<close>

lemma session_do_inv:
  assumes "session_inv st" and "session_op_ok op" and "session_do op st = Some (r, st')"
  shows "session_inv st'"
proof (cases "session_ok st")
  case True
  from session_step_refines [OF this assms(2)] assms(3) show ?thesis by (auto intro: session_inv_ok)
next
  case False
  then have "session_lock st = None" using session_inv_locked [OF assms(1)] by (simp add: session_lock_def)
  then have "session_do op st = None"
    by (cases op) (simp_all add: session_add_fd_def session_add_token_def session_add_def session_del_fd_def session_del_token_def session_del_def Let_def)
  with assms(3) show ?thesis by simp
qed

lemma add_fd_inv: "session_inv st \<Longrightarrow> 0 \<le> sess_fd s \<Longrightarrow> session_add_fd s st = Some (r, s', st') \<Longrightarrow> session_inv st'"
  using session_do_inv [of st "SAddFd s" r st'] by simp

lemma add_token_inv: "session_inv st \<Longrightarrow> session_add_token s st = Some (r, s', st') \<Longrightarrow> session_inv st'"
  using session_do_inv [of st "SAddToken s" r st'] by simp

lemma del_fd_inv: "session_inv st \<Longrightarrow> 0 \<le> fd \<Longrightarrow> session_del_fd fd st = Some (r, st') \<Longrightarrow> session_inv st'"
  using session_do_inv [of st "SDelFd fd" r st'] by simp

lemma del_token_inv: "session_inv st \<Longrightarrow> session_del_token uid st = Some (r, st') \<Longrightarrow> session_inv st'"
  using session_do_inv [of st "SDelToken uid" r st'] by simp

section \<open>Rules for the operations\<close>

lemma ens_ref:
  assumes "\<And>r h. m = Some (r, h) \<Longrightarrow> case r of None \<Rightarrow> h = st | Some q \<Rightarrow> held st q h"
    and "ensures P (f (None, st))" and "\<And>q h. held st q h \<Longrightarrow> ensures P (f (Some q, h))"
  shows "ensures P (m \<bind> f)"
proof (cases m)
  case (Some x)
  obtain r h where x: "x = (r, h)" by fastforce
  show ?thesis using assms(1) [of r h] assms(2,3) Some x by (cases r) auto
qed (simp add: ens_None)

lemma ens_ref_fd:
  assumes "session_inv st" and "0 \<le> fd" and "ensures P (f (None, st))" and "\<And>q h. held st q h \<Longrightarrow> ensures P (f (Some q, h))"
  shows "ensures P (session_ref_fd fd st \<bind> f)"
  by (rule ens_ref [OF ref_fd_inv [OF assms(1,2)] assms(3,4)])

lemma ens_ref_uid:
  assumes "session_inv st" and "ensures P (f (None, st))" and "\<And>q h. held st q h \<Longrightarrow> ensures P (f (Some q, h))"
  shows "ensures P (session_ref_uid uid type st \<bind> f)"
  by (rule ens_ref [OF ref_uid_inv [OF assms(1)] assms(2,3)])

lemma ens_ref_token:
  assumes "session_inv st" and "ensures P (f (None, st))" and "\<And>q h. held st q h \<Longrightarrow> ensures P (f (Some q, h))"
  shows "ensures P (session_ref_token t st \<bind> f)"
  by (rule ens_ref [OF ref_token_inv [OF assms(1)] assms(2,3)])

lemma ens_dref: "held st q h \<Longrightarrow> (session_inv st \<Longrightarrow> ensures P (f st)) \<Longrightarrow> ensures P (session_dref q h \<bind> f)"
  by (auto simp: held_def session_inv_ok)

lemma ens_add_fd:
  "session_inv st \<Longrightarrow> 0 \<le> sess_fd s \<Longrightarrow> (\<And>r s' st'. session_inv st' \<Longrightarrow> ensures P (f (r, s', st'))) \<Longrightarrow> ensures P (session_add_fd s st \<bind> f)"
  by (auto simp: ensures_def bind_eq_Some_conv dest: add_fd_inv)

lemma ens_add_token:
  "session_inv st \<Longrightarrow> (\<And>r s' st'. session_inv st' \<Longrightarrow> ensures P (f (r, s', st'))) \<Longrightarrow> ensures P (session_add_token s st \<bind> f)"
  by (auto simp: ensures_def bind_eq_Some_conv dest: add_token_inv)

lemma ens_del_fd:
  "session_inv st \<Longrightarrow> 0 \<le> fd \<Longrightarrow> (\<And>r st'. session_inv st' \<Longrightarrow> ensures P (f (r, st'))) \<Longrightarrow> ensures P (session_del_fd fd st \<bind> f)"
  by (auto simp: ensures_def bind_eq_Some_conv dest: del_fd_inv)

lemma ens_del_token:
  "session_inv st \<Longrightarrow> (\<And>r st'. session_inv st' \<Longrightarrow> ensures P (f (r, st'))) \<Longrightarrow> ensures P (session_del_token uid st \<bind> f)"
  by (auto simp: ensures_def bind_eq_Some_conv dest: del_token_inv)

lemmas ens_session = ens_ref_fd ens_ref_uid ens_ref_token ens_dref ens_add_fd ens_add_token ens_del_fd ens_del_token

section \<open>Handlers\<close>

lemma check_session_exist_inv:
  assumes "session_inv st" and "0 \<le> fd" and "res_account_check_session_exist uid fd st = Some (c, st')"
  shows "session_inv st'"
proof (cases "session_ok st")
  case True
  from check_session_exist_spec [OF this assms(2), of uid] assms(3) show ?thesis by (auto intro: session_inv_ok)
next
  case False
  then have nh: "\<not> held st q h" for q h by (simp add: held_def)
  have u: "ensures (\<lambda>r. snd r = st) (end_session_of_uid uid st)" unfolding end_session_of_uid_def
    by (rule ens_ref_uid [OF assms(1)]) (simp_all add: ens_Some nh)
  have f: "ensures (\<lambda>r. snd r = st) (end_session_of_fd fd st)" unfolding end_session_of_fd_def
    by (rule ens_ref_fd [OF assms(1,2)]) (simp_all add: ens_Some nh)
  have "ensures (\<lambda>r. snd r = st) (res_account_check_session_exist uid fd st)" unfolding res_account_check_session_exist_def
  proof (rule ens_bind [OF u])
    fix x :: "bool \<times> session_state" assume "snd x = st"
    then show "ensures (\<lambda>r. snd r = st) (case x of (c1, st) \<Rightarrow> end_session_of_fd fd st \<bind> (\<lambda>(c2, st). Some (c1 \<or> c2, st)))"
      using f by (cases x) (auto intro!: ens_bind [OF f] ens_Some)
  qed
  with assms(1,3) show ?thesis by (auto dest: ensuresD)
qed

lemma ens_check_exist:
  "session_inv st \<Longrightarrow> 0 \<le> fd \<Longrightarrow> (\<And>r st'. session_inv st' \<Longrightarrow> ensures P (f (r, st'))) \<Longrightarrow> ensures P (res_account_check_session_exist uid fd st \<bind> f)"
  by (auto simp: ensures_def bind_eq_Some_conv dest: check_session_exist_inv)

lemma ens_remove_old_token:
  assumes "session_inv st" and "\<And>st'. session_inv st' \<Longrightarrow> ensures P (f st')"
  shows "ensures P (remove_old_token uid st \<bind> f)"
proof (rule ens_bind [where Q = session_inv])
  show "ensures session_inv (remove_old_token uid st)" unfolding remove_old_token_def
    by (simp only: prod.case option.case | rule ens_session ens_rules assms(1) | assumption)+
qed (rule assms(2))

lemma ens_login_token:
  assumes "session_inv st" and "\<And>t st'. session_inv st' \<Longrightarrow> ensures P (f (t, st'))"
  shows "ensures P (login_token env uid days s st \<bind> f)"
proof (rule ens_bind [where Q = "\<lambda>r. session_inv (snd r)"])
  show "ensures (\<lambda>r. session_inv (snd r)) (login_token env uid days s st)" unfolding login_token_def
    by (simp only: prod.case option.case snd_conv | rule ens_remove_old_token ens_session ens_rules assms(1) | assumption)+
qed (use assms(2) in auto)

lemma ens_check_permission:
  assumes "session_inv st" and "0 \<le> fd" and "\<And>b st'. session_inv st' \<Longrightarrow> ensures P (f (b, st'))"
  shows "ensures P (check_permission fd allowed st \<bind> f)"
proof (rule ens_bind [where Q = "\<lambda>r. session_inv (snd r)"])
  show "ensures (\<lambda>r. session_inv (snd r)) (check_permission fd allowed st)" unfolding check_permission_def
    by (simp only: prod.case option.case snd_conv | rule ens_session ens_rules assms(1,2) | assumption)+
qed (use assms(3) in auto)

text \<open>A handler keeps the invariant.\<close>

abbreviation inv_after :: "ep_pack \<times> 'db server \<Rightarrow> bool" where
  "inv_after r \<equiv> session_inv (srv_sessions (snd r))"

lemma login_by_pwd_inv:
  assumes "session_inv (srv_sessions srv)" and "0 \<le> fd"
  shows "ensures inv_after (login_by_pwd env fd uid pwd days srv)"
  unfolding login_by_pwd_def
  by (simp only: prod.case option.case | assumption | rule ens_check_exist ens_login_token ens_session ens_rules assms | simp add: assms)+

lemma login_by_token_inv:
  assumes "session_inv (srv_sessions srv)" and "0 \<le> fd"
  shows "ensures inv_after (login_by_token env fd token srv)"
  unfolding login_by_token_def
  by (simp only: prod.case option.case | assumption | rule ens_check_exist ens_session ens_rules assms | simp add: assms)+

lemma login_inv:
  assumes "session_inv (srv_sessions srv)" and "0 \<le> fd"
  shows "ensures inv_after (res_account_login env fd pack srv)"
  unfolding res_account_login_def
  by (rule ens_rules login_by_pwd_inv [OF assms] login_by_token_inv [OF assms] | simp add: assms)+

lemma logout_inv:
  assumes "session_inv (srv_sessions srv)" and "0 \<le> fd"
  shows "ensures inv_after (res_account_logout env fd pack srv)"
  unfolding res_account_logout_def
  by (simp only: prod.case option.case | assumption | rule ens_session ens_rules assms | simp add: assms)+

lemma create_inv:
  assumes "session_inv (srv_sessions srv)" and "0 \<le> fd"
  shows "ensures inv_after (res_account_create env fd pack srv)"
  unfolding res_account_create_def
  by (simp only: prod.case option.case | assumption | rule ens_session ens_rules assms | simp add: assms)+

lemma modify_pwd_inv:
  assumes "session_inv (srv_sessions srv)" and "0 \<le> fd"
  shows "ensures inv_after (res_account_modify_pwd env fd pack srv)"
  unfolding res_account_modify_pwd_def
  by (simp only: prod.case option.case | assumption | rule ens_session ens_rules assms | simp add: assms)+

lemma modify_basic_inv:
  assumes "session_inv (srv_sessions srv)" and "0 \<le> fd"
  shows "ensures inv_after (res_account_modify_basic env fd pack srv)"
  unfolding res_account_modify_basic_def
  by (simp only: prod.case option.case | assumption | rule ens_session ens_rules assms | simp add: assms held_inv)+

lemma delete_inv:
  assumes "session_inv (srv_sessions srv)" and "0 \<le> fd"
  shows "ensures inv_after (res_account_delete env fd pack srv)"
  unfolding res_account_delete_def
  by (simp only: prod.case option.case | assumption | rule ens_session ens_rules assms | simp add: assms held_inv)+

lemma list_inv:
  assumes "session_inv (srv_sessions srv)" and "0 \<le> fd"
  shows "ensures inv_after (res_account_list env fd pack srv)" and "ensures inv_after (res_seat_list env fd pack srv)"
    and "ensures inv_after (res_dish_fetch env fd pack srv)" and "ensures inv_after (res_dish_list env fd pack srv)"
    and "ensures inv_after (res_dish_cancel env fd pack srv)" and "ensures inv_after (res_dish_book env fd pack srv)"
  unfolding res_account_list_def res_seat_list_def res_dish_fetch_def res_dish_list_def res_dish_cancel_def res_dish_book_def
  by (simp only: prod.case option.case | assumption | rule ens_check_permission ens_rules assms | simp add: assms)+

lemma cook_inv:
  assumes "session_inv (srv_sessions srv)" and "0 \<le> fd"
  shows "ensures inv_after (res_cook_accept env fd pack srv)"
  unfolding res_cook_accept_def
  by (simp only: prod.case option.case | assumption | rule ens_session ens_rules assms | simp add: assms)+

lemma version_inv:
  assumes "session_inv (srv_sessions srv)"
  shows "ensures inv_after (res_version_check env fd pack srv)"
  unfolding res_version_check_def
  by (rule ens_rules | simp add: assms)+

text \<open>The heartbeat writes into the session it holds.\<close>

lemma dref_set: "session_dref q (session_set q f h) = map_option (session_set q f) (session_dref q h)"
proof -
  have "put_first q (map (\<lambda>n. if n_id n = q then n\<lparr>n_session := f (n_session n)\<rparr> else n) ns) =
      map (\<lambda>n. if n_id n = q then n\<lparr>n_session := f (n_session n)\<rparr> else n) (put_first q ns)" for ns
    by (induction q ns rule: put_first.induct) auto
  then show ?thesis by (simp add: session_dref_def session_set_def session_unlock_def)
qed

lemma session_ok_set:
  assumes "session_ok st" and f: "\<And>s. sess_s_type (f s) = sess_s_type s" "\<And>s. sess_fd (f s) = sess_fd s" "\<And>s. sess_uid (f s) = sess_uid s"
    "\<And>s. sess_token (f s) = sess_token s"
  shows "session_ok (session_set q f st)"
proof -
  define g where "g n = (if n_id n = q then n\<lparr>n_session := f (n_session n)\<rparr> else n)" for n :: session_node
  have k: "is_fd (n_session (g n)) = is_fd (n_session n)" "sess_fd (n_session (g n)) = sess_fd (n_session n)"
    "sess_uid (n_session (g n)) = sess_uid (n_session n)" "sess_token (n_session (g n)) = sess_token (n_session n)"
    "n_id (g n) = n_id n" "n_ref (g n) = n_ref n" for n
    using f by (simp_all add: is_fd_def g_def)
  have u: "sessions_unique (map n_session (map g ns)) = sessions_unique (map n_session ns)" for ns
    unfolding sessions_unique_def by (simp add: filter_map comp_def k)
  have "session_list (session_set q f st) = map g (session_list st)" by (simp add: session_set_def g_def)
  moreover have "session_locked (session_set q f st) = session_locked st" "session_next (session_set q f st) = session_next st"
    by (simp_all add: session_set_def)
  moreover have "map n_id (map g ns) = map n_id ns" for ns by (simp add: comp_def k)
  ultimately show ?thesis using assms(1) unfolding session_ok_def by (simp only: u) (simp add: list_all_iff k)
qed

lemma heartbeat_inv:
  assumes "session_inv (srv_sessions srv)" and "0 \<le> fd"
  shows "ensures inv_after (res_heartbeat env fd pack srv)"
proof -
  have "session_ok (session_set q (\<lambda>s. s\<lparr>sess_heatbeat := env_now env\<rparr>) st)" if "session_ok st" for q st
    using that by (rule session_ok_set) simp_all
  then have s: "ensures P (session_dref q (session_set q (\<lambda>s. s\<lparr>sess_heatbeat := env_now env\<rparr>) h) \<bind> f)"
    if "held st q h" "\<And>st'. session_inv st' \<Longrightarrow> ensures P (f st')" for P q h st and f :: "session_state \<Rightarrow> (ep_pack \<times> 'a server) option"
    using that by (simp add: dref_set held_def session_inv_ok)
  show ?thesis unfolding res_heartbeat_def
    by (simp only: prod.case option.case | assumption | rule s ens_ref_fd ens_rules assms | simp add: assms)+
qed

section \<open>Reachable states\<close>

lemma run_handler_inv:
  assumes "session_inv (srv_sessions srv)" and "0 \<le> fd"
  shows "ensures inv_after (run_handler cert h env fd pack srv)"
  using assms by (cases h) (simp_all add: ens_Some login_inv logout_inv create_inv modify_pwd_inv modify_basic_inv delete_inv list_inv cook_inv
      version_inv heartbeat_inv)

lemma event_inv: "session_inv st \<Longrightarrow> 0 \<le> fd \<Longrightarrow> ensures session_inv (service_event_cb type fd st)"
  unfolding service_event_cb_def
  by (simp only: prod.case option.case | assumption | rule ens_del_fd ens_rules)+

lemma server_step_inv: "server_step srv srv' \<Longrightarrow> session_inv (srv_sessions srv) \<Longrightarrow> session_inv (srv_sessions srv')"
  by (auto elim!: server_stepE dest: ensuresD [OF run_handler_inv] ensuresD [OF event_inv])

lemma server_reach_inv: "server_reach srv \<Longrightarrow> session_inv (srv_sessions srv)"
  by (induction rule: server_reach.induct) (auto simp: session_inv_ok session_ok_init server_step_inv)

text \<open>C22. In every state that the server can reach, by requests of any content on any connections and by events, in
  any order, with any database and any uninitialised memory: a user is logged in on at most one
  connection, a connection is logged in as at most one user, and a token stands for at most one
  session.\<close>

theorem logins_unique:
  assumes "server_reach srv" and "s \<in> set (sessions (srv_sessions srv))" and "s' \<in> set (sessions (srv_sessions srv))"
    and "sess_s_type s = sess_s_type s'"
    and "if sess_s_type s = session_fd then sess_fd s = sess_fd s' \<or> sess_uid s = sess_uid s' else sess_token s = sess_token s'"
  shows "s = s'"
proof -
  have "sessions_unique (sessions (srv_sessions srv))" by (rule session_inv_unique [OF server_reach_inv [OF assms(1)]])
  then have i: "inj_on sess_fd (set (filter is_fd (sessions (srv_sessions srv))))" "inj_on sess_uid (set (filter is_fd (sessions (srv_sessions srv))))"
    "inj_on sess_token (set (filter (\<lambda>s. \<not> is_fd s) (sessions (srv_sessions srv))))"
    by (simp_all add: sessions_unique_def distinct_map)
  show ?thesis
  proof (cases "sess_s_type s = session_fd")
    case True
    then have "s \<in> set (filter is_fd (sessions (srv_sessions srv)))" "s' \<in> set (filter is_fd (sessions (srv_sessions srv)))"
      using assms(2-4) by (simp_all add: is_fd_def)
    with i(1,2) assms(5) True show ?thesis by (auto dest: inj_onD)
  next
    case False
    then have "s \<in> set (filter (\<lambda>s. \<not> is_fd s) (sessions (srv_sessions srv)))" "s' \<in> set (filter (\<lambda>s. \<not> is_fd s) (sessions (srv_sessions srv)))"
      using assms(2-4) by (simp_all add: is_fd_def)
    with i(3) assms(5) False show ?thesis by (auto dest: inj_onD)
  qed
qed

theorem logins_unique_witness:
  "\<exists>(srv :: tables server) s. server_reach srv \<and> s \<in> set (sessions (srv_sessions srv)) \<and>
    list_all (\<lambda>s'. is_fd s' \<and> sess_uid s' = ''root'' \<longrightarrow> s' = s) (sessions (srv_sessions srv))"
proof -
  let ?s = "pwd_session demo_env 7 (demo_row ''root'' 0 ''pw'')"
  have uid: "fits 16 ''root''" by (simp add: fits_def plain_def)
  have a: "account_of (srv_tables (\<lambda>T. T) demo_server) ''root'' = Some (demo_row ''root'' 0 ''pw'')"
    by (simp add: account_of_def demo_server_def demo_tables_def demo_row_def dbp_create_new_sqlite_def)
  have pw: "ar_pwd (demo_row ''root'' 0 ''pw'') = db_encrypt_pwd ''pw''" by (simp add: demo_row_def)
  obtain reply srv where l: "login_by_pwd demo_env 7 ''root'' ''pw'' 0 demo_server = Some (reply, srv)" "srv_ok (\<lambda>T. T) srv"
    "logged srv = log_in 7 ?s (logged demo_server)"
    using login_by_pwd_spec [OF demo_env_ok demo_server_ok _ uid, of 7 0 "''pw''"] a pw by (auto simp: login_outcome_def Let_def)
  have low: "map c_tolower ''root'' = ''root''" by code_simp
  have "word_16 ''root''" "word_16 ''pw''" by (simp_all add: word_16_def c_string_def)
  from res_account_login_pwd [OF this, of demo_env 7 0 demo_server] l(1)
  have "run_handler (\<lambda>_ _. ep_pack_new) H_account_login demo_env 7 (Some (login_doc ''root'' ''pw'' 0)) demo_server = Some (reply, srv)"
    by (simp only: low run_handler.simps)
  from server_step.request [OF _ this] have "server_step demo_server srv" by simp
  moreover have "server_reach demo_server" by (rule server_reach.start) (simp add: demo_server_def)
  ultimately have reach: "server_reach srv" by (rule server_reach.step [rotated])
  have s: "?s \<in> set (sessions (srv_sessions srv))" "sess_uid ?s = ''root''" "sess_s_type ?s = session_fd"
    using fd_session_iff [OF srv_okD(1) [OF l(2)], of 7 ?s] l(3) by (simp_all add: log_in_def pwd_session_def demo_row_def)
  have "s' = ?s" if "s' \<in> set (sessions (srv_sessions srv))" "is_fd s'" "sess_uid s' = ''root''" for s'
    by (rule logins_unique [OF reach that(1) s(1)]) (use that s in \<open>simp_all add: is_fd_def\<close>)
  then have "list_all (\<lambda>s'. is_fd s' \<and> sess_uid s' = ''root'' \<longrightarrow> s' = ?s) (sessions (srv_sessions srv))"
    by (simp only: list_all_iff) blast
  with reach s(1) show ?thesis by blast
qed

end
