(* ===== verification/EP_ThreadPool.thy ===== *)
theory EP_ThreadPool
  imports EP_Prelude
begin

text \<open>
  The thread pool (\<open>eventpack/src/ep_threadpool.c\<close>) and the system of its threads. Workers are addresses; \<open>tp_workers\<close> are the
  live ones, and using another is undefined (\<open>None\<close>). The routine of a thread is split where it takes or gives up the mutex: the
  test of the loop, the critical section that takes a worker or waits, the work, the completion. \<open>pool_step\<close> interleaves
  these segments with registrations and with the abort of \<open>ep_tp_destroy\<close>.
\<close>

section \<open>The model\<close>

datatype ep_tp_state = tp_state_invalid | tp_state_idle | tp_state_busy | tp_state_complete

record ('cb, 'o, 'r) ep_tp_worker =
  wk_process_cb :: 'cb
  wk_complete_cb :: "'cb option"
  wk_opaque :: 'o
  wk_result :: "'r option"
  wk_state :: ep_tp_state
  wk_sem :: nat

record ('cb, 'o, 'r) ep_tp =
  tp_workers :: "nat \<rightharpoonup> ('cb, 'o, 'r) ep_tp_worker"
  tp_fresh :: nat
  tp_worker_queue :: "nat list"
  tp_nthreads :: int
  tp_abort :: bool

text \<open>The flags say whether the pool and its array of threads can be allocated.\<close>

definition ep_tp_create :: "bool \<Rightarrow> bool \<Rightarrow> int \<Rightarrow> ('cb, 'o, 'r) ep_tp option" where
  "ep_tp_create a_pool a_thread nthreads =
     (if \<not> a_pool \<or> nthreads \<le> 0 then None
      else if \<not> a_thread then None
      else Some \<lparr>tp_workers = Map.empty, tp_fresh = 0, tp_worker_queue = [], tp_nthreads = nthreads, tp_abort = False\<rparr>)"

definition tp_new_worker :: "'cb \<Rightarrow> 'cb option \<Rightarrow> 'o \<Rightarrow> ('cb, 'o, 'r) ep_tp_worker" where
  "tp_new_worker process_cb complete_cb opaque = \<lparr>wk_process_cb = process_cb, wk_complete_cb = complete_cb,
     wk_opaque = opaque, wk_result = None, wk_state = tp_state_idle, wk_sem = 0\<rparr>"

definition ep_tp_worker_register ::
  "bool \<Rightarrow> ('cb, 'o, 'r) ep_tp option \<Rightarrow> 'cb option \<Rightarrow> 'cb option \<Rightarrow> 'o \<Rightarrow> nat option \<times> ('cb, 'o, 'r) ep_tp option" where
  "ep_tp_worker_register alloc pool process_cb complete_cb opaque =
     (case (pool, process_cb) of
        (Some p, Some cb) \<Rightarrow>
          if tp_abort p \<or> \<not> alloc then (None, pool)
          else (let w = tp_fresh p in
            (Some w, Some (p\<lparr>tp_workers := (tp_workers p)(w \<mapsto> tp_new_worker cb complete_cb opaque), tp_fresh := w + 1,
               tp_worker_queue := tp_worker_queue p @ [w]\<rparr>)))
      | _ \<Rightarrow> (None, pool))"

definition ep_tp_worker_touch :: "nat option \<Rightarrow> ('cb, 'o, 'r) ep_tp \<Rightarrow> ep_tp_state option" where
  "ep_tp_worker_touch worker pool =
     (case worker of None \<Rightarrow> Some tp_state_invalid | Some w \<Rightarrow> map_option wk_state (tp_workers pool w))"

text \<open>Waiting: \<open>None\<close> is also a wait that blocks, when the semaphore is zero.\<close>

definition ep_tp_worker_wait :: "nat option \<Rightarrow> ('cb, 'o, 'r) ep_tp \<Rightarrow> ('r option \<times> ('cb, 'o, 'r) ep_tp) option" where
  "ep_tp_worker_wait worker pool =
     (case worker of
        None \<Rightarrow> Some (None, pool)
      | Some w \<Rightarrow> do {
          k \<leftarrow> tp_workers pool w;
          (if wk_sem k = 0 then None
           else Some (wk_result k, pool\<lparr>tp_workers := (tp_workers pool)(w \<mapsto> k\<lparr>wk_sem := wk_sem k - 1\<rparr>)\<rparr>))
        })"

definition ep_tp_worker_free :: "nat \<Rightarrow> ('cb, 'o, 'r) ep_tp \<Rightarrow> ('cb, 'o, 'r) ep_tp option" where
  "ep_tp_worker_free w pool = do {
     _ \<leftarrow> tp_workers pool w;
     Some (pool\<lparr>tp_worker_queue := remove1 w (tp_worker_queue pool), tp_workers := (tp_workers pool)(w := None)\<rparr>)
   }"

text \<open>Where a thread is in \<open>ep_tp_routine\<close>: at the test of the outer loop, at the test of the inner one with the mutex, waiting for
  the condition, with a worker it has taken, processing it, with the processed worker, or gone.\<close>

datatype tp_thread = TLoop | TCheck | TWaiting | TTaken nat | TBusy nat | TComplete nat | TExit

definition tp_test :: "('cb, 'o, 'r) ep_tp \<Rightarrow> tp_thread" where
  "tp_test pool = (if tp_abort pool then TExit else TCheck)"

definition tp_take :: "('cb, 'o, 'r) ep_tp \<Rightarrow> tp_thread \<times> ('cb, 'o, 'r) ep_tp" where
  "tp_take pool =
     (case tp_worker_queue pool of
        w # rest \<Rightarrow> (TTaken w, pool\<lparr>tp_worker_queue := rest\<rparr>)
      | [] \<Rightarrow> (if tp_abort pool then TExit else TWaiting, pool))"

definition tp_begin :: "nat \<Rightarrow> ('cb, 'o, 'r) ep_tp \<Rightarrow> ('cb, 'o, 'r) ep_tp option" where
  "tp_begin w pool = do {
     k \<leftarrow> tp_workers pool w;
     Some (pool\<lparr>tp_workers := (tp_workers pool)(w \<mapsto> k\<lparr>wk_state := tp_state_busy\<rparr>)\<rparr>)
   }"

definition tp_process :: "('cb \<Rightarrow> 'o \<Rightarrow> 'r) \<Rightarrow> nat \<Rightarrow> ('cb, 'o, 'r) ep_tp \<Rightarrow> ('cb, 'o, 'r) ep_tp option" where
  "tp_process run w pool = do {
     k \<leftarrow> tp_workers pool w;
     Some (pool\<lparr>tp_workers := (tp_workers pool)(w \<mapsto> k\<lparr>wk_result := Some (run (wk_process_cb k) (wk_opaque k)),
       wk_state := tp_state_complete, wk_sem := wk_sem k + 1\<rparr>)\<rparr>)
   }"

text \<open>The completion reads the worker for its callback, and frees it.\<close>

definition tp_complete :: "nat \<Rightarrow> ('cb, 'o, 'r) ep_tp \<Rightarrow> ('cb, 'o, 'r) ep_tp option" where
  "tp_complete w pool = do { _ \<leftarrow> tp_workers pool w; ep_tp_worker_free w pool }"

definition tp_set_abort :: "('cb, 'o, 'r) ep_tp \<Rightarrow> ('cb, 'o, 'r) ep_tp" where
  "tp_set_abort pool = pool\<lparr>tp_abort := True\<rparr>"

text \<open>What \<open>ep_tp_destroy\<close> does when the threads are gone: the workers still queued are freed without being run. Freeing one
  that is not live is undefined.\<close>

fun tp_drop :: "nat list \<Rightarrow> (nat \<rightharpoonup> ('cb, 'o, 'r) ep_tp_worker) \<Rightarrow> (nat \<rightharpoonup> ('cb, 'o, 'r) ep_tp_worker) option" where
  "tp_drop [] heap = Some heap"
| "tp_drop (w # ws) heap = do { _ \<leftarrow> heap w; tp_drop ws (heap(w := None)) }"

section \<open>The threads\<close>

text \<open>The workers registered, taken, processed and completed so far, in order.\<close>

record ('cb, 'o, 'r) pool_sys =
  ps_pool :: "('cb, 'o, 'r) ep_tp"
  ps_thread :: "nat \<Rightarrow> tp_thread"
  ps_registered :: "nat list"
  ps_taken :: "nat list"
  ps_completed :: "nat list"

definition tp_wake :: "(nat \<Rightarrow> tp_thread) \<Rightarrow> nat \<Rightarrow> tp_thread" where
  "tp_wake th t = (if th t = TWaiting then TCheck else th t)"

definition taken_of :: "tp_thread \<Rightarrow> nat list" where
  "taken_of s = (case s of TTaken w \<Rightarrow> [w] | _ \<Rightarrow> [])"

inductive pool_step :: "('cb \<Rightarrow> 'o \<Rightarrow> 'r) \<Rightarrow> ('cb, 'o, 'r) pool_sys \<Rightarrow> ('cb, 'o, 'r) pool_sys \<Rightarrow> bool" for run where
  register: "ep_tp_worker_register True (Some (ps_pool s)) (Some cb) complete_cb opaque = (Some w, Some pool') \<Longrightarrow>
     pool_step run s (s\<lparr>ps_pool := pool', ps_thread := tp_wake (ps_thread s), ps_registered := ps_registered s @ [w]\<rparr>)"
| test: "ps_thread s t = TLoop \<Longrightarrow> pool_step run s (s\<lparr>ps_thread := (ps_thread s)(t := tp_test (ps_pool s))\<rparr>)"
| taken: "ps_thread s t = TCheck \<Longrightarrow> tp_take (ps_pool s) = (th, pool') \<Longrightarrow>
     pool_step run s (s\<lparr>ps_pool := pool', ps_thread := (ps_thread s)(t := th), ps_taken := ps_taken s @ taken_of th\<rparr>)"
| spurious: "ps_thread s t = TWaiting \<Longrightarrow> pool_step run s (s\<lparr>ps_thread := (ps_thread s)(t := TCheck)\<rparr>)"
| begun: "ps_thread s t = TTaken w \<Longrightarrow> tp_begin w (ps_pool s) = Some pool' \<Longrightarrow>
     pool_step run s (s\<lparr>ps_pool := pool', ps_thread := (ps_thread s)(t := TBusy w)\<rparr>)"
| processed: "ps_thread s t = TBusy w \<Longrightarrow> tp_process run w (ps_pool s) = Some pool' \<Longrightarrow>
     pool_step run s (s\<lparr>ps_pool := pool', ps_thread := (ps_thread s)(t := TComplete w)\<rparr>)"
| completed: "ps_thread s t = TComplete w \<Longrightarrow> tp_complete w (ps_pool s) = Some pool' \<Longrightarrow>
     pool_step run s (s\<lparr>ps_pool := pool', ps_thread := (ps_thread s)(t := TLoop), ps_completed := ps_completed s @ [w]\<rparr>)"
| abort: "pool_step run s (s\<lparr>ps_pool := tp_set_abort (ps_pool s), ps_thread := tp_wake (ps_thread s)\<rparr>)"

definition pool_start :: "('cb, 'o, 'r) pool_sys \<Rightarrow> bool" where
  "pool_start s \<longleftrightarrow> (\<exists>n. ep_tp_create True True n = Some (ps_pool s)) \<and>
     (\<forall>t. ps_thread s t = (if int t < tp_nthreads (ps_pool s) then TLoop else TExit)) \<and>
     ps_registered s = [] \<and> ps_taken s = [] \<and> ps_completed s = []"

section \<open>The invariant\<close>

definition tp_holds :: "tp_thread \<Rightarrow> nat option" where
  "tp_holds th = (case th of TTaken w \<Rightarrow> Some w | TBusy w \<Rightarrow> Some w | TComplete w \<Rightarrow> Some w | _ \<Rightarrow> None)"

definition pool_inv :: "('cb, 'o, 'r) pool_sys \<Rightarrow> bool" where
  "pool_inv s \<longleftrightarrow>
     ps_taken s @ tp_worker_queue (ps_pool s) = ps_registered s \<and>
     distinct (ps_registered s) \<and> (\<forall>w \<in> set (ps_registered s). w < tp_fresh (ps_pool s)) \<and>
     (\<forall>w. tp_workers (ps_pool s) w \<noteq> None \<longleftrightarrow> w \<in> set (ps_registered s) \<and> w \<notin> set (ps_completed s)) \<and>
     set (ps_completed s) \<subseteq> set (ps_taken s) \<and> distinct (ps_completed s) \<and>
     (\<forall>t w. tp_holds (ps_thread s t) = Some w \<longrightarrow> w \<in> set (ps_taken s) \<and> w \<notin> set (ps_completed s)) \<and>
     (\<forall>t t' w. tp_holds (ps_thread s t) = Some w \<longrightarrow> tp_holds (ps_thread s t') = Some w \<longrightarrow> t = t') \<and>
     (\<forall>w \<in> set (ps_taken s). w \<notin> set (ps_completed s) \<longrightarrow> (\<exists>t. tp_holds (ps_thread s t) = Some w)) \<and>
     ((\<exists>t. ps_thread s t = TWaiting) \<longrightarrow> tp_worker_queue (ps_pool s) = [])"

lemma tp_holds_simps [simp]:
  "tp_holds TLoop = None" "tp_holds TCheck = None" "tp_holds TWaiting = None" "tp_holds (TTaken w) = Some w"
  "tp_holds (TBusy w) = Some w" "tp_holds (TComplete w) = Some w" "tp_holds TExit = None"
  by (simp_all add: tp_holds_def)

lemma tp_wake_holds [simp]: "tp_holds (tp_wake th t) = tp_holds (th t)" "tp_wake th t \<noteq> TWaiting"
  by (simp_all add: tp_wake_def)

lemma pool_inv_start: "pool_start s \<Longrightarrow> pool_inv s"
proof -
  assume s: "pool_start s"
  then have "tp_workers (ps_pool s) = Map.empty" "tp_worker_queue (ps_pool s) = []"
    by (auto simp: pool_start_def ep_tp_create_def split: if_splits) (metis ep_tp.select_convs)+
  with s show ?thesis by (simp add: pool_inv_def pool_start_def)
qed

text \<open>Steps that move no worker.\<close>

lemma pool_inv_keep:
  assumes "pool_inv s"
    and "\<And>t. tp_holds (ps_thread s' t) = tp_holds (ps_thread s t)" and "tp_worker_queue (ps_pool s') = tp_worker_queue (ps_pool s)"
    and "tp_fresh (ps_pool s') = tp_fresh (ps_pool s)" and "\<And>w. tp_workers (ps_pool s') w = None \<longleftrightarrow> tp_workers (ps_pool s) w = None"
    and "ps_registered s' = ps_registered s" and "ps_taken s' = ps_taken s" and "ps_completed s' = ps_completed s"
    and "\<And>t. ps_thread s' t = TWaiting \<Longrightarrow> ps_thread s t = TWaiting \<or> tp_worker_queue (ps_pool s) = []"
  shows "pool_inv s'"
proof -
  have "(\<exists>t. ps_thread s' t = TWaiting) \<longrightarrow> tp_worker_queue (ps_pool s) = []" using assms(1,9) unfolding pool_inv_def by blast
  with assms(1) show ?thesis unfolding pool_inv_def assms(2-4,6-8) by (simp add: assms(5))
qed

lemma pool_inv_holder:
  "pool_inv s \<Longrightarrow> w \<in> set (ps_taken s) \<Longrightarrow> w \<notin> set (ps_completed s) \<Longrightarrow> \<exists>t. tp_holds (ps_thread s t) = Some w"
  by (simp add: pool_inv_def)

lemma pool_inv_held:
  assumes "pool_inv s" and "tp_holds (ps_thread s t) = Some w"
  shows "w \<in> set (ps_taken s)" and "w \<notin> set (ps_completed s)" and "tp_holds (ps_thread s t') = Some w \<Longrightarrow> t' = t"
    and "w \<notin> set (tp_worker_queue (ps_pool s))"
proof -
  show t: "w \<in> set (ps_taken s)" "w \<notin> set (ps_completed s)" using assms by (simp_all add: pool_inv_def)
  show "tp_holds (ps_thread s t') = Some w \<Longrightarrow> t' = t" using assms unfolding pool_inv_def by blast
  have "distinct (ps_taken s @ tp_worker_queue (ps_pool s))" using assms(1) by (simp add: pool_inv_def)
  with t(1) show "w \<notin> set (tp_worker_queue (ps_pool s))" by auto
qed

lemma pool_inv_sub: "pool_inv s \<Longrightarrow> set (ps_completed s) \<subseteq> set (ps_registered s)"
  unfolding pool_inv_def by (metis Un_upper1 order_trans set_append)

lemma pool_inv_step:
  assumes "pool_step run s s'" and "pool_inv s"
  shows "pool_inv s'"
  using assms
proof (induction rule: pool_step.induct)
  case (register s cb complete_cb opaque w pool')
  then have w: "w = tp_fresh (ps_pool s)" "pool' = (ps_pool s)\<lparr>tp_workers := (tp_workers (ps_pool s))(w \<mapsto> tp_new_worker cb complete_cb opaque),
      tp_fresh := w + 1, tp_worker_queue := tp_worker_queue (ps_pool s) @ [w]\<rparr>"
    by (auto simp: ep_tp_worker_register_def Let_def split: if_splits)
  have "w \<notin> set (ps_registered s)" using register(2) w(1) by (auto simp: pool_inv_def)
  moreover note pool_inv_sub [OF register(2)]
  ultimately show ?case using register(2) by (auto simp: pool_inv_def w less_SucI)
next
  case (taken s t th pool')
  show ?case
  proof (cases "tp_worker_queue (ps_pool s)")
    case Nil
    then have "th = TExit \<or> th = TWaiting" "pool' = ps_pool s" using taken(2) by (auto simp: tp_take_def split: if_splits)
    then show ?thesis using taken Nil by (intro pool_inv_keep [OF taken(3)]) (auto simp: taken_of_def split: if_splits)
  next
    case (Cons w rest)
    then have th: "th = TTaken w" "pool' = (ps_pool s)\<lparr>tp_worker_queue := rest\<rparr>" using taken(2) by (auto simp: tp_take_def)
    have reg: "ps_registered s = ps_taken s @ w # rest" "distinct (ps_registered s)" using taken(3) Cons by (simp_all add: pool_inv_def)
    then have "w \<notin> set (ps_taken s)" "w \<in> set (ps_registered s)" by auto
    moreover have ex: "\<exists>ta. ta \<noteq> t \<and> tp_holds (ps_thread s ta) = Some v" if "v \<in> set (ps_taken s)" "v \<notin> set (ps_completed s)" for v
      using pool_inv_holder [OF taken(3) that] taken(1) by (metis option.distinct(1) tp_holds_simps(2))
    ultimately show ?thesis using taken(1,3) Cons by (auto simp: pool_inv_def th taken_of_def) (use ex in blast)
  qed
next
  case (completed s t w pool')
  then have pool': "pool' = (ps_pool s)\<lparr>tp_worker_queue := remove1 w (tp_worker_queue (ps_pool s)), tp_workers := (tp_workers (ps_pool s))(w := None)\<rparr>"
    by (auto simp: tp_complete_def ep_tp_worker_free_def split: bind_splits)
  have hold: "tp_holds (ps_thread s t) = Some w" using completed(1) by simp
  note w = pool_inv_held [OF completed(3) hold]
  have q: "remove1 w (tp_worker_queue (ps_pool s)) = tp_worker_queue (ps_pool s)" using w(4) by (rule remove1_idem)
  have ex: "\<exists>ta. ta \<noteq> t \<and> tp_holds (ps_thread s ta) = Some v" if "v \<in> set (ps_taken s)" "v \<notin> set (ps_completed s)" "v \<noteq> w" for v
    using pool_inv_holder [OF completed(3) that(1,2)] hold that(3) by (metis option.inject)
  show ?case using completed(1,3) w by (auto simp: pool_inv_def pool' q) (metis ex)+
qed (rule pool_inv_keep, assumption; auto simp: tp_test_def tp_begin_def tp_process_def tp_set_abort_def split: if_splits bind_splits)+

interpretation pool_machine: inv_machine pool_start "pool_step run" pool_inv
  by unfold_locales (auto intro: pool_inv_start pool_inv_step)

lemma tp_drop_live: "distinct ws \<Longrightarrow> \<forall>w \<in> set ws. heap w \<noteq> None \<Longrightarrow> tp_drop ws heap \<noteq> None"
proof (induction ws arbitrary: heap)
  case (Cons w ws)
  then obtain k where "heap w = Some k" by auto
  moreover have "tp_drop ws (heap(w := None)) \<noteq> None" by (rule Cons.IH) (use Cons.prems in auto)
  ultimately show ?case by simp
qed simp

section \<open>Properties\<close>

text \<open>C16. However registrations, the threads of the pool and an abort interleave: workers are started in the order of their
  registration, each by one thread, and completed at most once; a worker is live from its registration to its completion, so no
  thread uses one that was freed, and at the end the queue can be dropped. But the handle that the registration returned is dead after
  the completion: \<open>ep_tp_worker_touch\<close> and \<open>ep_tp_worker_wait\<close> on it are undefined from then on.\<close>

theorem pool_runs_each_once:
  assumes "pool_start s" and "(pool_step run)\<^sup>*\<^sup>* s s'"
  shows "ps_taken s' @ tp_worker_queue (ps_pool s') = ps_registered s' \<and> distinct (ps_registered s') \<and>
    distinct (ps_completed s') \<and> set (ps_completed s') \<subseteq> set (ps_taken s') \<and>
    (\<forall>t w. tp_holds (ps_thread s' t) = Some w \<longrightarrow> tp_workers (ps_pool s') w \<noteq> None \<and>
       (\<forall>t'. tp_holds (ps_thread s' t') = Some w \<longrightarrow> t' = t)) \<and>
    tp_drop (tp_worker_queue (ps_pool s')) (tp_workers (ps_pool s')) \<noteq> None \<and>
    (\<forall>w \<in> set (ps_completed s'). ep_tp_worker_touch (Some w) (ps_pool s') = None \<and> ep_tp_worker_wait (Some w) (ps_pool s') = None)"
proof -
  have inv: "pool_inv s'" using pool_machine.reach_inv [OF assms(1,2)] .
  have order: "ps_taken s' @ tp_worker_queue (ps_pool s') = ps_registered s'" "distinct (ps_registered s')" "distinct (ps_completed s')"
    "set (ps_completed s') \<subseteq> set (ps_taken s')"
    "\<And>w. tp_workers (ps_pool s') w \<noteq> None \<longleftrightarrow> w \<in> set (ps_registered s') \<and> w \<notin> set (ps_completed s')"
    using inv by (simp_all add: pool_inv_def)
  have sets: "set (ps_taken s') \<union> set (tp_worker_queue (ps_pool s')) = set (ps_registered s')"
    "distinct (ps_taken s' @ tp_worker_queue (ps_pool s'))" using order(1,2) by (metis set_append, simp)
  have "tp_workers (ps_pool s') w \<noteq> None \<and> (\<forall>t'. tp_holds (ps_thread s' t') = Some w \<longrightarrow> t' = t)"
    if "tp_holds (ps_thread s' t) = Some w" for t w
    using pool_inv_held [OF inv that] order(5) sets(1) by blast
  moreover have "tp_drop (tp_worker_queue (ps_pool s')) (tp_workers (ps_pool s')) \<noteq> None"
    by (rule tp_drop_live) (use order(4,5) sets in auto)
  moreover have "ep_tp_worker_touch (Some w) (ps_pool s') = None \<and> ep_tp_worker_wait (Some w) (ps_pool s') = None"
    if "w \<in> set (ps_completed s')" for w
  proof -
    have "tp_workers (ps_pool s') w = None" using order(5) [of w] that by auto
    then show ?thesis by (simp add: ep_tp_worker_touch_def ep_tp_worker_wait_def)
  qed
  ultimately show ?thesis using order(1-4) by blast
qed


text \<open>A pool of two threads, and one with a registered worker, for evaluation.\<close>

definition demo_pool :: "(bool, nat, nat) pool_sys" where
  "demo_pool = \<lparr>ps_pool = \<lparr>tp_workers = Map.empty, tp_fresh = 0, tp_worker_queue = [], tp_nthreads = 2, tp_abort = False\<rparr>,
     ps_thread = (\<lambda>t. if t < 2 then TLoop else TExit), ps_registered = [], ps_taken = [], ps_completed = []\<rparr>"

definition demo_pool1 :: "(bool, nat, nat) pool_sys" where
  "demo_pool1 = demo_pool\<lparr>ps_pool := \<lparr>tp_workers = [0 \<mapsto> tp_new_worker True None 7], tp_fresh = 1, tp_worker_queue = [0], tp_nthreads = 2, tp_abort = False\<rparr>,
     ps_thread := tp_wake (ps_thread demo_pool), ps_registered := [0]\<rparr>"

lemma demo_pool_start: "pool_start demo_pool"
  unfolding pool_start_def demo_pool_def ep_tp_create_def by (simp add: exI [of _ "2 :: int"])

lemma demo_pool_register: "pool_step run demo_pool demo_pool1"
  using pool_step.register [of demo_pool True None 7 0 "ps_pool demo_pool1" run]
  by (simp add: demo_pool1_def demo_pool_def ep_tp_worker_register_def)

lemma demo_pool_reach: "(pool_step (\<lambda>_ n. n))\<^sup>*\<^sup>* demo_pool demo_pool1"
  using demo_pool_register by (rule r_into_rtranclp)

theorem pool_runs_each_once_witness:
  "ps_taken demo_pool1 @ tp_worker_queue (ps_pool demo_pool1) = [0] \<and> tp_drop [0] (tp_workers (ps_pool demo_pool1)) \<noteq> None"
  using pool_runs_each_once [OF demo_pool_start demo_pool_reach] by (simp add: demo_pool1_def)


end
