(* ===== verification/EP_Client.thy ===== *)
theory EP_Client
  imports EP_Message EP_Service
begin

text \<open>
  The client side of the engine (\<open>eventpack/src/ep_client.c\<close>, \<open>ep_request.c\<close>): requests with their handles and the
  connection they use. Requests are posted as in \<open>EP_Service\<close>. A handle is an address; \<open>cl_reqs\<close> are the live ones, and using another is
  undefined. Packets are opaque, with \<open>pack_bytes\<close> for the bytes of a finished packet. The functions
  that call the application's disconnect callback give the events it was called with.
\<close>

section \<open>The model\<close>

datatype 'c client_cb = ep_req_default_dispatcher | App_cb 'c

datatype ep_client_disc = ep_disc_socket_close | ep_disc_bad_request | ep_disc_capacity_overflow | ep_disc_user_abort

text \<open>\<open>cl_recv_thrd\<close> is the receiving thread: none, running, or through. The field \<open>req\<close> of a handle is never set: it keeps the zero of \<open>calloc\<close>, which is \<open>req_type_get\<close>.\<close>

record 'p ep_req =
  rq_category :: ep_category
  rq_req :: int
  rq_queue :: "'p option ep_queue option"

record ('x, 'c, 'p) ep_client =
  cl_max_capacity :: int
  cl_fd :: int
  cl_io_mgr :: "'x ep_io_mgr option"
  cl_disp_mgr :: "('c client_cb, nat) ep_disp_mgr option"
  cl_disc_cb :: bool
  cl_recv_loop :: bool
  cl_recv_thrd :: "bool option"
  cl_reqs :: "nat \<rightharpoonup> 'p ep_req"
  cl_next :: nat

definition notify_disc :: "('x, 'c, 'p) ep_client \<Rightarrow> ep_client_disc \<Rightarrow> ep_client_disc list" where
  "notify_disc client type = (if cl_disc_cb client then [type] else [])"

text \<open>The flags say which allocations succeed: the handle, its queue, the element of the dispatcher. The
  result is \<open>*result\<close>, the handle, the events, and the client.\<close>

definition ep_req_new ::
  "ep_ext \<Rightarrow> byte list \<Rightarrow> ('p \<Rightarrow> byte list) \<Rightarrow> bool \<Rightarrow> bool \<Rightarrow> bool \<Rightarrow> ('x, 'c, 'p) ep_client option \<Rightarrow> 'p ep_req_param \<Rightarrow>
   (int \<times> nat option \<times> ep_client_disc list \<times> ('x, 'c, 'p) ep_client option) option" where
  "ep_req_new ext beyond pack_bytes a_handle a_queue a_cb client param =
     (case client of
        None \<Rightarrow> Some (- 1, None, [], None)
      | Some client \<Rightarrow>
          if cl_fd client = - 1 then Some (- 1, None, [], Some client)
          else if (case rp_pack param of None \<Rightarrow> 0 | Some pk \<Rightarrow> int (length (pack_bytes pk))) > cl_max_capacity client
          then Some (- 1, None, notify_disc client ep_disc_capacity_overflow, Some client)
          else if \<not> a_handle then Some (- 1, None, [], Some client)
          else do {
            let h = cl_next client;
            let client = client\<lparr>cl_next := h + 1,
              cl_reqs := (cl_reqs client)(h \<mapsto> \<lparr>rq_category = rp_category param, rq_req = 0, rq_queue = ep_queue_new a_queue\<rparr>)\<rparr>;
            disp \<leftarrow> cl_disp_mgr client;
            let (ret, disp) = ep_disp_add_cb a_cb disp (rp_category param) ep_req_default_dispatcher h;
            let client = client\<lparr>cl_disp_mgr := Some disp\<rparr>;
            let freed = client\<lparr>cl_reqs := (cl_reqs client)(h := None)\<rparr>;
            (if ret = 0 then Some (- 2, None, [], Some freed)
             else do {
               mgr \<leftarrow> cl_io_mgr client;
               (ret, mgr) \<leftarrow> req_post ext beyond pack_bytes mgr (cl_fd client) 1 (req_shell param) (rp_pack param);
               Some (if ret = 0 then (- 1, None, [], Some (freed\<lparr>cl_io_mgr := Some mgr\<rparr>))
                     else (0, Some h, [], Some (client\<lparr>cl_io_mgr := Some mgr\<rparr>)))
             })
          })"

text \<open>The callback of a request, and the call through the pointer of a callback: \<open>app\<close> are the application's. The world of
  the callbacks is the table of handles (\<open>None\<close> once a dead one was used) and the application's world.\<close>

definition req_default_dispatcher :: "nat \<Rightarrow> 'p option \<Rightarrow> (nat \<rightharpoonup> 'p ep_req) \<Rightarrow> (nat \<rightharpoonup> 'p ep_req) option" where
  "req_default_dispatcher h pack reqs = do {
     r \<leftarrow> reqs h;
     Some (reqs(h \<mapsto> r\<lparr>rq_queue := snd (ep_queue_push True (rq_queue r) pack)\<rparr>))
   }"

definition client_invoke ::
  "('c \<Rightarrow> nat \<Rightarrow> int \<Rightarrow> 'p option \<Rightarrow> 'w \<Rightarrow> 'p option \<times> bool \<times> 'w) \<Rightarrow> 'c client_cb \<Rightarrow> nat \<Rightarrow> int \<Rightarrow> 'p option \<Rightarrow>
   (nat \<rightharpoonup> 'p ep_req) option \<times> 'w \<Rightarrow> 'p option \<times> bool \<times> (nat \<rightharpoonup> 'p ep_req) option \<times> 'w" where
  "client_invoke app cb opaque fd pack w =
     (case cb of
        ep_req_default_dispatcher \<Rightarrow> (None, False, Option.bind (fst w) (req_default_dispatcher opaque pack), snd w)
      | App_cb c \<Rightarrow> (case app c opaque fd pack (snd w) of (resp, reclaim, w') \<Rightarrow> (resp, reclaim, fst w, w')))"

text \<open>The pool of the client at work on one task: \<open>ep_io_processor\<close> with the dispatcher of the client.\<close>

definition client_processor ::
  "ep_ext \<Rightarrow> byte list \<Rightarrow> (byte list \<Rightarrow> 'p option) \<Rightarrow> ('p \<Rightarrow> byte list) \<Rightarrow>
   ('c \<Rightarrow> nat \<Rightarrow> int \<Rightarrow> 'p option \<Rightarrow> 'w \<Rightarrow> 'p option \<times> bool \<times> 'w) \<Rightarrow> ep_io_task \<Rightarrow> ('x, 'c, 'p) ep_client \<Rightarrow> 'w \<Rightarrow>
   (('x, 'c, 'p) ep_client \<times> 'w) option" where
  "client_processor ext beyond unpack pack_bytes app task client w = do {
     mgr \<leftarrow> cl_io_mgr client;
     disp \<leftarrow> cl_disp_mgr client;
     (mgr, reqs, w) \<leftarrow> ep_io_processor ext beyond unpack pack_bytes (client_invoke app) disp mgr task (Some (cl_reqs client), w);
     reqs \<leftarrow> reqs;
     Some (client\<lparr>cl_io_mgr := Some mgr, cl_reqs := reqs\<rparr>, w)
   }"

text \<open>Waiting: \<open>sleep\<close> is what the other threads do while this one waits for the condition, with the result of the wait
  (\<open>None\<close>: it is never woken).\<close>

definition ep_req_wait ::
  "(('x, 'c, 'p) ep_client \<Rightarrow> (('x, 'c, 'p) ep_client \<times> int) option) \<Rightarrow> nat \<Rightarrow> int \<Rightarrow> ('x, 'c, 'p) ep_client \<Rightarrow>
   (int \<times> 'p option \<times> ('x, 'c, 'p) ep_client) option" where
  "ep_req_wait sleep h timeout client = do {
     r \<leftarrow> cl_reqs client h;
     let answer = (\<lambda>client r ret pack q. (if ret = 1 then 1 else 0, Option.bind pack id,
           client\<lparr>cl_reqs := (cl_reqs client)(h \<mapsto> r\<lparr>rq_queue := Some q\<rparr>)\<rparr>));
     (if rq_req r = 1 then Some (2, None, client)
      else
        case rq_queue r of
          None \<Rightarrow> Some (0, None, client)
        | Some q \<Rightarrow>
            (case ep_queue_get_begin q timeout of
               (GetRet ret pack, q) \<Rightarrow> Some (answer client r ret pack q)
             | (GetWait, _) \<Rightarrow> do {
                 (client, wait_r) \<leftarrow> sleep client;
                 r \<leftarrow> cl_reqs client h;
                 q \<leftarrow> rq_queue r;
                 (case ep_queue_get_wake q wait_r of
                    (GetRet ret pack, q) \<Rightarrow> Some (answer client r ret pack q)
                  | (GetWait, _) \<Rightarrow> None)
               }))
   }"

text \<open>A handle that is null does nothing. Packets that stay in the queue are lost.\<close>

definition ep_req_destroy :: "nat option \<Rightarrow> ('x, 'c, 'p) ep_client \<Rightarrow> ('x, 'c, 'p) ep_client option" where
  "ep_req_destroy handle client =
     (case handle of
        None \<Rightarrow> Some client
      | Some h \<Rightarrow> do {
          r \<leftarrow> cl_reqs client h;
          let client = (if cl_fd client \<noteq> - 1
            then client\<lparr>cl_disp_mgr := map_option (\<lambda>disp. snd (ep_disp_del disp (rq_category r))) (cl_disp_mgr client)\<rparr>
            else client);
          Some (client\<lparr>cl_reqs := (cl_reqs client)(h := None)\<rparr>)
        })"

subsection \<open>The connection of the client\<close>

text \<open>
  The receiving thread. \<open>pieces\<close> are what \<open>recv\<close> returns, round after round, until it fails or the
  application has stopped the client; \<open>stopped\<close> tells which. The rounds of the loop are those of \<open>feed\<close>.
\<close>

definition disc_type :: "int \<Rightarrow> ep_client_disc" where
  "disc_type ret = (if ret = - 1 then ep_disc_bad_request else if ret = - 2 then ep_disc_capacity_overflow else ep_disc_socket_close)"

definition ep_client_routine ::
  "byte list list \<Rightarrow> bool \<Rightarrow> ('x, 'c, 'p) ep_client \<Rightarrow> (ep_client_disc list \<times> ('x, 'c, 'p) ep_client) option" where
  "ep_client_routine pieces stopped client = do {
     mgr \<leftarrow> cl_io_mgr client;
     (ret, mgr) \<leftarrow> feed mgr (cl_fd client) pieces 0;
     (_, mgr) \<leftarrow> ep_io_del mgr (cl_fd client);
     let client = client\<lparr>cl_io_mgr := Some mgr, cl_fd := - 1, cl_recv_loop := \<not> stopped, cl_recv_thrd := Some False\<rparr>;
     Some (notify_disc client (if ret \<ge> 0 \<and> stopped then ep_disc_user_abort else disc_type ret), client)
   }"

definition ep_client_send_error_cb ::
  "('x, 'c, 'p) ep_client \<Rightarrow> (ep_client_disc list \<times> ('x, 'c, 'p) ep_client) option" where
  "ep_client_send_error_cb client = do {
     mgr \<leftarrow> cl_io_mgr client;
     (_, mgr) \<leftarrow> ep_io_del mgr (cl_fd client);
     let client = client\<lparr>cl_io_mgr := Some mgr, cl_fd := - 1\<rparr>;
     Some (notify_disc client ep_disc_socket_close, client)
   }"

definition ep_client_event :: "('x, 'c, 'p) ep_client \<Rightarrow> ('x, 'c, 'p) ep_client" where
  "ep_client_event client = client\<lparr>cl_disc_cb := True\<rparr>"

definition ep_client_register ::
  "bool \<Rightarrow> ('x, 'c, 'p) ep_client \<Rightarrow> ep_category \<Rightarrow> 'c \<Rightarrow> nat \<Rightarrow> (int \<times> ('x, 'c, 'p) ep_client) option" where
  "ep_client_register alloc client cat ep_cb opaque = do {
     disp \<leftarrow> cl_disp_mgr client;
     let (ret, disp) = ep_disp_add_cb alloc disp cat (App_cb ep_cb) opaque;
     Some (ret, client\<lparr>cl_disp_mgr := Some disp\<rparr>)
   }"

text \<open>
  Stopping closes the socket, which ends the receiving thread, and destroys the manager. \<open>recv_first\<close> says whether the
  receiving thread is through before that; if not, it deletes its connection in a manager that is gone. Joining a thread
  that was never created is undefined. The client is freed.
\<close>

definition ep_client_stop :: "bool \<Rightarrow> ('x, 'c, 'p) ep_client option \<Rightarrow> ep_client_disc list option" where
  "ep_client_stop recv_first client =
     (case client of
        None \<Rightarrow> Some []
      | Some client \<Rightarrow> do {
          let client = client\<lparr>cl_recv_loop := False\<rparr>;
          let running = (cl_recv_thrd client = Some True);
          (events, client) \<leftarrow> (if running \<and> recv_first then ep_client_routine [] True client else Some ([], client));
          _ \<leftarrow> (case cl_io_mgr client of
                  None \<Rightarrow> Some ()
                | Some mgr \<Rightarrow> do {
                    (_, mgr) \<leftarrow> ep_io_del (ep_io_stop mgr (cl_fd client)) (cl_fd client);
                    _ \<leftarrow> ep_io_destroy mgr;
                    Some ()
                  });
          (if cl_recv_thrd client = None then None
           else if running \<and> \<not> recv_first then None
           else Some events)
        })"

record client_conf =
  cc_def_capacity :: int
  cc_max_capacity :: int
  cc_mini_compress_if :: int

text \<open>
  Starting. \<open>fd\<close> is the result of \<open>socket\<close> and \<open>conn\<close> of \<open>connect\<close>; the flags say which allocations succeed: the client,
  the dispatcher, and the manager's three. \<open>self\<close> is the address of the client, the extra pointer of its connection.
  \<open>security\<close> is the key exchange. The client is freed when the result is not 1.
\<close>

definition ep_client_start ::
  "int \<Rightarrow> int \<Rightarrow> bool \<Rightarrow> bool \<Rightarrow> bool \<Rightarrow> bool \<Rightarrow> bool \<Rightarrow> bool \<Rightarrow> 'x \<Rightarrow>
   (('x, 'c, 'p) ep_client \<Rightarrow> (int \<times> ('x, 'c, 'p) ep_client) option) \<Rightarrow> client_conf \<Rightarrow>
   (int \<times> ('x, 'c, 'p) ep_client option) option" where
  "ep_client_start fd conn a_client a_disp a_mgr a_queue a_pool recv_first self security conf =
     (if fd = - 1 then Some (0, None)
      else if \<not> a_client then Some (- 3, None)
      else
        let client = \<lparr>cl_max_capacity = max (cc_max_capacity conf) (cc_def_capacity conf), cl_fd = fd, cl_io_mgr = None,
              cl_disp_mgr = None, cl_disc_cb = False, cl_recv_loop = False, cl_recv_thrd = None, cl_reqs = Map.empty, cl_next = 0\<rparr>;
            abandon = (\<lambda>ret client. do { _ \<leftarrow> ep_client_stop recv_first (Some client); Some (ret, None) })
        in if conn \<noteq> 0 then Some (- 2, None)
        else case ep_disp_init a_disp of
          None \<Rightarrow> abandon (- 3) client
        | Some disp \<Rightarrow>
            let client = client\<lparr>cl_disp_mgr := Some disp\<rparr> in
            case ep_io_init a_mgr a_queue a_pool \<lparr>conf_refor = ep_io_refor_client, conf_def_capacity = cc_def_capacity conf,
                   conf_max_capacity = cc_max_capacity conf, conf_mini_compress_if = cc_mini_compress_if conf\<rparr> of
              None \<Rightarrow> abandon (- 3) client
            | Some mgr \<Rightarrow>
                (case ep_io_add mgr fd self of
                   (ret, mgr) \<Rightarrow>
                     let client = client\<lparr>cl_io_mgr := Some mgr\<rparr> in
                     if ret \<noteq> 1 then abandon (- 3) client
                     else do {
                       (ret, client) \<leftarrow> security (client\<lparr>cl_recv_thrd := Some True, cl_recv_loop := True\<rparr>);
                       (if ret \<noteq> 1 then abandon (- 1) client else Some (1, Some client))
                     }))"

section \<open>Lemmas\<close>

text \<open>Posting to one open connection queues the message there and nowhere else.\<close>

lemma nodify_reply:
  assumes m: "mgr_ok mgr" and f: "ep_io_find mgr fd = Some c"
  shows "ep_io_nodify_fd (mgr\<lparr>mgr_heap := (mgr_heap mgr)(mgr_next mgr \<mapsto> b), mgr_next := mgr_next mgr + 1\<rparr>) fd 1 (mgr_next mgr) =
    (1, io_reply mgr fd b)"
proof -
  obtain ys zs where l: "mgr_list mgr = ys @ c # zs" "io_fd c = fd" "\<forall>y \<in> set ys. io_fd y \<noteq> fd"
    using ep_io_find_split [OF f] .
  have o: "\<forall>z \<in> set zs. io_fd z \<noteq> fd" "\<forall>y \<in> set ys \<union> set zs. io_id y \<noteq> io_id c"
    using m l(2) by (auto simp: mgr_ok_def l(1) image_iff)
  have put: "map (\<lambda>d. if io_id d = io_id c then e else d) ys = ys" "map (\<lambda>d. if io_id d = io_id c then e else d) zs = zs" for e
    using o(2) by (auto intro!: map_idI)
  have sel: "map (\<lambda>d. if fd = io_fd d then g d else d) ys = ys" "map (\<lambda>d. if fd = io_fd d then g d else d) zs = zs"
    "map (\<lambda>d. if io_fd d = fd then g d else d) ys = ys" "map (\<lambda>d. if io_fd d = fd then g d else d) zs = zs" for g
    using o(1) l(3) by (auto intro!: map_idI)
  have flt: "filter (\<lambda>d. fd = io_fd d) ys = []" "filter (\<lambda>d. fd = io_fd d) zs = []"
    "filter (\<lambda>d. io_fd d = fd) ys = []" "filter (\<lambda>d. io_fd d = fd) zs = []"
    using o(1) l(3) by (auto simp: filter_empty_conv)
  show ?thesis
    using l(2) put by (simp add: nodify_eq nodify_selects_def io_reply_def f l(1) io_put_def flt sel Let_def)
qed

lemma req_shell_fields [simp]:
  "magic (req_shell param) = EP_MAGIC_NUMBER" "category (proto (req_shell param)) = rp_category param"
  "req_type (proto (req_shell param)) = word_of_int (rp_type param)"
  by (simp_all add: req_shell_def)

lemma req_post_spec:
  assumes "mgr_ok mgr" and "ep_io_find mgr fd = Some c" and "pack_bytes pk \<noteq> []"
    and "ep_buffer_new (pack_bytes pk) (int (length (pack_bytes pk))) = Some (Some b)"
    and "ep_io_combine_shell ext beyond mgr fd sh (Some b) = Some (Some out)"
  shows "req_post ext beyond pack_bytes mgr fd 1 sh (Some pk) = Some (1, io_reply mgr fd out)"
  using assms nodify_reply [OF assms(1,2), of out] by (simp add: req_post_def Let_def)

text \<open>A client with an open connection, a dispatcher with one callback for a category, and fresh addresses ahead.\<close>

definition client_open :: "('x, 'c, 'p) ep_client \<Rightarrow> 'x ep_io_mgr \<Rightarrow> ('c client_cb, nat) ep_disp_mgr \<Rightarrow> 'x ep_io \<Rightarrow> bool" where
  "client_open client mgr disp c \<longleftrightarrow> cl_io_mgr client = Some mgr \<and> cl_disp_mgr client = Some disp \<and> cl_fd client \<noteq> - 1 \<and>
     mgr_ok mgr \<and> ep_io_find mgr (cl_fd client) = Some c \<and> disp_ok disp \<and> cl_reqs client (cl_next client) = None"

definition req_entry :: "ep_category \<Rightarrow> nat \<Rightarrow> ('c client_cb, nat) ep_disp" where
  "req_entry cat h = \<lparr>disp_category = cat, disp_cb = ep_req_default_dispatcher, disp_opaque = h\<rparr>"

lemma req_entry_simps [simp]:
  "disp_category (req_entry cat h) = cat" "disp_cb (req_entry cat h) = ep_req_default_dispatcher" "disp_opaque (req_entry cat h) = h"
  by (simp_all add: req_entry_def)

text \<open>The client while a request is under way: its callback is registered and its handle holds the packets received.\<close>

definition with_request :: "('x, 'c, 'p) ep_client \<Rightarrow> ep_category \<Rightarrow> 'p option list \<Rightarrow> ('x, 'c, 'p) ep_client" where
  "with_request client cat packs = client\<lparr>cl_next := cl_next client + 1,
     cl_reqs := (cl_reqs client)(cl_next client \<mapsto> \<lparr>rq_category = cat, rq_req = 0, rq_queue = Some \<lparr>q_items = packs, q_stop = False\<rparr>\<rparr>),
     cl_disp_mgr := map_option (Cons (req_entry cat (cl_next client))) (cl_disp_mgr client)\<rparr>"

lemma disp_add_free:
  "disp_find disp cat = None \<Longrightarrow> ep_disp_add_cb True disp cat ep_req_default_dispatcher h = (1, req_entry cat h # disp)"
  using disp_count_find [of disp cat] by (simp add: ep_disp_add_cb_def disp_insert_def req_entry_def)

lemma disp_del_entry: "disp_find disp cat = None \<Longrightarrow> ep_disp_del (req_entry cat h # disp) cat = (1, disp)"
  by (simp add: ep_disp_del_filter req_entry_def disp_find_def find_None_iff filter_id_conv Let_def)

lemma ep_req_new_ok:
  assumes o: "client_open client mgr disp c" and free: "disp_find disp (rp_category param) = None"
    and p: "rp_pack param = Some pk" "int (length (pack_bytes pk)) \<le> cl_max_capacity client"
    and post: "req_post ext beyond pack_bytes mgr (cl_fd client) 1 (req_shell param) (Some pk) = Some (1, mgr')"
  shows "ep_req_new ext beyond pack_bytes True True True (Some client) param =
    Some (0, Some (cl_next client), [], Some ((with_request client (rp_category param) [])\<lparr>cl_io_mgr := Some mgr'\<rparr>))"
  using assms disp_add_free [OF free, of "cl_next client"]
  by (simp add: ep_req_new_def client_open_def Let_def ep_queue_new_def with_request_def)

text \<open>The callback of the request queues what it is given.\<close>

lemma client_processor_response:
  assumes o: "client_open client mgr disp c"
    and c: "client' = (with_request client (category (proto (task_shell task))) packs)\<lparr>cl_io_mgr := Some mgr'\<rparr>"
    and t: "shell_size (task_shell task) \<noteq> 0" "req_type (proto (task_shell task)) = 1"
      "ep_io_recombine_original ext beyond mgr' (task_fd task) (task_shell task) (task_in task) = Some (Some b)"
      "buffer_holds b data" "unpack data = Some pack"
  shows "client_processor ext beyond unpack pack_bytes app task client' w =
    Some ((with_request client (category (proto (task_shell task))) (packs @ [Some pack]))\<lparr>cl_io_mgr := Some mgr'\<rparr>, w)"
proof -
  let ?cat = "category (proto (task_shell task))" and ?h = "cl_next client"
  have rd: "mem_read (ep_buffer_ptr b) 0 (ep_buffer_size b) = Some data"
    using t(4) by (auto simp: buffer_holds_def ep_buffer_ptr_def ep_buffer_size_def mem_read_start)
  have d: "cl_disp_mgr client' = Some (req_entry ?cat ?h # disp)" "disp_find (req_entry ?cat ?h # disp) ?cat = Some (req_entry ?cat ?h)"
    using o c by (simp_all add: with_request_def client_open_def disp_find_def req_entry_def)
  show ?thesis
    using o t rd unfolding client_processor_def d(1)
    by (simp add: ep_io_processor_def Let_def ep_disp_processor_find d(2) client_invoke_def
        req_default_dispatcher_def c with_request_def ep_queue_push_def queue_push_def client_open_def)
qed

lemma ep_req_wait_ready:
  "cl_io_mgr client' = Some mgr' \<Longrightarrow> client' = (with_request client cat (pack # packs))\<lparr>cl_io_mgr := Some mgr'\<rparr> \<Longrightarrow>
   ep_req_wait sleep (cl_next client) timeout client' = Some (1, pack, (with_request client cat packs)\<lparr>cl_io_mgr := Some mgr'\<rparr>)"
  by (simp add: ep_req_wait_def with_request_def ep_queue_get_begin_def Let_def)

lemma ep_req_wait_woken:
  assumes "timeout \<noteq> 0"
    and "sleep ((with_request client cat [])\<lparr>cl_io_mgr := Some mgr1\<rparr>) = Some ((with_request client cat (pack # packs))\<lparr>cl_io_mgr := Some mgr2\<rparr>, wait_r)"
  shows "ep_req_wait sleep (cl_next client) timeout ((with_request client cat [])\<lparr>cl_io_mgr := Some mgr1\<rparr>) =
    Some (1, pack, (with_request client cat packs)\<lparr>cl_io_mgr := Some mgr2\<rparr>)"
  using assms by (simp add: ep_req_wait_def with_request_def ep_queue_get_begin_def ep_queue_get_wake_def Let_def)

lemma ep_req_destroy_ok:
  assumes "client_open client mgr disp c" and "disp_find disp cat = None"
  shows "ep_req_destroy (Some (cl_next client)) ((with_request client cat packs)\<lparr>cl_io_mgr := Some mgr'\<rparr>) =
    Some (client\<lparr>cl_next := cl_next client + 1, cl_io_mgr := Some mgr'\<rparr>)"
proof -
  have "(cl_reqs client)(cl_next client := None) = cl_reqs client" using assms(1) by (auto simp: client_open_def)
  then show ?thesis
    using assms disp_del_entry [OF assms(2), of "cl_next client"]
    by (simp add: ep_req_destroy_def with_request_def client_open_def)
qed

text \<open>A new request on an open connection queues one message for it.\<close>

lemma ep_req_new_sends:
  assumes l: "aes_laws ext" "bz_laws ext" "16 \<le> length beyond" and o: "client_open client mgr disp c"
    and free: "disp_find disp (rp_category param) = None" and p: "rp_pack param = Some pk" "pack_bytes pk \<noteq> []"
      "int (length (pack_bytes pk)) \<le> cl_max_capacity client" "int (length (pack_bytes pk)) < 2 ^ 31"
    and lim: "lim < 2 ^ 31"
  obtains out sh body where "ep_req_new ext beyond pack_bytes True True True (Some client) param = Some (0, Some (cl_next client), [],
      Some ((with_request client (rp_category param) [])\<lparr>cl_io_mgr := Some (io_reply mgr (cl_fd client) out)\<rparr>))"
    and "buffer_holds out (frame_bytes (sh, body))" and "category (proto sh) = rp_category param"
    and "req_type (proto sh) = word_of_int (rp_type param)" and "message_for ext beyond (io_aes c) mgr lim (sh, body) (pack_bytes pk)"
proof -
  have m: "mgr_ok mgr" "ep_io_find mgr (cl_fd client) = Some c" using o by (simp_all add: client_open_def)
  have k: "ep_io_get_aes mgr (cl_fd client) = Some (io_aes c)" using m(2) by (simp add: ep_io_get_aes_def)
  obtain b out sh body where f: "ep_buffer_new (pack_bytes pk) (int (length (pack_bytes pk))) = Some (Some b)"
    "ep_io_combine_shell ext beyond mgr (cl_fd client) (req_shell param) (Some b) = Some (Some out)"
    "buffer_holds out (frame_bytes (sh, body))" "category (proto sh) = category (proto (req_shell param))"
    "req_type (proto sh) = req_type (proto (req_shell param))" "message_for ext beyond (io_aes c) mgr lim (sh, body) (pack_bytes pk)"
    using message_sent [OF l p(2,4) k req_shell_fields(1) lim] .
  have "req_post ext beyond pack_bytes mgr (cl_fd client) 1 (req_shell param) (Some pk) = Some (1, io_reply mgr (cl_fd client) out)"
    by (rule req_post_spec [where pack_bytes = pack_bytes and pk = pk, OF m p(2) f(1,2)])
  from ep_req_new_ok [OF o free p(1,3) this] show ?thesis using that f by simp
qed

text \<open>Whether the answer comes before the wait or during it, the wait returns it, and the request can then be dropped.\<close>

lemma response_waited:
  assumes o: "client_open client mgr disp c" and free: "disp_find disp (category (proto (task_shell task))) = None"
    and c: "client' = (with_request client (category (proto (task_shell task))) [])\<lparr>cl_io_mgr := Some mgr'\<rparr>"
    and t: "shell_size (task_shell task) \<noteq> 0" "req_type (proto (task_shell task)) = 1"
      "ep_io_recombine_original ext beyond mgr' (task_fd task) (task_shell task) (task_in task) = Some (Some b)"
      "buffer_holds b data" "unpack data = Some pack"
  obtains got where "client_processor ext beyond unpack pack_bytes app task client' w = Some (got, w)"
    and "ep_req_wait sleep (cl_next client) timeout got = Some (1, Some pack, client')"
    and "timeout \<noteq> 0 \<longrightarrow> ep_req_wait (\<lambda>_. Some (got, wait_r)) (cl_next client) timeout client' = Some (1, Some pack, client')"
    and "ep_req_destroy (Some (cl_next client)) client' = Some (client\<lparr>cl_next := cl_next client + 1, cl_io_mgr := Some mgr'\<rparr>)"
proof
  let ?got = "(with_request client (category (proto (task_shell task))) [Some pack])\<lparr>cl_io_mgr := Some mgr'\<rparr>"
  show "client_processor ext beyond unpack pack_bytes app task client' w = Some (?got, w)"
    using client_processor_response [where packs = "[]" and unpack = unpack, OF o c t] by simp
  show "ep_req_wait sleep (cl_next client) timeout ?got = Some (1, Some pack, client')"
    unfolding c by (rule ep_req_wait_ready [OF _ refl]) simp
  show "timeout \<noteq> 0 \<longrightarrow> ep_req_wait (\<lambda>_. Some (?got, wait_r)) (cl_next client) timeout client' = Some (1, Some pack, client')"
    unfolding c by (intro impI ep_req_wait_woken [OF _ refl])
  show "ep_req_destroy (Some (cl_next client)) client' = Some (client\<lparr>cl_next := cl_next client + 1, cl_io_mgr := Some mgr'\<rparr>)"
    unfolding c by (rule ep_req_destroy_ok [OF o free])
qed

end
