(* ===== verification/EP_Exchange.thy ===== *)
theory EP_Exchange
  imports EP_Client
begin

text \<open>
  A request from end to end, and what happens to it when the connection fails: the client of \<open>EP_Client\<close> and a server with the
  connection manager and the dispatcher of \<open>EP_Service\<close>, joined by the bytes the one sends and the other receives.
\<close>

section \<open>A request and its answer\<close>

text \<open>A manager with an idle connection: nothing received is waiting.\<close>

definition idle_link :: "'x ep_io_mgr \<Rightarrow> int \<Rightarrow> ep_io_refor \<Rightarrow> int \<Rightarrow> ep_aes_key \<Rightarrow> bool" where
  "idle_link M fd refor lim aes \<longleftrightarrow> mgr_ok M \<and> mgr_refor M = refor \<and> mgr_max_capacity M = lim \<and>
     (\<exists>c. ep_io_find M fd = Some c \<and> io_aes c = aes \<and> io_pending c = [])"

text \<open>The pieces in which the bytes of a buffer arrive, when they are not too large for the receiver.\<close>

definition arrives_as :: "ep_buffer \<Rightarrow> int \<Rightarrow> byte list list \<Rightarrow> bool" where
  "arrives_as out lim chunks \<longleftrightarrow> concat chunks = sent_bytes out \<and> int (length (sent_bytes out)) \<le> sizeof_ep_shell + lim \<and>
     list_all (\<lambda>d. int (length d) \<le> lim) chunks"

lemma message_arrives:
  fixes M S :: "'x ep_io_mgr"
  assumes M: "idle_link M fd refor lim aes" "refor \<noteq> mgr_refor S" and a: "arrives_as out lim chunks"
    and f: "buffer_holds out (frame_bytes (sh, body))" "message_for ext beyond aes S lim (sh, body) data"
  obtains M' task b c where "feed M fd chunks 0 = Some (0, M')" and "mgr_tasks M' = mgr_tasks M @ [task]"
    and "task_fd task = fd" and "task_shell task = sh" and "mgr_ok M'" and "mgr_refor M' = refor"
    and "ep_io_find M' fd = Some c" and "io_aes c = aes" and "shell_size sh \<noteq> 0"
    and "ep_io_recombine_original ext beyond M' fd sh (task_in task) = Some (Some b)" and "buffer_holds b data"
proof -
  obtain c where c: "ep_io_find M fd = Some c" "io_aes c = aes" "io_pending c = []" using M(1) by (auto simp: idle_link_def)
  have m: "mgr_ok M" "mgr_refor M \<noteq> mgr_refor S" "mgr_refor M = refor" "mgr_max_capacity M = lim"
    using M by (simp_all add: idle_link_def)
  have "int (length body) \<le> mgr_max_capacity M" "concat chunks = frame_bytes (sh, body)"
    using a m(4) sent_bytes_holds [OF f(1)] by (simp_all add: arrives_as_def frame_bytes_def sizeof_ep_shell_def)
  note arr = this
  have p: "message_for ext beyond (io_aes c) S (mgr_max_capacity M) (sh, body) data" "list_all (\<lambda>d. int (length d) \<le> mgr_max_capacity M) chunks"
    using f(2) c(2) m(4) a by (simp_all add: arrives_as_def)
  show ?thesis
    by (rule message_received [OF m(1) c(1,3) m(2) p(1) arr p(2)]) (rule that, use m(3) c(2) in simp_all)
qed

text \<open>What the client finds when the answer in \<open>out\<close> arrives.\<close>

definition answered ::
  "ep_ext \<Rightarrow> byte list \<Rightarrow> (byte list \<Rightarrow> 'p option) \<Rightarrow> ('p \<Rightarrow> byte list) \<Rightarrow> ep_aes_key \<Rightarrow> ('x, 'c, 'p) ep_client \<Rightarrow> ('x, 'c, 'p) ep_client \<Rightarrow>
   ep_io_refor \<Rightarrow> int \<Rightarrow> 'p \<Rightarrow> ep_buffer \<Rightarrow> bool" where
  "answered ext beyond unpack pack_bytes aes client client1 refor lim resp out \<longleftrightarrow>
     (\<forall>M chunks timeout. idle_link M (cl_fd client) refor lim aes \<longrightarrow> arrives_as out lim chunks \<longrightarrow> timeout \<noteq> 0 \<longrightarrow>
        (\<exists>M' task got. feed M (cl_fd client) chunks 0 = Some (0, M') \<and> mgr_tasks M' = mgr_tasks M @ [task] \<and>
           (let before = client1\<lparr>cl_io_mgr := Some M'\<rparr>; h = cl_next client in
            client_processor ext beyond unpack pack_bytes (\<lambda>_ _ _ p w. (p, True, w)) task before () = Some (got, ()) \<and>
            ep_req_wait (\<lambda>_. None) h timeout got = Some (1, Some resp, before) \<and>
            ep_req_wait (\<lambda>_. Some (got, 0)) h timeout before = Some (1, Some resp, before) \<and>
            ep_req_destroy (Some h) before = Some (client\<lparr>cl_next := h + 1, cl_io_mgr := Some M'\<rparr>))))"

lemma answeredI:
  fixes client :: "('x, 'c, 'p) ep_client" and S :: "'x ep_io_mgr"
  assumes o: "client_open client mgr disp c" and free: "disp_find disp (category (proto sh)) = None"
    and ne: "refor \<noteq> mgr_refor S" and out: "buffer_holds out (frame_bytes (sh, body))" "req_type (proto sh) = 1"
      "message_for ext beyond aes S lim (sh, body) (pack_bytes resp)" and u: "unpack (pack_bytes resp) = Some resp"
  shows "answered ext beyond unpack pack_bytes aes client ((with_request client (category (proto sh)) [])\<lparr>cl_io_mgr := m1\<rparr>) refor lim resp out"
  unfolding answered_def
proof (intro allI impI)
  fix M :: "'x ep_io_mgr" and chunks and timeout :: int
  assume M: "idle_link M (cl_fd client) refor lim aes" and a: "arrives_as out lim chunks" and to: "timeout \<noteq> 0"
  obtain M' task b c' where g: "feed M (cl_fd client) chunks 0 = Some (0, M')" "mgr_tasks M' = mgr_tasks M @ [task]"
    "task_fd task = cl_fd client" "task_shell task = sh" "shell_size sh \<noteq> 0"
    "ep_io_recombine_original ext beyond M' (cl_fd client) sh (task_in task) = Some (Some b)" "buffer_holds b (pack_bytes resp)"
    using message_arrives [OF M ne a out(1,3)] by metis
  let ?before = "(with_request client (category (proto sh)) [])\<lparr>cl_io_mgr := Some M'\<rparr>"
  obtain got where "client_processor ext beyond unpack pack_bytes (\<lambda>_ _ _ p w. (p, True, w)) task ?before () = Some (got, ())"
    "ep_req_wait (\<lambda>_. None) (cl_next client) timeout got = Some (1, Some resp, ?before)"
    "timeout \<noteq> 0 \<longrightarrow> ep_req_wait (\<lambda>_. Some (got, 0)) (cl_next client) timeout ?before = Some (1, Some resp, ?before)"
    "ep_req_destroy (Some (cl_next client)) ?before = Some (client\<lparr>cl_next := cl_next client + 1, cl_io_mgr := Some M'\<rparr>)"
    using response_waited [where task = task and unpack = unpack and client' = ?before and mgr' = M' and b = b and data = "pack_bytes resp" and pack = resp,
        OF o] free g out(2) u by metis
  with g(1,2) to show "\<exists>M' task got. feed M (cl_fd client) chunks 0 = Some (0, M') \<and> mgr_tasks M' = mgr_tasks M @ [task] \<and>
      (let before = (with_request client (category (proto sh)) [])\<lparr>cl_io_mgr := m1\<rparr>\<lparr>cl_io_mgr := Some M'\<rparr>; h = cl_next client in
       client_processor ext beyond unpack pack_bytes (\<lambda>_ _ _ p w. (p, True, w)) task before () = Some (got, ()) \<and>
       ep_req_wait (\<lambda>_. None) h timeout got = Some (1, Some resp, before) \<and>
       ep_req_wait (\<lambda>_. Some (got, 0)) h timeout before = Some (1, Some resp, before) \<and>
       ep_req_destroy (Some h) before = Some (client\<lparr>cl_next := h + 1, cl_io_mgr := Some M'\<rparr>))"
    by (auto simp: Let_def)
qed

text \<open>C4. A request and its answer cross the network: on an open connection, in a category that no other request uses, \<open>ep_req_new\<close>
  succeeds and queues one message. In whatever pieces its bytes reach a server that has the same key, they become one task, the
  pool runs the callback of the category on the packet, and queues one message with the packet it returns. In whatever pieces
  those bytes reach the client, \<open>ep_req_wait\<close> returns 1 with that packet, whether it was already waiting or not, and
  \<open>ep_req_destroy\<close> leaves callbacks and handles as they were before the request.\<close>

theorem request_answered:
  fixes client :: "('x, 'c, 'p) ep_client" and R :: "'x ep_io_mgr" and unpack :: "byte list \<Rightarrow> 'p option"
  assumes l: "aes_laws ext" "bz_laws ext" "16 \<le> length beyond" and o: "client_open client mgr disp c"
    and free: "disp_find disp (rp_category param) = None" and ty: "rp_type param = 0"
    and p: "rp_pack param = Some pk" "pack_bytes pk \<noteq> []" "int (length (pack_bytes pk)) \<le> cl_max_capacity client"
      "int (length (pack_bytes pk)) < 2 ^ 31" "unpack (pack_bytes pk) = Some pk"
    and sides: "mgr_refor mgr = ep_io_refor_client" "idle_link R rfd ep_io_refor_server slim (io_aes c)" "slim < 2 ^ 31" "clim < 2 ^ 31"
    and h: "ep_disp_processor invoke sdisp (rp_category param) rfd (Some pk) w = (Some resp, reclaim, w')"
    and r: "pack_bytes resp \<noteq> []" "int (length (pack_bytes resp)) < 2 ^ 31" "unpack (pack_bytes resp) = Some resp"
  shows "\<exists>client1 out. ep_req_new ext beyond pack_bytes True True True (Some client) param = Some (0, Some (cl_next client), [], Some client1) \<and>
    cl_io_mgr client1 = Some (io_reply mgr (cl_fd client) out) \<and>
    (\<forall>chunks. arrives_as out slim chunks \<longrightarrow>
      (\<exists>R1 task out'. feed R rfd chunks 0 = Some (0, R1) \<and> mgr_tasks R1 = mgr_tasks R @ [task] \<and>
        ep_io_processor ext beyond unpack pack_bytes invoke sdisp R1 task w = Some (io_reply R1 rfd out', w') \<and>
        answered ext beyond unpack pack_bytes (io_aes c) client client1 ep_io_refor_client clim resp out'))"
proof -
  let ?w = "with_request client (rp_category param) []"
  obtain out sh body where n: "ep_req_new ext beyond pack_bytes True True True (Some client) param =
      Some (0, Some (cl_next client), [], Some (?w\<lparr>cl_io_mgr := Some (io_reply mgr (cl_fd client) out)\<rparr>))"
    "buffer_holds out (frame_bytes (sh, body))" "category (proto sh) = rp_category param"
    "req_type (proto sh) = word_of_int (rp_type param)" "message_for ext beyond (io_aes c) mgr slim (sh, body) (pack_bytes pk)"
    using ep_req_new_sends [where pack_bytes = pack_bytes and pk = pk, OF l o free p(1-4) sides(3)] .
  have "\<exists>R1 task out'. feed R rfd chunks 0 = Some (0, R1) \<and> mgr_tasks R1 = mgr_tasks R @ [task] \<and>
      ep_io_processor ext beyond unpack pack_bytes invoke sdisp R1 task w = Some (io_reply R1 rfd out', w') \<and>
      answered ext beyond unpack pack_bytes (io_aes c) client (?w\<lparr>cl_io_mgr := Some (io_reply mgr (cl_fd client) out)\<rparr>) ep_io_refor_client clim resp out'"
    if a: "arrives_as out slim chunks" for chunks
  proof -
    have ne: "ep_io_refor_server \<noteq> mgr_refor mgr" using sides(1) by simp
    obtain R1 task b rc where g: "feed R rfd chunks 0 = Some (0, R1)" "mgr_tasks R1 = mgr_tasks R @ [task]" "task_fd task = rfd"
      "task_shell task = sh" "mgr_ok R1" "mgr_refor R1 = ep_io_refor_server" "ep_io_find R1 rfd = Some rc" "io_aes rc = io_aes c"
      "shell_size sh \<noteq> 0" "ep_io_recombine_original ext beyond R1 rfd sh (task_in task) = Some (Some b)" "buffer_holds b (pack_bytes pk)"
      using message_arrives [OF sides(2) ne a n(2,5)] .
    let ?post = "sh\<lparr>proto := (proto sh)\<lparr>req_type := 1\<rparr>\<rparr>"
    have k: "ep_io_get_aes R1 rfd = Some (io_aes c)" using g(7,8) by (simp add: ep_io_get_aes_def)
    have "int (length body) \<le> slim"
      using a sent_bytes_holds [OF n(2)] by (simp add: arrives_as_def frame_bytes_def sizeof_ep_shell_def)
    then have mg: "magic ?post = EP_MAGIC_NUMBER" using n(5) by (simp add: message_for_def frame_ok_def)
    obtain b1 out' sh' body' where s: "ep_buffer_new (pack_bytes resp) (int (length (pack_bytes resp))) = Some (Some b1)"
      "ep_io_combine_shell ext beyond R1 rfd ?post (Some b1) = Some (Some out')" "buffer_holds out' (frame_bytes (sh', body'))"
      "category (proto sh') = category (proto ?post)" "req_type (proto sh') = req_type (proto ?post)"
      "message_for ext beyond (io_aes c) R1 clim (sh', body') (pack_bytes resp)"
      using message_sent [OF l r(1,2) k mg sides(4)] .
    have t0: "req_type (proto sh) \<noteq> 1" using n(4) ty by simp
    have "ep_io_processor ext beyond unpack pack_bytes invoke sdisp R1 task w = Some (io_reply R1 (task_fd task) out', w')"
      using g n(3) h r(1) s(1,2) t0 p(5) by (intro processor_replies [where data = "pack_bytes pk" and pack = pk and resp = resp]) simp_all
    moreover have cat: "category (proto sh') = rp_category param" "req_type (proto sh') = 1" using s(4,5) n(3) by simp_all
    have "ep_io_refor_client \<noteq> mgr_refor R1" using g(6) by simp
    from answeredI [where unpack = unpack and pack_bytes = pack_bytes and resp = resp, OF o _ this s(3) cat(2) s(6) r(3)] free cat(1)
    have "answered ext beyond unpack pack_bytes (io_aes c) client (?w\<lparr>cl_io_mgr := Some (io_reply mgr (cl_fd client) out)\<rparr>) ep_io_refor_client clim resp out'"
      by simp
    ultimately show ?thesis using g(1-3) by blast
  qed
  with n(1) show ?thesis by auto
qed

text \<open>A client with one idle connection and no callbacks, and its request, for evaluation.\<close>

definition demo_client :: "unit ep_io_mgr \<Rightarrow> (unit, unit, byte list) ep_client" where
  "demo_client mgr = \<lparr>cl_max_capacity = 4194304, cl_fd = 5, cl_io_mgr = Some mgr, cl_disp_mgr = Some [], cl_disc_cb = True,
     cl_recv_loop = True, cl_recv_thrd = Some True, cl_reqs = Map.empty, cl_next = 0\<rparr>"

definition demo_param :: "byte list ep_req_param" where
  "demo_param = \<lparr>rp_type = 0, rp_category = 0, rp_c_crypt = 1, rp_c_compress = 2, rp_s_crypt = 1, rp_s_compress = 2, rp_pack = Some [1, 2, 3]\<rparr>"

theorem request_answered_witness:
  "\<exists>(mgr :: unit ep_io_mgr) R client1 out aes. ep_req_new plain_ext (replicate 16 7) id True True True (Some (demo_client mgr)) demo_param =
      Some (0, Some 0, [], Some client1) \<and>
    (\<forall>chunks. arrives_as out 4194304 chunks \<longrightarrow>
      (\<exists>R1 task out'. feed (R :: unit ep_io_mgr) 5 chunks 0 = Some (0, R1) \<and> mgr_tasks R1 = mgr_tasks R @ [task] \<and>
        ep_io_processor plain_ext (replicate 16 7) Some id demo_invoke demo_disp R1 task 0 = Some (io_reply R1 5 out', 1) \<and>
        answered plain_ext (replicate 16 7) Some id aes (demo_client mgr) client1 ep_io_refor_client 4194304 [1, 2, 3] out'))"
proof -
  let ?aes = "\<lparr>aes_key = replicate 16 0, aes_vec = replicate 16 0\<rparr> :: ep_aes_key"
  obtain mgr :: "unit ep_io_mgr" and c where m: "mgr_ok mgr" "mgr_refor mgr = ep_io_refor_client" "ep_io_find mgr 5 = Some c"
    "ep_io_get_aes mgr 5 = Some ?aes" using demo_idle [of ep_io_refor_client] by metis
  obtain R :: "unit ep_io_mgr" and rc where R: "mgr_ok R" "mgr_refor R = ep_io_refor_server" "mgr_max_capacity R = 4194304"
    "ep_io_find R 5 = Some rc" "io_pending rc = []" "ep_io_get_aes R 5 = Some ?aes" using demo_idle [of ep_io_refor_server] by metis
  have aes: "io_aes c = ?aes" "io_aes rc = ?aes" using m(3,4) R(4,6) by (simp_all add: ep_io_get_aes_def)
  have o: "client_open (demo_client mgr) mgr [] c"
    using m by (simp add: client_open_def demo_client_def disp_ok_def)
  have i: "idle_link R 5 ep_io_refor_server 4194304 (io_aes c)" using R aes by (simp add: idle_link_def)
  have b: "16 \<le> length (replicate 16 (7 :: byte))" by simp
  have "\<exists>client1 out. ep_req_new plain_ext (replicate 16 7) id True True True (Some (demo_client mgr)) demo_param =
      Some (0, Some (cl_next (demo_client mgr)), [], Some client1) \<and>
    cl_io_mgr client1 = Some (io_reply mgr (cl_fd (demo_client mgr)) out) \<and>
    (\<forall>chunks. arrives_as out 4194304 chunks \<longrightarrow>
      (\<exists>R1 task out'. feed R 5 chunks 0 = Some (0, R1) \<and> mgr_tasks R1 = mgr_tasks R @ [task] \<and>
        ep_io_processor plain_ext (replicate 16 7) Some id demo_invoke demo_disp R1 task 0 = Some (io_reply R1 5 out', 1) \<and>
        answered plain_ext (replicate 16 7) Some id (io_aes c) (demo_client mgr) client1 ep_io_refor_client 4194304 [1, 2, 3] out'))"
    by (rule request_answered [where pk = "[1, 2, 3]" and reclaim = True, OF plain_ext_laws b o _ _ _ _ _ _ _ m(2) i])
      (simp_all add: disp_find_def demo_param_def demo_client_def demo_disp_def demo_invoke_def)
  then obtain client1 out where w: "ep_req_new plain_ext (replicate 16 7) id True True True (Some (demo_client mgr)) demo_param =
      Some (0, Some (cl_next (demo_client mgr)), [], Some client1)"
    "\<forall>chunks. arrives_as out 4194304 chunks \<longrightarrow>
      (\<exists>R1 task out'. feed R 5 chunks 0 = Some (0, R1) \<and> mgr_tasks R1 = mgr_tasks R @ [task] \<and>
        ep_io_processor plain_ext (replicate 16 7) Some id demo_invoke demo_disp R1 task 0 = Some (io_reply R1 5 out', 1) \<and>
        answered plain_ext (replicate 16 7) Some id (io_aes c) (demo_client mgr) client1 ep_io_refor_client 4194304 [1, 2, 3] out')"
    by (elim exE conjE)
  have "cl_next (demo_client mgr) = 0" by (simp add: demo_client_def)
  with w show ?thesis by (intro exI [of _ mgr] exI [of _ R] exI [of _ client1] exI [of _ out] exI [of _ "io_aes c"] conjI) simp_all
qed

section \<open>Failures\<close>

text \<open>Posting when the manager has no such connection fails, whatever the request asks for.\<close>

lemma combine_closed:
  assumes "bz_laws ext" and "buffer_holds b data" and "ep_io_find mgr fd = None"
  obtains out where "ep_io_combine_shell ext beyond mgr fd sh (Some b) = Some out"
proof -
  let ?sh = "sh\<lparr>pack_size := word_of_int (ep_buffer_size b)\<rparr>"
  obtain packed sh1 b1 where c: "combine_compress ext mgr ?sh b = Some (Some (sh1, b1))"
    "buffer_holds b1 (if packed then bz_compress ext data else data)" using combine_compress_spec [OF assms(1,2)] by metis
  obtain bs rest where r: "bf_chunk b1 = bs @ rest" "bf_used b1 = int (length bs)" using c(2) by (auto simp: buffer_holds_def)
  obtain out where "combine_out (sh1\<lparr>decrypt_size := word_of_int (int (length bs))\<rparr>) (bs @ rest) (int (length bs)) = Some (Some out)"
    using combine_out_spec [OF refl] by blast
  then show ?thesis
    using that c(1) assms(3) r
    by (cases "sender_crypt (mgr_refor mgr) sh = 1")
      (simp_all add: ep_io_combine_shell_def Let_def combine_encrypt_def ep_io_get_aes_def ep_buffer_size_def ep_buffer_ptr_def)
qed

lemma req_post_closed:
  assumes l: "bz_laws ext" and ne: "pack_bytes pk \<noteq> []" and f: "ep_io_find mgr fd = None"
  obtains mgr' where "req_post ext beyond pack_bytes mgr fd 1 sh (Some pk) = Some (0, mgr')"
proof -
  obtain b where b: "ep_buffer_new (pack_bytes pk @ []) (int (length (pack_bytes pk))) = Some (Some b)" "buffer_holds b (pack_bytes pk)"
    using buffer_new_spec [OF ne refl] by metis
  obtain out where out: "ep_io_combine_shell ext beyond mgr fd sh (Some b) = Some out" using combine_closed [OF l b(2) f] .
  have none: "filter (\<lambda>c. io_fd c = fd) (mgr_list mgr) = []" "filter (\<lambda>c. fd = io_fd c) (mgr_list mgr) = []"
    using f by (auto simp: ep_io_find_def find_None_iff filter_empty_conv)
  have n0: "fst (ep_io_nodify_fd (mgr\<lparr>mgr_heap := h, mgr_next := n\<rparr>) fd 1 q) = 0" for h n q
    using none by (simp add: nodify_eq nodify_selects_def)
  show ?thesis
  proof (cases out)
    case None
    then show ?thesis using b(1) out by (intro that [of mgr]) (simp add: req_post_def)
  next
    case (Some o')
    let ?n = "ep_io_nodify_fd (mgr\<lparr>mgr_heap := (mgr_heap mgr)(mgr_next mgr \<mapsto> o'), mgr_next := mgr_next mgr + 1\<rparr>) fd 1 (mgr_next mgr)"
    have "req_post ext beyond pack_bytes mgr fd 1 sh (Some pk) = Some ?n" using b(1) out Some by (simp add: req_post_def Let_def)
    moreover have "fst ?n = 0" by (rule n0)
    ultimately show ?thesis using that [of "snd ?n"] by (cases ?n) simp
  qed
qed

text \<open>A request that fails because its connection has just gone leaves its callback behind: \<open>ep_req_new\<close> returns -1 and frees
  the handle, but every later request of the category is refused with -2, since there is no handle to destroy, and a message of
  the category that is still being processed is pushed to the queue of the freed handle, which is undefined.\<close>

theorem failed_request_dangles:
  fixes client :: "('x, 'c, 'p) ep_client"
  assumes l: "bz_laws ext" and o: "cl_io_mgr client = Some mgr" "cl_disp_mgr client = Some disp" "cl_fd client \<noteq> - 1"
    and gone: "ep_io_find mgr (cl_fd client) = None" and free: "disp_find disp (rp_category param) = None"
    and p: "rp_pack param = Some pk" "pack_bytes pk \<noteq> []" "int (length (pack_bytes pk)) \<le> cl_max_capacity client"
  shows "\<exists>client'. ep_req_new ext beyond pack_bytes True True True (Some client) param = Some (- 1, None, [], Some client') \<and>
    (\<forall>again. rp_category again = rp_category param \<longrightarrow>
       (case rp_pack again of None \<Rightarrow> 0 | Some q \<Rightarrow> int (length (pack_bytes q))) \<le> cl_max_capacity client \<longrightarrow>
       (\<exists>client''. ep_req_new ext beyond pack_bytes True True True (Some client') again = Some (- 2, None, [], Some client''))) \<and>
    (\<exists>disp'. cl_disp_mgr client' = Some disp' \<and> (\<forall>app fd pack w.
       ep_disp_processor (client_invoke app) disp' (rp_category param) fd pack (Some (cl_reqs client'), w :: 'w) = (None, False, None, w)))"
proof -
  let ?h = "cl_next client" and ?cat = "rp_category param"
  obtain mgr' where post: "req_post ext beyond pack_bytes mgr (cl_fd client) 1 (req_shell param) (Some pk) = Some (0, mgr')"
    using req_post_closed [where pack_bytes = pack_bytes and pk = pk, OF l p(2) gone] .
  define client' where "client' = client\<lparr>cl_next := ?h + 1, cl_reqs := (cl_reqs client)(?h := None),
    cl_disp_mgr := Some (req_entry ?cat ?h # disp), cl_io_mgr := Some mgr'\<rparr>"
  have "ep_req_new ext beyond pack_bytes True True True (Some client) param = Some (- 1, None, [], Some client')"
    using o p post disp_add_free [OF free, of ?h] by (simp add: ep_req_new_def Let_def client'_def)
  moreover have find: "disp_find (req_entry ?cat ?h # disp) ?cat = Some (req_entry ?cat ?h)" by (simp add: disp_find_def)
  have "ep_disp_add_cb True (req_entry ?cat ?h # disp) ?cat cb q = (0, req_entry ?cat ?h # disp)" for cb q
    using disp_count_find [of "req_entry ?cat ?h # disp" ?cat] find by (simp add: ep_disp_add_cb_def)
  then have "\<exists>client''. ep_req_new ext beyond pack_bytes True True True (Some client') again = Some (- 2, None, [], Some client'')"
    if "rp_category again = ?cat" "(case rp_pack again of None \<Rightarrow> 0 | Some q \<Rightarrow> int (length (pack_bytes q))) \<le> cl_max_capacity client" for again
    using o(3) that by (simp add: ep_req_new_def Let_def client'_def)
  moreover have "ep_disp_processor (client_invoke app) (req_entry ?cat ?h # disp) ?cat fd pack (Some (cl_reqs client'), w) = (None, False, None, w)"
    for app fd pack and w :: 'w
    by (simp add: ep_disp_processor_find find client_invoke_def req_default_dispatcher_def client'_def)
  moreover have "cl_disp_mgr client' = Some (req_entry ?cat ?h # disp)" by (simp add: client'_def)
  ultimately show ?thesis by blast
qed

theorem failed_request_dangles_witness:
  "\<exists>(mgr :: unit ep_io_mgr) client' disp'. ep_req_new plain_ext [] id True True True (Some (demo_client mgr)) demo_param = Some (- 1, None, [], Some client') \<and>
     cl_disp_mgr client' = Some disp' \<and>
     ep_disp_processor (client_invoke (\<lambda>_ _ _ p w. (p, True, w))) disp' 0 5 None (Some (cl_reqs client'), ()) = (None, False, None, ())"
proof -
  obtain mgr :: "unit ep_io_mgr" where n: "ep_io_find mgr 5 = None" using demo_mgr by metis
  have c: "cl_io_mgr (demo_client mgr) = Some mgr" "cl_disp_mgr (demo_client mgr) = Some []" "cl_fd (demo_client mgr) \<noteq> - 1"
    "ep_io_find mgr (cl_fd (demo_client mgr)) = None" "disp_find [] (rp_category demo_param) = None" "rp_pack demo_param = Some [1, 2, 3]"
    "id [1, 2, 3 :: byte] \<noteq> []" "int (length (id [1, 2, 3 :: byte])) \<le> cl_max_capacity (demo_client mgr)" "rp_category demo_param = 0"
    using n by (simp_all add: demo_client_def demo_param_def disp_find_def)
  from failed_request_dangles [where 'w = unit and pack_bytes = id, OF plain_ext_laws(2) c(1-8), of "[]"] c(9) show ?thesis
    by (elim exE conjE) (intro exI conjI, assumption+, simp)
qed

section \<open>The life of a connection\<close>

lemma send_ok_feed:
  assumes "send_ok mgr" and "mgr_ok mgr'" and "map io_send (mgr_list mgr') = map io_send (mgr_list mgr)" and "mgr_heap mgr' = mgr_heap mgr"
  shows "send_ok mgr'"
  using assms by (simp add: send_ok_def queued_sends)



text \<open>Starting a client, on every path. It fails cleanly only before the dispatcher is made: without a socket (0), a client (-3) or a
  connection (-2). A failure to allocate the dispatcher or the manager is undefined, since it stops a client
  whose receiving thread was never created. Otherwise the key exchange runs on an open and idle connection, with the receiving thread at
  work, and its success is the client that is returned.\<close>

theorem client_start_paths:
  fixes self :: 'x
  assumes cap: "0 < cc_def_capacity conf" "0 \<le> cc_max_capacity conf" and fd: "fd \<noteq> - 1"
  shows "ep_client_start (- 1) conn a_client a_disp a_mgr True True recv_first self security conf = Some (0, None) \<and>
    ep_client_start fd conn False a_disp a_mgr True True recv_first self security conf = Some (- 3, None) \<and>
    (conn \<noteq> 0 \<longrightarrow> ep_client_start fd conn True a_disp a_mgr True True recv_first self security conf = Some (- 2, None)) \<and>
    (\<not> (a_disp \<and> a_mgr) \<longrightarrow> ep_client_start fd 0 True a_disp a_mgr True True recv_first self security conf = None) \<and>
    (\<exists>client mgr c. client_open client mgr [] c \<and> cl_fd client = fd \<and> io_extra c = self \<and> io_pending c = [] \<and>
      mgr_refor mgr = ep_io_refor_client \<and> cl_recv_thrd client = Some True \<and>
      (\<forall>client'. security client = Some (1, client') \<longrightarrow>
        ep_client_start fd 0 True True True True True recv_first self security conf = Some (1, Some client')))"
proof -
  let ?conf = "\<lparr>conf_refor = ep_io_refor_client, conf_def_capacity = cc_def_capacity conf, conf_max_capacity = cc_max_capacity conf,
    conf_mini_compress_if = cc_mini_compress_if conf\<rparr>"
  let ?start = "\<lambda>fd conn a_client a_disp a_mgr. ep_client_start fd conn a_client a_disp a_mgr True True recv_first self security conf"
  have early: "?start (- 1) conn a_client a_disp a_mgr = Some (0, None)" "?start fd conn False a_disp a_mgr = Some (- 3, None)"
    "conn \<noteq> 0 \<longrightarrow> ?start fd conn True a_disp a_mgr = Some (- 2, None)"
    using fd by (simp_all add: ep_client_start_def)
  have undef: "\<not> (a_disp \<and> a_mgr) \<longrightarrow> ?start fd 0 True a_disp a_mgr = None"
    using fd by (cases a_disp) (auto simp: ep_client_start_def ep_disp_init_def ep_io_init_def ep_client_stop_def Let_def)
  obtain mgr :: "'x ep_io_mgr" where m: "ep_io_init True True True ?conf = Some mgr" "mgr_ok mgr" "mgr_list mgr = []"
    using ep_io_init_ok [of ?conf] cap by auto
  have none: "ep_io_find mgr fd = None" using m(3) by (simp add: ep_io_find_def)
  obtain mgr' c where a: "ep_io_add mgr fd self = (1, mgr')" "mgr_ok mgr'" "ep_io_find mgr' = (ep_io_find mgr)(fd \<mapsto> c)"
    "io_extra c = self" "io_pending c = []" using ep_io_add_spec(1) [OF m(2) none, of self] by auto
  have r: "mgr_refor mgr' = ep_io_refor_client"
    using m(1) a(1) none by (auto simp: ep_io_init_def ep_queue_new_def ep_io_add_def split: option.splits)
  let ?client = "\<lparr>cl_max_capacity = max (cc_max_capacity conf) (cc_def_capacity conf), cl_fd = fd, cl_io_mgr = Some mgr',
    cl_disp_mgr = Some [], cl_disc_cb = False, cl_recv_loop = True, cl_recv_thrd = Some True, cl_reqs = Map.empty, cl_next = 0\<rparr>"
  have "client_open ?client mgr' [] c" using a(2,3) fd by (simp add: client_open_def disp_ok_def)
  moreover have "?start fd 0 True True True = Some (1, Some client')" if "security ?client = Some (1, client')" for client'
    using that fd m(1) a(1) by (simp add: ep_client_start_def ep_disp_init_def Let_def)
  ultimately have "\<exists>client mgr c. client_open client mgr [] c \<and> cl_fd client = fd \<and> io_extra c = self \<and> io_pending c = [] \<and>
      mgr_refor mgr = ep_io_refor_client \<and> cl_recv_thrd client = Some True \<and>
      (\<forall>client'. security client = Some (1, client') \<longrightarrow> ?start fd 0 True True True = Some (1, Some client'))"
    using a(4,5) r by (intro exI [of _ ?client] exI [of _ mgr'] exI [of _ c]) simp
  with early undef show ?thesis by blast
qed

theorem client_start_paths_witness:
  "\<exists>client. ep_client_start 5 0 True True True True True True () (\<lambda>c :: (unit, unit, unit) ep_client. Some (1, c))
     \<lparr>cc_def_capacity = 4096, cc_max_capacity = 0, cc_mini_compress_if = 0\<rparr> = Some (1, Some client) \<and> cl_fd client = 5"
proof -
  let ?conf = "\<lparr>cc_def_capacity = 4096, cc_max_capacity = 0, cc_mini_compress_if = 0\<rparr>" and ?sec = "\<lambda>c :: (unit, unit, unit) ep_client. Some (1 :: int, c)"
  have c: "0 < cc_def_capacity ?conf" "0 \<le> cc_max_capacity ?conf" "(5 :: int) \<noteq> - 1" by simp_all
  from client_start_paths [OF c, of 0 True True True True "()" ?sec] show ?thesis by auto
qed

text \<open>Stopping an idle client is sound when the receiving thread ends before the manager is destroyed, and undefined when it does not.\<close>

lemma client_stop_race:
  assumes cl: "cl_io_mgr client = Some mgr" "cl_recv_thrd client = Some True" and m: "send_ok mgr" "ep_io_find mgr (cl_fd client) = Some c"
    and q: "mgr_list mgr = [c]" "q_items (mgr_send_queue mgr) = []" and fd: "cl_fd client \<noteq> - 1"
  shows "ep_client_stop True (Some client) = Some (notify_disc client ep_disc_user_abort)" and "ep_client_stop False (Some client) = None"
proof -
  obtain mgr' where d: "ep_io_del mgr (cl_fd client) = Some (1, mgr')" using ep_io_del_spec [OF m] by metis
  have e: "mgr_list mgr' = []" "mgr_send_queue mgr' = mgr_send_queue mgr"
    using d m(2) q(1) by (auto simp: ep_io_del_def queue_drain_all split: bind_splits)
  have gone: "ep_io_find mgr' (- 1) = None" using e(1) by (simp add: ep_io_find_def)
  have "ep_io_destroy mgr' = Some (mgr_heap mgr')" using e q(2) by (simp add: ep_io_destroy_def queue_drain_all)
  with cl d gone show "ep_client_stop True (Some client) = Some (notify_disc client ep_disc_user_abort)"
    by (simp add: ep_client_stop_def ep_client_routine_def Let_def ep_io_stop_def ep_io_del_def notify_disc_def)
  show "ep_client_stop False (Some client) = None"
    using cl by (simp add: ep_client_stop_def Let_def bind_eq_None_conv)
qed

end
