(* ===== verification/EP_Cert.thy ===== *)
theory EP_Cert
  imports EP_Client YM_Packet
begin

text \<open>
  The key exchange (\<open>eventpack/src/ep_cert.c\<close>, \<open>ep_cert_verify.c\<close>, \<open>ep_crypt_rsa\<close> of \<open>ep_crypt.c\<close>): the client makes an AES key
  and a vector from the time, sends them under the server's RSA key, and both sides set them for the connection.

  MD5, the two RSA operations (with the keys compiled in) and the byte format of packets are the parameters of \<open>cert_ext\<close>:
  \<open>bin_len\<close> and \<open>bin_bytes\<close> are what the accessors for binary data read for an element, of whatever type it is: the length field, and
  the memory of the packet from the data on. Memory is little-endian.
\<close>

section \<open>The model\<close>

record cert_ext =
  crypt_md5 :: "byte list \<Rightarrow> byte list"
  rsa_pub :: "byte list \<Rightarrow> byte list option"
  rsa_pri :: "byte list \<Rightarrow> byte list option"
  doc_bytes :: "doc \<Rightarrow> byte list"
  doc_parse :: "byte list \<Rightarrow> doc option"
  bin_len :: "bson \<Rightarrow> int"
  bin_bytes :: "bson \<Rightarrow> byte list"
  fp_conv :: c_fp

subsection \<open>Keys\<close>

definition ep_cert_random :: "cert_ext \<Rightarrow> byte list \<Rightarrow> byte list" where
  "ep_cert_random x curtime = crypt_md5 x curtime"

definition EP_MAKEWORD :: "byte \<Rightarrow> byte \<Rightarrow> 16 word" where
  "EP_MAKEWORD major minor = or (push_bit 8 (ucast major)) (ucast minor)"

definition ep_cert_gen_vec :: "cert_ext \<Rightarrow> byte list \<Rightarrow> byte list" where
  "ep_cert_gen_vec x key =
     crypt_md5 x (le_bytes16 (EP_MAKEWORD (key ! 1) (key ! 15)) @ [key ! 0] @ take 13 (drop 2 key))"

definition ep_cert_gen_client_key :: "cert_ext \<Rightarrow> byte list \<Rightarrow> ep_aes_key" where
  "ep_cert_gen_client_key x curtime =
     (let key = (ep_cert_random x curtime)[0 := 0] in \<lparr>aes_key = key, aes_vec = ep_cert_gen_vec x key\<rparr>)"

definition ep_cert_verify_client_key :: "cert_ext \<Rightarrow> byte list \<Rightarrow> byte list \<Rightarrow> int" where
  "ep_cert_verify_client_key x key vec =
     (if key ! 0 \<noteq> 0 then 0 else if ep_cert_gen_vec x key \<noteq> vec then 0 else 1)"

subsection \<open>RSA\<close>

definition ep_crypt_rsa :: "cert_ext \<Rightarrow> byte list \<Rightarrow> bool \<Rightarrow> byte list option" where
  "ep_crypt_rsa x in_buffer enc = (if in_buffer = [] then None else if enc then rsa_pub x in_buffer else rsa_pri x in_buffer)"

definition ep_cert_client_encrypt :: "cert_ext \<Rightarrow> byte list \<Rightarrow> ep_buffer option option" where
  "ep_cert_client_encrypt x buffer =
     (case ep_crypt_rsa x buffer True of
        None \<Rightarrow> Some None
      | Some ptr \<Rightarrow> ep_buffer_new ptr (int (length ptr)))"

definition ep_cert_server_decrypt :: "cert_ext \<Rightarrow> byte list \<Rightarrow> ep_buffer option option" where
  "ep_cert_server_decrypt x buffer =
     (case ep_crypt_rsa x buffer False of
        None \<Rightarrow> Some None
      | Some ptr \<Rightarrow> ep_buffer_new ptr (int (length ptr)))"

subsection \<open>The server\<close>

text \<open>The value of the first element of a name, up to an element of a type the wrapper does not know, where the loops end.\<close>

fun pack_first :: "string \<Rightarrow> doc \<Rightarrow> bson option" where
  "pack_first name [] = None"
| "pack_first name ((k, v) # it) =
     (if \<not> ep_pack_iterator_next ((k, v) # it) then None else if k = name then Some v else pack_first name it)"

text \<open>The result is \<open>*buffer\<close>; its absence is the return of 0. A null packet is dereferenced.\<close>

definition ep_cert_server_rsa_get_decrypt_buffer :: "cert_ext \<Rightarrow> doc option \<Rightarrow> ep_buffer option option" where
  "ep_cert_server_rsa_get_decrypt_buffer x pack = do {
     it \<leftarrow> pack;
     (case pack_first ''security'' it of
        None \<Rightarrow> Some None
      | Some v \<Rightarrow>
          if bin_len x v \<noteq> 128 then Some None
          else do { bin \<leftarrow> mem_read (bin_bytes x v) 0 128; ep_cert_server_decrypt x bin })
   }"

text \<open>The loop over the decrypted packet copies 16 bytes from wherever the data of the element lies.\<close>

definition security_field :: "cert_ext \<Rightarrow> string \<Rightarrow> bson \<Rightarrow> ep_aes_key \<Rightarrow> ep_aes_key option" where
  "security_field x key v aes =
     (if key = ''key'' then map_option (\<lambda>b. aes\<lparr>aes_key := b\<rparr>) (mem_read (bin_bytes x v) 0 16)
      else if key = ''vec'' then map_option (\<lambda>b. aes\<lparr>aes_vec := b\<rparr>) (mem_read (bin_bytes x v) 0 16)
      else Some aes)"

definition security_result :: "int \<Rightarrow> ep_pack" where
  "security_result r = ep_pack_append_int ''result'' r ep_pack_new"

definition set_client_key :: "cert_ext \<Rightarrow> 'x ep_io_mgr \<Rightarrow> int \<Rightarrow> ep_aes_key \<Rightarrow> ep_pack \<times> 'x ep_io_mgr" where
  "set_client_key x mgr fd aes =
     (if ep_cert_verify_client_key x (aes_key aes) (aes_vec aes) \<noteq> 1 then (security_result (- 1), mgr)
      else case ep_io_update_aes mgr fd aes of
        (ret, mgr) \<Rightarrow> if ret = 0 then (security_result (- 1), mgr) else (security_result 1, mgr))"

definition ep_cert_server_security :: "cert_ext \<Rightarrow> 'x ep_io_mgr \<Rightarrow> int \<Rightarrow> doc option \<Rightarrow> (ep_pack \<times> 'x ep_io_mgr) option" where
  "ep_cert_server_security x mgr fd pack = do {
     buffer \<leftarrow> ep_cert_server_rsa_get_decrypt_buffer x pack;
     (case buffer of
        None \<Rightarrow> Some (security_result (- 1), mgr)
      | Some b \<Rightarrow> do {
          bytes \<leftarrow> mem_read (ep_buffer_ptr b) 0 (ep_buffer_size b);
          (case doc_parse x bytes of
             None \<Rightarrow> Some (security_result (- 1), mgr)
           | Some it \<Rightarrow> do {
               aes \<leftarrow> pack_loop (security_field x) it \<lparr>aes_key = replicate 16 0, aes_vec = replicate 16 0\<rparr>;
               Some (set_client_key x mgr fd aes)
             })
        })
   }"

subsection \<open>The client\<close>

definition security_param :: "doc \<Rightarrow> doc ep_req_param" where
  "security_param pack = \<lparr>rp_type = 0, rp_category = EP_CATEGORY_INTERNAL_KEY, rp_c_crypt = 0, rp_c_compress = 2,
     rp_s_crypt = 1, rp_s_compress = 2, rp_pack = Some pack\<rparr>"

definition aes_pack :: "ep_aes_key \<Rightarrow> doc" where
  "aes_pack aes = [(''key'', BSON_BINDATA (aes_key aes)), (''vec'', BSON_BINDATA (aes_vec aes))]"

text \<open>\<open>sleep\<close> is what happens while the client waits (see \<open>ep_req_wait\<close>). A null packet in the answer is dereferenced.\<close>

definition ep_cert_client_security ::
  "cert_ext \<Rightarrow> ep_ext \<Rightarrow> byte list \<Rightarrow> byte list \<Rightarrow> (('x, 'c, doc) ep_client \<Rightarrow> (('x, 'c, doc) ep_client \<times> int) option) \<Rightarrow> int \<Rightarrow>
   ('x, 'c, doc) ep_client \<Rightarrow> (int \<times> ('x, 'c, doc) ep_client) option" where
  "ep_cert_client_security x ext beyond curtime sleep wait_timeout client = do {
     let aes = ep_cert_gen_client_key x curtime;
     mgr \<leftarrow> cl_io_mgr client;
     let (ret, mgr) = ep_io_update_aes mgr (cl_fd client) aes;
     let client = client\<lparr>cl_io_mgr := Some mgr\<rparr>;
     (if ret \<noteq> 1 then Some (- 1, client)
      else do {
        tmp_buffer \<leftarrow> ep_cert_client_encrypt x (doc_bytes x (aes_pack aes));
        (case tmp_buffer of
           None \<Rightarrow> Some (- 1, client)
         | Some b \<Rightarrow> do {
             bytes \<leftarrow> mem_read (ep_buffer_ptr b) 0 (ep_buffer_size b);
             (_, handle, _, client') \<leftarrow> ep_req_new ext beyond (doc_bytes x) True True True (Some client)
                (security_param [(''security'', BSON_BINDATA bytes)]);
             client \<leftarrow> client';
             (case handle of
                None \<Rightarrow> Some (0, client)
              | Some h \<Rightarrow> do {
                  (r, pack, client) \<leftarrow> ep_req_wait sleep h wait_timeout client;
                  (if r = 0 then do { client \<leftarrow> ep_req_destroy (Some h) client; Some (0, client) }
                   else do {
                     it \<leftarrow> pack;
                     let result = (case pack_first ''result'' it of None \<Rightarrow> - 1 | Some v \<Rightarrow> ep_pack_iterator_int (fp_conv x) v);
                     client \<leftarrow> ep_req_destroy (Some h) client;
                     Some (result, client)
                   })
                })
           })
      })
   }"

section \<open>Lemmas\<close>

text \<open>What the library promises: 16 bytes of MD5; RSA with 1024 bits and PKCS1 padding takes back what it made of at most
  117 bytes; a packet has bytes, those of a key and a vector of 16 bytes each are 57 and are parsed back; binary data lies where
  it is read.\<close>

definition cert_laws :: "cert_ext \<Rightarrow> bool" where
  "cert_laws x \<longleftrightarrow> (\<forall>bs. length (crypt_md5 x bs) = 16) \<and>
     (\<forall>m. m \<noteq> [] \<longrightarrow> length m \<le> 117 \<longrightarrow> (\<exists>c. rsa_pub x m = Some c \<and> length c = 128 \<and> rsa_pri x c = Some m)) \<and>
     (\<forall>d. doc_bytes x d \<noteq> []) \<and>
     (\<forall>aes. length (aes_key aes) = 16 \<longrightarrow> length (aes_vec aes) = 16 \<longrightarrow>
        length (doc_bytes x (aes_pack aes)) = 57 \<and> doc_parse x (doc_bytes x (aes_pack aes)) = Some (aes_pack aes)) \<and>
     (\<forall>b. bin_len x (BSON_BINDATA b) = int (length b) \<and> (\<exists>r. bin_bytes x (BSON_BINDATA b) = b @ r))"

lemma cert_lawsD:
  assumes "cert_laws x"
  shows "length (crypt_md5 x bs) = 16"
    and "m \<noteq> [] \<Longrightarrow> length m \<le> 117 \<Longrightarrow> \<exists>c. rsa_pub x m = Some c \<and> length c = 128 \<and> rsa_pri x c = Some m"
    and "doc_bytes x d \<noteq> []"
    and "length (aes_key aes) = 16 \<Longrightarrow> length (aes_vec aes) = 16 \<Longrightarrow> length (doc_bytes x (aes_pack aes)) = 57"
    and "length (aes_key aes) = 16 \<Longrightarrow> length (aes_vec aes) = 16 \<Longrightarrow> doc_parse x (doc_bytes x (aes_pack aes)) = Some (aes_pack aes)"
    and "bin_len x (BSON_BINDATA b) = int (length b)" and "\<exists>r. bin_bytes x (BSON_BINDATA b) = b @ r"
  using assms by (simp_all add: cert_laws_def)

lemma bin_read:
  assumes "cert_laws x"
  shows "mem_read (bin_bytes x (BSON_BINDATA b)) 0 (int (length b)) = Some b"
  using cert_lawsD(7) [OF assms, of b] by (auto simp: mem_read_start)

lemma client_key_16:
  assumes "cert_laws x"
  shows "length (aes_key (ep_cert_gen_client_key x t)) = 16" and "length (aes_vec (ep_cert_gen_client_key x t)) = 16"
  using cert_lawsD(1) [OF assms] by (simp_all add: ep_cert_gen_client_key_def ep_cert_random_def ep_cert_gen_vec_def Let_def)

lemma client_key_verifies:
  assumes "cert_laws x"
  shows "ep_cert_verify_client_key x (aes_key (ep_cert_gen_client_key x t)) (aes_vec (ep_cert_gen_client_key x t)) = 1"
proof -
  have "0 < length (ep_cert_random x t)" using cert_lawsD(1) [OF assms, of t] by (simp add: ep_cert_random_def)
  then show ?thesis by (simp add: ep_cert_gen_client_key_def ep_cert_verify_client_key_def Let_def)
qed

text \<open>The packet of the client, and what the server reads from it.\<close>

lemma client_encrypts:
  assumes x: "cert_laws x" and k: "length (aes_key aes) = 16" "length (aes_vec aes) = 16"
  obtains b bytes where "ep_cert_client_encrypt x (doc_bytes x (aes_pack aes)) = Some (Some b)"
    and "mem_read (ep_buffer_ptr b) 0 (ep_buffer_size b) = Some bytes" and "length bytes = 128"
    and "rsa_pri x bytes = Some (doc_bytes x (aes_pack aes))"
proof -
  let ?m = "doc_bytes x (aes_pack aes)"
  have m: "?m \<noteq> []" "length ?m \<le> 117" using cert_lawsD(3) [OF x] cert_lawsD(4) [OF x k] by simp_all
  obtain c where c: "rsa_pub x ?m = Some c" "length c = 128" "rsa_pri x c = Some ?m" using cert_lawsD(2) [OF x m] by blast
  have "c \<noteq> []" using c(2) by auto
  then obtain b where b: "ep_buffer_new (c @ []) (int (length c)) = Some (Some b)" "buffer_holds b c"
    using buffer_new_spec [of c "int (length c)" "[]"] by blast
  have "mem_read (ep_buffer_ptr b) 0 (ep_buffer_size b) = Some c"
    using b(2) by (auto simp: buffer_holds_def ep_buffer_ptr_def ep_buffer_size_def mem_read_start)
  moreover have "ep_cert_client_encrypt x ?m = Some (Some b)"
    using b(1) c(1) cert_lawsD(3) [OF x] by (simp add: ep_cert_client_encrypt_def ep_crypt_rsa_def)
  ultimately show ?thesis using that c by blast
qed

lemma server_decrypts:
  assumes x: "cert_laws x" and b: "length bytes = 128" "rsa_pri x bytes = Some (doc_bytes x d)"
  obtains b where "ep_cert_server_rsa_get_decrypt_buffer x (Some [(''security'', BSON_BINDATA bytes)]) = Some (Some b)"
    and "mem_read (ep_buffer_ptr b) 0 (ep_buffer_size b) = Some (doc_bytes x d)"
proof -
  obtain b' where b': "ep_buffer_new (doc_bytes x d @ []) (int (length (doc_bytes x d))) = Some (Some b')" "buffer_holds b' (doc_bytes x d)"
    using buffer_new_spec [OF cert_lawsD(3) [OF x, of d] refl] by metis
  have "bytes \<noteq> []" using b(1) by auto
  then have "ep_cert_server_rsa_get_decrypt_buffer x (Some [(''security'', BSON_BINDATA bytes)]) = Some (Some b')"
    using b b'(1) cert_lawsD(6) [OF x, of bytes] bin_read [OF x, of bytes]
    by (simp add: ep_cert_server_rsa_get_decrypt_buffer_def ep_pack_iterator_next_def ep_cert_server_decrypt_def ep_crypt_rsa_def)
  moreover have "mem_read (ep_buffer_ptr b') 0 (ep_buffer_size b') = Some (doc_bytes x d)"
    using b'(2) by (auto simp: buffer_holds_def ep_buffer_ptr_def ep_buffer_size_def mem_read_start)
  ultimately show ?thesis using that by blast
qed

lemma server_reads_key:
  assumes x: "cert_laws x" and k: "length (aes_key aes) = 16" "length (aes_vec aes) = 16"
  shows "pack_loop (security_field x) (aes_pack aes) z = Some \<lparr>aes_key = aes_key aes, aes_vec = aes_vec aes\<rparr>"
  using bin_read [OF x, of "aes_key aes"] bin_read [OF x, of "aes_vec aes"] k
  by (simp add: aes_pack_def security_field_def ep_pack_iterator_next_def)

lemma update_aes_spec:
  assumes m: "mgr_ok mgr" and f: "ep_io_find mgr fd = Some c" and k: "length (aes_key aes) = 16" "length (aes_vec aes) = 16"
  obtains mgr' where "ep_io_update_aes mgr fd aes = (1, mgr')" and "mgr_ok mgr'"
    and "ep_io_find mgr' = (ep_io_find mgr)(fd \<mapsto> c\<lparr>io_aes := \<lparr>aes_key = aes_key aes, aes_vec = aes_vec aes\<rparr>\<rparr>)"
proof -
  let ?c = "c\<lparr>io_aes := \<lparr>aes_key = aes_key aes, aes_vec = aes_vec aes\<rparr>\<rparr>"
  have ids: "io_id ?c = io_id c" "io_fd ?c = io_fd c" by simp_all
  have ok: "io_ok (mgr_max_capacity mgr) ?c" using ep_io_find_ok [OF m f] by (simp add: io_ok_def)
  note put = io_put_spec [OF m f ids ok]
  have "ep_io_update_aes mgr fd aes = (1, io_put ?c mgr)" using f k by (simp add: ep_io_update_aes_def)
  moreover have "ep_io_find (io_put ?c mgr) = (ep_io_find mgr)(fd \<mapsto> ?c)" using put(2,3) by (auto simp: fun_eq_iff)
  ultimately show ?thesis using that put(1) by blast
qed

section \<open>Properties\<close>

text \<open>C15. The server accepts no key that does not verify: whatever packet reaches the key exchange, either it answers -1 and changes
  nothing, or it answers 1 and has set, for the connection the packet came from, a key whose first byte is zero and whose
  vector is the MD5 digest that the key determines.\<close>

theorem security_accepts_only_verified:
  assumes "ep_cert_server_security x mgr fd pack = Some (reply, mgr')"
  shows "reply = security_result (- 1) \<and> mgr' = mgr \<or>
    (\<exists>aes. reply = security_result 1 \<and> ep_io_update_aes mgr fd aes = (1, mgr') \<and> aes_key aes ! 0 = 0 \<and>
      aes_vec aes = crypt_md5 x ([aes_key aes ! 15, aes_key aes ! 1, aes_key aes ! 0] @ take 13 (drop 2 (aes_key aes))))"
proof -
  have makeword: "le_bytes16 (EP_MAKEWORD a b) = [b, a]" for a b
    by (auto intro!: bit_eqI simp: le_bytes16_def EP_MAKEWORD_def bit_simps byte_beyond)
  from assms consider "reply = security_result (- 1)" "mgr' = mgr" | aes where "set_client_key x mgr fd aes = (reply, mgr')"
    by (auto simp: ep_cert_server_security_def split: option.splits bind_splits)
  then show ?thesis
  proof cases
    case (2 aes)
    then show ?thesis
      by (simp add: set_client_key_def ep_cert_verify_client_key_def ep_cert_gen_vec_def makeword ep_io_update_aes_def
          split: option.splits if_splits) (rule disjI2, rule exI [of _ aes], simp)
  qed simp
qed

text \<open>A library that satisfies the laws, for evaluation: a digest by truncation, an encryption by padding, a format for two blocks.\<close>

definition toy_cert :: cert_ext where
  "toy_cert = \<lparr>crypt_md5 = (\<lambda>bs. take 16 (bs @ replicate 16 0)),
     rsa_pub = (\<lambda>m. Some (m @ 1 # replicate (127 - length m) 0)),
     rsa_pri = (\<lambda>c. Some (rev (tl (dropWhile (\<lambda>b. b = 0) (rev c))))),
     doc_bytes = (\<lambda>d. case d of [(_, BSON_BINDATA k), (_, BSON_BINDATA v)] \<Rightarrow> replicate 25 0 @ k @ v | _ \<Rightarrow> [0]),
     doc_parse = (\<lambda>bs. if length bs = 57 then Some [(''key'', BSON_BINDATA (take 16 (drop 25 bs))), (''vec'', BSON_BINDATA (drop 41 bs))] else None),
     bin_len = (\<lambda>v. case v of BSON_BINDATA b \<Rightarrow> int (length b) | _ \<Rightarrow> 0),
     bin_bytes = (\<lambda>v. case v of BSON_BINDATA b \<Rightarrow> b | _ \<Rightarrow> []),
     fp_conv = \<lparr>fp_of_int = (\<lambda>_. 0), fp_to_int = (\<lambda>_. 0), fp_narrow = id, fp_positive = (\<lambda>_. False), fp_print2 = (\<lambda>_. []), fp_atof = (\<lambda>_. 0)\<rparr>\<rparr>"

lemma toy_cert_laws: "cert_laws toy_cert"
proof -
  have "dropWhile (\<lambda>b :: byte. b = 0) (replicate n 0 @ 1 # r) = 1 # r" for n r by (induction n) simp_all
  then have "rsa_pri toy_cert (m @ 1 # replicate (127 - length m) 0) = Some m" for m by (simp add: toy_cert_def)
  moreover have "doc_bytes toy_cert d \<noteq> []" for d
    by (simp add: toy_cert_def split: list.split prod.split bson.split)
  ultimately show ?thesis by (auto simp: cert_laws_def toy_cert_def aes_pack_def)
qed

lemma toy_server:
  obtains R :: "unit ep_io_mgr" and c where "mgr_ok R" and "ep_io_find R 5 = Some c"
  using demo_idle [of ep_io_refor_server] by metis

theorem security_accepts_only_verified_witness:
  "\<exists>(R :: unit ep_io_mgr) reply R'. ep_cert_server_security toy_cert R 5 (Some []) = Some (reply, R') \<and> reply = security_result (- 1) \<and> R' = R"
proof -
  obtain R :: "unit ep_io_mgr" where R: "mgr_ok R" using toy_server by blast
  have e: "ep_cert_server_security toy_cert R 5 (Some []) = Some (security_result (- 1), R)"
    by (simp add: ep_cert_server_security_def ep_cert_server_rsa_get_decrypt_buffer_def)
  have "security_result (- 1) \<noteq> security_result 1"
    by (simp add: security_result_def ep_pack_append_int_def pk_append_def ep_pack_new_def)
  with security_accepts_only_verified [OF e] e show ?thesis by blast
qed

text \<open>C14. The key exchange agrees on a key: the packet that \<open>ep_cert_client_security\<close> sends, when it reaches the server, is answered with 1 and
  sets the client's key for the connection it came from, and no other connection; and when that answer reaches the client while it waits,
  \<open>ep_cert_client_security\<close> returns 1, with the same key set on its side, and no request left behind.\<close>

theorem handshake_agrees:
  fixes client :: "('x, 'c, doc) ep_client" and R :: "'y ep_io_mgr"
  assumes x: "cert_laws x" and l: "aes_laws ext" "bz_laws ext" "16 \<le> length beyond" and o: "client_open client mgr disp c"
    and free: "disp_find disp EP_CATEGORY_INTERNAL_KEY = None"
    and size: "\<forall>bytes. length bytes = 128 \<longrightarrow> int (length (doc_bytes x [(''security'', BSON_BINDATA bytes)])) \<le> min (cl_max_capacity client) (2 ^ 31 - 1)"
    and R: "mgr_ok R" "ep_io_find R rfd = Some rc" and wait: "timeout \<noteq> 0"
    and aes: "aes = ep_cert_gen_client_key x curtime"
  shows "\<exists>sent R' client1 h. ep_cert_server_security x R rfd (Some sent) = Some (security_result 1, R') \<and>
    ep_io_find R' = (ep_io_find R)(rfd \<mapsto> rc\<lparr>io_aes := aes\<rparr>) \<and>
    ep_req_new ext beyond (doc_bytes x) True True True
      (Some (client\<lparr>cl_io_mgr := Some (snd (ep_io_update_aes mgr (cl_fd client) aes))\<rparr>)) (security_param sent) = Some (0, Some h, [], Some client1) \<and>
    (\<forall>sleep wait_r. sleep client1 = map_option (\<lambda>reqs. (client1\<lparr>cl_reqs := reqs\<rparr>, wait_r))
        (req_default_dispatcher h (Some (pk_doc (security_result 1))) (cl_reqs client1)) \<longrightarrow>
      (\<exists>client2 mgr2. ep_cert_client_security x ext beyond curtime sleep timeout client = Some (1, client2) \<and>
        cl_io_mgr client2 = Some mgr2 \<and> ep_io_get_aes mgr2 (cl_fd client) = Some aes \<and>
        cl_disp_mgr client2 = Some disp \<and> cl_reqs client2 = cl_reqs client))"
proof -
  have k: "length (aes_key aes) = 16" "length (aes_vec aes) = 16" unfolding aes using client_key_16 [OF x] by simp_all
  have a: "\<lparr>aes_key = aes_key aes, aes_vec = aes_vec aes\<rparr> = aes" by simp
  have v: "ep_cert_verify_client_key x (aes_key aes) (aes_vec aes) = 1" unfolding aes by (rule client_key_verifies [OF x])
  obtain b bytes where b: "ep_cert_client_encrypt x (doc_bytes x (aes_pack aes)) = Some (Some b)"
    "mem_read (ep_buffer_ptr b) 0 (ep_buffer_size b) = Some bytes" "length bytes = 128" "rsa_pri x bytes = Some (doc_bytes x (aes_pack aes))"
    using client_encrypts [OF x k] .
  let ?sent = "[(''security'', BSON_BINDATA bytes)]"
  obtain sb where sb: "ep_cert_server_rsa_get_decrypt_buffer x (Some ?sent) = Some (Some sb)"
    "mem_read (ep_buffer_ptr sb) 0 (ep_buffer_size sb) = Some (doc_bytes x (aes_pack aes))" using server_decrypts [OF x b(3,4)] .
  obtain R' where R': "ep_io_update_aes R rfd aes = (1, R')" "ep_io_find R' = (ep_io_find R)(rfd \<mapsto> rc\<lparr>io_aes := aes\<rparr>)"
    using update_aes_spec [OF R k] unfolding a by metis
  have server: "ep_cert_server_security x R rfd (Some ?sent) = Some (security_result 1, R')"
    using sb cert_lawsD(5) [OF x k] server_reads_key [OF x k] v R'(1) by (simp add: ep_cert_server_security_def set_client_key_def a)
  have m: "mgr_ok mgr" "ep_io_find mgr (cl_fd client) = Some c" using o by (simp_all add: client_open_def)
  obtain mgr1 where u: "ep_io_update_aes mgr (cl_fd client) aes = (1, mgr1)" "mgr_ok mgr1"
    "ep_io_find mgr1 = (ep_io_find mgr)(cl_fd client \<mapsto> c\<lparr>io_aes := aes\<rparr>)" using update_aes_spec [OF m k] unfolding a by metis
  let ?c1 = "client\<lparr>cl_io_mgr := Some mgr1\<rparr>"
  have o1: "client_open ?c1 mgr1 disp (c\<lparr>io_aes := aes\<rparr>)" using o u(2,3) by (simp add: client_open_def)
  have sz: "int (length (doc_bytes x ?sent)) \<le> cl_max_capacity client" "int (length (doc_bytes x ?sent)) < 2 ^ 31"
    using size [rule_format, OF b(3)] by linarith+
  have p: "disp_find disp (rp_category (security_param ?sent)) = None" "rp_pack (security_param ?sent) = Some ?sent"
    "int (length (doc_bytes x ?sent)) \<le> cl_max_capacity ?c1" "int (length (doc_bytes x ?sent)) < 2 ^ 31"
    using free sz by (simp_all add: security_param_def)
  let ?cat = EP_CATEGORY_INTERNAL_KEY
  obtain out where n: "ep_req_new ext beyond (doc_bytes x) True True True (Some ?c1) (security_param ?sent) = Some (0, Some (cl_next ?c1), [],
      Some ((with_request ?c1 ?cat [])\<lparr>cl_io_mgr := Some (io_reply mgr1 (cl_fd ?c1) out)\<rparr>))"
    using ep_req_new_sends [where pack_bytes = "doc_bytes x" and pk = ?sent and lim = 0, OF l o1 p(1,2) cert_lawsD(3) [OF x] p(3,4)]
    by (force simp: security_param_def)
  let ?mgr2 = "io_reply mgr1 (cl_fd client) out" and ?reply = "pk_doc (security_result 1)"
  let ?w = "\<lambda>packs. (with_request ?c1 ?cat packs)\<lparr>cl_io_mgr := Some ?mgr2\<rparr>"
  have f1: "ep_io_find mgr1 (cl_fd client) = Some (c\<lparr>io_aes := aes\<rparr>)" using u(3) by simp
  have k2: "ep_io_get_aes ?mgr2 (cl_fd client) = Some aes" using io_reply_spec(1) [OF u(2) f1, of out] by (simp add: ep_io_get_aes_def)
  have push: "req_default_dispatcher (cl_next ?c1) (Some ?reply) (cl_reqs (?w [])) = Some (cl_reqs (?w [Some ?reply]))"
    by (simp add: req_default_dispatcher_def with_request_def ep_queue_push_def queue_push_def)
  have same: "(?w [])\<lparr>cl_reqs := cl_reqs (?w [Some ?reply])\<rparr> = ?w [Some ?reply]" by (simp add: with_request_def)
  have res: "pack_first ''result'' ?reply = Some (BSON_INT 1)"
    by (simp add: security_result_def ep_pack_append_int_def pk_append_def ep_pack_new_def ep_pack_iterator_next_def)
  have fin: "ep_req_destroy (Some (cl_next ?c1)) (?w []) = Some (?c1\<lparr>cl_next := cl_next ?c1 + 1, cl_io_mgr := Some ?mgr2\<rparr>)"
    using ep_req_destroy_ok [OF o1] free by simp
  have "ep_cert_client_security x ext beyond curtime sleep timeout client = Some (1, ?c1\<lparr>cl_next := cl_next ?c1 + 1, cl_io_mgr := Some ?mgr2\<rparr>)"
    if s: "sleep (?w []) = Some (?w [Some ?reply], wait_r)" for sleep wait_r
  proof -
    have wt: "ep_req_wait sleep (cl_next ?c1) timeout (?w []) = Some (1, Some ?reply, ?w [])"
      by (rule ep_req_wait_woken [where sleep = sleep and packs = "[]", OF wait s])
    have io: "cl_io_mgr client = Some mgr" using o by (simp add: client_open_def)
    show ?thesis
      using io u(1) b(1,2) n wt res fin by (simp add: ep_cert_client_security_def aes [symmetric] Let_def)
  qed
  then show ?thesis using server R'(2) n u(1) push same k2 o
    by (intro exI [of _ ?sent] exI [of _ R'] exI [of _ "?w []"] exI [of _ "cl_next ?c1"]) (auto simp: client_open_def)
qed

theorem handshake_agrees_witness:
  "\<exists>(R :: unit ep_io_mgr) sent R'. ep_cert_server_security toy_cert R 5 (Some sent) = Some (security_result 1, R') \<and>
     ep_io_get_aes R' 5 = Some (ep_cert_gen_client_key toy_cert [77, 111, 110])"
proof -
  obtain R :: "unit ep_io_mgr" and rc where R: "mgr_ok R" "ep_io_find R 5 = Some rc" using toy_server by blast
  obtain mgr :: "unit ep_io_mgr" and c where m: "mgr_ok mgr" "ep_io_find mgr 5 = Some c" using toy_server by blast
  let ?client = "\<lparr>cl_max_capacity = 4194304, cl_fd = 5, cl_io_mgr = Some mgr, cl_disp_mgr = Some [], cl_disc_cb = True,
     cl_recv_loop = True, cl_recv_thrd = Some True, cl_reqs = Map.empty, cl_next = 0\<rparr> :: (unit, unit, doc) ep_client"
  have o: "client_open ?client mgr [] c" using m by (simp add: client_open_def disp_ok_def)
  have b: "16 \<le> length (replicate 16 (7 :: byte))" "disp_find [] EP_CATEGORY_INTERNAL_KEY = None"
    "\<forall>bytes. length bytes = 128 \<longrightarrow> int (length (doc_bytes toy_cert [(''security'', BSON_BINDATA bytes)])) \<le> min (cl_max_capacity ?client) (2 ^ 31 - 1)"
    by (simp_all add: disp_find_def toy_cert_def)
  have "(- 1 :: int) \<noteq> 0" by simp
  from handshake_agrees [OF toy_cert_laws plain_ext_laws b(1) o b(2,3) R this refl, of "[77, 111, 110]"]
  obtain sent R' where "ep_cert_server_security toy_cert R 5 (Some sent) = Some (security_result 1, R')"
    "ep_io_find R' = (ep_io_find R)(5 \<mapsto> rc\<lparr>io_aes := ep_cert_gen_client_key toy_cert [77, 111, 110]\<rparr>)" by (elim exE conjE)
  then show ?thesis by (intro exI [of _ R] exI [of _ sent] exI [of _ R']) (simp add: ep_io_get_aes_def)
qed

end
