(* ===== verification/YM_Client.thy ===== *)
theory YM_Client
  imports YM_Menu EP_Dispatch
begin

text \<open>
  The client library (\<open>src/client\<close>): every function checks its arguments and what it knows of the own session, sends
  one request, waits for the answer and reads it. The engine below it (\<open>ep_req_new\<close>, \<open>ep_req_wait\<close> and
  \<open>ep_req_destroy\<close>) is the argument \<open>exch\<close>: category and document of the request give the document of the
  answer, or no answer (no handle, or the time was reached). Output parameters are arguments for their
  old values and results; a null pointer is \<open>None\<close>.
\<close>

record client_session =
  cs_result :: int
  cs_account :: account
  cs_token :: "char list"

record 'w connect =
  cn_session :: "client_session option"
  cn_sock :: "'w option"

abbreviation "account_r_login_already_login \<equiv> (1 :: int)"
abbreviation "account_r_no_response \<equiv> (13 :: int)"

type_synonym 'w exchange = "ep_category \<Rightarrow> doc option \<Rightarrow> 'w \<Rightarrow> (doc option \<times> 'w) option"

definition client_request :: "'w exchange \<Rightarrow> ep_category \<Rightarrow> doc option \<Rightarrow> 'w connect \<Rightarrow> (doc option \<times> 'w connect) option" where
  "client_request exch cat pack c =
     (case cn_sock c of
        None \<Rightarrow> Some (None, c)
      | Some w \<Rightarrow> do { (r, w) \<leftarrow> exch cat pack w; Some (r, c\<lparr>cn_sock := Some w\<rparr>) })"

text \<open>Arguments that are C strings.\<close>

definition arg_upto :: "nat \<Rightarrow> string option \<Rightarrow> bool" where
  "arg_upto n a = (case a of None \<Rightarrow> False | Some s \<Rightarrow> s \<noteq> [] \<and> length s \<le> n)"

definition arg_token :: "string option \<Rightarrow> bool" where
  "arg_token a = (case a of None \<Rightarrow> False | Some s \<Rightarrow> s \<noteq> [] \<and> length s = 38)"

definition arg_opt_upto :: "nat \<Rightarrow> string option \<Rightarrow> bool" where
  "arg_opt_upto n a = (case a of None \<Rightarrow> True | Some s \<Rightarrow> length s \<le> n)"

section \<open>Answers with a result only\<close>

text \<open>The loop stops at the first element \<open>result\<close>; without one the output keeps its old value.\<close>

fun read_result :: "c_fp \<Rightarrow> doc \<Rightarrow> int \<Rightarrow> int" where
  "read_result fp [] r = r"
| "read_result fp ((k, v) # it) r =
     (if ep_pack_iterator_next ((k, v) # it) then (if k = ''result'' then ep_pack_iterator_int fp v else read_result fp it r) else r)"

definition simple_request :: "c_fp \<Rightarrow> 'w exchange \<Rightarrow> ep_category \<Rightarrow> doc option \<Rightarrow> int \<Rightarrow> int \<Rightarrow> 'w connect \<Rightarrow> (int \<times> 'w connect) option" where
  "simple_request fp exch cat pack no_response r c = do {
     (answer, c) \<leftarrow> client_request exch cat pack c;
     Some (case answer of None \<Rightarrow> no_response | Some d \<Rightarrow> read_result fp d r, c)
   }"

section \<open>Accounts\<close>

definition client_session_zero :: client_session where
  "client_session_zero = \<lparr>cs_result = 0, cs_account = account_zero, cs_token = replicate 39 NUL\<rparr>"

definition session_key :: "c_fp \<Rightarrow> string \<Rightarrow> bson \<Rightarrow> client_session \<Rightarrow> client_session" where
  "session_key fp key v s =
     (let a = cs_account s in
      if key = ''result'' then s\<lparr>cs_result := ep_pack_iterator_int fp v\<rparr>
      else if key = ''type'' then s\<lparr>cs_account := a\<lparr>acc_type := ep_pack_iterator_int fp v\<rparr>\<rparr>
      else if key = ''nick'' then s\<lparr>cs_account := a\<lparr>acc_nick := take_string (acc_nick a) v\<rparr>\<rparr>
      else if key = ''comment'' then s\<lparr>cs_account := a\<lparr>acc_comment := take_string (acc_comment a) v\<rparr>\<rparr>
      else if key = ''token'' then s\<lparr>cs_token := take_string (cs_token s) v\<rparr>
      else s)"

definition session_key2 :: "c_fp \<Rightarrow> string \<Rightarrow> bson \<Rightarrow> client_session \<Rightarrow> client_session" where
  "session_key2 fp key v s =
     (let a = cs_account s in
      if key = ''result'' then s\<lparr>cs_result := ep_pack_iterator_int fp v\<rparr>
      else if key = ''type'' then s\<lparr>cs_account := a\<lparr>acc_type := ep_pack_iterator_int fp v\<rparr>\<rparr>
      else if key = ''uid'' then s\<lparr>cs_account := a\<lparr>acc_uid := take_string (acc_uid a) v\<rparr>\<rparr>
      else if key = ''nick'' then s\<lparr>cs_account := a\<lparr>acc_nick := take_string (acc_nick a) v\<rparr>\<rparr>
      else if key = ''comment'' then s\<lparr>cs_account := a\<lparr>acc_comment := take_string (acc_comment a) v\<rparr>\<rparr>
      else s)"

text \<open>After an answer that says the login succeeded the connection keeps a copy of the session.\<close>

definition keep_session :: "client_session \<Rightarrow> 'w connect \<Rightarrow> 'w connect" where
  "keep_session s c =
     (if cs_result s = account_r_ok \<or> cs_result s = account_r_login_ok_conlict_another_address then c\<lparr>cn_session := Some s\<rparr> else c)"

definition client_account_login ::
  "c_fp \<Rightarrow> 'w exchange \<Rightarrow> 'w connect option \<Rightarrow> string option \<Rightarrow> string option \<Rightarrow> int \<Rightarrow> client_session \<Rightarrow> (client_session \<times> 'w connect option) option" where
  "client_account_login fp exch connect uid pwd token_expire session =
     (case connect of
        None \<Rightarrow> Some (session\<lparr>cs_result := account_r_illegal_parameter\<rparr>, None)
      | Some c \<Rightarrow>
          if \<not> arg_upto 16 uid \<or> \<not> arg_upto 16 pwd \<or> token_expire < 0 then Some (session\<lparr>cs_result := account_r_illegal_parameter\<rparr>, Some c)
          else if cn_session c \<noteq> None then Some (session\<lparr>cs_result := account_r_login_already_login\<rparr>, Some c)
          else do {
            u \<leftarrow> uid;
            p \<leftarrow> pwd;
            let pack = ep_pack_new;
            let pack = ep_pack_append_string ''uid'' u pack;
            let pack = ep_pack_append_string ''pwd'' p pack;
            let pack = ep_pack_append_int ''token_expire'' token_expire pack;
            (answer, c) \<leftarrow> client_request exch 7 (Some (pk_doc pack)) c;
            (case answer of
               None \<Rightarrow> Some (client_session_zero\<lparr>cs_result := account_r_no_response\<rparr>, Some c)
             | Some d \<Rightarrow> do {
                 s \<leftarrow> pack_loop (\<lambda>k v s. Some (session_key fp k v s)) d (client_session_zero\<lparr>cs_result := account_r_illegal_parameter\<rparr>);
                 arr \<leftarrow> c_strcpy (acc_uid (cs_account s)) u;
                 let s = s\<lparr>cs_account := (cs_account s)\<lparr>acc_uid := arr, acc_pwd := (acc_pwd (cs_account s))[0 := NUL]\<rparr>\<rparr>;
                 Some (s, Some (keep_session s c))
               })
          })"

definition client_account_login2 ::
  "c_fp \<Rightarrow> 'w exchange \<Rightarrow> 'w connect option \<Rightarrow> string option \<Rightarrow> client_session \<Rightarrow> (client_session \<times> 'w connect option) option" where
  "client_account_login2 fp exch connect token session =
     (case connect of
        None \<Rightarrow> Some (session\<lparr>cs_result := account_r_illegal_parameter\<rparr>, None)
      | Some c \<Rightarrow>
          if \<not> arg_token token then Some (session\<lparr>cs_result := account_r_illegal_parameter\<rparr>, Some c)
          else if cn_session c \<noteq> None then Some (session\<lparr>cs_result := account_r_login_already_login\<rparr>, Some c)
          else do {
            t \<leftarrow> token;
            (answer, c) \<leftarrow> client_request exch 7 (Some (pk_doc (ep_pack_append_string ''token'' t ep_pack_new))) c;
            (case answer of
               None \<Rightarrow> Some (client_session_zero\<lparr>cs_result := account_r_no_response\<rparr>, Some c)
             | Some d \<Rightarrow> do {
                 s \<leftarrow> pack_loop (\<lambda>k v s. Some (session_key2 fp k v s)) d (client_session_zero\<lparr>cs_result := account_r_illegal_parameter\<rparr>);
                 arr \<leftarrow> c_strcpy (cs_token s) t;
                 let s = s\<lparr>cs_token := arr, cs_account := (cs_account s)\<lparr>acc_pwd := (acc_pwd (cs_account s))[0 := NUL]\<rparr>\<rparr>;
                 Some (s, Some (keep_session s c))
               })
          })"

definition client_account_get_session :: "'w connect option \<Rightarrow> client_session option \<Rightarrow> int \<times> client_session option" where
  "client_account_get_session connect session =
     (case Option.bind connect cn_session of
        None \<Rightarrow> (0, session)
      | Some s \<Rightarrow> (1, map_option (\<lambda>_. s) session))"

text \<open>\<open>ep_freep\<close> gives the session back and sets the pointer to null.\<close>

definition client_account_logout :: "c_fp \<Rightarrow> 'w exchange \<Rightarrow> 'w connect option \<Rightarrow> int \<Rightarrow> (int \<times> 'w connect option) option" where
  "client_account_logout fp exch connect r =
     (case connect of
        None \<Rightarrow> Some (account_r_ok, None)
      | Some c \<Rightarrow>
          if cn_sock c = None then Some (account_r_ok, Some c)
          else do {
            (r, c) \<leftarrow> simple_request fp exch 8 None account_r_no_response r (c\<lparr>cn_session := None\<rparr>);
            Some (r, Some c)
          })"

text \<open>The guards of the functions that need a session: on a null pointer, a missing session or a bad argument the
  result is \<open>illegal\<close>, for an account of the wrong type it is \<open>refused\<close>.\<close>

definition with_session ::
  "'w connect option \<Rightarrow> bool option \<Rightarrow> int \<Rightarrow> (int \<Rightarrow> bool) \<Rightarrow> int \<Rightarrow> ('w connect \<Rightarrow> (int \<times> 'w connect) option) \<Rightarrow> (int \<times> 'w connect option) option" where
  "with_session connect args illegal allowed refused body =
     (case connect of
        None \<Rightarrow> Some (illegal, None)
      | Some c \<Rightarrow>
          (case cn_session c of
             None \<Rightarrow> Some (illegal, Some c)
           | Some s \<Rightarrow> do {
               ok \<leftarrow> args;
               if \<not> ok then Some (illegal, Some c)
               else if \<not> allowed (acc_type (cs_account s)) then Some (refused, Some c)
               else do { (r, c) \<leftarrow> body c; Some (r, Some c) }
             }))"

definition client_account_create :: "c_fp \<Rightarrow> 'w exchange \<Rightarrow> 'w connect option \<Rightarrow> account option \<Rightarrow> int \<Rightarrow> (int \<times> 'w connect option) option" where
  "client_account_create fp exch connect user r =
     (case user of
        None \<Rightarrow> Some (account_r_illegal_parameter, connect)
      | Some a \<Rightarrow>
          with_session connect (c_and [valid_uid (acc_uid a), valid_pwd (acc_pwd a), valid_nick (acc_nick a), valid_comment (acc_comment a)])
            account_r_illegal_parameter (\<lambda>t. t = account_admin) account_r_no_permission
            (\<lambda>c. do {
               uid \<leftarrow> cstr (acc_uid a);
               pwd \<leftarrow> cstr (acc_pwd a);
               nick \<leftarrow> cstr (acc_nick a);
               comment \<leftarrow> cstr (acc_comment a);
               let pack = ep_pack_append_string ''uid'' uid ep_pack_new;
               let pack = ep_pack_append_string ''pwd'' pwd pack;
               let pack = ep_pack_append_int ''type'' (acc_type a) pack;
               let pack = (if nick \<noteq> [] then ep_pack_append_string ''nick'' nick pack else pack);
               let pack = (if comment \<noteq> [] then ep_pack_append_string ''comment'' comment pack else pack);
               simple_request fp exch 9 (Some (pk_doc pack)) account_r_no_response r c
             }))"

text \<open>The old password is checked with \<open>valid_uid\<close>, which is the same macro.\<close>

definition client_account_modify_pwd :: "c_fp \<Rightarrow> 'w exchange \<Rightarrow> 'w connect option \<Rightarrow> string option \<Rightarrow> string option \<Rightarrow> int \<Rightarrow> (int \<times> 'w connect option) option" where
  "client_account_modify_pwd fp exch connect old_pwd new_pwd r =
     with_session connect (Some (arg_upto 16 old_pwd \<and> arg_upto 16 new_pwd)) account_r_illegal_parameter (\<lambda>_. True) account_r_no_permission
       (\<lambda>c. do {
          old \<leftarrow> old_pwd;
          new \<leftarrow> new_pwd;
          if old = new then Some (account_r_modify_pwd_same, c)
          else do {
            let pack = ep_pack_append_string ''old_pwd'' old ep_pack_new;
            let pack = ep_pack_append_string ''new_pwd'' new pack;
            simple_request fp exch 10 (Some (pk_doc pack)) account_r_no_response r c
          }
        })"

text \<open>Null pointers pass the checks of nick and comment but not the appending of a string.\<close>

definition client_account_modify_basic :: "c_fp \<Rightarrow> 'w exchange \<Rightarrow> 'w connect option \<Rightarrow> string option \<Rightarrow> string option \<Rightarrow> int \<Rightarrow> (int \<times> 'w connect option) option" where
  "client_account_modify_basic fp exch connect nick comment r =
     with_session connect (Some (arg_opt_upto 64 nick \<and> arg_opt_upto 256 comment)) account_r_illegal_parameter (\<lambda>_. True) account_r_no_permission
       (\<lambda>c. do {
          n \<leftarrow> nick;
          t \<leftarrow> comment;
          let pack = ep_pack_append_string ''nick'' n ep_pack_new;
          let pack = ep_pack_append_string ''comment'' t pack;
          simple_request fp exch 11 (Some (pk_doc pack)) account_r_no_response r c
        })"

definition client_account_delete :: "c_fp \<Rightarrow> 'w exchange \<Rightarrow> 'w connect option \<Rightarrow> string option \<Rightarrow> string option \<Rightarrow> int \<Rightarrow> (int \<times> 'w connect option) option" where
  "client_account_delete fp exch connect uid old_pwd r =
     with_session connect (Some (arg_upto 16 old_pwd \<and> arg_upto 16 uid)) account_r_illegal_parameter (\<lambda>t. t = account_admin) account_r_no_permission
       (\<lambda>c. do {
          u \<leftarrow> uid;
          old \<leftarrow> old_pwd;
          let pack = ep_pack_append_string ''uid'' u ep_pack_new;
          let pack = ep_pack_append_string ''old_pwd'' old pack;
          simple_request fp exch 12 (Some (pk_doc pack)) account_r_no_response r c
        })"

section \<open>Answers with a list\<close>

text \<open>\<open>ep_calloc (1, sizeof (T) * count)\<close>: the size is cut to an \<open>int\<close>; the array has as many elements as fit.\<close>

definition list_array :: "int \<Rightarrow> 'a \<Rightarrow> int \<Rightarrow> 'a list option" where
  "list_array sz blank cnt =
     (let bytes = c_int_of_long (sz * cnt) in if bytes \<le> 0 then None else Some (replicate (nat (bytes div sz)) blank))"

text \<open>One object into the element \<open>i\<close> of the array, then the objects of one array, then the elements of the answer.
  \<open>Inl ()\<close> is the return with the result \<open>service_unavailable\<close>. \<open>ep_pack_interator_array\<close> stands on the
  first element of the array or object.\<close>

definition read_object :: "(string \<Rightarrow> bson \<Rightarrow> 'a \<Rightarrow> 'a option) \<Rightarrow> doc \<Rightarrow> nat \<Rightarrow> 'a list option \<Rightarrow> 'a list option option" where
  "read_object key d i arr =
     (if pack_items d = [] then Some arr
      else do {
        xs \<leftarrow> arr;
        if i < length xs then do { x \<leftarrow> pack_loop key d (xs ! i); Some (Some (xs[i := x])) } else None
      })"

fun read_objects :: "(string \<Rightarrow> bson \<Rightarrow> 'a \<Rightarrow> 'a option) \<Rightarrow> doc \<Rightarrow> nat \<Rightarrow> 'a list option \<Rightarrow> (unit + nat \<times> 'a list option) option" where
  "read_objects key [] i arr = Some (Inr (i, arr))"
| "read_objects key ((k, v) # it) i arr =
     (if ep_pack_iterator_next ((k, v) # it) then
        (case v of
           BSON_OBJECT d \<Rightarrow> do { arr \<leftarrow> read_object key d i arr; read_objects key it (i + 1) arr }
         | _ \<Rightarrow> Some (Inl ()))
      else Some (Inr (i, arr)))"

fun read_arrays ::
  "(string \<Rightarrow> bson \<Rightarrow> 'a \<Rightarrow> 'a option) \<Rightarrow> doc \<Rightarrow> nat \<Rightarrow> 'a list option \<Rightarrow> 'a list option \<Rightarrow> (unit + 'a list option) option" where
  "read_arrays key [] i arr out = Some (Inr out)"
| "read_arrays key ((k, v) # it) i arr out =
     (if ep_pack_iterator_next ((k, v) # it) then
        (case v of
           BSON_ARRAY d \<Rightarrow> do {
             r \<leftarrow> read_objects key d i arr;
             (case r of Inl _ \<Rightarrow> Some (Inl ()) | Inr (i, arr) \<Rightarrow> read_arrays key it i arr arr)
           }
         | _ \<Rightarrow> Some (Inl ()))
      else Some (Inr out))"

text \<open>The integer of the first element, if its key and type are as expected.\<close>

definition expect_int :: "c_fp \<Rightarrow> string \<Rightarrow> doc \<Rightarrow> int option" where
  "expect_int fp k d =
     (if ep_pack_iterator_next d
      then (case d of (key, v) # _ \<Rightarrow> if bson_type_to_ep_pack_type v \<noteq> PACKET_INT \<or> key \<noteq> k then None else Some (ep_pack_iterator_int fp v) | [] \<Rightarrow> None)
      else None)"

text \<open>Result, count and array; \<open>cnt\<close> and \<open>out\<close> are the old values of the output parameters.\<close>

definition read_list ::
  "c_fp \<Rightarrow> int \<Rightarrow> (string \<Rightarrow> bson \<Rightarrow> 'a \<Rightarrow> 'a option) \<Rightarrow> 'a \<Rightarrow> int \<Rightarrow> int \<Rightarrow> 'a list option \<Rightarrow> doc \<Rightarrow> (int \<times> int \<times> 'a list option) option" where
  "read_list fp sz key blank unavailable cnt out d =
     (case expect_int fp ''result'' d of
        None \<Rightarrow> Some (unavailable, cnt, out)
      | Some r \<Rightarrow>
          if r \<noteq> 0 then Some (r, cnt, out)
          else
            (case expect_int fp ''count'' (tl d) of
               None \<Rightarrow> Some (unavailable, cnt, out)
             | Some n \<Rightarrow>
                 if n = 0 then Some (0, 0, out)
                 else do {
                   r \<leftarrow> read_arrays key (tl (tl d)) 0 (list_array sz blank n) out;
                   Some (case r of Inl _ \<Rightarrow> (unavailable, n, None) | Inr out \<Rightarrow> (0, n, out))
                 }))"

definition list_request ::
  "c_fp \<Rightarrow> 'w exchange \<Rightarrow> ep_category \<Rightarrow> doc option \<Rightarrow> int \<Rightarrow> (string \<Rightarrow> bson \<Rightarrow> 'a \<Rightarrow> 'a option) \<Rightarrow> 'a \<Rightarrow> int \<Rightarrow> int \<Rightarrow> int \<Rightarrow> 'a list option \<Rightarrow>
   'w connect \<Rightarrow> ((int \<times> int \<times> 'a list option) \<times> 'w connect) option" where
  "list_request fp exch cat pack sz key blank unavailable no_response cnt out c = do {
     (answer, c) \<leftarrow> client_request exch cat pack c;
     (case answer of
        None \<Rightarrow> Some ((no_response, cnt, out), c)
      | Some d \<Rightarrow> do { r \<leftarrow> read_list fp sz key blank unavailable cnt out d; Some (r, c) })
   }"

text \<open>The guards, for a result with its outputs.\<close>

definition list_with_session ::
  "'w connect option \<Rightarrow> bool \<Rightarrow> int \<Rightarrow> (int \<Rightarrow> bool) \<Rightarrow> int \<Rightarrow> int \<Rightarrow> 'a list option \<Rightarrow>
   ('w connect \<Rightarrow> ((int \<times> int \<times> 'a list option) \<times> 'w connect) option) \<Rightarrow> ((int \<times> int \<times> 'a list option) \<times> 'w connect option) option" where
  "list_with_session connect args illegal allowed refused cnt out body =
     (case connect of
        None \<Rightarrow> Some ((illegal, cnt, out), None)
      | Some c \<Rightarrow>
          (case cn_session c of
             None \<Rightarrow> Some ((illegal, cnt, out), Some c)
           | Some s \<Rightarrow>
               if \<not> args then Some ((illegal, cnt, out), Some c)
               else if \<not> allowed (acc_type (cs_account s)) then Some ((refused, cnt, out), Some c)
               else do { (r, c) \<leftarrow> body c; Some (r, Some c) }))"

definition account_key :: "c_fp \<Rightarrow> string \<Rightarrow> bson \<Rightarrow> account \<Rightarrow> account option" where
  "account_key fp key v a =
     Some (if key = ''type'' then a\<lparr>acc_type := ep_pack_iterator_int fp v\<rparr>
           else if key = ''uid'' then a\<lparr>acc_uid := take_string (acc_uid a) v\<rparr>
           else if key = ''nick'' then a\<lparr>acc_nick := take_string (acc_nick a) v\<rparr>
           else if key = ''comment'' then a\<lparr>acc_comment := take_string (acc_comment a) v\<rparr>
           else a)"

definition client_account_list :: "c_fp \<Rightarrow> 'w exchange \<Rightarrow> 'w connect option \<Rightarrow> ((int \<times> int \<times> account list option) \<times> 'w connect option) option" where
  "client_account_list fp exch connect =
     list_with_session connect True account_r_illegal_parameter (\<lambda>t. t = account_admin) account_r_no_permission 0 None
       (list_request fp exch 13 None 472 (account_key fp) account_zero account_r_service_unavailable account_r_no_response 0 None)"

section \<open>Dishes and seats\<close>

abbreviation "dish_r_no_response \<equiv> (8 :: int)"
abbreviation "seat_r_no_permission \<equiv> (1 :: int)"
abbreviation "seat_r_illegal_parameter \<equiv> (2 :: int)"
abbreviation "seat_r_service_unavailable \<equiv> (3 :: int)"
abbreviation "seat_r_no_response \<equiv> (4 :: int)"
abbreviation "cook_r_no_response \<equiv> (8 :: int)"

text \<open>The texts of a dish are copied with \<open>strcpy\<close>.\<close>

definition dish_key :: "c_fp \<Rightarrow> string \<Rightarrow> bson \<Rightarrow> dish \<Rightarrow> dish option" where
  "dish_key fp key v d =
     (if key = ''id'' then Some (d\<lparr>dish_id := ep_pack_iterator_int fp v\<rparr>)
      else if key = ''category'' then Some (d\<lparr>dish_category := ep_pack_iterator_int fp v\<rparr>)
      else if key = ''name'' then do { s \<leftarrow> c_strcpy (dish_name d) (ep_pack_iterator_string v); Some (d\<lparr>dish_name := s\<rparr>) }
      else if key = ''summary'' then do { s \<leftarrow> c_strcpy (dish_summary d) (ep_pack_iterator_string v); Some (d\<lparr>dish_summary := s\<rparr>) }
      else if key = ''thumbnail'' then do { s \<leftarrow> c_strcpy (dish_thumbnail d) (ep_pack_iterator_string v); Some (d\<lparr>dish_thumbnail := s\<rparr>) }
      else if key = ''price_type'' then Some (d\<lparr>dish_price_type := ep_pack_iterator_int fp v\<rparr>)
      else if key = ''price'' then Some (d\<lparr>dish_price := ep_pack_iterator_int fp v\<rparr>)
      else Some d)"

text \<open>Here the output parameters are not reset: \<open>cnt\<close> and \<open>out\<close> are what the caller had in them; \<open>dish\<close> says
  whether the pointer for the array is given.\<close>

definition client_dish_fetch ::
  "c_fp \<Rightarrow> 'w exchange \<Rightarrow> 'w connect option \<Rightarrow> int \<Rightarrow> bool \<Rightarrow> int \<Rightarrow> dish list option \<Rightarrow> ((int \<times> int \<times> dish list option) \<times> 'w connect option) option" where
  "client_dish_fetch fp exch connect category dish cnt out =
     list_with_session connect dish dish_r_illegal_parameter menu_user dish_r_no_permission cnt out
       (list_request fp exch 14 (Some (pk_doc (ep_pack_append_int ''category'' category ep_pack_new))) 404 (dish_key fp) dish_zero
         dish_r_service_unavailable dish_r_no_response cnt out)"

definition client_dish_book ::
  "c_fp \<Rightarrow> 'w exchange \<Rightarrow> 'w connect option \<Rightarrow> int \<Rightarrow> int \<Rightarrow> c_double \<Rightarrow> string option \<Rightarrow> int \<Rightarrow> (int \<times> 'w connect option) option" where
  "client_dish_book fp exch connect seat dish jin comment r =
     with_session connect (Some (seat \<ge> 0 \<and> dish \<ge> 0 \<and> fp_positive fp jin)) dish_r_illegal_parameter menu_user dish_r_no_permission
       (\<lambda>c.
          let pack = ep_pack_append_int ''seat_id'' seat ep_pack_new;
              pack = ep_pack_append_int ''dish_id'' dish pack;
              pack = ep_pack_append_double ''jin_or_plate'' jin pack;
              pack = (case comment of None \<Rightarrow> pack | Some s \<Rightarrow> ep_pack_append_string ''comment'' s pack)
          in simple_request fp exch 153 (Some (pk_doc pack)) dish_r_no_response r c)"

definition client_dish_cancel :: "c_fp \<Rightarrow> 'w exchange \<Rightarrow> 'w connect option \<Rightarrow> int \<Rightarrow> int \<Rightarrow> (int \<times> 'w connect option) option" where
  "client_dish_cancel fp exch connect seat r =
     with_session connect (Some (seat \<ge> 0)) dish_r_illegal_parameter menu_user dish_r_no_permission
       (simple_request fp exch 15 (Some (pk_doc (ep_pack_append_int ''seat_id'' seat ep_pack_new))) dish_r_no_response r)"

text \<open>The state of a booking is stored as the dish, and its number is not read.\<close>

definition book_entry_key :: "c_fp \<Rightarrow> string \<Rightarrow> bson \<Rightarrow> book \<Rightarrow> book option" where
  "book_entry_key fp key v b =
     Some (if key = ''seat_id'' then b\<lparr>book_seat_id := ep_pack_iterator_int fp v\<rparr>
           else if key = ''dish_id'' then b\<lparr>book_dish_id := ep_pack_iterator_int fp v\<rparr>
           else if key = ''jin_or_plate'' then b\<lparr>book_jin_or_plate := ep_pack_iterator_double fp v\<rparr>
           else if key = ''comment'' then b\<lparr>book_comment := take_string (book_comment b) v\<rparr>
           else if key = ''accept_state'' then b\<lparr>book_dish_id := ep_pack_iterator_int fp v\<rparr>
           else b)"

definition client_dish_list :: "c_fp \<Rightarrow> 'w exchange \<Rightarrow> 'w connect option \<Rightarrow> int \<Rightarrow> ((int \<times> int \<times> book list option) \<times> 'w connect option) option" where
  "client_dish_list fp exch connect seat =
     list_with_session connect (seat \<ge> 0) dish_r_illegal_parameter menu_user dish_r_no_permission 0 None
       (list_request fp exch 178 (Some (pk_doc (ep_pack_append_int ''seat_id'' seat ep_pack_new))) 288 (book_entry_key fp) book_zero
         dish_r_service_unavailable dish_r_no_response 0 None)"

definition seat_zero :: seat where
  "seat_zero = \<lparr>seat_id = 0, seat_summary = replicate 257 NUL, seat_qrcode = replicate 65 NUL\<rparr>"

definition seat_key :: "c_fp \<Rightarrow> string \<Rightarrow> bson \<Rightarrow> seat \<Rightarrow> seat option" where
  "seat_key fp key v s =
     Some (if key = ''id'' then s\<lparr>seat_id := ep_pack_iterator_int fp v\<rparr>
           else if key = ''summary'' then s\<lparr>seat_summary := take_string (seat_summary s) v\<rparr>
           else if key = ''qrcode'' then s\<lparr>seat_qrcode := take_string (seat_qrcode s) v\<rparr>
           else s)"

definition client_seat_list :: "c_fp \<Rightarrow> 'w exchange \<Rightarrow> 'w connect option \<Rightarrow> ((int \<times> int \<times> seat list option) \<times> 'w connect option) option" where
  "client_seat_list fp exch connect =
     list_with_session connect True seat_r_illegal_parameter menu_user seat_r_no_permission 0 None
       (list_request fp exch 19 None 328 (seat_key fp) seat_zero seat_r_service_unavailable seat_r_no_response 0 None)"

section \<open>Kitchen, version and connection\<close>

definition client_cook_accept :: "c_fp \<Rightarrow> 'w exchange \<Rightarrow> 'w connect option \<Rightarrow> int \<Rightarrow> int \<Rightarrow> int \<Rightarrow> int \<Rightarrow> (int \<times> 'w connect option) option" where
  "client_cook_accept fp exch connect seat dish number r =
     with_session connect (Some (seat \<ge> 0 \<and> dish \<ge> 0 \<and> number \<ge> 0)) cook_r_illegal_parameter (\<lambda>t. t = account_admin \<or> t = account_cook) cook_r_no_permission
       (\<lambda>c.
          let pack = ep_pack_append_int ''seat_id'' seat ep_pack_new;
              pack = ep_pack_append_int ''dish_id'' dish pack;
              pack = ep_pack_append_int ''number'' number pack
          in simple_request fp exch 21 (Some (pk_doc pack)) cook_r_no_response r c)"

record version_status =
  vs_ver_id :: int
  vs_string :: "char list"
  vs_update_type :: int
  vs_url :: "char list"
  vs_update_logs :: "char list"

definition version_zero :: version_status where
  "version_zero = \<lparr>vs_ver_id = 0, vs_string = replicate 32 NUL, vs_update_type = 0, vs_url = replicate 256 NUL, vs_update_logs = replicate 4096 NUL\<rparr>"

definition version_answer_key :: "string \<Rightarrow> bson \<Rightarrow> c_fp \<Rightarrow> version_status \<Rightarrow> version_status" where
  "version_answer_key key v fp s =
     (if key = ''new_ver_id'' then s\<lparr>vs_ver_id := ep_pack_iterator_int fp v\<rparr>
      else if key = ''new_ver_string'' then s\<lparr>vs_string := take_string (vs_string s) v\<rparr>
      else if key = ''url'' then s\<lparr>vs_url := take_string (vs_url s) v\<rparr>
      else if key = ''update_logs'' then s\<lparr>vs_update_logs := take_string (vs_update_logs s) v\<rparr>
      else s)"

definition client_check_version :: "c_fp \<Rightarrow> 'w exchange \<Rightarrow> 'w connect \<Rightarrow> int \<Rightarrow> int \<Rightarrow> ((int \<times> version_status) \<times> 'w connect) option" where
  "client_check_version fp exch c pid cur_vid = do {
     let pack = ep_pack_append_int ''pid'' pid ep_pack_new;
     let pack = ep_pack_append_int ''cur_ver_id'' cur_vid pack;
     (answer, c) \<leftarrow> client_request exch 0 (Some (pk_doc pack)) c;
     (case answer of
        None \<Rightarrow> Some ((0, version_zero), c)
      | Some d \<Rightarrow> do { s \<leftarrow> pack_loop (\<lambda>k v s. Some (version_answer_key k v fp s)) d version_zero; Some ((1, s), c) })
   }"

definition client_heartbeat :: "c_fp \<Rightarrow> 'w exchange \<Rightarrow> 'w connect option \<Rightarrow> (int \<times> 'w connect option) option" where
  "client_heartbeat fp exch connect =
     (case connect of
        None \<Rightarrow> Some (0, None)
      | Some c \<Rightarrow> if cn_sock c = None then Some (0, Some c) else do { (r, c) \<leftarrow> simple_request fp exch 1 None 0 0 c; Some (r, Some c) })"

text \<open>\<open>start\<close> is the result of \<open>ep_client_start\<close>, with the client it made; the result is a number of \<open>connect_result\<close>.\<close>

definition client_connect :: "int \<Rightarrow> 'w \<Rightarrow> int \<times> 'w connect option" where
  "client_connect start w =
     (if start = 1 then (0, Some \<lparr>cn_session = None, cn_sock = Some w\<rparr>)
      else (if start = 0 then 1 else if start = - 1 then 2 else if start = - 2 then 4 else 3, None))"

text \<open>Disconnecting stops the engine's client and frees the connection, but not the session it keeps.\<close>

definition client_disconnect :: "('w \<Rightarrow> unit option) \<Rightarrow> 'w connect option \<Rightarrow> 'w connect option option" where
  "client_disconnect stop connect =
     (case Option.bind connect cn_sock of
        None \<Rightarrow> Some None
      | Some w \<Rightarrow> do { _ \<leftarrow> stop w; Some None })"

end
