(* ===== verification/YM_EndToEnd.thy ===== *)
theory YM_EndToEnd
  imports YM_Client YM_MenuSpec YM_Server
begin

text \<open>
  Client and server together: the functions of the client library, with the started server as their other side. A
  request goes through the dispatcher of the server to its handler, and the document of the reply is the
  answer; that documents travel unchanged is \<open>messages_end_to_end\<close> together with the third-party codec of
  documents.
\<close>

section \<open>The server as the other side\<close>

definition serving :: "('x, handler, unit option) ep_service \<Rightarrow> bool" where
  "serving svc \<longleftrightarrow> server_init_network True True True True 1 session_init service_zero = Some (1, session_init, svc)"

definition via_server ::
  "(int \<Rightarrow> doc option \<Rightarrow> ep_pack) \<Rightarrow> 'db env \<Rightarrow> ('x, handler, unit option) ep_service \<Rightarrow> int \<Rightarrow> 'db server exchange" where
  "via_server cert env svc fd c pack srv =
     (case server_request cert env svc c fd pack srv of
        (reply, _, None) \<Rightarrow> None
      | (reply, _, Some srv') \<Rightarrow> Some (reply, srv'))"

lemma serving_exists: "\<exists>svc :: ('x, handler, unit option) ep_service. serving svc"
  using network_up [of session_init] unfolding serving_def by blast

lemma via_server_route:
  fixes svc :: "('x, handler, unit option) ep_service"
  assumes "serving svc" and "route c = Some h"
  shows "via_server cert env svc fd c pack srv =
    (case run_handler cert h env fd pack srv of None \<Rightarrow> None | Some (reply, srv') \<Rightarrow> Some (Some (pk_doc reply), srv'))"
proof -
  obtain svc' :: "('x, handler, unit option) ep_service" where svc':
    "server_init_network True True True True 1 session_init service_zero = Some (1, session_init, svc')"
    "server_request cert env svc' c fd pack srv =
      (case route c of
         None \<Rightarrow> (None, True, Some srv)
       | Some h \<Rightarrow> call_handler cert env h (if h = ep_cert_server_security then Some () else None) fd pack (Some srv))"
    using network_up [of session_init cert env fd pack srv] by blast
  have "svc' = svc" using assms(1) svc'(1) by (simp add: serving_def)
  with svc'(2) assms(2) have "server_request cert env svc c fd pack srv =
      call_handler cert env h (if h = ep_cert_server_security then Some () else None) fd pack (Some srv)"
    by simp
  then show ?thesis by (simp add: via_server_def call_handler_def split: option.split)
qed

lemma routes: "route 7 = Some H_account_login" "route 13 = Some H_account_list" "route 14 = Some H_dish_fetch"
  "route 19 = Some H_seat_list"
  by (simp_all add: route_def server_handlers_def EP_CATEGORY_INTERNAL_KEY_def)

section \<open>Reading lists back\<close>

text \<open>\<open>body r\<close> is the object of a row, which the client's \<open>key\<close> reads into a struct that shows the row.\<close>

locale row_reading =
  fixes key :: "string \<Rightarrow> bson \<Rightarrow> 'a \<Rightarrow> 'a option"
    and blank :: 'a
    and sz :: int
    and row_ok :: "'r \<Rightarrow> bool"
    and body :: "'r \<Rightarrow> doc"
    and shows_row :: "'r \<Rightarrow> 'a \<Rightarrow> bool"
  assumes body_read: "row_ok r \<Longrightarrow> \<exists>x. pack_loop key (body r) blank = Some x \<and> shows_row r x"
    and body_items: "pack_items (body r) \<noteq> []"
    and sz: "0 < sz"
begin

lemma read_rows:
  assumes "list_all row_ok l"
  shows "\<exists>xs. read_objects key (map (\<lambda>r. (nm, BSON_OBJECT (body r))) l) (length acc) (Some (acc @ replicate (length l) blank)) =
    Some (Inr (length acc + length l, Some (acc @ xs))) \<and> list_all2 shows_row l xs"
  using assms
proof (induction l arbitrary: acc)
  case (Cons r l)
  then obtain x where x: "pack_loop key (body r) blank = Some x" "shows_row r x" using body_read by auto
  have o: "read_object key (body r) (length acc) (Some (acc @ replicate (length (r # l)) blank)) = Some (Some ((acc @ [x]) @ replicate (length l) blank))"
    using body_items x(1) by (simp add: read_object_def nth_append)
  obtain xs where "read_objects key (map (\<lambda>r. (nm, BSON_OBJECT (body r))) l) (length (acc @ [x])) (Some ((acc @ [x]) @ replicate (length l) blank)) =
    Some (Inr (length (acc @ [x]) + length l, Some ((acc @ [x]) @ xs)))" "list_all2 shows_row l xs"
    using Cons.IH [of "acc @ [x]"] Cons.prems by auto
  with o x(2) show ?case by (intro exI [of _ "x # xs"]) (simp add: ep_pack_iterator_next_def)
qed simp

text \<open>The list of a reply is read back row by row.\<close>

lemma read_list_rows:
  assumes "list_all row_ok l" and "sz * int (length l) < 2 ^ 31"
  shows "\<exists>xs. read_list fp sz key blank unavailable cnt out (list_doc name nm (map (\<lambda>r. BSON_OBJECT (body r)) l)) =
    Some (0, int (length l), if l = [] then out else Some xs) \<and> list_all2 shows_row l xs"
proof (cases "l = []")
  case False
  then have pos: "0 < sz * int (length l)" using sz by (simp add: zero_less_mult_iff)
  then have "signed_take_bit 31 (sz * int (length l)) = sz * int (length l)" using assms(2) by (intro signed_take_bit_int_eq_self) simp_all
  then have arr: "list_array sz blank (int (length l)) = Some (replicate (length l) blank)"
    using pos sz by (simp add: list_array_def c_int_of_long_def Let_def)
  from read_rows [OF assms(1), of nm "[]"] obtain xs where
    "read_objects key (map (\<lambda>r. (nm, BSON_OBJECT (body r))) l) 0 (Some (replicate (length l) blank)) = Some (Inr (length l, Some xs))"
    "list_all2 shows_row l xs" by auto
  then show ?thesis using False
    by (auto simp: read_list_def list_doc_def expect_int_def ep_pack_iterator_next_def arr comp_def)
qed (simp add: read_list_def list_doc_def expect_int_def ep_pack_iterator_next_def)

end

definition dish_body :: "dish_row \<Rightarrow> doc" where
  "dish_body r = [(''id'', BSON_INT (dr_id r)), (''category'', BSON_INT (dr_category r)), (''name'', BSON_STRING (dr_name r)),
     (''summary'', BSON_STRING (dr_summary r)), (''price_type'', BSON_INT (dr_price_type r)), (''price'', BSON_INT (dr_price r))]"

definition dish_shown :: "dish_row \<Rightarrow> dish \<Rightarrow> bool" where
  "dish_shown r d \<longleftrightarrow> dish_id d = dr_id r \<and> dish_category d = dr_category r \<and> cstr (dish_name d) = Some (dr_name r) \<and>
     cstr (dish_summary d) = Some (dr_summary r) \<and> cstr (dish_thumbnail d) = Some [] \<and> dish_price_type d = dr_price_type r \<and> dish_price d = dr_price r"

lemma strcpy_fits: "fits n s \<Longrightarrow> n < length arr \<Longrightarrow> \<exists>a. c_strcpy arr s = Some a \<and> cstr a = Some s"
  by (simp add: c_strcpy_def fits_def cstr_append_NUL plain_c_string)

lemma fits_c_string: "fits n s \<Longrightarrow> c_string s"
  by (simp add: fits_def plain_c_string)

interpretation read_dishes: row_reading "dish_key fp" dish_zero 404 dish_row_ok dish_body dish_shown for fp
proof unfold_locales
  fix r assume "dish_row_ok r"
  then have f: "fits 64 (dr_name r)" "fits 256 (dr_summary r)" by (simp_all add: dish_row_ok_def)
  obtain a where a: "c_strcpy (dish_name dish_zero) (dr_name r) = Some a" "cstr a = Some (dr_name r)"
    using strcpy_fits [OF f(1), of "dish_name dish_zero"] by (auto simp: dish_zero_def)
  obtain b where b: "c_strcpy (dish_summary dish_zero) (dr_summary r) = Some b" "cstr b = Some (dr_summary r)"
    using strcpy_fits [OF f(2), of "dish_summary dish_zero"] by (auto simp: dish_zero_def)
  have "cstr (dish_thumbnail dish_zero) = Some []" by (simp add: dish_zero_def cstr_def)
  then show "\<exists>x. pack_loop (dish_key fp) (dish_body r) dish_zero = Some x \<and> dish_shown r x"
    using a b fits_c_string [OF f(1)] fits_c_string [OF f(2)]
    by (simp add: dish_body_def dish_key_def dish_shown_def ep_pack_iterator_next_def)
qed (simp_all add: dish_body_def pack_items_def)

definition account_body :: "account_row \<Rightarrow> doc" where
  "account_body r = [(''type'', BSON_INT (ar_type r)), (''uid'', BSON_STRING (ar_uid r))] @ profile_doc r"

definition account_shown :: "account_row \<Rightarrow> account \<Rightarrow> bool" where
  "account_shown r a \<longleftrightarrow> acc_type a = ar_type r \<and> cstr (acc_uid a) = Some (ar_uid r) \<and> cstr (acc_pwd a) = Some [] \<and>
     cstr (acc_nick a) = Some (ar_nick r) \<and> cstr (acc_comment a) = Some (ar_comment r)"

lemma take_string_cstr: "c_string s \<Longrightarrow> length s < length arr \<Longrightarrow> cstr (take_string arr (BSON_STRING s)) = Some s"
  using take_string_c [of s arr] by (auto simp: cstr_append_NUL)

interpretation read_accounts: row_reading "account_key fp" account_zero 472 account_row_ok account_body account_shown for fp
proof unfold_locales
  fix r assume "account_row_ok r"
  then have f: "fits 16 (ar_uid r)" "fits 64 (ar_nick r)" "fits 256 (ar_comment r)" by (simp_all add: account_row_ok_def)
  note c = fits_c_string [OF f(1)] fits_c_string [OF f(2)] fits_c_string [OF f(3)]
  have "cstr (take_string (acc_uid account_zero) (BSON_STRING (ar_uid r))) = Some (ar_uid r)"
    "cstr (take_string (acc_nick account_zero) (BSON_STRING (ar_nick r))) = Some (ar_nick r)"
    "cstr (take_string (acc_comment account_zero) (BSON_STRING (ar_comment r))) = Some (ar_comment r)"
    "cstr (acc_pwd account_zero) = Some []"
    using f by (intro take_string_cstr c; simp add: account_zero_def fits_def)+ (simp add: account_zero_def cstr_def)
  then show "\<exists>x. pack_loop (account_key fp) (account_body r) account_zero = Some x \<and> account_shown r x"
    by (simp add: account_body_def profile_doc_def account_key_def account_shown_def ep_pack_iterator_next_def)
qed (simp_all add: account_body_def pack_items_def)

definition seat_body :: "seat_row \<Rightarrow> doc" where
  "seat_body r = [(''id'', BSON_INT (sr_id r)), (''summary'', BSON_STRING (sr_summary r)), (''qrcode'', BSON_STRING (sr_qrcode r))]"

interpretation read_seats: row_reading "seat_key fp" seat_zero 328 seat_row_ok seat_body seat_holds for fp
proof unfold_locales
  fix r assume "seat_row_ok r"
  then have f: "fits 256 (sr_summary r)" "fits 64 (sr_qrcode r)" by (simp_all add: seat_row_ok_def)
  note c = fits_c_string [OF f(1)] fits_c_string [OF f(2)]
  have "cstr (take_string (seat_summary seat_zero) (BSON_STRING (sr_summary r))) = Some (sr_summary r)"
    "cstr (take_string (seat_qrcode seat_zero) (BSON_STRING (sr_qrcode r))) = Some (sr_qrcode r)"
    using f by (intro take_string_cstr c; simp add: seat_zero_def fits_def)+
  then show "\<exists>x. pack_loop (seat_key fp) (seat_body r) seat_zero = Some x \<and> seat_holds r x"
    by (simp add: seat_body_def seat_key_def seat_holds_def ep_pack_iterator_next_def)
qed (simp_all add: seat_body_def pack_items_def)

section \<open>Lists end to end\<close>

lemma rows_ok_mset: "mset l = mset rs \<Longrightarrow> list_all P rs \<Longrightarrow> list_all P l"
  by (metis list_all_iff set_mset_mset)

lemma fetch_routed:
  assumes "serving svc" and "route c = Some h" and "run_handler cert h env fd pack srv = Some (reply, srv')"
  shows "client_request (via_server cert env svc fd) c pack \<lparr>cn_session = s, cn_sock = Some srv\<rparr> =
    Some (Some (pk_doc reply), \<lparr>cn_session = s, cn_sock = Some srv'\<rparr>)"
  using via_server_route [OF assms(1,2), of cert env fd pack srv] assms(3) by (simp add: client_request_def)


text \<open>The list of accounts end to end: an administrator's client gets every account of the server once, with its type,
  user name, nick and comment, and without its password.\<close>

theorem client_accounts_end_to_end:
  assumes env: "env_ok tbl env" and srv: "srv_ok tbl srv" and fd: "0 \<le> fd" and up: "serving svc"
    and cl: "acc_type (cs_account s) = account_admin" and perm: "permitted (logged srv) fd (\<lambda>t. t = account_admin)"
    and len: "472 * int (length (t_account (srv_tables tbl srv))) < 2 ^ 31"
  shows "\<exists>srv' l as. client_account_list (env_fp env) (via_server cert env svc fd) (Some \<lparr>cn_session = Some s, cn_sock = Some srv\<rparr>) =
      Some ((account_r_ok, int (length l), if l = [] then None else Some as), Some \<lparr>cn_session = Some s, cn_sock = Some srv'\<rparr>) \<and>
    srv_ok tbl srv' \<and> mset l = mset (t_account (srv_tables tbl srv)) \<and> list_all2 account_shown l as"
proof -
  obtain reply srv' l where r: "res_account_list env fd None srv = Some (reply, srv')" "srv_ok tbl srv'"
    "mset l = mset (t_account (srv_tables tbl srv))" "pk_doc reply = list_doc ''account'' ''account_one'' (map account_object l)"
    using accounts_listed [OF env srv fd, of None] perm by auto
  have "list_all account_row_ok (t_account (srv_tables tbl srv))" using srv_okD(4) [OF srv] by (simp add: tables_ok_def)
  from rows_ok_mset [OF r(3) this] have ok: "list_all account_row_ok l" .
  have n: "472 * int (length l) < 2 ^ 31" using len r(3) by (metis size_mset)
  have obj: "account_object = (\<lambda>r. BSON_OBJECT (account_body r))" by (simp add: fun_eq_iff account_object_def account_body_def)
  obtain as where "read_list (env_fp env) 472 (account_key (env_fp env)) account_zero account_r_service_unavailable 0 None (pk_doc reply) =
      Some (0, int (length l), if l = [] then None else Some as)" "list_all2 account_shown l as"
    using read_accounts.read_list_rows [OF ok n] unfolding r(4) obj by blast
  then show ?thesis using r(2,3) cl fetch_routed [OF up routes(2), of cert env fd None srv reply srv' "Some s"] r(1)
    by (auto simp: client_account_list_def list_with_session_def list_request_def)
qed

text \<open>The seats.\<close>

lemma client_seats_end_to_end:
  assumes env: "env_ok tbl env" and srv: "srv_ok tbl srv" and fd: "0 \<le> fd" and up: "serving svc"
    and cl: "menu_user (acc_type (cs_account s))" and perm: "logged srv fd \<noteq> None"
    and len: "328 * int (length (t_seat (srv_tables tbl srv))) < 2 ^ 31"
  shows "\<exists>srv' l ss. client_seat_list (env_fp env) (via_server cert env svc fd) (Some \<lparr>cn_session = Some s, cn_sock = Some srv\<rparr>) =
      Some ((0, int (length l), if l = [] then None else Some ss), Some \<lparr>cn_session = Some s, cn_sock = Some srv'\<rparr>) \<and>
    srv_ok tbl srv' \<and> mset l = mset (t_seat (srv_tables tbl srv)) \<and> list_all2 seat_holds l ss"
proof -
  obtain reply srv' l where r: "res_seat_list env fd None srv = Some (reply, srv')" "srv_ok tbl srv'"
    "mset l = mset (t_seat (srv_tables tbl srv))" "pk_doc reply = list_doc ''seat'' ''seat_one'' (map seat_object l)"
    using seat_list_spec [OF env srv fd, of None] perm by auto
  have "list_all seat_row_ok (t_seat (srv_tables tbl srv))" using srv_okD(4) [OF srv] by (simp add: tables_ok_def)
  from rows_ok_mset [OF r(3) this] have ok: "list_all seat_row_ok l" .
  have n: "328 * int (length l) < 2 ^ 31" using len r(3) by (metis size_mset)
  have obj: "seat_object = (\<lambda>r. BSON_OBJECT (seat_body r))" by (simp add: fun_eq_iff seat_object_def seat_body_def)
  obtain ss where "read_list (env_fp env) 328 (seat_key (env_fp env)) seat_zero seat_r_service_unavailable 0 None (pk_doc reply) =
      Some (0, int (length l), if l = [] then None else Some ss)" "list_all2 seat_holds l ss"
    using read_seats.read_list_rows [OF ok n] unfolding r(4) obj by blast
  then show ?thesis using r(2,3) cl fetch_routed [OF up routes(4), of cert env fd None srv reply srv' "Some s"] r(1)
    by (auto simp: client_seat_list_def list_with_session_def list_request_def)
qed

section \<open>Login end to end\<close>

text \<open>What a client session shows after the answer to a login.\<close>

definition session_shows :: "account_row \<Rightarrow> string \<Rightarrow> string \<Rightarrow> client_session \<Rightarrow> bool" where
  "session_shows r uid token s \<longleftrightarrow> acc_type (cs_account s) = ar_type r \<and> cstr (acc_uid (cs_account s)) = Some uid \<and>
     cstr (acc_pwd (cs_account s)) = Some [] \<and> cstr (acc_nick (cs_account s)) = Some (ar_nick r) \<and>
     cstr (acc_comment (cs_account s)) = Some (ar_comment r) \<and> cstr (cs_token s) = Some token"

lemma read_session:
  assumes r: "account_row_ok r" and t: "c_string t" "length t = 38"
  shows "\<exists>s. pack_loop (\<lambda>k v s. Some (session_key fp k v s))
      ((if days > 0 then [(''token'', BSON_STRING t)] else []) @ [(''type'', BSON_INT (ar_type r))] @ profile_doc r @ result_doc code)
      (client_session_zero\<lparr>cs_result := account_r_illegal_parameter\<rparr>) = Some s \<and>
    cs_result s = code \<and> acc_uid (cs_account s) = replicate 17 NUL \<and>
    (\<forall>a uid. cstr a = Some uid \<longrightarrow> session_shows r uid (if 0 < (days :: int) then t else [])
      (s\<lparr>cs_account := (cs_account s)\<lparr>acc_uid := a, acc_pwd := (acc_pwd (cs_account s))[0 := NUL]\<rparr>\<rparr>))"
proof -
  have f: "fits 64 (ar_nick r)" "fits 256 (ar_comment r)" using r by (simp_all add: account_row_ok_def)
  have c: "cstr (take_string (acc_nick account_zero) (BSON_STRING (ar_nick r))) = Some (ar_nick r)"
    "cstr (take_string (acc_comment account_zero) (BSON_STRING (ar_comment r))) = Some (ar_comment r)"
    using f by (intro take_string_cstr fits_c_string [OF f(1)] fits_c_string [OF f(2)]; simp add: account_zero_def fits_def)+
  have k: "cstr (take_string (replicate 39 NUL) (BSON_STRING t)) = Some t" using t by (intro take_string_cstr) simp_all
  have "(replicate 129 NUL)[0 := NUL] = replicate 129 NUL" by (simp add: list_eq_iff_nth_eq nth_list_update)
  then have z: "cstr ((acc_pwd account_zero)[0 := NUL]) = Some []" "cstr (replicate 39 NUL) = Some []" "acc_uid account_zero = replicate 17 NUL"
    by (simp_all add: account_zero_def cstr_def)
  show ?thesis using c k z
    by (cases "days > 0") (simp_all add: session_key_def session_shows_def profile_doc_def result_doc_def client_session_zero_def ep_pack_iterator_next_def)
qed

lemma read_refused:
  "pack_loop (\<lambda>k v s. Some (session_key fp k v s)) (result_doc code) z = Some (z\<lparr>cs_result := code\<rparr>)"
  by (simp add: result_doc_def session_key_def ep_pack_iterator_next_def)

lemma login_call:
  assumes up: "serving svc" and u: "word_16 uid" and p: "word_16 pwd" and d: "0 \<le> days"
    and h: "res_account_login env fd (Some (login_doc uid pwd days)) srv = Some (reply, srv')"
    and z: "z = client_session_zero\<lparr>cs_result := account_r_illegal_parameter\<rparr>"
  shows "client_account_login (env_fp env) (via_server cert env svc fd) (Some \<lparr>cn_session = None, cn_sock = Some srv\<rparr>) (Some uid) (Some pwd) days old = do {
      s \<leftarrow> pack_loop (\<lambda>k v s. Some (session_key (env_fp env) k v s)) (pk_doc reply) z;
      arr \<leftarrow> c_strcpy (acc_uid (cs_account s)) uid;
      let s = s\<lparr>cs_account := (cs_account s)\<lparr>acc_uid := arr, acc_pwd := (acc_pwd (cs_account s))[0 := NUL]\<rparr>\<rparr>;
      Some (s, Some (keep_session s \<lparr>cn_session = None, cn_sock = Some srv'\<rparr>)) }"
proof -
  have pack: "pk_doc (ep_pack_append_int ''token_expire'' days (ep_pack_append_string ''pwd'' pwd (ep_pack_append_string ''uid'' uid ep_pack_new))) = login_doc uid pwd days"
    by (simp add: pack_simps login_doc_def)
  have arg: "arg_upto 16 (Some uid)" "arg_upto 16 (Some pwd)" using u p by (simp_all add: arg_upto_def word_16_def)
  note run = fetch_routed [OF up routes(1), of cert env fd "Some (login_doc uid pwd days)" srv reply srv' None, unfolded run_handler.simps, OF h]
  show ?thesis using arg d run by (simp add: client_account_login_def pack Let_def z)
qed


section \<open>Examples\<close>

text \<open>A client at the demonstration server.\<close>

abbreviation no_cert :: "int \<Rightarrow> doc option \<Rightarrow> ep_pack" where
  "no_cert \<equiv> \<lambda>_ _. ep_pack_new"

definition admin_client :: client_session where
  "admin_client = client_session_zero"



theorem client_accounts_end_to_end_witness:
  "\<exists>(svc :: (unit, handler, unit option) ep_service) srv' a. client_account_list (env_fp menu_env) (via_server no_cert menu_env svc 7)
      (Some \<lparr>cn_session = Some admin_client, cn_sock = Some menu_server\<rparr>) =
    Some ((account_r_ok, 1, Some [a]), Some \<lparr>cn_session = Some admin_client, cn_sock = Some srv'\<rparr>) \<and> cstr (acc_uid a) = Some ''root''"
proof -
  obtain svc :: "(unit, handler, unit option) ep_service" where svc: "serving svc" using serving_exists by blast
  have m: "acc_type (cs_account admin_client) = account_admin" by (simp add: admin_client_def client_session_zero_def account_zero_def)
  have p: "permitted (logged menu_server) 7 (\<lambda>t. t = account_admin)" unfolding menu_server(3) by (simp add: permitted_def root_session_def)
  have rows: "t_account (srv_tables (\<lambda>T. T) menu_server) = [demo_row ''root'' 0 ''pw'']" unfolding menu_server(2) by (simp add: menu_tables_def demo_tables_def)
  have "\<exists>srv' l as. client_account_list (env_fp menu_env) (via_server no_cert menu_env svc 7) (Some \<lparr>cn_session = Some admin_client, cn_sock = Some menu_server\<rparr>) =
      Some ((account_r_ok, int (length l), if l = [] then None else Some as), Some \<lparr>cn_session = Some admin_client, cn_sock = Some srv'\<rparr>) \<and>
    srv_ok (\<lambda>T. T) srv' \<and> mset l = mset (t_account (srv_tables (\<lambda>T. T) menu_server)) \<and> list_all2 account_shown l as"
    by (rule client_accounts_end_to_end [OF menu_env_ok menu_server(1) _ svc m p]) (simp_all add: rows)
  then obtain srv' l as where r: "client_account_list (env_fp menu_env) (via_server no_cert menu_env svc 7) (Some \<lparr>cn_session = Some admin_client, cn_sock = Some menu_server\<rparr>) =
      Some ((account_r_ok, int (length l), if l = [] then None else Some as), Some \<lparr>cn_session = Some admin_client, cn_sock = Some srv'\<rparr>)"
    "mset l = mset [demo_row ''root'' 0 ''pw'']" "list_all2 account_shown l as" unfolding rows by blast
  from r(2) have "l = [demo_row ''root'' 0 ''pw'']" by simp
  with r(1,3) show ?thesis by (auto simp: list_all2_Cons1 account_shown_def demo_row_def)
qed

end
