(* ===== verification/EP_Socket.thy ===== *)
theory EP_Socket
  imports EP_Service
begin

text \<open>
  The sockets of the server (\<open>eventpack/src/ep_socket.c\<close>) on the event loop they use (\<open>eventpack/3rdparty/redis/ae.c\<close>,
  with \<open>epoll\<close>): the table of file events, the dispatch of an event to its handler, accepting, reading, closing
  and writing. What a system call gives is an argument: the descriptor of an accepted connection, the
  bytes read, whether \<open>epoll_ctl\<close> succeeds, the result of a write. \<open>so_open\<close> is the list of open descriptors.
  The callbacks \<open>service_core_cb\<close> are a record of functions on the state of their owner, as in the code; the locale
  \<open>core_callbacks\<close> says what the sockets rely on, and the functions of the service satisfy it. Each callback also
  gives the events that the application is told.
  \<open>None\<close> is undefined behaviour: an access outside the table or through a null or dangling pointer.
\<close>

unbundle bit_operations_syntax

section \<open>The event loop\<close>

datatype aeFileProc = proc_aeReadFromClient | proc_aeAcceptTcpHandler

record aeFileEvent =
  fe_mask :: "32 word"
  rfileProc :: "aeFileProc option"
  wfileProc :: "aeFileProc option"

record aeEventLoop =
  el_maxfd :: int
  el_setsize :: int
  el_events :: "aeFileEvent list"
  el_stop :: bool

definition AE_NONE :: "32 word" where "AE_NONE = 0"
definition AE_READABLE :: "32 word" where "AE_READABLE = 1"
definition AE_WRITABLE :: "32 word" where "AE_WRITABLE = 2"
definition AE_ALL_EVENTS :: "32 word" where "AE_ALL_EVENTS = 1 OR 2"

text \<open>\<open>alloc\<close> says whether the blocks and the \<open>epoll\<close> descriptor can be had. Only the masks of the table are set.\<close>

definition aeCreateEventLoop :: "bool \<Rightarrow> int \<Rightarrow> aeEventLoop option" where
  "aeCreateEventLoop alloc setsize =
     (if \<not> alloc then None
      else Some \<lparr>el_maxfd = - 1, el_setsize = setsize,
        el_events = replicate (nat setsize) \<lparr>fe_mask = AE_NONE, rfileProc = None, wfileProc = None\<rparr>, el_stop = False\<rparr>)"

text \<open>\<open>ctl\<close> is the success of \<open>epoll_ctl\<close>. A descriptor is only compared with the upper bound.\<close>

definition aeCreateFileEvent :: "bool \<Rightarrow> aeEventLoop \<Rightarrow> int \<Rightarrow> 32 word \<Rightarrow> aeFileProc \<Rightarrow> (int \<times> aeEventLoop) option" where
  "aeCreateFileEvent ctl el fd msk p =
     (if fd \<ge> el_setsize el then Some (- 1, el)
      else if fd < 0 then None
      else if \<not> ctl then Some (- 1, el)
      else
        let fe = el_events el ! nat fd;
            fe = fe\<lparr>fe_mask := fe_mask fe OR msk,
              rfileProc := if msk AND AE_READABLE \<noteq> 0 then Some p else rfileProc fe,
              wfileProc := if msk AND AE_WRITABLE \<noteq> 0 then Some p else wfileProc fe\<rparr>
        in Some (0, el\<lparr>el_events := (el_events el)[nat fd := fe],
             el_maxfd := if fd > el_maxfd el then fd else el_maxfd el\<rparr>))"

text \<open>The search for the next registered descriptor, from \<open>j - 1\<close> downwards.\<close>

primrec ae_search_maxfd :: "aeFileEvent list \<Rightarrow> nat \<Rightarrow> int" where
  "ae_search_maxfd evs 0 = - 1"
| "ae_search_maxfd evs (Suc j) = (if fe_mask (evs ! j) \<noteq> AE_NONE then int j else ae_search_maxfd evs j)"

definition aeDeleteFileEvent :: "aeEventLoop \<Rightarrow> int \<Rightarrow> 32 word \<Rightarrow> aeEventLoop option" where
  "aeDeleteFileEvent el fd msk =
     (if fd \<ge> el_setsize el then Some el
      else if fd < 0 then None
      else
        let fe = el_events el ! nat fd in
        if fe_mask fe = AE_NONE then Some el
        else
          let fe = fe\<lparr>fe_mask := fe_mask fe AND NOT msk\<rparr>; evs = (el_events el)[nat fd := fe] in
          Some (el\<lparr>el_events := evs,
            el_maxfd := if fd = el_maxfd el \<and> fe_mask fe = AE_NONE then ae_search_maxfd evs (nat (el_maxfd el)) else el_maxfd el\<rparr>))"

section \<open>The sockets\<close>

record 'svc service_core_cb =
  on_accept :: "int \<Rightarrow> 'svc \<Rightarrow> 'svc \<times> (ep_event_type \<times> int) list"
  on_read :: "int \<Rightarrow> byte list \<Rightarrow> int \<Rightarrow> 'svc \<Rightarrow> (int \<times> 'svc \<times> (ep_event_type \<times> int) list) option"
  on_close :: "int \<Rightarrow> 'svc \<Rightarrow> ('svc \<times> (ep_event_type \<times> int) list) option"

text \<open>The file-scope variables, the state behind the callbacks, the open descriptors and the events told.\<close>

record 'svc sock =
  s_event_loop :: "aeEventLoop option"
  s_keepalive :: int
  s_fd :: int
  so_svc :: 'svc
  so_open :: "int list"
  so_log :: "(ep_event_type \<times> int) list"

definition MAX_LINE :: int where "MAX_LINE = 65535"

text \<open>\<open>aeClientClose\<close> first gives up the descriptor, then tells the owner; other threads run between the two.\<close>

definition client_close_fd :: "int \<Rightarrow> 'svc sock \<Rightarrow> 'svc sock option" where
  "client_close_fd fd s = do {
     el \<leftarrow> s_event_loop s;
     el \<leftarrow> aeDeleteFileEvent el fd AE_READABLE;
     Some (s\<lparr>s_event_loop := Some el, so_open := removeAll fd (so_open s)\<rparr>)
   }"

definition client_close_notify :: "'svc service_core_cb \<Rightarrow> int \<Rightarrow> 'svc sock \<Rightarrow> 'svc sock option" where
  "client_close_notify cb fd s = do {
     (svc, evs) \<leftarrow> on_close cb fd (so_svc s);
     Some (s\<lparr>so_svc := svc, so_log := so_log s @ evs\<rparr>)
   }"

definition aeClientClose :: "'svc service_core_cb \<Rightarrow> int \<Rightarrow> 'svc sock \<Rightarrow> 'svc sock option" where
  "aeClientClose cb fd s = do { s \<leftarrow> client_close_fd fd s; client_close_notify cb fd s }"

text \<open>What the system calls of a handler give: the accepted descriptor or -1, the success of \<open>epoll_ctl\<close>, and the
  bytes read, where \<open>None\<close> is an error and the empty list the end of the stream.\<close>

record sock_in =
  in_accept :: int
  in_ctl :: bool
  in_read :: "byte list option"

definition aeReadFromClient :: "'svc service_core_cb \<Rightarrow> int \<Rightarrow> sock_in \<Rightarrow> 'svc sock \<Rightarrow> 'svc sock option" where
  "aeReadFromClient cb fd i s =
     (case in_read i of
        None \<Rightarrow> aeClientClose cb fd s
      | Some buffer \<Rightarrow>
          if int (length buffer) \<le> 0 then aeClientClose cb fd s
          else do {
            (r, svc, evs) \<leftarrow> on_read cb fd buffer (int (length buffer)) (so_svc s);
            let s = s\<lparr>so_svc := svc, so_log := so_log s @ evs\<rparr>;
            (if r \<noteq> 1 then aeClientClose cb fd s else Some s)
          })"

definition aeAcceptTcpHandler :: "'svc service_core_cb \<Rightarrow> int \<Rightarrow> sock_in \<Rightarrow> 'svc sock \<Rightarrow> 'svc sock option" where
  "aeAcceptTcpHandler cb fd i s = do {
     let c_fd = in_accept i;
     let s = (if c_fd = - 1 then s else s\<lparr>so_open := c_fd # so_open s\<rparr>);
     el \<leftarrow> s_event_loop s;
     (r, el) \<leftarrow> aeCreateFileEvent (in_ctl i) el c_fd AE_READABLE proc_aeReadFromClient;
     (if r = - 1 then Some (s\<lparr>s_event_loop := Some el, so_open := removeAll c_fd (so_open s)\<rparr>)
      else
        case on_accept cb c_fd (so_svc s) of
          (svc, evs) \<Rightarrow> Some (s\<lparr>s_event_loop := Some el, so_svc := svc, so_log := so_log s @ evs\<rparr>))
   }"

definition ae_call :: "'svc service_core_cb \<Rightarrow> aeFileProc option \<Rightarrow> int \<Rightarrow> sock_in \<Rightarrow> 'svc sock \<Rightarrow> 'svc sock option" where
  "ae_call cb p fd i s =
     (case p of
        None \<Rightarrow> None
      | Some proc_aeReadFromClient \<Rightarrow> aeReadFromClient cb fd i s
      | Some proc_aeAcceptTcpHandler \<Rightarrow> aeAcceptTcpHandler cb fd i s)"

text \<open>The body of the loop of \<open>aeProcessEvents\<close> over the fired events. The mask of the table is read again after the first
  handler.\<close>

definition ae_event :: "'svc sock \<Rightarrow> int \<Rightarrow> aeFileEvent option" where
  "ae_event s fd = do {
     el \<leftarrow> s_event_loop s;
     (if 0 \<le> fd \<and> fd < el_setsize el then Some (el_events el ! nat fd) else None)
   }"

definition ae_fire :: "'svc service_core_cb \<Rightarrow> int \<times> 32 word \<times> sock_in \<Rightarrow> 'svc sock \<Rightarrow> 'svc sock option" where
  "ae_fire cb e s = (case e of (fd, msk, i) \<Rightarrow> do {
     fe \<leftarrow> ae_event s fd;
     let rfired = (fe_mask fe AND msk AND AE_READABLE \<noteq> 0);
     s \<leftarrow> (if rfired then ae_call cb (rfileProc fe) fd i s else Some s);
     fe \<leftarrow> ae_event s fd;
     (if fe_mask fe AND msk AND AE_WRITABLE \<noteq> 0 \<and> (\<not> rfired \<or> wfileProc fe \<noteq> rfileProc fe)
      then ae_call cb (wfileProc fe) fd i s else Some s)
   })"

text \<open>A round: nothing fires when no descriptor is registered. The program registers no time events.\<close>

primrec ae_fire_all :: "'svc service_core_cb \<Rightarrow> (int \<times> 32 word \<times> sock_in) list \<Rightarrow> 'svc sock \<Rightarrow> 'svc sock option" where
  "ae_fire_all cb [] s = Some s"
| "ae_fire_all cb (e # es) s = do { s \<leftarrow> ae_fire cb e s; ae_fire_all cb es s }"

text \<open>\<open>service_core_start\<close>: \<open>listen\<close> is the result of \<open>anetTcpServer\<close>, \<open>ctl\<close> and \<open>alloc\<close> are as above. A null event loop is
  used unchecked.\<close>

definition service_core_start :: "int \<Rightarrow> bool \<Rightarrow> bool \<Rightarrow> int \<Rightarrow> 'svc sock \<Rightarrow> (int \<times> 'svc sock) option" where
  "service_core_start listen ctl alloc keepalive s0 = do {
     let s = s0\<lparr>s_fd := listen\<rparr>;
     (if listen = - 1 then Some (0, s)
      else do {
        let s = s\<lparr>so_open := listen # so_open s, s_keepalive := if keepalive > 0 then keepalive else s_keepalive s\<rparr>;
        el \<leftarrow> (case s_event_loop s of None \<Rightarrow> aeCreateEventLoop alloc 10240 | Some el \<Rightarrow> Some el);
        (r, el) \<leftarrow> aeCreateFileEvent ctl el listen AE_READABLE proc_aeAcceptTcpHandler;
        let s = s\<lparr>s_event_loop := Some el\<rparr>;
        Some (if r = - 1 then 0 else 1, s)
      })
   }"

text \<open>Writing, on the send thread: \<open>r\<close> is what \<open>write\<close> gives, and every other value than -1 counts as all of it.\<close>

definition service_core_send :: "'svc service_core_cb \<Rightarrow> int \<Rightarrow> int \<Rightarrow> int \<Rightarrow> 'svc sock \<Rightarrow> (int \<times> 'svc sock) option" where
  "service_core_send cb r fd n s =
     (if r = - 1 then do { s \<leftarrow> aeClientClose cb fd s; Some (0, s) } else Some (n, s))"

definition service_core_stop :: "'svc sock \<Rightarrow> 'svc sock option" where
  "service_core_stop s =
     (case s_event_loop s of
        None \<Rightarrow> Some s
      | Some el \<Rightarrow> do {
          el \<leftarrow> aeDeleteFileEvent el (s_fd s) AE_ALL_EVENTS;
          Some (s\<lparr>s_event_loop := Some el, so_open := removeAll (s_fd s) (so_open s)\<rparr>)
        })"

section \<open>The table of events\<close>

text \<open>A table is well formed when it has a slot for each descriptor below its bound, a registered slot has the handlers of its
  mask, and \<open>el_maxfd\<close> is the largest registered descriptor, or -1.\<close>

definition fe_ok :: "aeFileEvent \<Rightarrow> bool" where
  "fe_ok fe \<longleftrightarrow> (fe_mask fe AND AE_READABLE \<noteq> 0 \<longrightarrow> rfileProc fe \<noteq> None) \<and>
     (fe_mask fe AND AE_WRITABLE \<noteq> 0 \<longrightarrow> wfileProc fe \<noteq> None)"

definition maxfd_of :: "aeFileEvent list \<Rightarrow> int \<Rightarrow> bool" where
  "maxfd_of evs m \<longleftrightarrow> (\<forall>j < length evs. fe_mask (evs ! j) \<noteq> AE_NONE \<longrightarrow> int j \<le> m) \<and>
     (m = - 1 \<or> 0 \<le> m \<and> m < int (length evs) \<and> fe_mask (evs ! nat m) \<noteq> AE_NONE)"

definition el_ok :: "aeEventLoop \<Rightarrow> bool" where
  "el_ok el \<longleftrightarrow> int (length (el_events el)) = el_setsize el \<and> (\<forall>fe \<in> set (el_events el). fe_ok fe) \<and>
     maxfd_of (el_events el) (el_maxfd el)"

text \<open>The handler that a readable descriptor is given to.\<close>

definition ae_watch :: "aeEventLoop \<Rightarrow> int \<rightharpoonup> aeFileProc" where
  "ae_watch el fd =
     (if 0 \<le> fd \<and> fd < el_setsize el \<and> fe_mask (el_events el ! nat fd) AND AE_READABLE \<noteq> 0
      then rfileProc (el_events el ! nat fd) else None)"

lemma AE_READABLE_nz [simp]: "AE_READABLE \<noteq> 0" "AE_READABLE \<noteq> AE_NONE"
  by (simp_all add: AE_READABLE_def AE_NONE_def)

lemma mask_bits:
  "(m AND NOT AE_READABLE) AND AE_READABLE = 0" "(m OR AE_READABLE) AND AE_READABLE \<noteq> 0"
  "(m AND NOT AE_READABLE) AND AE_WRITABLE = m AND AE_WRITABLE" "(m OR AE_READABLE) AND AE_WRITABLE = m AND AE_WRITABLE"
  "m OR k = AE_NONE \<longleftrightarrow> m = AE_NONE \<and> k = AE_NONE" "AE_NONE AND k = 0"
  by (auto simp: AE_READABLE_def AE_WRITABLE_def AE_NONE_def bit_simps or_eq_0_iff intro!: bit_word_eqI)

lemma ae_search_maxfd:
  "j \<le> length evs \<Longrightarrow> \<forall>i < length evs. j \<le> i \<longrightarrow> fe_mask (evs ! i) = AE_NONE \<Longrightarrow> maxfd_of evs (ae_search_maxfd evs j)"
proof (induction j)
  case 0
  then show ?case by (auto simp: maxfd_of_def)
next
  case (Suc j)
  show ?case
  proof (cases "fe_mask (evs ! j) = AE_NONE")
    case True
    then have "\<forall>i < length evs. j \<le> i \<longrightarrow> fe_mask (evs ! i) = AE_NONE"
      using Suc.prems(2) by (metis Suc_leI le_neq_implies_less)
    then show ?thesis using Suc True by simp
  next
    case False
    then have "\<forall>i < length evs. fe_mask (evs ! i) \<noteq> AE_NONE \<longrightarrow> i \<le> j"
      using Suc.prems(2) by (metis not_less_eq_eq)
    with False Suc.prems(1) show ?thesis by (simp add: maxfd_of_def)
  qed
qed

lemma maxfd_of_set:
  assumes "maxfd_of evs m" and "n < length evs" and "fe_mask fe \<noteq> AE_NONE"
  shows "maxfd_of (evs[n := fe]) (if int n > m then int n else m)"
  using assms by (auto simp: maxfd_of_def nth_list_update)

lemma maxfd_of_clear:
  assumes "maxfd_of evs m" and "n < length evs"
  shows "maxfd_of (evs[n := fe]) (if int n = m \<and> fe_mask fe = AE_NONE then ae_search_maxfd (evs[n := fe]) (nat m) else m)
    \<or> int n > m"
proof (cases "int n = m \<and> fe_mask fe = AE_NONE")
  case True
  then have "\<forall>i < length (evs[n := fe]). nat m \<le> i \<longrightarrow> fe_mask (evs[n := fe] ! i) = AE_NONE"
    using assms by (fastforce simp: maxfd_of_def nth_list_update)
  then have "maxfd_of (evs[n := fe]) (ae_search_maxfd (evs[n := fe]) (nat m))"
    using True assms(2) by (intro ae_search_maxfd) auto
  with True show ?thesis by simp
next
  case False
  with assms show ?thesis by (cases "int n > m") (auto simp: maxfd_of_def nth_list_update)
qed

lemma el_slot: "el_ok el \<Longrightarrow> 0 \<le> fd \<Longrightarrow> fd < el_setsize el \<Longrightarrow> nat fd < length (el_events el) \<and> fe_ok (el_events el ! nat fd)"
  by (auto simp: el_ok_def)

lemma el_ok_upd:
  assumes "el_ok el" and "fe_ok fe" and "maxfd_of ((el_events el)[n := fe]) m"
  shows "el_ok (el\<lparr>el_events := (el_events el)[n := fe], el_maxfd := m\<rparr>)"
  using assms set_update_subset_insert [of "el_events el" n fe] by (auto simp: el_ok_def)

lemma ae_watch_upd:
  assumes "el_ok el" and "0 \<le> fd" "fd < el_setsize el"
  shows "ae_watch (el\<lparr>el_events := (el_events el)[nat fd := fe], el_maxfd := m\<rparr>) =
    (ae_watch el)(fd := if fe_mask fe AND AE_READABLE \<noteq> 0 then rfileProc fe else None)"
  using el_slot [OF assms] assms(2,3) by (auto simp: ae_watch_def fun_eq_iff nth_list_update nat_eq_iff2)

lemma fe_ok_set: "fe_ok fe \<Longrightarrow> fe_ok (fe\<lparr>fe_mask := fe_mask fe OR AE_READABLE, rfileProc := Some p\<rparr>)"
  and fe_ok_clear: "fe_ok fe \<Longrightarrow> fe_ok (fe\<lparr>fe_mask := fe_mask fe AND NOT AE_READABLE\<rparr>)"
  by (auto simp: fe_ok_def mask_bits)

lemma create_event_spec:
  assumes el: "el_ok el" and fd: "0 \<le> fd"
  obtains el' where "aeCreateFileEvent ctl el fd AE_READABLE p = Some (if fd < el_setsize el \<and> ctl then 0 else - 1, el')"
    and "el_ok el'" and "el_setsize el' = el_setsize el"
    and "ae_watch el' = (if fd < el_setsize el \<and> ctl then (ae_watch el)(fd \<mapsto> p) else ae_watch el)"
proof (cases "fd < el_setsize el \<and> ctl")
  case True
  let ?fe = "(el_events el ! nat fd)\<lparr>fe_mask := fe_mask (el_events el ! nat fd) OR AE_READABLE, rfileProc := Some p\<rparr>"
  let ?m = "if fd > el_maxfd el then fd else el_maxfd el"
  let ?el = "el\<lparr>el_events := (el_events el)[nat fd := ?fe], el_maxfd := ?m\<rparr>"
  have slot: "nat fd < length (el_events el)" "fe_ok (el_events el ! nat fd)" using el_slot [OF el fd] True by simp_all
  have bits: "AE_READABLE AND AE_READABLE \<noteq> 0" "AE_READABLE AND AE_WRITABLE = 0" "AE_READABLE \<noteq> AE_NONE"
    by (simp_all add: AE_READABLE_def AE_WRITABLE_def AE_NONE_def)
  have n: "int (nat fd) = fd" using fd by simp
  have mx: "maxfd_of (el_events el) (el_maxfd el)" using el by (simp add: el_ok_def)
  have "maxfd_of ((el_events el)[nat fd := ?fe]) ?m"
    using maxfd_of_set [OF mx slot(1), of ?fe] bits(3) unfolding n by (simp add: mask_bits split del: if_split)
  from el_ok_upd [OF el fe_ok_set [OF slot(2)] this] have "el_ok ?el" .
  moreover have "ae_watch ?el = (ae_watch el)(fd \<mapsto> p)" using ae_watch_upd [OF el fd, where fe = ?fe and m = ?m] True by (simp add: mask_bits)
  moreover have "aeCreateFileEvent ctl el fd AE_READABLE p = Some (0, ?el)"
    using True fd bits by (simp add: aeCreateFileEvent_def Let_def)
  ultimately show ?thesis using that True by simp
next
  case False
  with assms that show ?thesis by (auto simp: aeCreateFileEvent_def)
qed

lemma delete_event_spec:
  assumes el: "el_ok el" and fd: "0 \<le> fd"
  obtains el' where "aeDeleteFileEvent el fd AE_READABLE = Some el'" and "el_ok el'" and "el_setsize el' = el_setsize el"
    and "ae_watch el' = (ae_watch el)(fd := None)"
proof (cases "fd < el_setsize el \<and> fe_mask (el_events el ! nat fd) \<noteq> AE_NONE")
  case True
  let ?fe = "(el_events el ! nat fd)\<lparr>fe_mask := fe_mask (el_events el ! nat fd) AND NOT AE_READABLE\<rparr>"
  let ?m = "if fd = el_maxfd el \<and> fe_mask ?fe = AE_NONE then ae_search_maxfd ((el_events el)[nat fd := ?fe]) (nat (el_maxfd el)) else el_maxfd el"
  let ?el = "el\<lparr>el_events := (el_events el)[nat fd := ?fe], el_maxfd := ?m\<rparr>"
  have slot: "nat fd < length (el_events el)" "fe_ok (el_events el ! nat fd)" using el_slot [OF el fd] True by simp_all
  have mx: "maxfd_of (el_events el) (el_maxfd el)" using el by (simp add: el_ok_def)
  then have "int (nat fd) \<le> el_maxfd el" using True slot(1) unfolding maxfd_of_def by blast
  then have "maxfd_of ((el_events el)[nat fd := ?fe]) ?m" using maxfd_of_clear [OF mx slot(1), of ?fe] fd by simp
  from el_ok_upd [OF el fe_ok_clear [OF slot(2)] this] have "el_ok ?el" .
  moreover have "ae_watch ?el = (ae_watch el)(fd := None)" using ae_watch_upd [OF el fd, where fe = ?fe and m = ?m] True by (simp add: mask_bits)
  moreover have "aeDeleteFileEvent el fd AE_READABLE = Some ?el" using True fd by (simp add: aeDeleteFileEvent_def Let_def)
  ultimately show ?thesis using that by simp
next
  case False
  then have "ae_watch el fd = None" by (auto simp: ae_watch_def mask_bits)
  then have "ae_watch el = (ae_watch el)(fd := None)" by auto
  with False assms that [of el] show ?thesis by (auto simp: aeDeleteFileEvent_def)
qed

lemma new_loop_spec:
  assumes "0 \<le> n"
  obtains el where "aeCreateEventLoop True n = Some el" and "el_ok el" and "el_setsize el = n" and "ae_watch el = Map.empty"
  using assms by (intro that [of "the (aeCreateEventLoop True n)"])
    (auto simp: aeCreateEventLoop_def el_ok_def fe_ok_def maxfd_of_def ae_watch_def mask_bits fun_eq_iff)

text \<open>C36. The table of file events is a map from descriptors to handlers: a new table is empty and well formed; registering and
  deleting a read event keep it well formed, its highest descriptor included, and change the entry of that
  descriptor only; a registration fails without effect above the bound of the table or when \<open>epoll_ctl\<close> fails; and
  both operations are undefined exactly for a negative descriptor, which the code does not exclude.\<close>

theorem event_table_wellformed:
  assumes "el_ok el"
  shows "(aeCreateFileEvent ctl el fd AE_READABLE p = None \<longleftrightarrow> fd < 0) \<and> (aeDeleteFileEvent el fd AE_READABLE = None \<longleftrightarrow> fd < 0) \<and>
    (\<forall>r el1. aeCreateFileEvent ctl el fd AE_READABLE p = Some (r, el1) \<longrightarrow>
      el_ok el1 \<and> (r = 0 \<longleftrightarrow> fd < el_setsize el \<and> ctl) \<and> ae_watch el1 = (if r = 0 then (ae_watch el)(fd \<mapsto> p) else ae_watch el)) \<and>
    (\<forall>el2. aeDeleteFileEvent el fd AE_READABLE = Some el2 \<longrightarrow> el_ok el2 \<and> ae_watch el2 = (ae_watch el)(fd := None)) \<and>
    (\<exists>el0. aeCreateEventLoop True (el_setsize el) = Some el0 \<and> el_ok el0 \<and> ae_watch el0 = Map.empty)"
proof -
  have size: "0 \<le> el_setsize el" using assms by (auto simp: el_ok_def)
  have new: "\<exists>el0. aeCreateEventLoop True (el_setsize el) = Some el0 \<and> el_ok el0 \<and> ae_watch el0 = Map.empty"
    using new_loop_spec [OF size] by metis
  show ?thesis
  proof (cases "fd < 0")
    case True
    then show ?thesis using size new by (auto simp: aeCreateFileEvent_def aeDeleteFileEvent_def)
  next
    case False
    obtain el1 where "aeCreateFileEvent ctl el fd AE_READABLE p = Some (if fd < el_setsize el \<and> ctl then 0 else - 1, el1)"
      "el_ok el1" "ae_watch el1 = (if fd < el_setsize el \<and> ctl then (ae_watch el)(fd \<mapsto> p) else ae_watch el)"
      using create_event_spec [OF assms, of fd ctl p] False by (metis not_less)
    moreover obtain el2 where "aeDeleteFileEvent el fd AE_READABLE = Some el2" "el_ok el2" "ae_watch el2 = (ae_watch el)(fd := None)"
      using delete_event_spec [OF assms, of fd] False by (metis not_less)
    ultimately show ?thesis using new False by auto
  qed
qed

theorem event_table_wellformed_witness:
  "\<exists>el el1. aeCreateEventLoop True 8 = Some el \<and> aeCreateFileEvent True el 3 AE_READABLE proc_aeReadFromClient = Some (0, el1) \<and>
     ae_watch el1 = (ae_watch el)(3 \<mapsto> proc_aeReadFromClient)"
proof -
  obtain el where el: "aeCreateEventLoop True 8 = Some el" "el_ok el" "el_setsize el = 8" using new_loop_spec [of 8] by auto
  note t = event_table_wellformed [OF el(2), of True 3 proc_aeReadFromClient]
  obtain r el1 where c: "aeCreateFileEvent True el 3 AE_READABLE proc_aeReadFromClient = Some (r, el1)"
    using conjunct1 [OF t] by (cases "aeCreateFileEvent True el 3 AE_READABLE proc_aeReadFromClient") auto
  have "r = 0 \<longleftrightarrow> 3 < el_setsize el \<and> True" "ae_watch el1 = (if r = 0 then (ae_watch el)(3 \<mapsto> proc_aeReadFromClient) else ae_watch el)"
    using t c by blast+
  then show ?thesis using el(1,3) c by (simp split: if_splits)
qed

section \<open>Runs of the sockets\<close>

text \<open>The inputs: a fired event with the results of the system calls of its handler, and a failed write on the send thread.\<close>

datatype sock_input = Fired int "32 word" sock_in | Write_fails int

definition sock_step :: "'svc service_core_cb \<Rightarrow> sock_input \<Rightarrow> 'svc sock \<Rightarrow> 'svc sock option" where
  "sock_step cb inp s =
     (case inp of
        Fired fd msk i \<Rightarrow> ae_fire cb (fd, msk, i) s
      | Write_fails fd \<Rightarrow> map_option snd (service_core_send cb (- 1) fd 0 s))"

primrec sock_run :: "'svc service_core_cb \<Rightarrow> sock_input list \<Rightarrow> 'svc sock \<Rightarrow> 'svc sock option" where
  "sock_run cb [] s = Some s"
| "sock_run cb (inp # inps) s = do { s \<leftarrow> sock_step cb inp s; sock_run cb inps s }"

text \<open>What is known of an input: the event loop fires descriptors of its table; an accept gives a descriptor that is not open;
  the bytes read are \<open>readable\<close>; and writes go to connections.\<close>

definition sock_env_ok :: "('svc \<Rightarrow> int set) \<Rightarrow> ('svc \<Rightarrow> int \<Rightarrow> byte list \<Rightarrow> bool) \<Rightarrow> 'svc sock \<Rightarrow> sock_input \<Rightarrow> bool" where
  "sock_env_ok conns readable s inp =
     (case inp of
        Fired fd msk i \<Rightarrow> ae_event s fd \<noteq> None \<and> 0 \<le> in_accept i \<and> in_accept i \<notin> set (so_open s) \<and>
          (case in_read i of None \<Rightarrow> True | Some d \<Rightarrow> d \<noteq> [] \<and> fd \<in> conns (so_svc s) \<longrightarrow> readable (so_svc s) fd d)
      | Write_fails fd \<Rightarrow> fd \<in> conns (so_svc s))"

primrec env_run :: "'svc service_core_cb \<Rightarrow> ('svc \<Rightarrow> int set) \<Rightarrow> ('svc \<Rightarrow> int \<Rightarrow> byte list \<Rightarrow> bool) \<Rightarrow> sock_input list \<Rightarrow> 'svc sock \<Rightarrow> bool" where
  "env_run cb conns readable [] s = True"
| "env_run cb conns readable (inp # inps) s = (sock_env_ok conns readable s inp \<and>
     (case sock_step cb inp s of None \<Rightarrow> True | Some s \<Rightarrow> env_run cb conns readable inps s))"

text \<open>The events of one descriptor, and that they are accepts and ends in turn.\<close>

definition fd_log :: "int \<Rightarrow> (ep_event_type \<times> int) list \<Rightarrow> ep_event_type list" where
  "fd_log fd evs = map fst (filter (\<lambda>e. snd e = fd) evs)"

primrec alternates :: "bool \<Rightarrow> ep_event_type list \<Rightarrow> bool" where
  "alternates connected [] = True"
| "alternates connected (e # es) = ((e = event_fd_accept \<longleftrightarrow> \<not> connected) \<and> alternates (\<not> connected) es)"

definition log_ok :: "int set \<Rightarrow> (ep_event_type \<times> int) list \<Rightarrow> bool" where
  "log_ok cs evs \<longleftrightarrow> (\<forall>fd. alternates False (fd_log fd evs) \<and> (fd \<in> cs \<longleftrightarrow> odd (length (fd_log fd evs))))"

lemma alternates_append:
  "alternates c (xs @ ys) \<longleftrightarrow> alternates c xs \<and> alternates (c \<noteq> odd (length xs)) ys"
proof (induction xs arbitrary: c)
  case (Cons x xs)
  have "((\<not> c) \<noteq> odd (length xs)) = (c \<noteq> odd (length (x # xs)))" by (cases c) simp_all
  then show ?case by (simp only: append_Cons alternates.simps Cons.IH conj_assoc)
qed simp

lemma fd_log_append: "fd_log fd (xs @ [(t, fd')]) = fd_log fd xs @ (if fd' = fd then [t] else [])"
  by (simp add: fd_log_def)

lemma log_ok_event:
  assumes l: "log_ok cs evs" and t: "t = event_fd_accept \<longleftrightarrow> fd \<notin> cs"
  shows "log_ok (if fd \<in> cs then cs - {fd} else insert fd cs) (evs @ [(t, fd)])"
proof -
  have "alternates False (fd_log f (evs @ [(t, fd)])) \<and>
      (f \<in> (if fd \<in> cs then cs - {fd} else insert fd cs) \<longleftrightarrow> odd (length (fd_log f (evs @ [(t, fd)]))))" for f
  proof -
    have "alternates False (fd_log f evs)" "f \<in> cs \<longleftrightarrow> odd (length (fd_log f evs))" using l unfolding log_ok_def by blast+
    then show ?thesis using t by (cases "f = fd") (simp_all add: fd_log_append alternates_append)
  qed
  then show ?thesis unfolding log_ok_def by blast
qed

lemma log_ok_accept: "log_ok cs evs \<Longrightarrow> fd \<notin> cs \<Longrightarrow> log_ok (insert fd cs) (evs @ [(event_fd_accept, fd)])"
  and log_ok_end: "log_ok cs evs \<Longrightarrow> fd \<in> cs \<Longrightarrow> t \<noteq> event_fd_accept \<Longrightarrow> log_ok (cs - {fd}) (evs @ [(t, fd)])"
  using log_ok_event [of cs evs event_fd_accept fd] log_ok_event [of cs evs t fd] by simp_all

text \<open>The sockets watch the descriptors \<open>w\<close> for reading and the listening one for accepting.\<close>

definition el_read_only :: "aeEventLoop \<Rightarrow> bool" where
  "el_read_only el \<longleftrightarrow> (\<forall>fe \<in> set (el_events el). fe_mask fe AND AE_WRITABLE = 0)"

definition watches :: "int \<Rightarrow> int set \<Rightarrow> int \<rightharpoonup> aeFileProc" where
  "watches listen w fd = (if fd \<in> w then Some proc_aeReadFromClient else if fd = listen then Some proc_aeAcceptTcpHandler else None)"

definition sock_at :: "('svc \<Rightarrow> bool) \<Rightarrow> ('svc \<Rightarrow> int set) \<Rightarrow> int set \<Rightarrow> 'svc sock \<Rightarrow> bool" where
  "sock_at ok conns w s \<longleftrightarrow>
     (\<exists>el. s_event_loop s = Some el \<and> el_ok el \<and> el_read_only el \<and> ae_watch el = watches (s_fd s) w \<and> el_setsize el = 10240) \<and> ok (so_svc s) \<and>
     insert (s_fd s) w \<subseteq> set (so_open s) \<and> s_fd s \<notin> w \<and> conns (so_svc s) \<subseteq> w \<and> log_ok (conns (so_svc s)) (so_log s)"

definition sock_inv :: "('svc \<Rightarrow> bool) \<Rightarrow> ('svc \<Rightarrow> int set) \<Rightarrow> 'svc sock \<Rightarrow> bool" where
  "sock_inv ok conns s \<longleftrightarrow> sock_at ok conns (conns (so_svc s)) s"

lemma el_read_only_upd:
  assumes "el_read_only el" and "fe_mask fe AND AE_WRITABLE = 0" and "el_events el' = (el_events el)[n := fe]"
  shows "el_read_only el'"
  using assms set_update_subset_insert [of "el_events el" n fe] by (auto simp: el_read_only_def)

lemma create_read_only:
  assumes "el_ok el" and "el_read_only el" and "aeCreateFileEvent ctl el fd AE_READABLE p = Some (r, el')"
  shows "el_read_only el'"
proof (cases "0 \<le> fd \<and> fd < el_setsize el \<and> ctl")
  case True
  then have "nat fd < length (el_events el)" "fe_mask (el_events el ! nat fd) AND AE_WRITABLE = 0"
    using assms(2) el_slot [OF assms(1), of fd] by (simp_all add: el_read_only_def)
  then show ?thesis using True assms(3)
    by (intro el_read_only_upd [OF assms(2), where n = "nat fd" and fe = "el_events el' ! nat fd"])
      (auto simp: aeCreateFileEvent_def Let_def mask_bits nth_list_update)
qed (use assms in \<open>auto simp: aeCreateFileEvent_def split: if_splits\<close>)

lemma delete_read_only:
  assumes "el_ok el" and "el_read_only el" and "aeDeleteFileEvent el fd AE_READABLE = Some el'"
  shows "el_read_only el'"
proof (cases "0 \<le> fd \<and> fd < el_setsize el")
  case True
  then have "nat fd < length (el_events el)" "fe_mask (el_events el ! nat fd) AND AE_WRITABLE = 0"
    using assms(2) el_slot [OF assms(1), of fd] by (simp_all add: el_read_only_def)
  then show ?thesis using True assms(2,3)
    by (intro el_read_only_upd [OF assms(2), where n = "nat fd" and fe = "el_events el' ! nat fd"])
      (auto simp: aeDeleteFileEvent_def Let_def mask_bits nth_list_update split: if_splits)
qed (use assms in \<open>auto simp: aeDeleteFileEvent_def split: if_splits\<close>)

section \<open>The contract of the callbacks\<close>

text \<open>The owner of the sockets has connections: an accept of a new descriptor adds it and says so; a read keeps the connections
  and is content, or it drops its own, says so and asks for the descriptor to be closed; a close drops the connection and
  says so when there still was one.\<close>

locale core_callbacks =
  fixes cb :: "'svc service_core_cb"
    and ok :: "'svc \<Rightarrow> bool"
    and conns :: "'svc \<Rightarrow> int set"
    and readable :: "'svc \<Rightarrow> int \<Rightarrow> byte list \<Rightarrow> bool"
  assumes accept_law: "ok svc \<Longrightarrow> fd \<notin> conns svc \<Longrightarrow>
      \<exists>svc'. on_accept cb fd svc = (svc', [(event_fd_accept, fd)]) \<and> ok svc' \<and> conns svc' = insert fd (conns svc)"
    and read_law: "ok svc \<Longrightarrow> fd \<in> conns svc \<Longrightarrow> readable svc fd d \<Longrightarrow>
      \<exists>r svc' evs. on_read cb fd d (int (length d)) svc = Some (r, svc', evs) \<and> ok svc' \<and>
        (r = 1 \<and> evs = [] \<and> conns svc' = conns svc \<or>
         r \<noteq> 1 \<and> (\<exists>t. t \<noteq> event_fd_accept \<and> evs = [(t, fd)]) \<and> conns svc' = conns svc - {fd})"
    and close_law: "ok svc \<Longrightarrow>
      \<exists>svc'. on_close cb fd svc = Some (svc', if fd \<in> conns svc then [(event_fd_close, fd)] else []) \<and> ok svc' \<and>
        conns svc' = conns svc - {fd}"
begin

lemma watch_range: "sock_at ok conns w s \<Longrightarrow> fd \<in> w \<Longrightarrow> 0 \<le> fd"
  unfolding sock_at_def by (metis ae_watch_def option.distinct(1) watches_def)

text \<open>Closing a watched descriptor, whether or not its connection has been dropped before.\<close>

lemma client_close_inv:
  assumes s: "sock_at ok conns w s" and fd: "fd \<in> w" and w: "w - {fd} \<subseteq> conns (so_svc s)"
  obtains s' where "aeClientClose cb fd s = Some s'" and "sock_inv ok conns s'"
proof -
  let ?c = "conns (so_svc s)"
  obtain el where el: "s_event_loop s = Some el" "el_ok el" "el_read_only el" "ae_watch el = watches (s_fd s) w" "el_setsize el = 10240"
    using s unfolding sock_at_def by blast
  have st: "ok (so_svc s)" "insert (s_fd s) w \<subseteq> set (so_open s)" "s_fd s \<notin> w" "?c \<subseteq> w" "log_ok ?c (so_log s)"
    using s unfolding sock_at_def by blast+
  obtain el' where el': "aeDeleteFileEvent el fd AE_READABLE = Some el'" "el_ok el'" "ae_watch el' = (ae_watch el)(fd := None)"
    "el_setsize el' = el_setsize el" using delete_event_spec [OF el(2) watch_range [OF s fd]] by metis
  obtain svc' where svc: "on_close cb fd (so_svc s) = Some (svc', if fd \<in> ?c then [(event_fd_close, fd)] else [])" "ok svc'"
    "conns svc' = ?c - {fd}" using close_law [OF st(1)] by blast
  let ?s = "s\<lparr>s_event_loop := Some el', so_open := removeAll fd (so_open s), so_svc := svc',
    so_log := so_log s @ (if fd \<in> ?c then [(event_fd_close, fd)] else [])\<rparr>"
  have "aeClientClose cb fd s = Some ?s"
    using el(1) el'(1) svc(1) by (simp add: aeClientClose_def client_close_fd_def client_close_notify_def)
  moreover have c: "?c - {fd} = w - {fd}" "s_fd s \<noteq> fd" using w st(3,4) fd by auto
  have "ae_watch el' = watches (s_fd s) (?c - {fd})" using c el(4) el'(3) by (auto simp: watches_def fun_eq_iff)
  moreover have "log_ok (?c - {fd}) (so_log ?s)" using log_ok_end [OF st(5), of fd event_fd_close] st(5) by auto
  ultimately have "sock_inv ok conns ?s"
    using el' el(5) svc st c delete_read_only [OF el(2,3) el'(1)] by (auto simp: sock_inv_def sock_at_def)
  then show ?thesis using that \<open>aeClientClose cb fd s = Some ?s\<close> by blast
qed

lemma read_inv:
  assumes s: "sock_inv ok conns s" and fd: "fd \<in> conns (so_svc s)"
    and rd: "\<And>d. in_read i = Some d \<Longrightarrow> d \<noteq> [] \<Longrightarrow> readable (so_svc s) fd d"
  obtains s' where "aeReadFromClient cb fd i s = Some s'" and "sock_inv ok conns s'"
proof (cases "in_read i = None \<or> in_read i = Some []")
  case True
  obtain s' where "aeClientClose cb fd s = Some s'" "sock_inv ok conns s'"
    using client_close_inv [of "conns (so_svc s)" s fd] s fd unfolding sock_inv_def by blast
  with True that show ?thesis by (auto simp: aeReadFromClient_def)
next
  case False
  then obtain d where d: "in_read i = Some d" "d \<noteq> []" by auto
  let ?c = "conns (so_svc s)"
  have at: "sock_at ok conns ?c s" using s by (simp add: sock_inv_def)
  then have okl: "ok (so_svc s)" "log_ok ?c (so_log s)" by (simp_all add: sock_at_def)
  obtain r svc' evs where r: "on_read cb fd d (int (length d)) (so_svc s) = Some (r, svc', evs)" "ok svc'"
    "r = 1 \<and> evs = [] \<and> conns svc' = ?c \<or> r \<noteq> 1 \<and> (\<exists>t. t \<noteq> event_fd_accept \<and> evs = [(t, fd)]) \<and> conns svc' = ?c - {fd}"
    using read_law [OF okl(1) fd rd [OF d]] by blast
  let ?s = "s\<lparr>so_svc := svc', so_log := so_log s @ evs\<rparr>"
  have e: "aeReadFromClient cb fd i s = (if r \<noteq> 1 then aeClientClose cb fd ?s else Some ?s)"
    using d r(1) by (simp add: aeReadFromClient_def)
  show ?thesis
  proof (cases "r = 1")
    case True
    then have "sock_inv ok conns ?s" using at r(2,3) by (simp add: sock_inv_def sock_at_def)
    then show ?thesis using that e True by simp
  next
    case False
    then obtain t where t: "t \<noteq> event_fd_accept" "evs = [(t, fd)]" "conns svc' = ?c - {fd}" using r(3) by blast
    then have "sock_at ok conns ?c ?s" using at r(2) log_ok_end [OF okl(2) fd t(1)] by (auto simp: sock_at_def)
    from client_close_inv [OF this fd] t(3) obtain s' where "aeClientClose cb fd ?s = Some s'" "sock_inv ok conns s'" by auto
    then show ?thesis using that e False by simp
  qed
qed

lemma accept_inv:
  assumes s: "sock_inv ok conns s" and i: "0 \<le> in_accept i" "in_accept i \<notin> set (so_open s)"
  obtains s' where "aeAcceptTcpHandler cb fd i s = Some s'" and "sock_inv ok conns s'"
proof -
  let ?c = "conns (so_svc s)" and ?f = "in_accept i"
  obtain el where el: "s_event_loop s = Some el" "el_ok el" "el_read_only el" "ae_watch el = watches (s_fd s) ?c" "el_setsize el = 10240"
    using s unfolding sock_inv_def sock_at_def by blast
  have st: "ok (so_svc s)" "insert (s_fd s) ?c \<subseteq> set (so_open s)" "s_fd s \<notin> ?c" "log_ok ?c (so_log s)"
    using s unfolding sock_inv_def sock_at_def by blast+
  have f: "?f \<notin> ?c" "s_fd s \<noteq> ?f" "?f \<noteq> - 1" using st(2) i by auto
  let ?r = "if ?f < el_setsize el \<and> in_ctl i then 0 else - 1 :: int"
  obtain el1 where c: "aeCreateFileEvent (in_ctl i) el ?f AE_READABLE proc_aeReadFromClient = Some (?r, el1)" "el_ok el1"
    "el_setsize el1 = el_setsize el"
    "ae_watch el1 = (if ?f < el_setsize el \<and> in_ctl i then (ae_watch el)(?f \<mapsto> proc_aeReadFromClient) else ae_watch el)"
    using create_event_spec [OF el(2) i(1), of "in_ctl i" proc_aeReadFromClient] .
  obtain r el' where el': "aeCreateFileEvent (in_ctl i) el ?f AE_READABLE proc_aeReadFromClient = Some (r, el')" "el_ok el'"
    "r = 0 \<and> ae_watch el' = (ae_watch el)(?f \<mapsto> proc_aeReadFromClient) \<or> r = - 1 \<and> ae_watch el' = ae_watch el"
    "el_setsize el' = el_setsize el"
    using c by (intro that [of ?r el1]) auto
  have ro: "el_read_only el'" using create_read_only [OF el(2,3) el'(1)] .
  show ?thesis
  proof (cases "r = - 1")
    case True
    let ?s = "s\<lparr>s_event_loop := Some el', so_open := removeAll ?f (so_open s)\<rparr>"
    have "aeAcceptTcpHandler cb fd i s = Some ?s" using True f el(1) el'(1) by (simp add: aeAcceptTcpHandler_def)
    moreover have "sock_inv ok conns ?s" using True el el' st f ro i by (auto simp: sock_inv_def sock_at_def)
    ultimately show ?thesis using that by blast
  next
    case False
    obtain svc' where svc: "on_accept cb ?f (so_svc s) = (svc', [(event_fd_accept, ?f)])" "ok svc'" "conns svc' = insert ?f ?c"
      using accept_law [OF st(1) f(1)] by blast
    let ?s = "s\<lparr>s_event_loop := Some el', so_open := ?f # so_open s, so_svc := svc', so_log := so_log s @ [(event_fd_accept, ?f)]\<rparr>"
    have "aeAcceptTcpHandler cb fd i s = Some ?s" using False f el(1) el'(1) svc(1) by (simp add: aeAcceptTcpHandler_def Let_def)
    moreover have "ae_watch el' = watches (s_fd s) (insert ?f ?c)" using False el(4) el'(3) by (auto simp: watches_def fun_eq_iff)
    then have "sock_inv ok conns ?s"
      using el' el(5) svc st f ro log_ok_accept [OF st(4) f(1)] by (auto simp: sock_inv_def sock_at_def)
    ultimately show ?thesis using that by blast
  qed
qed

lemma step_inv:
  assumes s: "sock_inv ok conns s" and e: "sock_env_ok conns readable s inp"
  obtains s' where "sock_step cb inp s = Some s'" and "sock_inv ok conns s'"
proof (cases inp)
  case (Write_fails fd)
  obtain s' where "aeClientClose cb fd s = Some s'" "sock_inv ok conns s'"
    using client_close_inv [of "conns (so_svc s)" s fd] s e unfolding sock_inv_def by (auto simp: Write_fails sock_env_ok_def)
  with Write_fails that show ?thesis by (simp add: sock_step_def service_core_send_def)
next
  case (Fired fd msk i)
  let ?c = "conns (so_svc s)"
  obtain el where el: "s_event_loop s = Some el" "el_ok el" "el_read_only el" "ae_watch el = watches (s_fd s) ?c" "el_setsize el = 10240"
    using s unfolding sock_inv_def sock_at_def by blast
  have i: "0 \<le> fd" "fd < el_setsize el" "0 \<le> in_accept i" "in_accept i \<notin> set (so_open s)"
    "\<And>d. in_read i = Some d \<Longrightarrow> d \<noteq> [] \<Longrightarrow> fd \<in> ?c \<Longrightarrow> readable (so_svc s) fd d"
    using e el(1) by (auto simp: Fired sock_env_ok_def ae_event_def split: if_splits)
  let ?fe = "el_events el ! nat fd"
  let ?rf = "fe_mask ?fe AND msk AND AE_READABLE \<noteq> 0"
  have rd: "fe_mask ?fe AND AE_READABLE \<noteq> 0" if ?rf
    using that by (metis and.left_commute zero_and_eq and_zero_eq)
  have p: "rfileProc ?fe = watches (s_fd s) ?c fd" if ?rf
    using fun_cong [OF el(4), of fd] rd [OF that] i(1,2) by (simp add: ae_watch_def)
  obtain s1 where s1: "(if ?rf then ae_call cb (rfileProc ?fe) fd i s else Some s) = Some s1" "sock_inv ok conns s1"
  proof (cases ?rf)
    case True
    have "rfileProc ?fe \<noteq> None" using el_slot [OF el(2) i(1,2)] rd [OF True] by (simp add: fe_ok_def)
    then consider "fd \<in> ?c" "rfileProc ?fe = Some proc_aeReadFromClient" | "rfileProc ?fe = Some proc_aeAcceptTcpHandler"
      using p [OF True] by (auto simp: watches_def split: if_splits)
    then show ?thesis
    proof cases
      case 1
      then obtain s' where "aeReadFromClient cb fd i s = Some s'" "sock_inv ok conns s'" using read_inv [OF s] i(5) by blast
      with that True 1 show ?thesis by (simp add: ae_call_def)
    next
      case 2
      obtain s' where "aeAcceptTcpHandler cb fd i s = Some s'" "sock_inv ok conns s'" using accept_inv [OF s i(3,4)] by blast
      with that True 2 show ?thesis by (simp add: ae_call_def)
    qed
  qed (use s that in auto)
  obtain el1 where el1: "s_event_loop s1 = Some el1" "el_ok el1" "el_read_only el1" "el_setsize el1 = 10240"
    using s1(2) unfolding sock_inv_def sock_at_def by blast
  then have "fe_mask (el_events el1 ! nat fd) AND AE_WRITABLE = 0"
    using el_slot [OF el1(2) i(1)] i(2) el(5) by (simp add: el_read_only_def)
  then have wr: "fe_mask (el_events el1 ! nat fd) AND msk AND AE_WRITABLE = 0" by (metis and.left_commute and_zero_eq)
  have "sock_step cb inp s = Some s1"
    using Fired i(1,2) el(1,5) el1(1,4) s1(1) wr by (simp add: sock_step_def ae_fire_def ae_event_def)
  with that s1(2) show ?thesis by blast
qed

lemma run_inv:
  "sock_inv ok conns s \<Longrightarrow> env_run cb conns readable inps s \<Longrightarrow> \<exists>s'. sock_run cb inps s = Some s' \<and> sock_inv ok conns s'"
proof (induction inps arbitrary: s)
  case (Cons inp inps)
  then have "sock_env_ok conns readable s inp" by simp
  from step_inv [OF Cons.prems(1) this] obtain s1 where s1: "sock_step cb inp s = Some s1" "sock_inv ok conns s1" .
  then show ?case using Cons.IH [OF s1(2)] Cons.prems(2) by simp
qed simp

lemma start_inv:
  assumes s: "s_event_loop s = None" "ok (so_svc s)" "conns (so_svc s) = {}" "so_log s = []" and l: "0 \<le> listen" "listen < 10240"
  obtains s' where "service_core_start listen True True keepalive s = Some (1, s')" and "sock_inv ok conns s'" and "so_svc s' = so_svc s"
    and "s_fd s' = listen" and "so_log s' = []" and "so_open s' = listen # so_open s"
proof -
  obtain el where el: "aeCreateEventLoop True 10240 = Some el" "el_ok el" "el_setsize el = 10240" "ae_watch el = Map.empty"
    using new_loop_spec [of 10240] by auto
  have ro: "el_read_only el" using el(1) by (auto simp: aeCreateEventLoop_def el_read_only_def mask_bits)
  obtain el' where el': "aeCreateFileEvent True el listen AE_READABLE proc_aeAcceptTcpHandler = Some (0, el')" "el_ok el'"
    "el_setsize el' = 10240" "ae_watch el' = [listen \<mapsto> proc_aeAcceptTcpHandler]"
    using create_event_spec [OF el(2) l(1), of True proc_aeAcceptTcpHandler] el(3,4) l(2) by auto
  let ?s = "s\<lparr>s_fd := listen, so_open := listen # so_open s, s_keepalive := if keepalive > 0 then keepalive else s_keepalive s,
    s_event_loop := Some el'\<rparr>"
  have "service_core_start listen True True keepalive s = Some (1, ?s)"
    using s(1) el(1) el'(1) l(1) by (simp add: service_core_start_def Let_def)
  moreover have "sock_inv ok conns ?s"
    using s el' create_read_only [OF el(2) ro el'(1)] by (auto simp: sock_inv_def sock_at_def watches_def fun_eq_iff log_ok_def fd_log_def)
  ultimately show ?thesis using that [of ?s] s(4) by simp
qed

end

section \<open>The service behind the sockets\<close>

definition service_cb :: "(unit, 'cb, 'o) ep_service service_core_cb" where
  "service_cb = \<lparr>on_accept = (\<lambda>fd. ep_service_on_accept fd ()), on_read = ep_service_on_read, on_close = ep_service_on_close\<rparr>"

definition svc_ok :: "(unit, 'cb, 'o) ep_service \<Rightarrow> bool" where
  "svc_ok svc \<longleftrightarrow> s_event_cb svc \<and> (\<exists>mgr. s_io_mgr svc = Some mgr \<and> send_ok mgr \<and> MAX_LINE \<le> mgr_max_capacity mgr)"

definition svc_conns :: "(unit, 'cb, 'o) ep_service \<Rightarrow> int set" where
  "svc_conns svc = (case s_io_mgr svc of None \<Rightarrow> {} | Some mgr \<Rightarrow> io_fd ` set (mgr_list mgr))"

text \<open>At most a line is read at once, and the stream of the connection announces no body of negative size.\<close>

definition svc_readable :: "(unit, 'cb, 'o) ep_service \<Rightarrow> int \<Rightarrow> byte list \<Rightarrow> bool" where
  "svc_readable svc fd d = (int (length d) \<le> MAX_LINE \<and>
     (case s_io_mgr svc of None \<Rightarrow> True | Some mgr \<Rightarrow>
        (case ep_io_find mgr fd of None \<Rightarrow> True | Some child \<Rightarrow> fst (snd (parse_stream (mgr_max_capacity mgr) (io_pending child @ d))) \<noteq> - 4)))"

lemma find_fds: "fd \<in> io_fd ` set (mgr_list mgr) \<longleftrightarrow> ep_io_find mgr fd \<noteq> None"
  by (auto simp: ep_io_find_def find_None_iff)

lemma fds_find: "io_fd ` set (mgr_list mgr) = {fd. ep_io_find mgr fd \<noteq> None}"
  using find_fds by blast

lemma ep_io_del_cap: "ep_io_del mgr fd = Some (r, mgr') \<Longrightarrow> mgr_max_capacity mgr' = mgr_max_capacity mgr"
  by (auto simp: ep_io_del_def split: option.splits bind_splits prod.splits)

lemma service_accept:
  assumes "svc_ok svc" and "fd \<notin> svc_conns svc"
  shows "\<exists>svc'. ep_service_on_accept fd () svc = (svc', [(event_fd_accept, fd)]) \<and> svc_ok svc' \<and> svc_conns svc' = insert fd (svc_conns svc)"
proof -
  obtain mgr where m: "s_io_mgr svc = Some mgr" "send_ok mgr" "MAX_LINE \<le> mgr_max_capacity mgr" "s_event_cb svc"
    using assms(1) by (auto simp: svc_ok_def)
  then have mok: "mgr_ok mgr" "ep_io_find mgr fd = None" using assms(2) by (simp_all add: send_ok_def svc_conns_def find_fds)
  obtain mgr' child where a: "ep_io_add mgr fd () = (1, mgr')" "ep_io_find mgr' = (ep_io_find mgr)(fd \<mapsto> child)"
    "mgr_max_capacity mgr' = mgr_max_capacity mgr" using ep_io_add_spec(1) [OF mok, of "()"] by auto
  have "send_ok mgr'" using ep_io_add_send_ok [OF m(2), of fd "()"] a(1) by simp
  with m a show ?thesis by (auto simp: ep_service_on_accept_def svc_ok_def svc_conns_def notify_def fds_find)
qed

lemma service_close:
  assumes "svc_ok svc"
  shows "\<exists>svc'. ep_service_on_close fd svc = Some (svc', if fd \<in> svc_conns svc then [(event_fd_close, fd)] else []) \<and>
    svc_ok svc' \<and> svc_conns svc' = svc_conns svc - {fd}"
proof -
  obtain mgr where m: "s_io_mgr svc = Some mgr" "send_ok mgr" "MAX_LINE \<le> mgr_max_capacity mgr" "s_event_cb svc"
    using assms by (auto simp: svc_ok_def)
  show ?thesis
  proof (cases "ep_io_find mgr fd")
    case None
    with m show ?thesis by (auto simp: ep_service_on_close_def ep_io_del_def svc_ok_def svc_conns_def fds_find)
  next
    case (Some c)
    obtain mgr' where d: "ep_io_del mgr fd = Some (1, mgr')" "send_ok mgr'" "ep_io_find mgr' = (ep_io_find mgr)(fd := None)"
      using ep_io_del_spec [OF m(2) Some] .
    with m Some ep_io_del_cap [OF d(1)] show ?thesis
      by (auto simp: ep_service_on_close_def svc_ok_def svc_conns_def notify_def fds_find)
  qed
qed

lemma service_read:
  assumes ok: "svc_ok svc" and fd: "fd \<in> svc_conns svc" and rd: "svc_readable svc fd d"
  shows "\<exists>r svc' evs. ep_service_on_read fd d (int (length d)) svc = Some (r, svc', evs) \<and> svc_ok svc' \<and>
    (r = 1 \<and> evs = [] \<and> svc_conns svc' = svc_conns svc \<or>
     r \<noteq> 1 \<and> (\<exists>t. t \<noteq> event_fd_accept \<and> evs = [(t, fd)]) \<and> svc_conns svc' = svc_conns svc - {fd})"
proof -
  obtain mgr where m: "s_io_mgr svc = Some mgr" "send_ok mgr" "MAX_LINE \<le> mgr_max_capacity mgr" "s_event_cb svc"
    using ok by (auto simp: svc_ok_def)
  then obtain child where f: "ep_io_find mgr fd = Some child" using fd by (auto simp: svc_conns_def fds_find)
  obtain fs c r where p: "parse_stream (mgr_max_capacity mgr) (io_pending child @ d) = (fs, c, r)" by (metis prod_cases3)
  have c4: "c \<noteq> -4" "int (length d) \<le> mgr_max_capacity mgr" using rd m f p by (simp_all add: svc_readable_def)
  have mok: "mgr_ok mgr" using m(2) by (simp add: send_ok_def)
  obtain mgr1 child1 where e: "ep_io_enqueue mgr fd d (int (length d)) = Some (c, mgr1)" "mgr_ok mgr1" "ep_io_find mgr1 fd = Some child1"
    "mgr_max_capacity mgr1 = mgr_max_capacity mgr" "\<forall>fd'. fd' \<noteq> fd \<longrightarrow> ep_io_find mgr1 fd' = ep_io_find mgr fd'"
    using enqueue_spec [OF mok f c4(2) p c4(1)] by metis
  have s1: "send_ok mgr1" using send_ok_enqueue [OF m(2) e(2,1)] .
  have same: "ep_io_find mgr1 x = None \<longleftrightarrow> ep_io_find mgr x = None" for x using e(3,5) f by (cases "x = fd") auto
  show ?thesis
  proof (cases "c \<ge> 0")
    case True
    then show ?thesis using m e(1,4) s1 same by (auto simp: ep_service_on_read_def svc_ok_def svc_conns_def fds_find)
  next
    case False
    obtain mgr2 where del: "ep_io_del mgr1 fd = Some (1, mgr2)" "send_ok mgr2" "ep_io_find mgr2 = (ep_io_find mgr1)(fd := None)"
      using ep_io_del_spec [OF s1 e(3)] .
    have "ep_io_find mgr2 x = None \<longleftrightarrow> ep_io_find mgr x = None \<or> x = fd" for x using same del(3) by simp
    then show ?thesis using False m e(1,4) del(1,2) ep_io_del_cap [OF del(1)]
      by (auto simp: ep_service_on_read_def svc_ok_def svc_conns_def fds_find notify_def io_error_event_def)
  qed
qed

interpretation service: core_callbacks service_cb svc_ok svc_conns svc_readable
  by unfold_locales (simp_all add: service_cb_def service_accept service_read service_close)

lemma started_svc_ok:
  assumes "ep_service_start True True True True True security mgr_opaque 1 conf service_zero = Some (1, svc)"
    and "0 < sc_def_capacity conf" and "MAX_LINE \<le> sc_max_capacity conf"
  shows "svc_ok (ep_service_event svc)" and "svc_conns (ep_service_event svc) = {}"
  using assms by (auto simp: ep_service_start_def service_zero_def ep_service_init_def ep_disp_init_def ep_io_init_def ep_queue_new_def
      MAX_LINE_def ep_service_event_def svc_ok_def svc_conns_def send_ok_def mgr_ok_def queued_def)



section \<open>The send thread on the sockets\<close>

text \<open>The inner loop of \<open>ep_io_routine\<close> with \<open>service_core_send\<close> as its transport: \<open>io\<close> is the pointer it took from its queue, read
  again for each \<open>io->fd\<close>; \<open>ws\<close> are the results of the writes, and the loop waits when there are no more.\<close>

definition io_deref :: "nat \<Rightarrow> (unit, 'cb, 'o) ep_service sock \<Rightarrow> unit ep_io option" where
  "io_deref io s = do { mgr \<leftarrow> s_io_mgr (so_svc s); find (\<lambda>c. io_id c = io) (mgr_list mgr) }"

primrec server_send_loop :: "nat \<Rightarrow> int list \<Rightarrow> (unit, 'cb, 'o) ep_service sock \<Rightarrow> (unit, 'cb, 'o) ep_service sock option" where
  "server_send_loop io [] s = Some s"
| "server_send_loop io (w # ws) s = do {
     child \<leftarrow> io_deref io s;
     mgr \<leftarrow> s_io_mgr (so_svc s);
     let (ret, out, mgr) = ep_io_get mgr (io_fd child);
     (if ret \<noteq> 1 then Some (s\<lparr>so_svc := (so_svc s)\<lparr>s_io_mgr := Some mgr\<rparr>\<rparr>)
      else do {
        p \<leftarrow> out;
        (b, heap) \<leftarrow> heap_take p (mgr_heap mgr);
        let s = s\<lparr>so_svc := (so_svc s)\<lparr>s_io_mgr := Some (mgr\<lparr>mgr_heap := heap\<rparr>)\<rparr>\<rparr>;
        child \<leftarrow> io_deref io s;
        (send_bytes, s) \<leftarrow> service_core_send service_cb w (io_fd child) (bf_used b) s;
        (if send_bytes \<le> 0 then do {
           child \<leftarrow> io_deref io s;
           (svc, evs) \<leftarrow> ep_service_send_error_cb (io_fd child) (so_svc s);
           Some (s\<lparr>so_svc := svc, so_log := so_log s @ evs\<rparr>)
         } else server_send_loop io ws s)
      })
   }"

lemma pop_send_ok:
  assumes s: "send_ok mgr" and f: "ep_io_find mgr fd = Some c" and q: "q_items (io_send c) = p # ps"
    and c': "c' = c\<lparr>io_send := (io_send c)\<lparr>q_items := ps\<rparr>\<rparr>"
  shows "send_ok ((io_put c' mgr)\<lparr>mgr_heap := (mgr_heap mgr)(p := None)\<rparr>)"
proof -
  have m: "mgr_ok mgr" using s by (simp add: send_ok_def)
  obtain ys zs where l: "mgr_list mgr = ys @ c # zs" "mgr_list (io_put c' mgr) = ys @ c' # zs"
    using io_put_split [OF m f, of c'] c' by auto
  let ?A = "concat (map (\<lambda>c. q_items (io_send c)) ys)" and ?B = "concat (map (\<lambda>c. q_items (io_send c)) zs)"
  have "distinct (?A @ (p # ps) @ ?B)" "\<forall>x \<in> set (?A @ (p # ps) @ ?B). mgr_heap mgr x \<noteq> None"
    using s q by (simp_all add: send_ok_def queued_def l(1))
  moreover have "q_items (io_send c') = ps" using c' by simp
  then have "queued ((io_put c' mgr)\<lparr>mgr_heap := h\<rparr>) = ?A @ ps @ ?B" for h by (simp add: queued_def l(2))
  moreover have "mgr_ok (io_put c' mgr)" using io_put_send(1) [OF m f, of "(io_send c)\<lparr>q_items := ps\<rparr>"] c' by simp
  ultimately show ?thesis unfolding send_ok_def by (simp only: ep_io_find_heap) auto
qed

lemma find_put_same:
  assumes "mgr_ok mgr" and "ep_io_find mgr fd = Some c" and "io_id c' = io_id c" and "io_fd c' = io_fd c" and "io_ok (mgr_max_capacity mgr) c'"
  shows "find (\<lambda>d. io_id d = io_id c) (mgr_list (io_put c' mgr)) = Some c'"
proof -
  have "mgr_ok (io_put c' mgr)" "ep_io_find (io_put c' mgr) fd = Some c'" using io_put_spec [OF assms] by simp_all
  moreover from this(2) have "c' \<in> set (mgr_list (io_put c' mgr))" using ep_io_find_split by (metis in_set_conv_decomp)
  ultimately show ?thesis using find_by_id(1) [of "io_put c' mgr" c'] assms(3) by simp
qed

lemma del_removes_id:
  assumes "ep_io_find mgr fd = Some c" and "ep_io_del mgr fd = Some (r, mgr')"
  shows "find (\<lambda>d. io_id d = io_id c) (mgr_list mgr') = None"
  using assms by (auto simp: ep_io_del_def Let_def find_None_iff split: prod.splits Option.bind_splits)

text \<open>C27. A failed write of the send thread is undefined behaviour: the transport itself closes the descriptor and has the connection
  deleted before it reports the failure, and the send thread then reads \<open>io->fd\<close> from the deleted connection, in
  every state the sockets can be in, for every connection with something to send.\<close>

theorem failed_write_uses_freed_connection:
  assumes s: "sock_inv svc_ok svc_conns s" and m: "s_io_mgr (so_svc s) = Some mgr" and f: "ep_io_find mgr fd = Some c"
    and q: "q_items (io_send c) = p # ps"
  shows "\<exists>svc1 s2 n. io_deref (io_id c) (s\<lparr>so_svc := svc1\<rparr>) \<noteq> None \<and>
    service_core_send service_cb (- 1) fd n (s\<lparr>so_svc := svc1\<rparr>) = Some (0, s2) \<and> so_log s2 = so_log s @ [(event_fd_close, fd)] \<and> io_deref (io_id c) s2 = None \<and>
    server_send_loop (io_id c) (- 1 # ws) s = None"
proof -
  have "svc_ok (so_svc s)" using s by (simp add: sock_inv_def sock_at_def)
  then have sk: "send_ok mgr" "s_event_cb (so_svc s)" using m by (auto simp: svc_ok_def)
  then have mok: "mgr_ok mgr" by (simp add: send_ok_def)
  have cm: "c \<in> set (mgr_list mgr)" "io_fd c = fd" using ep_io_find_split [OF f] by (metis in_set_conv_decomp)+
  obtain b where b: "mgr_heap mgr p = Some b" using sk(1) cm(1) q by (fastforce simp: send_ok_def queued_def)
  define c' where "c' = c\<lparr>io_send := (io_send c)\<lparr>q_items := ps\<rparr>\<rparr>"
  have same: "io_id c' = io_id c" "io_fd c' = io_fd c" "io_ok (mgr_max_capacity mgr) c'"
    using ep_io_find_ok [OF mok f] by (simp_all add: c'_def)
  define m2 where "m2 = (io_put c' mgr)\<lparr>mgr_heap := (mgr_heap mgr)(p := None)\<rparr>"
  have m2: "send_ok m2" "ep_io_find m2 fd = Some c'" "find (\<lambda>d. io_id d = io_id c) (mgr_list m2) = Some c'"
    using pop_send_ok [OF sk(1) f q c'_def] io_put_spec(2) [OF mok f same] find_put_same [OF mok f same] by (simp_all add: m2_def)
  obtain m3 where del: "ep_io_del m2 fd = Some (1, m3)" using ep_io_del_spec [OF m2(1,2)] by metis
  let ?s1 = "s\<lparr>so_svc := (so_svc s)\<lparr>s_io_mgr := Some m2\<rparr>\<rparr>"
  have "fd \<in> svc_conns (so_svc s)" using m f by (simp add: svc_conns_def fds_find)
  then have fd: "0 \<le> fd" using service.watch_range s by (simp add: sock_inv_def)
  obtain el where el: "s_event_loop s = Some el" "el_ok el" using s unfolding sock_inv_def sock_at_def by blast
  obtain el' where el': "aeDeleteFileEvent el fd AE_READABLE = Some el'" using delete_event_spec [OF el(2) fd] by metis
  let ?s2 = "s\<lparr>s_event_loop := Some el', so_open := removeAll fd (so_open s), so_svc := (so_svc s)\<lparr>s_io_mgr := Some m3\<rparr>,
    so_log := so_log s @ [(event_fd_close, fd)]\<rparr>"
  have send: "service_core_send service_cb (- 1) fd n ?s1 = Some (0, ?s2)" for n
    using el(1) el' del sk(2)
    by (simp add: service_core_send_def aeClientClose_def client_close_fd_def client_close_notify_def service_cb_def
        ep_service_on_close_def notify_def)
  have gone: "io_deref (io_id c) ?s2 = None" using del_removes_id [OF m2(2) del] same(1) by (simp add: io_deref_def)
  have d0: "io_deref (io_id c) s = Some c" using find_by_id(1) [OF mok cm(1)] m by (simp add: io_deref_def)
  have d1: "io_deref (io_id c) ?s1 = Some c'" using m2(3) by (simp add: io_deref_def)
  have get: "ep_io_get mgr fd = (1, Some p, io_put c' mgr)" using f q by (simp add: ep_io_get_def ep_queue_get_begin_def c'_def)
  have take: "heap_take p (mgr_heap mgr) = Some (b, (mgr_heap mgr)(p := None))" using b by (simp add: heap_take_def)
  have "server_send_loop (io_id c) (- 1 # ws) s = None"
    by (simp add: d0 m cm(2) get take m2_def [symmetric] d1 same(2) send gone)
  then show ?thesis using d1 send [of 0] gone
    by (intro exI [where x = "(so_svc s)\<lparr>s_io_mgr := Some m2\<rparr>"], intro exI [where x = ?s2], intro exI [where x = 0]) simp
qed

text \<open>Sockets with one connection that has a message to send.\<close>

lemma demo_sending:
  obtains s :: "(unit, bool, unit) ep_service sock" and mgr c where "sock_inv svc_ok svc_conns s" and "s_io_mgr (so_svc s) = Some mgr"
    and "ep_io_find mgr 5 = Some c" and "q_items (io_send c) = [7]"
proof -
  let ?conf = "\<lparr>sc_def_capacity = 4096, sc_max_capacity = 4194304, sc_mini_compress_if = 0\<rparr>"
  obtain svc0 :: "(unit, bool, unit) ep_service" where svc0: "ep_service_start True True True True True True () 1 ?conf service_zero = Some (1, svc0)"
    using ep_service_start_ok [of ?conf True "()"] by auto
  have cap: "0 < sc_def_capacity ?conf" "MAX_LINE \<le> sc_max_capacity ?conf" by (simp_all add: MAX_LINE_def)
  obtain svc :: "(unit, bool, unit) ep_service" where svc: "svc_ok svc" "svc_conns svc = {5}"
    using service_accept [OF started_svc_ok(1) [OF svc0 cap], of 5] started_svc_ok(2) [OF svc0 cap] by auto
  then obtain mgr where m: "s_io_mgr svc = Some mgr" "send_ok mgr" "MAX_LINE \<le> mgr_max_capacity mgr" "s_event_cb svc"
    by (auto simp: svc_ok_def)
  have fds: "io_fd ` set (mgr_list mgr) = {5}" "distinct (map io_fd (mgr_list mgr))"
    using svc(2) m by (simp_all add: svc_conns_def send_ok_def mgr_ok_def)
  obtain c where c: "mgr_list mgr = [c]" "io_fd c = 5"
  proof (cases "mgr_list mgr")
    case (Cons x xs)
    with fds have "xs = []" by (cases xs) auto
    with Cons fds that show ?thesis by simp
  qed (use fds in simp)
  let ?c = "c\<lparr>io_send := \<lparr>q_items = [7], q_stop = False\<rparr>\<rparr>"
  let ?m = "mgr\<lparr>mgr_list := [?c], mgr_heap := [7 \<mapsto> demo_buffer]\<rparr>" 
  have "send_ok ?m" using m(2) c(1) by (simp add: send_ok_def mgr_ok_def queued_def)
  then have ok: "svc_ok (svc\<lparr>s_io_mgr := Some ?m\<rparr>)" "svc_conns (svc\<lparr>s_io_mgr := Some ?m\<rparr>) = {5}"
    using m c(2) by (simp_all add: svc_ok_def svc_conns_def)
  obtain el where el: "aeCreateEventLoop True 10240 = Some el" "el_ok el" "el_setsize el = 10240" "ae_watch el = Map.empty"
    using new_loop_spec [of 10240] by auto
  have ro: "el_read_only el" using el(1) by (auto simp: aeCreateEventLoop_def el_read_only_def mask_bits)
  obtain el1 where el1: "aeCreateFileEvent True el 3 AE_READABLE proc_aeAcceptTcpHandler = Some (0, el1)" "el_ok el1"
    "el_setsize el1 = 10240" "ae_watch el1 = [3 \<mapsto> proc_aeAcceptTcpHandler]"
    using create_event_spec [OF el(2), of 3 True proc_aeAcceptTcpHandler] el(3,4) by auto
  obtain el2 where el2: "aeCreateFileEvent True el1 5 AE_READABLE proc_aeReadFromClient = Some (0, el2)" "el_ok el2"
    "el_setsize el2 = 10240" "ae_watch el2 = [3 \<mapsto> proc_aeAcceptTcpHandler, 5 \<mapsto> proc_aeReadFromClient]"
    using create_event_spec [OF el1(2), of 5 True proc_aeReadFromClient] el1(3,4) by auto
  let ?s = "\<lparr>s_event_loop = Some el2, s_keepalive = 0, s_fd = 3, so_svc = svc\<lparr>s_io_mgr := Some ?m\<rparr>, so_open = [3, 5],
    so_log = [(event_fd_accept, 5)]\<rparr>"
  have "el_read_only el2" using create_read_only [OF el1(2) create_read_only [OF el(2) ro el1(1)] el2(1)] .
  moreover have "log_ok {5} [(event_fd_accept, 5)]" by (simp add: log_ok_def fd_log_def)
  ultimately have "sock_inv svc_ok svc_conns ?s"
    using ok el2 by (auto simp: sock_inv_def sock_at_def watches_def fun_eq_iff)
  then show ?thesis by (rule that [of ?s ?m ?c]) (use c in \<open>simp_all add: ep_io_find_def\<close>)
qed

theorem failed_write_uses_freed_connection_witness:
  "\<exists>(s :: (unit, bool, unit) ep_service sock) io. io_deref io s \<noteq> None \<and> server_send_loop io [- 1] s = None"
proof -
  obtain s :: "(unit, bool, unit) ep_service sock" and mgr c where s: "sock_inv svc_ok svc_conns s" "s_io_mgr (so_svc s) = Some mgr"
    "ep_io_find mgr 5 = Some c" "q_items (io_send c) = [7]" by (rule demo_sending)
  have "c \<in> set (mgr_list mgr)" using ep_io_find_split [OF s(3)] by (metis in_set_conv_decomp)
  then have "io_deref (io_id c) s \<noteq> None" using s(2) by (auto simp: io_deref_def find_None_iff)
  then show ?thesis using failed_write_uses_freed_connection [OF s, of "[]"] by blast
qed

section \<open>Closing and accepting at the same time\<close>

text \<open>The send thread closes the descriptor before the connection is deleted. When the event loop accepts a new connection in
  between, the system may give it the same descriptor: the manager still has the old connection, so that the new one is not
  added and not told, and then the old one is deleted. The new descriptor is open and watched, and nobody knows it.\<close>

lemma close_accept_race:
  assumes s: "sock_inv svc_ok svc_conns s" and fd: "fd \<in> svc_conns (so_svc s)" "fd < 10240"
    and i: "in_accept i = fd" "in_ctl i"
  shows "\<exists>s1 s2 s3 el. client_close_fd fd s = Some s1 \<and> aeAcceptTcpHandler service_cb listen i s1 = Some s2 \<and>
    client_close_notify service_cb fd s2 = Some s3 \<and> so_log s3 = so_log s @ [(event_fd_close, fd)] \<and>
    fd \<notin> svc_conns (so_svc s3) \<and> s_event_loop s3 = Some el \<and> ae_watch el fd = Some proc_aeReadFromClient \<and> fd \<in> set (so_open s3)"
proof -
  have nn: "0 \<le> fd" using service.watch_range s fd(1) by (simp add: sock_inv_def)
  obtain el where el: "s_event_loop s = Some el" "el_ok el" "el_setsize el = 10240" using s unfolding sock_inv_def sock_at_def by blast
  obtain el1 where el1: "aeDeleteFileEvent el fd AE_READABLE = Some el1" "el_ok el1" "el_setsize el1 = 10240"
    by (rule delete_event_spec [OF el(2) nn]) (use el(3) in simp)
  obtain el2 where el2: "aeCreateFileEvent True el1 fd AE_READABLE proc_aeReadFromClient = Some (0, el2)"
    "ae_watch el2 fd = Some proc_aeReadFromClient"
    by (rule create_event_spec [OF el1(2) nn, of True proc_aeReadFromClient]) (use el1(3) fd(2) in simp)
  have ok: "svc_ok (so_svc s)" using s by (simp add: sock_inv_def sock_at_def)
  then obtain mgr where m: "s_io_mgr (so_svc s) = Some mgr" by (auto simp: svc_ok_def)
  then have "ep_io_find mgr fd \<noteq> None" using fd(1) by (simp add: svc_conns_def fds_find)
  then have "ep_service_on_accept fd () (so_svc s) = (so_svc s, [])" using m by (auto simp: ep_service_on_accept_def ep_io_add_def)
  then have acc: "on_accept service_cb fd (so_svc s) = (so_svc s, [])" by (simp add: service_cb_def)
  obtain svc' where cl: "on_close service_cb fd (so_svc s) = Some (svc', [(event_fd_close, fd)])" "svc_conns svc' = svc_conns (so_svc s) - {fd}"
    using service.close_law [OF ok, of fd] fd(1) by auto
  let ?s1 = "s\<lparr>s_event_loop := Some el1, so_open := removeAll fd (so_open s)\<rparr>"
  let ?s2 = "s\<lparr>s_event_loop := Some el2, so_open := fd # removeAll fd (so_open s)\<rparr>"
  have "client_close_fd fd s = Some ?s1" using el(1) el1(1) by (simp add: client_close_fd_def)
  moreover have "aeAcceptTcpHandler service_cb listen i ?s1 = Some ?s2"
    using i nn el2(1) acc by (simp add: aeAcceptTcpHandler_def Let_def)
  moreover have "client_close_notify service_cb fd ?s2 = Some (?s2\<lparr>so_svc := svc', so_log := so_log s @ [(event_fd_close, fd)]\<rparr>)"
    using cl(1) by (simp add: client_close_notify_def)
  ultimately show ?thesis using cl(2) el2(2) by auto
qed

end
