(* ===== verification/YM_Conn.thy ===== *)
theory YM_Conn
  imports EP_Socket YM_Server YM_AccountSpec
begin

text \<open>
  The sockets and the application together: the events of the sockets reach the sessions through \<open>service_event_cb\<close>, and requests reach the
  handlers later, from the queue of the thread pool. First what the end of a connection does to the sessions; then
  what happens to a login that is still queued when its connection ends.
\<close>

section \<open>The end of a connection\<close>

definition svc_tasks :: "(unit, 'cb, 'o) ep_service \<Rightarrow> ep_io_task list" where
  "svc_tasks svc = (case s_io_mgr svc of None \<Rightarrow> [] | Some mgr \<Rightarrow> mgr_tasks mgr)"

definition ends_connection :: "ep_event_type \<Rightarrow> bool" where
  "ends_connection type \<longleftrightarrow> type \<noteq> event_fd_accept"

lemma service_event_spec:
  assumes srv: "srv_ok tbl srv" and fd: "0 \<le> fd"
  shows "\<exists>st. service_event_cb type fd (srv_sessions srv) = Some st \<and> srv_ok tbl (srv\<lparr>srv_sessions := st\<rparr>) \<and>
    fd_session st = (if ends_connection type then (logged srv)(fd := None) else logged srv) \<and> token_session st = tokens srv"
proof (cases "ends_connection type")
  case True
  have ok: "session_ok (srv_sessions srv)" using srv by (simp add: srv_ok_def)
  obtain r st where st: "session_del_fd fd (srv_sessions srv) = Some (r, st)" "session_ok st" "fd_session st = (logged srv)(fd := None)"
    "token_session st = tokens srv" using session_del_fd_spec [OF ok fd] by auto
  have "srv_ok tbl (srv\<lparr>srv_sessions := st\<rparr>)" using srv st(2-4) by (auto simp: srv_ok_def uids_fit_def ran_def split: if_splits)
  moreover have "service_event_cb type fd (srv_sessions srv) = Some st"
    using True st(1) by (cases type) (simp_all add: service_event_cb_def ends_connection_def)
  ultimately show ?thesis using True st by auto
next
  case False
  with srv show ?thesis by (auto simp: service_event_cb_def ends_connection_def)
qed

lemma close_keeps_tasks: "ep_service_on_close fd svc = Some (svc', evs) \<Longrightarrow> svc_tasks svc' = svc_tasks svc"
  by (auto simp: ep_service_on_close_def svc_tasks_def ep_io_del_def Let_def split: option.splits bind_splits prod.splits)

lemma accept_keeps_tasks: "ep_service_on_accept fd x svc = (svc', evs) \<Longrightarrow> svc_tasks svc' = svc_tasks svc"
  by (auto simp: ep_service_on_accept_def svc_tasks_def ep_io_add_def Let_def split: option.splits prod.splits if_splits)

text \<open>Closing a connection and accepting the next one on the same descriptor: two events, and the same tasks in the queue of the pool.\<close>

lemma close_then_accept:
  fixes s :: "(unit, 'cb, 'o) ep_service sock"
  assumes s: "sock_inv svc_ok svc_conns s" and fd: "fd \<in> svc_conns (so_svc s)" "fd < 10240" and i: "in_accept i = fd" "in_ctl i"
  obtains s1 s2 where "aeClientClose service_cb fd s = Some s1" and "so_log s1 = so_log s @ [(event_fd_close, fd)]"
    and "aeAcceptTcpHandler service_cb listen i s1 = Some s2" and "so_log s2 = so_log s1 @ [(event_fd_accept, fd)]"
    and "fd \<in> svc_conns (so_svc s2)" and "svc_tasks (so_svc s2) = svc_tasks (so_svc s)" and "sock_inv svc_ok svc_conns s2"
proof -
  have nn: "0 \<le> fd" using service.watch_range s fd(1) by (simp add: sock_inv_def)
  have ok: "svc_ok (so_svc s)" using s by (simp add: sock_inv_def sock_at_def)
  obtain s1 where s1: "aeClientClose service_cb fd s = Some s1" "sock_inv svc_ok svc_conns s1"
    using service.client_close_inv [of "svc_conns (so_svc s)" s fd] s fd(1) by (auto simp: sock_inv_def)
  obtain svc1 where c: "on_close service_cb fd (so_svc s) = Some (svc1, [(event_fd_close, fd)])" "svc_conns svc1 = svc_conns (so_svc s) - {fd}"
    using service.close_law [OF ok, of fd] fd(1) by auto
  have e1: "so_svc s1 = svc1" "so_log s1 = so_log s @ [(event_fd_close, fd)]" "so_open s1 = removeAll fd (so_open s)"
    using s1(1) c(1) by (auto simp: aeClientClose_def client_close_fd_def client_close_notify_def split: bind_splits)
  have fresh: "in_accept i \<notin> set (so_open s1)" "0 \<le> in_accept i" using e1(3) i nn by simp_all
  obtain s2 where s2: "aeAcceptTcpHandler service_cb listen i s1 = Some s2" "sock_inv svc_ok svc_conns s2"
    using service.accept_inv [OF s1(2) fresh(2,1)] by blast
  have ok1: "svc_ok (so_svc s1)" using s1(2) by (simp add: sock_inv_def sock_at_def)
  obtain svc2 where a: "on_accept service_cb fd (so_svc s1) = (svc2, [(event_fd_accept, fd)])" "svc_conns svc2 = insert fd (svc_conns (so_svc s1))"
    using service.accept_law [OF ok1, of fd] c(2) e1(1) by auto
  obtain el where el: "s_event_loop s1 = Some el" "el_ok el" "el_setsize el = 10240" using s1(2) unfolding sock_inv_def sock_at_def by blast
  obtain el' where el': "aeCreateFileEvent True el fd AE_READABLE proc_aeReadFromClient = Some (0, el')"
    by (rule create_event_spec [OF el(2) nn, of True proc_aeReadFromClient]) (use el(3) fd(2) in simp)
  have e2: "so_svc s2 = svc2" "so_log s2 = so_log s1 @ [(event_fd_accept, fd)]"
    using s2(1) a(1) el(1) el' i nn by (auto simp: aeAcceptTcpHandler_def Let_def)
  have "svc_tasks svc1 = svc_tasks (so_svc s)" "svc_tasks svc2 = svc_tasks svc1"
    using c(1) a(1) e1(1) close_keeps_tasks accept_keeps_tasks by (auto simp: service_cb_def)
  then show ?thesis using that s1(1) e1(2) s2 e2 a(2) by simp
qed

section \<open>A login that comes too late\<close>



end
