(* ===== verification/YM_Dbp.thy ===== *)
theory YM_Dbp
  imports YM_Provider
begin

text \<open>
  Opening and closing a database, and the dispatch of the operations to the provider of a handle (\<open>dbprovider/db_provider.c\<close>, and
  the rest of \<open>db_provider_sqlite.c\<close>). The build has one provider, SQLite. The file system and \<open>sqlite3_open\<close> are parameters:
  whether a path exists, whether a directory can be made, and the database that opening a file gives. In the results, an outer
  \<open>None\<close> is undefined behaviour, and an inner one a null pointer.
\<close>

section \<open>The model\<close>

datatype dbp_sql = dbp_sqlite

record 'db file_system =
  fs_access :: "string \<Rightarrow> bool"
  fs_mkdir :: "string \<Rightarrow> bool"
  fs_open :: "string \<Rightarrow> 'db option"

text \<open>\<open>strrchr\<close> and the cut there.\<close>

definition before_last :: "char \<Rightarrow> string \<Rightarrow> string option" where
  "before_last c s = (if c \<in> set s then Some (rev (drop 1 (dropWhile (\<lambda>d. d \<noteq> c) (rev s)))) else None)"

definition dir_of :: "string \<Rightarrow> string option" where
  "dir_of path = (case before_last (CHR 0x5C) path of Some p \<Rightarrow> Some p | None \<Rightarrow> before_last CHR ''/'' path)"

definition dbp_init_sqlite :: "'db file_system \<Rightarrow> string \<Rightarrow> 'db option" where
  "dbp_init_sqlite fs db =
     (let made = (if fs_access fs db then True
                  else case dir_of db of None \<Rightarrow> True | Some path \<Rightarrow> if fs_access fs path then True else fs_mkdir fs path)
      in if made then fs_open fs db else None)"

definition create_new_sqlite :: "'db file_system \<Rightarrow> string \<Rightarrow> 'db dbp option" where
  "create_new_sqlite fs db =
     (case dbp_init_sqlite fs db of None \<Rightarrow> None | Some h_sql \<Rightarrow> Some (dbp_create_new_sqlite h_sql))"

text \<open>Closing destroys the lock, which must not be held.\<close>

definition dbp_free_sqlite :: "'db dbp \<Rightarrow> 'db option" where
  "dbp_free_sqlite p = (if dbp_locked p then None else Some (dbp_db p))"

record 'db dbp_provider_type =
  pt_provider :: dbp_sql
  pfn_dbp_create_new :: "string \<Rightarrow> 'db dbp option"
  pfn_dbp_query :: "string \<Rightarrow> 'db dbp \<Rightarrow> (dbp_query_ret \<times> 'db dbp) option"
  pfn_dbp_num_fields :: "'db dbp \<Rightarrow> nat"
  pfn_dbp_fetch_row :: "'db dbp \<Rightarrow> ((nat \<times> dbp_cell list) option \<times> 'db dbp) option"
  pfn_dbp_fetch_row_free :: "nat \<Rightarrow> 'db dbp \<Rightarrow> 'db dbp option"
  pfn_dbp_query_reset :: "'db dbp \<Rightarrow> 'db dbp option"
  pfn_dbp_exec :: "string \<Rightarrow> 'db dbp \<Rightarrow> (int \<times> 'db dbp) option"
  pfn_dbp_free :: "'db dbp \<Rightarrow> 'db option"

record 'db dbp_inst =
  inst_type :: "'db dbp_provider_type"
  real_handle :: "'db dbp"

definition sqlite_provider :: "'db sql_engine \<Rightarrow> 'db file_system \<Rightarrow> 'db dbp_provider_type" where
  "sqlite_provider eng fs =
     \<lparr>pt_provider = dbp_sqlite, pfn_dbp_create_new = create_new_sqlite fs, pfn_dbp_query = dbp_query eng,
      pfn_dbp_num_fields = dbp_num_fields, pfn_dbp_fetch_row = dbp_fetch_row, pfn_dbp_fetch_row_free = dbp_fetch_row_free,
      pfn_dbp_query_reset = dbp_query_reset, pfn_dbp_exec = dbp_exec eng, pfn_dbp_free = dbp_free_sqlite\<rparr>"

definition providers :: "'db sql_engine \<Rightarrow> 'db file_system \<Rightarrow> 'db dbp_provider_type list" where
  "providers eng fs = [sqlite_provider eng fs]"

definition dbp_get_type_by_provider :: "'db dbp_provider_type list \<Rightarrow> dbp_sql \<Rightarrow> 'db dbp_provider_type option" where
  "dbp_get_type_by_provider ps p = find (\<lambda>t. pt_provider t = p) ps"

definition dbp_new :: "'db dbp_provider_type list \<Rightarrow> dbp_sql \<Rightarrow> string \<Rightarrow> 'db dbp_inst option option" where
  "dbp_new ps p conf_db = do {
     type \<leftarrow> dbp_get_type_by_provider ps p;
     Some (map_option (\<lambda>h. \<lparr>inst_type = type, real_handle = h\<rparr>) (pfn_dbp_create_new type conf_db))
   }"

definition inst_query :: "string \<Rightarrow> 'db dbp_inst \<Rightarrow> (dbp_query_ret \<times> 'db dbp_inst) option" where
  "inst_query sql i = do { (r, h) \<leftarrow> pfn_dbp_query (inst_type i) sql (real_handle i); Some (r, i\<lparr>real_handle := h\<rparr>) }"

definition inst_num_fields :: "'db dbp_inst \<Rightarrow> nat" where
  "inst_num_fields i = pfn_dbp_num_fields (inst_type i) (real_handle i)"

definition inst_fetch_row :: "'db dbp_inst \<Rightarrow> ((nat \<times> dbp_cell list) option \<times> 'db dbp_inst) option" where
  "inst_fetch_row i = do { (r, h) \<leftarrow> pfn_dbp_fetch_row (inst_type i) (real_handle i); Some (r, i\<lparr>real_handle := h\<rparr>) }"

definition inst_fetch_row_free :: "nat \<Rightarrow> 'db dbp_inst \<Rightarrow> 'db dbp_inst option" where
  "inst_fetch_row_free row i = do { h \<leftarrow> pfn_dbp_fetch_row_free (inst_type i) row (real_handle i); Some (i\<lparr>real_handle := h\<rparr>) }"

definition inst_query_reset :: "'db dbp_inst \<Rightarrow> 'db dbp_inst option" where
  "inst_query_reset i = do { h \<leftarrow> pfn_dbp_query_reset (inst_type i) (real_handle i); Some (i\<lparr>real_handle := h\<rparr>) }"

definition inst_exec :: "string \<Rightarrow> 'db dbp_inst \<Rightarrow> (int \<times> 'db dbp_inst) option" where
  "inst_exec sql i = do { (r, h) \<leftarrow> pfn_dbp_exec (inst_type i) sql (real_handle i); Some (r, i\<lparr>real_handle := h\<rparr>) }"

definition inst_free :: "'db dbp_inst \<Rightarrow> 'db option" where
  "inst_free i = pfn_dbp_free (inst_type i) (real_handle i)"

section \<open>A session with a database\<close>

text \<open>The operations as the values of a type, run on a handle and on the SQLite provider itself.\<close>

datatype dbp_op = Op_exec string | Op_query string | Op_fetch | Op_free nat | Op_reset

datatype dbp_out = Out_exec int | Out_query dbp_query_ret | Out_row "(nat \<times> dbp_cell list) option" | Out_none

fun inst_do :: "dbp_op \<Rightarrow> 'db dbp_inst \<Rightarrow> (dbp_out \<times> 'db dbp_inst) option" where
  "inst_do (Op_exec s) i = map_option (\<lambda>(r, i). (Out_exec r, i)) (inst_exec s i)"
| "inst_do (Op_query s) i = map_option (\<lambda>(r, i). (Out_query r, i)) (inst_query s i)"
| "inst_do Op_fetch i = map_option (\<lambda>(r, i). (Out_row r, i)) (inst_fetch_row i)"
| "inst_do (Op_free a) i = map_option (\<lambda>i. (Out_none, i)) (inst_fetch_row_free a i)"
| "inst_do Op_reset i = map_option (\<lambda>i. (Out_none, i)) (inst_query_reset i)"

fun sqlite_do :: "'db sql_engine \<Rightarrow> dbp_op \<Rightarrow> 'db dbp \<Rightarrow> (dbp_out \<times> 'db dbp) option" where
  "sqlite_do eng (Op_exec s) p = map_option (\<lambda>(r, p). (Out_exec r, p)) (dbp_exec eng s p)"
| "sqlite_do eng (Op_query s) p = map_option (\<lambda>(r, p). (Out_query r, p)) (dbp_query eng s p)"
| "sqlite_do eng Op_fetch p = map_option (\<lambda>(r, p). (Out_row r, p)) (dbp_fetch_row p)"
| "sqlite_do eng (Op_free a) p = map_option (\<lambda>p. (Out_none, p)) (dbp_fetch_row_free a p)"
| "sqlite_do eng Op_reset p = map_option (\<lambda>p. (Out_none, p)) (dbp_query_reset p)"

primrec run_ops :: "('o \<Rightarrow> 's \<Rightarrow> ('r \<times> 's) option) \<Rightarrow> 'o list \<Rightarrow> 's \<Rightarrow> ('r list \<times> 's) option" where
  "run_ops f [] s = Some ([], s)"
| "run_ops f (x # xs) s = do { (r, s) \<leftarrow> f x s; (rs, s) \<leftarrow> run_ops f xs s; Some (r # rs, s) }"

definition sqlite_inst :: "'db sql_engine \<Rightarrow> 'db file_system \<Rightarrow> 'db dbp \<Rightarrow> 'db dbp_inst" where
  "sqlite_inst eng fs p = \<lparr>inst_type = sqlite_provider eng fs, real_handle = p\<rparr>"

lemma inst_do_sqlite:
  "inst_do x (sqlite_inst eng fs p) = map_option (\<lambda>(r, p). (r, sqlite_inst eng fs p)) (sqlite_do eng x p)"
  by (cases x) (auto simp: sqlite_inst_def inst_exec_def inst_query_def inst_fetch_row_def inst_fetch_row_free_def inst_query_reset_def
      sqlite_provider_def split: prod.splits bind_splits)

lemma run_inst_sqlite:
  "run_ops inst_do xs (sqlite_inst eng fs p) = map_option (\<lambda>(rs, p). (rs, sqlite_inst eng fs p)) (run_ops (sqlite_do eng) xs p)"
  by (induction xs arbitrary: p) (auto simp: inst_do_sqlite split: prod.splits bind_splits)

text \<open>A database is opened exactly when its file can be, its directory being made first where only that is missing.\<close>

lemma dbp_new_spec:
  "dbp_new (providers eng fs) dbp_sqlite db = Some (map_option (\<lambda>h. sqlite_inst eng fs (dbp_create_new_sqlite h))
     (if fs_access fs db \<or> dir_of db = None \<or> fs_access fs (the (dir_of db)) \<or> fs_mkdir fs (the (dir_of db)) then fs_open fs db else None))"
  by (auto simp: dbp_new_def dbp_get_type_by_provider_def providers_def sqlite_provider_def create_new_sqlite_def dbp_init_sqlite_def
      sqlite_inst_def Let_def split: option.splits)

lemma dir_of_plain:
  assumes "CHR ''/'' \<notin> set name" and "CHR 0x5C \<notin> set (dir @ name)"
  shows "dir_of (dir @ CHR ''/'' # name) = Some dir"
proof -
  have "dropWhile (\<lambda>d. d \<noteq> CHR ''/'') (rev name @ CHR ''/'' # rev dir) = CHR ''/'' # rev dir"
    using assms(1) by (subst dropWhile_append2) auto
  then show ?thesis using assms(2) by (simp add: dir_of_def before_last_def)
qed

end
