(* ===== verification/YM_Timer.thy ===== *)
theory YM_Timer
  imports EP_Prelude "HOL-Library.Signed_Division"
begin

text \<open>
  The timers of \<open>src/utils/timer.c\<close>: a list of periodic timers and a thread that sleeps, takes the time that has passed off every
  timer and calls those that are due. The clock is an argument: a tick carries what the two calls of
  \<open>gettimeofday\<close> around the sleep give. What other threads do between two rounds (adding and deleting timers, setting the stop
  sign) is part of the tick. \<open>int\<close> fields are 32 bit words, and a \<open>long\<close> is an integer. A callback is a function on the state
  of the application that says whether its timer is to be given up; that callbacks do not themselves add or delete
  timers is a restriction of the model. The addresses of the timers called are given with the new state.
\<close>

section \<open>The model\<close>

record timeval =
  tv_sec :: int
  tv_usec :: int

record 'cb st_timer =
  tm_addr :: nat
  timer_cb :: 'cb
  milliseconds :: "32 word"
  remaining :: "32 word"
  b_auto_delete :: bool
  b_sign_as_deleted :: bool

record 'cb timer =
  timer_list :: "'cb st_timer list"
  stop_sign :: bool
  last_timeval :: timeval
  tickfps :: "32 word"
  timer_next :: nat

definition my_timer_sub :: "timeval \<Rightarrow> timeval \<Rightarrow> int" where
  "my_timer_sub now0 last0 =
     (let usec = tv_usec now0 - tv_usec last0;
          sec = (if usec < 0 then tv_sec now0 - 1 else tv_sec now0);
          usec = (if usec < 0 then usec + 1000000 else usec)
      in (sec - tv_sec last0) * 1000 + usec sdiv 1000)"

definition sync_remaining :: "int \<Rightarrow> 32 word \<Rightarrow> 32 word" where
  "sync_remaining elapsed_sec r =
     (if r \<noteq> 0 then
        let r = word_of_int (sint r - elapsed_sec) in if sint r < 0 then 0 else r
      else r)"

primrec sync_list :: "bool \<Rightarrow> int \<Rightarrow> 'cb st_timer list \<Rightarrow> 'cb st_timer list" where
  "sync_list stop elapsed_sec [] = []"
| "sync_list stop elapsed_sec (tmp # pos) =
     (if b_sign_as_deleted tmp \<or> stop then sync_list stop elapsed_sec pos
      else tmp\<lparr>remaining := sync_remaining elapsed_sec (remaining tmp)\<rparr> # sync_list stop elapsed_sec pos)"

text \<open>\<open>t0\<close> is the reading before the sleep, which \<open>timer_tick\<close> returns, \<open>t1\<close> the one after it.\<close>

definition timer_synchronize :: "timeval \<Rightarrow> timeval \<Rightarrow> 'cb timer \<Rightarrow> int \<times> 'cb timer" where
  "timer_synchronize t0 t1 timer =
     (let timer = timer\<lparr>last_timeval := t0\<rparr>;
          elapsed_sec = my_timer_sub t1 (last_timeval timer);
          timer = timer\<lparr>timer_list := sync_list (stop_sign timer) elapsed_sec (timer_list timer)\<rparr>
      in (if stop_sign timer then - 1 else 0, timer))"

primrec step_list :: "('cb \<Rightarrow> 'w \<Rightarrow> bool \<times> 'w) \<Rightarrow> 'cb st_timer list \<Rightarrow> 'w \<Rightarrow> 'cb st_timer list \<times> 'w \<times> nat list" where
  "step_list run [] w = ([], w, [])"
| "step_list run (tmp # pos) w =
     (if remaining tmp = 0 then
        let (b_abort_clock, w) = run (timer_cb tmp) w;
            tmp' = (if b_abort_clock then tmp\<lparr>b_sign_as_deleted := True\<rparr> else tmp\<lparr>remaining := milliseconds tmp\<rparr>);
            (pos, w, fired) = step_list run pos w
        in (tmp' # pos, w, tm_addr tmp # fired)
      else
        let (pos, w, fired) = step_list run pos w in (tmp # pos, w, fired))"

definition timer_step ::
  "('cb \<Rightarrow> 'w \<Rightarrow> bool \<times> 'w) \<Rightarrow> timeval \<Rightarrow> timeval \<Rightarrow> 'cb timer \<Rightarrow> 'w \<Rightarrow> int \<times> 'cb timer \<times> 'w \<times> nat list" where
  "timer_step run t0 t1 timer w =
     (case timer_synchronize t0 t1 timer of
        (ret, timer) \<Rightarrow>
          if ret = - 1 then (ret, timer, w, [])
          else let (ts, w, fired) = step_list run (timer_list timer) w in (0, timer\<lparr>timer_list := ts\<rparr>, w, fired))"

definition timer_init :: "32 word \<Rightarrow> timeval \<Rightarrow> 'cb timer" where
  "timer_init fps now = \<lparr>timer_list = [], stop_sign = False, last_timeval = now, tickfps = fps, timer_next = 0\<rparr>"

definition timer_create :: "'cb \<Rightarrow> 32 word \<Rightarrow> bool \<Rightarrow> 'cb timer \<Rightarrow> nat \<times> 'cb timer" where
  "timer_create cb ms auto timer =
     (timer_next timer, timer\<lparr>timer_list := timer_list timer @
        [\<lparr>tm_addr = timer_next timer, timer_cb = cb, milliseconds = ms, remaining = ms, b_auto_delete = auto, b_sign_as_deleted = False\<rparr>],
        timer_next := timer_next timer + 1\<rparr>)"

text \<open>The first timer with that address is marked; it is taken off the list by the thread.\<close>

primrec mark_deleted :: "nat \<Rightarrow> 'cb st_timer list \<Rightarrow> int \<times> 'cb st_timer list" where
  "mark_deleted a [] = (- 1, [])"
| "mark_deleted a (tmp # pos) =
     (if tm_addr tmp = a then (0, tmp\<lparr>b_sign_as_deleted := True\<rparr> # pos)
      else let (ret, pos) = mark_deleted a pos in (ret, tmp # pos))"

definition timer_del :: "nat \<Rightarrow> 'cb timer \<Rightarrow> int \<times> 'cb timer" where
  "timer_del a timer = (let (ret, ts) = mark_deleted a (timer_list timer) in (ret, timer\<lparr>timer_list := ts\<rparr>))"

section \<open>The thread\<close>

datatype 'cb timer_op = Timer_create 'cb "32 word" bool | Timer_del nat | Timer_stop

definition timer_do :: "'cb timer \<Rightarrow> 'cb timer_op \<Rightarrow> 'cb timer" where
  "timer_do timer x =
     (case x of
        Timer_create cb ms auto \<Rightarrow> snd (timer_create cb ms auto timer)
      | Timer_del a \<Rightarrow> snd (timer_del a timer)
      | Timer_stop \<Rightarrow> timer\<lparr>stop_sign := True\<rparr>)"

record 'cb tick =
  tick_ops :: "'cb timer_op list"
  tick_before :: timeval
  tick_after :: timeval

text \<open>The loop of \<open>timer_clock_proc\<close> over the ticks that are given: whether it has ended, and the timers called in each of its rounds
  but the last.\<close>

primrec timer_clock_proc ::
  "('cb \<Rightarrow> 'w \<Rightarrow> bool \<times> 'w) \<Rightarrow> 'cb tick list \<Rightarrow> 'cb timer \<Rightarrow> 'w \<Rightarrow> bool \<times> 'cb timer \<times> 'w \<times> nat list list" where
  "timer_clock_proc run [] timer w = (False, timer, w, [])"
| "timer_clock_proc run (k # ks) timer w =
     (let timer = foldl timer_do timer (tick_ops k);
          (ret, timer, w, fired) = timer_step run (tick_before k) (tick_after k) timer w
      in if ret = - 1 then (True, timer, w, [])
         else let (ended, timer, w, log) = timer_clock_proc run ks timer w in (ended, timer, w, fired # log))"

text \<open>Destroying: the stop sign is set, the thread is joined, and the timers still on the list, which are given, are freed. \<open>None\<close>: the
  join has not returned within the ticks.\<close>

definition timer_destroy :: "('cb \<Rightarrow> 'w \<Rightarrow> bool \<times> 'w) \<Rightarrow> 'cb tick list \<Rightarrow> 'cb timer \<Rightarrow> 'w \<Rightarrow> ('cb st_timer list \<times> 'w) option" where
  "timer_destroy run ks timer w =
     (case timer_clock_proc run ks (timer\<lparr>stop_sign := True\<rparr>) w of
        (ended, timer, w, log) \<Rightarrow> if ended then Some (timer_list timer, w) else None)"

section \<open>The clock\<close>

definition tv_ok :: "timeval \<Rightarrow> bool" where
  "tv_ok t \<longleftrightarrow> 0 \<le> tv_usec t \<and> tv_usec t < 1000000"

definition tv_total :: "timeval \<Rightarrow> int" where
  "tv_total t = tv_sec t * 1000000 + tv_usec t"

lemma sdiv_nonneg: "0 \<le> u \<Longrightarrow> u sdiv 1000 = u div (1000 :: int)"
  by (cases "u = 0") (simp_all add: signed_divide_int_def)

lemma my_timer_sub_eq:
  assumes "tv_ok a" and "tv_ok b"
  shows "my_timer_sub a b = (tv_total a - tv_total b) div 1000"
proof -
  let ?u = "tv_usec a - tv_usec b"
  have split: "(s * 1000000 + u) div 1000 = s * 1000 + u div (1000 :: int)" for s u by simp
  show ?thesis
  proof (cases "?u < 0")
    case True
    have "tv_total a - tv_total b = (tv_sec a - 1 - tv_sec b) * 1000000 + (?u + 1000000)" by (simp add: tv_total_def algebra_simps)
    then show ?thesis using True assms split [of "tv_sec a - 1 - tv_sec b" "?u + 1000000"]
      by (simp add: my_timer_sub_def Let_def tv_ok_def sdiv_nonneg)
  next
    case False
    have "tv_total a - tv_total b = (tv_sec a - tv_sec b) * 1000000 + ?u" by (simp add: tv_total_def algebra_simps)
    then show ?thesis using False split [of "tv_sec a - tv_sec b" ?u]
      by (simp add: my_timer_sub_def Let_def sdiv_nonneg)
  qed
qed

definition tick_elapsed :: "'cb tick \<Rightarrow> int" where
  "tick_elapsed k = my_timer_sub (tick_after k) (tick_before k)"

text \<open>When a timer of period \<open>m\<close> is called: as soon as the time counted since its last call, or since it was added, is at least the period.
  What is above the period is lost.\<close>

primrec due :: "int \<Rightarrow> int \<Rightarrow> int list \<Rightarrow> bool list" where
  "due m acc [] = []"
| "due m acc (e # es) = (m \<le> acc + e) # due m (if m \<le> acc + e then 0 else acc + e) es"

section \<open>One timer among the others\<close>

definition timer_ok :: "'cb timer \<Rightarrow> bool" where
  "timer_ok timer \<longleftrightarrow> distinct (map tm_addr (timer_list timer)) \<and> (\<forall>t \<in> set (timer_list timer). tm_addr t < timer_next timer)"

text \<open>The timer is on the list, is not to be deleted, and \<open>acc\<close> of its period has passed.\<close>

definition holds :: "nat \<Rightarrow> 'cb \<Rightarrow> 32 word \<Rightarrow> int \<Rightarrow> 'cb timer \<Rightarrow> bool" where
  "holds a cb m acc timer \<longleftrightarrow> timer_ok timer \<and>
     (\<exists>t \<in> set (timer_list timer). tm_addr t = a \<and> timer_cb t = cb \<and> milliseconds t = m \<and> sint (remaining t) = sint m - acc \<and>
        \<not> b_sign_as_deleted t)"

lemma sync_remaining_less:
  assumes "0 < sint r" and "0 \<le> e" and "e < 2 ^ 31"
  shows "sint (sync_remaining e r) = (if sint r \<le> e then 0 else sint r - e)"
proof -
  have r: "sint r < 2 ^ 31" using sint_lt [of r] by simp
  have "sint (word_of_int (sint r - e) :: 32 word) = signed_take_bit 31 (sint r - e)" by (subst sint_sbintrunc') simp
  also have "\<dots> = sint r - e" using assms r by (intro signed_take_bit_int_eq_self) simp_all
  finally have "sint (word_of_int (sint r - e) :: 32 word) = sint r - e" .
  moreover have "r \<noteq> 0" using assms(1) by auto
  ultimately show ?thesis using assms by (auto simp: sync_remaining_def Let_def)
qed

lemma mark_deleted_addrs [simp]: "map tm_addr (snd (mark_deleted a ts)) = map tm_addr ts"
  by (induction ts) (auto split: prod.splits)

lemma mark_deleted_other: "t \<in> set ts \<Longrightarrow> tm_addr t \<noteq> a \<Longrightarrow> t \<in> set (snd (mark_deleted a ts))"
  by (induction ts) (auto split: prod.splits)

lemma addrs_ok: "timer_ok timer \<longleftrightarrow> distinct (map tm_addr (timer_list timer)) \<and> (\<forall>a \<in> set (map tm_addr (timer_list timer)). a < timer_next timer)"
  by (auto simp: timer_ok_def)

lemma timer_do_holds:
  assumes h: "holds a cb m acc timer" and x: "x \<noteq> Timer_stop" "x \<noteq> Timer_del a"
  shows "holds a cb m acc (timer_do timer x) \<and> stop_sign (timer_do timer x) = stop_sign timer"
proof (cases x)
  case (Timer_create cb' ms auto)
  have "timer_ok timer" using h by (simp add: holds_def)
  then have "timer_ok (timer_do timer x)" by (auto simp: Timer_create timer_do_def timer_create_def timer_ok_def less_SucI)
  with h show ?thesis by (auto simp: holds_def Timer_create timer_do_def timer_create_def)
next
  case (Timer_del b)
  have "timer_ok timer" using h by (simp add: holds_def)
  then have "timer_ok (timer_do timer x)" by (simp add: Timer_del timer_do_def timer_del_def addrs_ok split_beta del: set_map)
  moreover obtain t where t: "t \<in> set (timer_list timer)" "tm_addr t = a" "timer_cb t = cb" "milliseconds t = m" "sint (remaining t) = sint m - acc"
    "\<not> b_sign_as_deleted t" using h by (auto simp: holds_def)
  have "t \<in> set (timer_list (timer_do timer x))"
    using mark_deleted_other [OF t(1), of b] t(2) x(2) by (simp add: Timer_del timer_do_def timer_del_def split_beta)
  moreover have "stop_sign (timer_do timer x) = stop_sign timer" by (simp add: Timer_del timer_do_def timer_del_def split_beta)
  ultimately show ?thesis using t unfolding holds_def by blast
qed (use x in simp)

lemma timer_ops_holds:
  "holds a cb m acc timer \<Longrightarrow> Timer_stop \<notin> set xs \<Longrightarrow> Timer_del a \<notin> set xs \<Longrightarrow>
   holds a cb m acc (foldl timer_do timer xs) \<and> stop_sign (foldl timer_do timer xs) = stop_sign timer"
proof (induction xs arbitrary: timer)
  case (Cons x xs)
  then show ?case using timer_do_holds [of a cb m acc timer x] by auto
qed simp

lemma sync_list_eq:
  "sync_list stop e ts = (if stop then [] else
     map (\<lambda>t. t\<lparr>remaining := sync_remaining e (remaining t)\<rparr>) (filter (\<lambda>t. \<not> b_sign_as_deleted t) ts))"
  by (induction ts) auto

lemma sync_list_addrs: "map tm_addr (sync_list False e ts) = map tm_addr (filter (\<lambda>t. \<not> b_sign_as_deleted t) ts)"
  by (simp add: sync_list_eq)

lemma step_list_addrs: "map tm_addr (fst (step_list run ts w)) = map tm_addr ts"
  by (induction ts arbitrary: w) (simp_all add: Let_def split_beta)

lemma step_list_fired: "set (snd (snd (step_list run ts w))) \<subseteq> tm_addr ` set ts"
proof (induction ts arbitrary: w)
  case (Cons t ts)
  then show ?case using Cons.IH [of w] Cons.IH [of "snd (run (timer_cb t) w)"] by (auto simp: Let_def split_beta)
qed simp

definition keeps_on :: "('cb \<Rightarrow> 'w \<Rightarrow> bool \<times> 'w) \<Rightarrow> 'cb \<Rightarrow> bool" where
  "keeps_on run cb \<longleftrightarrow> (\<forall>w. \<not> fst (run cb w))"

lemma step_list_spec:
  assumes "distinct (map tm_addr ts)" and "t \<in> set ts" and "keeps_on run (timer_cb t)"
  shows "(tm_addr t \<in> set (snd (snd (step_list run ts w))) \<longleftrightarrow> remaining t = 0) \<and>
    (if remaining t = 0 then t\<lparr>remaining := milliseconds t\<rparr> else t) \<in> set (fst (step_list run ts w))"
  using assms
proof (induction ts arbitrary: w)
  case (Cons x xs)
  obtain ab w1 where r: "run (timer_cb x) w = (ab, w1)" by (cases "run (timer_cb x) w")
  show ?case
  proof (cases "x = t")
    case True
    have "\<not> ab" using Cons.prems(3) True r by (metis fst_conv keeps_on_def)
    moreover have "tm_addr t \<notin> set (snd (snd (step_list run xs w')))" for w'
      using Cons.prems(1) True step_list_fired [of run xs w'] by auto
    ultimately show ?thesis using True r by (simp add: Let_def split_beta)
  next
    case False
    then have t: "t \<in> set xs" "tm_addr x \<noteq> tm_addr t" using Cons.prems(1,2) by auto
    note IH = Cons.IH [OF _ t(1) Cons.prems(3)]
    show ?thesis using IH [of w] IH [of w1] Cons.prems(1) t(2) r
      by (cases "remaining t = 0") (simp_all add: Let_def split_beta)
  qed
qed simp

text \<open>A round of the thread, seen from one timer.\<close>

lemma timer_step_holds:
  assumes h: "holds a cb m acc timer" and acc: "0 \<le> acc" "acc < sint m" and st: "\<not> stop_sign timer"
    and e: "e = my_timer_sub t1 t0" "0 \<le> e" "e < 2 ^ 31" and na: "keeps_on run cb"
  obtains timer' w' fired where "timer_step run t0 t1 timer w = (0, timer', w', fired)" and "a \<in> set fired \<longleftrightarrow> sint m \<le> acc + e"
    and "holds a cb m (if sint m \<le> acc + e then 0 else acc + e) timer'" and "\<not> stop_sign timer'"
proof -
  obtain t where t: "t \<in> set (timer_list timer)" "tm_addr t = a" "timer_cb t = cb" "milliseconds t = m" "sint (remaining t) = sint m - acc"
    "\<not> b_sign_as_deleted t" and ok: "timer_ok timer" using h by (auto simp: holds_def)
  let ?ts = "sync_list False e (timer_list timer)" and ?t = "t\<lparr>remaining := sync_remaining e (remaining t)\<rparr>"
  have mem: "?t \<in> set ?ts" using t(1,6) by (auto simp: sync_list_eq)
  have rem: "sint (remaining ?t) = (if sint m \<le> acc + e then 0 else sint m - (acc + e))"
    using sync_remaining_less [of "remaining t" e] t(5) acc e(2,3) by auto
  then have zero: "remaining ?t = 0 \<longleftrightarrow> sint m \<le> acc + e" by (metis diff_gt_0_iff_gt less_irrefl not_le sint_0 signed_word_eqI)
  have dist: "distinct (map tm_addr ?ts)" using ok by (simp add: sync_list_addrs timer_ok_def distinct_map_filter)
  have "keeps_on run (timer_cb ?t)" using na t(3) by simp
  note spec = step_list_spec [OF dist mem this, of w]
  let ?r = "step_list run ?ts w" and ?t' = "if remaining ?t = 0 then ?t\<lparr>remaining := milliseconds ?t\<rparr> else ?t"
  let ?timer = "timer\<lparr>last_timeval := t0, timer_list := fst ?r\<rparr>"
  have step: "timer_step run t0 t1 timer w = (0, ?timer, fst (snd ?r), snd (snd ?r))"
    using st e(1) by (simp add: timer_step_def timer_synchronize_def Let_def split_beta)
  have "timer_ok ?timer" using ok dist by (auto simp: addrs_ok step_list_addrs sync_list_addrs simp del: set_map) auto
  moreover have "?t' \<in> set (timer_list ?timer)" using spec by simp
  moreover have "tm_addr ?t' = a" "timer_cb ?t' = cb" "milliseconds ?t' = m" "\<not> b_sign_as_deleted ?t'" using t by simp_all
  moreover have "sint (remaining ?t') = sint m - (if sint m \<le> acc + e then 0 else acc + e)" using rem zero t(4) by simp
  ultimately have "holds a cb m (if sint m \<le> acc + e then 0 else acc + e) ?timer" unfolding holds_def by blast
  moreover have "a \<in> set (snd (snd ?r)) \<longleftrightarrow> sint m \<le> acc + e" using spec zero t(2) by simp
  ultimately show ?thesis by (intro that [OF step]) (use st in simp_all)
qed

lemma timer_clock_schedule:
  assumes "holds a cb m acc timer" and "0 \<le> acc" and "acc < sint m" and "\<not> stop_sign timer" and "keeps_on run cb"
    and "\<forall>k \<in> set ks. Timer_stop \<notin> set (tick_ops k) \<and> Timer_del a \<notin> set (tick_ops k) \<and> 0 \<le> tick_elapsed k \<and> tick_elapsed k < 2 ^ 31"
  shows "\<exists>timer' w' log. timer_clock_proc run ks timer w = (False, timer', w', log) \<and>
    map (\<lambda>fired. a \<in> set fired) log = due (sint m) acc (map tick_elapsed ks)"
  using assms
proof (induction ks arbitrary: timer acc w)
  case (Cons k ks)
  let ?timer = "foldl timer_do timer (tick_ops k)" and ?e = "tick_elapsed k"
  let ?acc = "if sint m \<le> acc + ?e then 0 else acc + ?e"
  have ops: "holds a cb m acc ?timer" "\<not> stop_sign ?timer" using timer_ops_holds [OF Cons.prems(1), of "tick_ops k"] Cons.prems(4,6) by auto
  obtain timer' w' fired where st: "timer_step run (tick_before k) (tick_after k) ?timer w = (0, timer', w', fired)"
    "a \<in> set fired \<longleftrightarrow> sint m \<le> acc + ?e" "holds a cb m ?acc timer'" "\<not> stop_sign timer'"
    by (rule timer_step_holds [OF ops(1) Cons.prems(2,3) ops(2) tick_elapsed_def _ _ Cons.prems(5), of k w])
      (use Cons.prems(6) in auto)
  have "0 \<le> ?acc" "?acc < sint m" using Cons.prems(2,3,6) by auto
  from Cons.IH [OF st(3) this st(4) Cons.prems(5), of w'] Cons.prems(6) st(1,2) show ?case by auto
qed simp

section \<open>Properties\<close>

definition tick_ok :: "nat \<Rightarrow> 'cb tick \<Rightarrow> bool" where
  "tick_ok a k \<longleftrightarrow> Timer_stop \<notin> set (tick_ops k) \<and> Timer_del a \<notin> set (tick_ops k) \<and> tv_ok (tick_before k) \<and> tv_ok (tick_after k) \<and>
     tv_total (tick_before k) \<le> tv_total (tick_after k) \<and> tv_total (tick_after k) - tv_total (tick_before k) < 2 ^ 31 * 1000"

definition tick_ms :: "'cb tick \<Rightarrow> int" where
  "tick_ms k = (tv_total (tick_after k) - tv_total (tick_before k)) div 1000"

lemma tick_ok_elapsed:
  assumes "tick_ok a k"
  shows "tick_elapsed k = tick_ms k" and "0 \<le> tick_ms k" and "tick_ms k < 2 ^ 31"
  using assms my_timer_sub_eq [of "tick_after k" "tick_before k"]
  by (auto simp: tick_ok_def tick_elapsed_def tick_ms_def intro!: zdiv_mono1 div_less_dividend)

lemma tick_ok_laws:
  assumes "tick_ok a k"
  shows "Timer_stop \<notin> set (tick_ops k) \<and> Timer_del a \<notin> set (tick_ops k) \<and> 0 \<le> tick_elapsed k \<and> tick_elapsed k < 2 ^ 31"
  unfolding tick_ok_elapsed(1) [OF assms] using assms tick_ok_elapsed(2,3) [OF assms] by (simp add: tick_ok_def)

lemma created_holds:
  assumes "timer_ok timer" and "timer_create cb m auto timer = (a, timer1)"
  shows "holds a cb m 0 timer1" and "stop_sign timer1 = stop_sign timer"
proof -
  have "timer_ok timer1" using assms by (fastforce simp: timer_create_def timer_ok_def less_SucI)
  then show "holds a cb m 0 timer1" "stop_sign timer1 = stop_sign timer" using assms(2) by (auto simp: holds_def timer_create_def)
qed


definition demo_tick :: "int \<Rightarrow> bool tick" where
  "demo_tick us = \<lparr>tick_ops = [], tick_before = \<lparr>tv_sec = 5, tv_usec = 0\<rparr>, tick_after = \<lparr>tv_sec = 5, tv_usec = us\<rparr>\<rparr>"


lemma timer_ops_stop: "stop_sign (foldl timer_do timer xs) \<longleftrightarrow> stop_sign timer \<or> Timer_stop \<in> set xs"
  by (induction xs arbitrary: timer) (auto simp: timer_do_def timer_create_def timer_del_def split_beta split: timer_op.splits)

lemma timer_step_stop:
  "stop_sign timer \<Longrightarrow> timer_step run t0 t1 timer w = (- 1, timer\<lparr>last_timeval := t0, timer_list := []\<rparr>, w, [])"
  "\<not> stop_sign timer \<Longrightarrow> fst (timer_step run t0 t1 timer w) = 0 \<and> \<not> stop_sign (fst (snd (timer_step run t0 t1 timer w)))"
  by (simp_all add: timer_step_def timer_synchronize_def Let_def sync_list_eq split_beta)

lemma timer_clock_ends:
  "(fst (timer_clock_proc run ks timer w) \<longleftrightarrow> stop_sign timer \<and> ks \<noteq> [] \<or> (\<exists>k \<in> set ks. Timer_stop \<in> set (tick_ops k))) \<and>
   (fst (timer_clock_proc run ks timer w) \<longrightarrow> timer_list (fst (snd (timer_clock_proc run ks timer w))) = [])"
proof (induction ks arbitrary: timer w)
  case (Cons k ks)
  let ?timer = "foldl timer_do timer (tick_ops k)"
  let ?r = "timer_step run (tick_before k) (tick_after k) ?timer w"
  show ?case
  proof (cases "stop_sign ?timer")
    case True
    then show ?thesis using timer_ops_stop [of timer "tick_ops k"] by (auto simp: timer_step_stop(1) Let_def)
  next
    case False
    then have n: "\<not> stop_sign timer" "Timer_stop \<notin> set (tick_ops k)" using timer_ops_stop [of timer "tick_ops k"] by simp_all
    have "fst ?r = 0" "\<not> stop_sign (fst (snd ?r))" using timer_step_stop(2) [OF False, of run "tick_before k" "tick_after k" w] by simp_all
    then show ?thesis using Cons.IH [of "fst (snd ?r)" "fst (snd (snd ?r))"] n by (simp add: Let_def split_beta)
  qed
qed simp

text \<open>C38. The thread of the timers ends when, and only when, the stop sign is set: in the first round that sees it, without calling
  a timer in it, and after freeing every timer; so destroying the timers returns after one more round,
  whatever the timers and their callbacks are.\<close>

theorem timer_thread_ends:
  "timer_destroy run (k # ks) timer w = Some ([], w) \<and>
   (fst (timer_clock_proc run ks timer w) \<longleftrightarrow> stop_sign timer \<and> ks \<noteq> [] \<or> (\<exists>k \<in> set ks. Timer_stop \<in> set (tick_ops k))) \<and>
   (fst (timer_clock_proc run ks timer w) \<longrightarrow> timer_list (fst (snd (timer_clock_proc run ks timer w))) = [])"
proof -
  have "stop_sign (foldl timer_do (timer\<lparr>stop_sign := True\<rparr>) (tick_ops k))" by (simp add: timer_ops_stop)
  then have "timer_destroy run (k # ks) timer w = Some ([], w)" by (simp add: timer_destroy_def timer_step_stop(1) Let_def)
  then show ?thesis using timer_clock_ends [of run ks timer w] by blast
qed

theorem timer_thread_ends_witness:
  "timer_destroy (\<lambda>cb (w :: nat). (cb, w)) [demo_tick 0] (snd (timer_create False 0 False (timer_init 1000 \<lparr>tv_sec = 0, tv_usec = 0\<rparr>))) 3 =
     Some ([], 3) \<and>
   \<not> fst (timer_clock_proc (\<lambda>cb (w :: nat). (cb, w)) [demo_tick 0] (timer_init 1000 \<lparr>tv_sec = 0, tv_usec = 0\<rparr>) 3)"
  using timer_thread_ends [of "\<lambda>cb (w :: nat). (cb, w)" "demo_tick 0" "[]" "snd (timer_create False 0 False (timer_init 1000 \<lparr>tv_sec = 0, tv_usec = 0\<rparr>))" 3]
    timer_thread_ends [of "\<lambda>cb (w :: nat). (cb, w)" "demo_tick 0" "[demo_tick 0]" "timer_init 1000 \<lparr>tv_sec = 0, tv_usec = 0\<rparr>" 3]
  by (simp add: timer_init_def demo_tick_def)

text \<open>Ticks of less than a millisecond do not count at all: \<open>usleep\<close> sleeps \<open>tickfps\<close> microseconds, where milliseconds are meant, and each
  difference is cut to whole milliseconds. A timer whose thread is given a \<open>tickfps\<close> below 1000 is not called unless the sleeps are
  longer than asked for.\<close>

lemma due_zero: "0 \<le> acc \<Longrightarrow> acc < m \<Longrightarrow> \<forall>e \<in> set es. e = 0 \<Longrightarrow> True \<notin> set (due m acc es)"
  by (induction es arbitrary: acc) auto

lemma short_ticks_never_call:
  assumes "timer_ok timer" and "\<not> stop_sign timer" and "timer_create cb m auto timer = (a, timer1)" and "0 < sint m" and "keeps_on run cb"
    and ks: "\<forall>k \<in> set ks. tick_ok a k \<and> tv_total (tick_after k) - tv_total (tick_before k) < 1000"
  shows "\<forall>fired \<in> set (snd (snd (snd (timer_clock_proc run ks timer1 w)))). a \<notin> set fired"
proof -
  have el: "tick_elapsed k = 0" if "k \<in> set ks" for k
    using ks that tick_ok_elapsed(1) [of a k] by (auto simp: tick_ms_def tick_ok_def)
  then have ok: "\<forall>k \<in> set ks. Timer_stop \<notin> set (tick_ops k) \<and> Timer_del a \<notin> set (tick_ops k) \<and> 0 \<le> tick_elapsed k \<and> tick_elapsed k < 2 ^ 31"
    using ks tick_ok_laws by blast
  have "\<not> stop_sign timer1" using assms(2) created_holds(2) [OF assms(1,3)] by simp
  from timer_clock_schedule [OF created_holds(1) [OF assms(1,3)] order_refl assms(4) this assms(5) ok]
  obtain timer2 w2 log where l: "timer_clock_proc run ks timer1 w = (False, timer2, w2, log)"
    "map (\<lambda>fired. a \<in> set fired) log = due (sint m) 0 (map tick_elapsed ks)" by blast
  have "True \<notin> set (due (sint m) 0 (map tick_elapsed ks))" using due_zero [of 0 "sint m" "map tick_elapsed ks"] assms(4) el by auto
  then have "True \<notin> set (map (\<lambda>fired. a \<in> set fired) log)" using l(2) by simp
  then show ?thesis using l(1) by auto
qed

end
