(* ===== verification/YM_Log.thy ===== *)
theory YM_Log
  imports EP_Prelude
begin

text \<open>
  The log (\<open>log/src/log.c\<close>): its settings, the line of a message, and where it goes. The message is given after its own
  formatting, the clock and \<open>localtime\<close> as the fields they give, and a file as its contents; the console is the list of
  what \<open>colored_fputs\<close> was given. \<open>None\<close> is undefined behaviour.
\<close>

section \<open>The model\<close>

datatype log_level = log_level_error | log_level_warn | log_level_info | log_level_debug

record log_state =
  a_level :: log_level
  a_console_enable :: bool
  a_fp :: "string option"
  log_console :: "(log_level \<times> string) list"

record tm =
  tm_year :: int
  tm_mon :: int
  tm_mday :: int
  tm_hour :: int
  tm_min :: int
  tm_sec :: int
  tm_msec :: int

definition log_fini :: "log_state \<Rightarrow> log_state" where
  "log_fini st = st\<lparr>a_fp := None\<rparr>"

text \<open>\<open>opened\<close>: the contents of the file, or nothing when it cannot be opened.\<close>

definition log_init :: "string option \<Rightarrow> log_state \<Rightarrow> int \<times> log_state" where
  "log_init opened st =
     (let st = (log_fini st)\<lparr>a_fp := opened\<rparr> in (if a_fp st \<noteq> None then 1 else 0, st))"

definition log_set_level :: "log_level \<Rightarrow> log_state \<Rightarrow> log_state" where
  "log_set_level level st = st\<lparr>a_level := level\<rparr>"

definition log_set_console :: "bool \<Rightarrow> log_state \<Rightarrow> log_state" where
  "log_set_console enable st = st\<lparr>a_console_enable := enable\<rparr>"

text \<open>What \<open>fprintf\<close> writes for a format with one null argument: a conversion other than \<open>%%\<close> has no argument that fits it.\<close>

fun c_fprintf :: "string \<Rightarrow> string option" where
  "c_fprintf [] = Some []"
| "c_fprintf [c] = (if c = CHR ''%'' then None else Some [c])"
| "c_fprintf (c # d # s) =
     (if c \<noteq> CHR ''%'' then map_option (\<lambda>t. c # t) (c_fprintf (d # s))
      else if d = CHR ''%'' then map_option (\<lambda>t. CHR ''%'' # t) (c_fprintf s)
      else None)"

text \<open>The conversions of the line: zeros on the left, spaces on the right, the part after the last separator.\<close>

definition c_zpad :: "nat \<Rightarrow> int \<Rightarrow> string" where
  "c_zpad w n = replicate (w - length (c_int_str n)) CHR ''0'' @ c_int_str n"

definition c_rpad :: "nat \<Rightarrow> string \<Rightarrow> string" where
  "c_rpad w s = s @ replicate (w - length s) CHR '' ''"

definition after_last :: "char \<Rightarrow> string \<Rightarrow> string option" where
  "after_last c s = (if c \<in> set s then Some (rev (takeWhile (\<lambda>d. d \<noteq> c) (rev s))) else None)"

definition suffix_file :: "string \<Rightarrow> string" where
  "suffix_file c_file =
     (case after_last CHR ''/'' c_file of
        Some s \<Rightarrow> s
      | None \<Rightarrow> (case after_last (CHR 0x5C) c_file of Some s \<Rightarrow> s | None \<Rightarrow> c_file))"

definition c_level :: "log_level \<Rightarrow> string" where
  "c_level level =
     (case level of
        log_level_debug \<Rightarrow> ''DEBUG''
      | log_level_info \<Rightarrow> ''INFO''
      | log_level_warn \<Rightarrow> ''WARN''
      | log_level_error \<Rightarrow> ''ERROR'')"

definition CRLF :: string where
  "CRLF = [CHR 0x0D, CHR 0x0A]"

definition time_text :: "tm \<Rightarrow> string" where
  "time_text t = c_zpad 4 (tm_year t + 1900) @ ''-'' @ c_zpad 2 (tm_mon t + 1) @ ''-'' @ c_zpad 2 (tm_mday t) @ '' '' @
     c_zpad 2 (tm_hour t) @ '':'' @ c_zpad 2 (tm_min t) @ '':'' @ c_zpad 2 (tm_sec t) @ ''.'' @ c_zpad 3 (tm_msec t)"

text \<open>\<open>vsnprintf\<close> into 999 characters and \<open>snprintf\<close> into 1023, each with its terminator.\<close>

definition log_line :: "tm \<Rightarrow> log_level \<Rightarrow> string \<Rightarrow> string \<Rightarrow> string \<Rightarrow> int \<Rightarrow> string" where
  "log_line t level text c_file func line =
     take 1022 (time_text t @ '' '' @ c_rpad 5 (c_level level) @ '' - '' @ take 998 text @ '' ['' @ suffix_file c_file @ ''/'' @ func @
       ''('' @ c_int_str line @ '')]'' @ CRLF)"

definition log_line2 :: "tm \<Rightarrow> string \<Rightarrow> string" where
  "log_line2 t text = take 1022 (time_text t @ ''         '' @ take 998 text @ CRLF)"

definition log_put :: "log_level \<Rightarrow> string \<Rightarrow> log_state \<Rightarrow> log_state option" where
  "log_put level s st = do {
     let st = (if a_console_enable st then st\<lparr>log_console := log_console st @ [(level, s)]\<rparr> else st);
     (case a_fp st of
        None \<Rightarrow> Some st
      | Some f \<Rightarrow> do { out \<leftarrow> c_fprintf s; Some (st\<lparr>a_fp := Some (f @ out)\<rparr>) })
   }"

definition log_output :: "tm \<Rightarrow> log_level \<Rightarrow> string \<Rightarrow> string \<Rightarrow> int \<Rightarrow> string \<Rightarrow> log_state \<Rightarrow> log_state option" where
  "log_output t level c_file func line text st =
     (if a_fp st = None \<and> \<not> a_console_enable st then Some st
      else log_put level (log_line t level text c_file func line) st)"

definition log_output2 :: "tm \<Rightarrow> string \<Rightarrow> log_state \<Rightarrow> log_state option" where
  "log_output2 t text st =
     (if a_fp st = None \<and> \<not> a_console_enable st then Some st
      else log_put log_level_info (log_line2 t text) st)"

section \<open>Lines as formats\<close>

text \<open>The format that writes a text.\<close>

definition esc :: "string \<Rightarrow> string" where
  "esc t = concat (map (\<lambda>c. if c = CHR ''%'' then ''%%'' else [c]) t)"

lemma esc_simps [simp]: "esc [] = []" "esc (c # t) = (if c = CHR ''%'' then CHR ''%'' # CHR ''%'' # esc t else c # esc t)"
  by (simp_all add: esc_def)

lemma c_fprintf_esc: "c_fprintf (esc t) = Some t"
proof (induction t)
  case (Cons c t)
  show ?case
  proof (cases "c = CHR ''%''")
    case False
    with Cons show ?thesis by (cases "esc t") auto
  qed (use Cons in simp)
qed simp

lemma c_fprintf_iff: "c_fprintf s = Some t \<longleftrightarrow> s = esc t"
proof
  show "c_fprintf s = Some t \<Longrightarrow> s = esc t"
    by (induction s arbitrary: t rule: c_fprintf.induct) (auto split: if_splits)
qed (simp add: c_fprintf_esc)

lemma esc_same: "esc t = t \<longleftrightarrow> CHR ''%'' \<notin> set t"
proof -
  have "length t \<le> length (esc t)" for t by (induction t) auto
  then show ?thesis by (induction t) (auto, metis Suc_n_not_le_n length_Cons le_SucI)
qed


definition demo_tm :: tm where
  "demo_tm = \<lparr>tm_year = 114, tm_mon = 3, tm_mday = 12, tm_hour = 9, tm_min = 5, tm_sec = 0, tm_msec = 7\<rparr>"

lemma demo_time: "time_text demo_tm = ''2014-04-12 09:05:00.007''"
  by code_simp

lemma demo_line:
  "log_line demo_tm log_level_error text ''src/a.c'' ''f'' 7 =
     take 1022 (''2014-04-12 09:05:00.007 ERROR - '' @ take 998 text @ '' [a.c/f(7)]'' @ CRLF)"
proof -
  have "c_int_str 7 = ''7''" "suffix_file ''src/a.c'' = ''a.c''" "c_rpad 5 (c_level log_level_error) = ''ERROR''" by code_simp+
  then show ?thesis by (simp add: log_line_def demo_time)
qed


text \<open>A line that does not fit loses its end, the line break first.\<close>

lemma log_line_length: "length (log_line t level text c_file func line) \<le> 1022"
  by (simp add: log_line_def)

end
