(* ===== verification/YM_Atomic.thy ===== *)
theory YM_Atomic
  imports EP_Prelude
begin

text \<open>
  The counter of \<open>src/utils/atomic.c\<close>. Every operation is one critical section, so that threads are a sequence of operations; the counter is a
  32 bit word, and \<open>None\<close> a freed one. Destroying leaves the pointer of the caller as it is.
\<close>

record atomic =
  counter :: "32 word"

definition atomic_new :: "atomic option" where
  "atomic_new = Some \<lparr>counter = 0\<rparr>"

definition atomic_inc :: "atomic \<Rightarrow> 32 word \<times> atomic" where
  "atomic_inc a = (counter a, a\<lparr>counter := counter a + 1\<rparr>)"

definition atomic_dec :: "atomic \<Rightarrow> 32 word \<times> atomic" where
  "atomic_dec a = (counter a, a\<lparr>counter := counter a - 1\<rparr>)"

definition atomic_cur :: "atomic \<Rightarrow> 32 word" where
  "atomic_cur a = counter a"

definition atomic_destroy :: "atomic option \<Rightarrow> atomic option" where
  "atomic_destroy a = (case a of None \<Rightarrow> None | Some _ \<Rightarrow> None)"

datatype atomic_op = Inc | Dec

primrec atomic_run :: "atomic_op list \<Rightarrow> atomic \<Rightarrow> 32 word list \<times> atomic" where
  "atomic_run [] a = ([], a)"
| "atomic_run (x # xs) a =
     (let (v, a) = (case x of Inc \<Rightarrow> atomic_inc a | Dec \<Rightarrow> atomic_dec a); (vs, a) = atomic_run xs a in (v # vs, a))"

text \<open>No operation is lost: the counter is the number of increments less that of decrements, modulo \<open>2 ^ 32\<close>.\<close>

lemma atomic_counts:
  "counter (snd (atomic_run xs a)) =
     counter a + of_nat (length (filter (\<lambda>x. x = Inc) xs)) - of_nat (length (filter (\<lambda>x. x = Dec) xs))"
  by (induction xs arbitrary: a) (auto simp: Let_def split_beta atomic_inc_def atomic_dec_def split: atomic_op.split)

text \<open>Increments hand out different numbers, up to \<open>2 ^ 32\<close> of them.\<close>

lemma atomic_tickets_eq: "fst (atomic_run (replicate n Inc) a) = map (\<lambda>i. counter a + of_nat i) [0..<n]"
proof (induction n arbitrary: a)
  case (Suc n)
  have "map (\<lambda>i. counter a + 1 + of_nat i) [0..<n] = map (\<lambda>i. counter a + of_nat i) [1..<Suc n]"
    by (simp add: map_Suc_upt [symmetric] del: upt_Suc)
  then show ?case using Suc [of "a\<lparr>counter := counter a + 1\<rparr>"]
    by (simp add: Let_def split_beta atomic_inc_def upt_conv_Cons del: upt_Suc)
qed simp

lemma atomic_tickets_distinct: "n \<le> 2 ^ 32 \<Longrightarrow> distinct (fst (atomic_run (replicate n Inc) a))"
proof -
  assume n: "n \<le> 2 ^ 32"
  have "inj_on (\<lambda>i. counter a + (of_nat i :: 32 word)) {0..<n}"
  proof (rule inj_onI)
    fix i j
    assume ij: "i \<in> {0..<n}" "j \<in> {0..<n}" and e: "counter a + of_nat i = counter a + (of_nat j :: 32 word)"
    then have "unat (of_nat i :: 32 word) = unat (of_nat j :: 32 word)" by simp
    then show "i = j" using ij n by (simp add: unat_of_nat)
  qed
  then show ?thesis unfolding atomic_tickets_eq by (simp add: distinct_map)
qed

end
