(* ===== verification/YM_Startup.thy ===== *)
theory YM_Startup
  imports YM_Conn YM_Dbp YM_Log YM_MenuSpec
begin

text \<open>
  The start and the stop of the server program (\<open>server_startup\<close> and \<open>server_stop\<close> of \<open>server.c\<close>, with \<open>db.c\<close>): the log, the database with its default
  rows, the sockets, the service and the handlers, in the order of the code. \<open>server_load_conf\<close> hands the
  allocator of the system to the engine and \<open>server_unload_conf\<close> does nothing; both return 1. The messages that failures write to the log
  are not modelled. What the system gives is in \<open>system\<close>: the log file and the database file, if they can be
  opened, and the listening descriptor.

  The laws of SQL are about databases that have the four tables, as every database has that a start has been through. For these,
  \<open>start_laws\<close> adds that creating a table that exists has no effect, and what inserting a dish or a seat does.
\<close>

section \<open>The model\<close>

record 'db program =
  pg_log :: log_state
  a_dbp :: "'db dbp_inst option"
  pg_sessions :: session_state
  pg_sock :: "(unit, handler, unit option) ep_service sock"

record 'db system =
  sys_log :: "string option"
  sys_files :: "'db file_system"
  sys_listen :: int
  sys_ctl :: bool

definition DB_DATABASE :: string where
  "DB_DATABASE = ''youmenu.db''"

definition db_init :: "'db dbp_provider_type list \<Rightarrow> string \<Rightarrow> (int \<times> 'db dbp_inst option) option" where
  "db_init ps conf_db = do {
     inst \<leftarrow> dbp_new ps dbp_sqlite conf_db;
     Some (if inst = None then 0 else 1, inst)
   }"

text \<open>The contents of the closed database.\<close>

definition db_deinit :: "'db dbp_inst option \<Rightarrow> 'db option" where
  "db_deinit inst = do { i \<leftarrow> inst; inst_free i }"

definition server_init_log :: "'db system \<Rightarrow> log_state \<Rightarrow> int \<times> log_state" where
  "server_init_log sys st =
     (let (r, st) = log_init (sys_log sys) st in
      if r \<noteq> 1 then (0, st) else (1, log_set_level log_level_debug st))"

definition server_init_db :: "'db env \<Rightarrow> 'db system \<Rightarrow> dish \<Rightarrow> seat \<Rightarrow> (int \<times> 'db dbp_inst option) option" where
  "server_init_db env sys d s = do {
     (r, inst) \<leftarrow> db_init (providers (env_eng env) (sys_files sys)) DB_DATABASE;
     (case inst of
        None \<Rightarrow> Some (0, None)
      | Some i \<Rightarrow> do {
          (r, p) \<leftarrow> server_init_tables env d s (real_handle i);
          Some (r, Some (i\<lparr>real_handle := p\<rparr>))
        })
   }"

text \<open>\<open>server_init_network\<close> with the sockets below it, which \<open>ep_service_start\<close> starts once.\<close>

definition start_network :: "'db system \<Rightarrow> session_state \<Rightarrow> (unit, handler, unit option) ep_service sock \<Rightarrow>
  (int \<times> session_state \<times> (unit, handler, unit option) ep_service sock) option" where
  "start_network sys st so = do {
     (core, so) \<leftarrow> (if s_started (so_svc so) then Some (1, so) else service_core_start (sys_listen sys) (sys_ctl sys) True 60 so);
     (r, st, svc) \<leftarrow> server_init_network True True True True core st (so_svc so);
     Some (r, st, so\<lparr>so_svc := svc\<rparr>)
   }"

definition server_startup :: "'db env \<Rightarrow> 'db system \<Rightarrow> dish \<Rightarrow> seat \<Rightarrow> 'db program \<Rightarrow> (int \<times> 'db program) option" where
  "server_startup env sys d s pg = do {
     let (r, log) = server_init_log sys (pg_log pg);
     let pg = pg\<lparr>pg_log := log\<rparr>;
     (if r \<noteq> 1 then Some (0, pg)
      else do {
        (r, inst) \<leftarrow> server_init_db env sys d s;
        let pg = pg\<lparr>a_dbp := inst\<rparr>;
        (if r \<noteq> 1 then Some (0, pg)
         else do {
           (r, st, so) \<leftarrow> start_network sys (pg_sessions pg) (pg_sock pg);
           let pg = pg\<lparr>pg_sessions := st, pg_sock := so\<rparr>;
           Some (if r \<noteq> 1 then 0 else 1, pg)
         })
      })
   }"

text \<open>Stopping: the sockets stop listening, the service and the sessions are destroyed, the database and the log are closed. The contents of the
  database are given with the result.\<close>

definition server_stop :: "'db program \<Rightarrow> (int \<times> 'db \<times> 'db program) option" where
  "server_stop pg = do {
     so \<leftarrow> (if s_started (so_svc (pg_sock pg)) then service_core_stop (pg_sock pg) else Some (pg_sock pg));
     svc \<leftarrow> ep_service_stop (so_svc so);
     st \<leftarrow> session_destroy (pg_sessions pg);
     db \<leftarrow> db_deinit (a_dbp pg);
     Some (1, db, pg\<lparr>pg_sock := so\<lparr>so_svc := svc\<rparr>, pg_sessions := st, a_dbp := None, pg_log := log_fini (pg_log pg)\<rparr>)
   }"

section \<open>The default rows\<close>

definition start_laws :: "'db sql_engine \<Rightarrow> ('db \<Rightarrow> tables) \<Rightarrow> bool" where
  "start_laws eng tbl \<longleftrightarrow>
     (\<forall>db. list_all (\<lambda>sql. case sql_exec eng db sql of (ok, db') \<Rightarrow> ok \<and> tbl db' = tbl db)
        [account_init_text, dish_init_text, seat_init_text, book_init_text]) \<and>
     (\<forall>db i c n s t pt pr. plain n \<and> plain s \<and> plain t \<longrightarrow>
        (case sql_exec eng db (dish_add_text i c n s t pt pr) of (ok, db') \<Rightarrow>
           if i \<in> set (map dr_id (t_dish (tbl db))) then \<not> ok \<and> tbl db' = tbl db
           else ok \<and> (\<exists>w. NUL \<notin> set w \<and> tbl db' = (tbl db)\<lparr>t_dish := t_dish (tbl db) @
             [\<lparr>dr_id = i, dr_category = c, dr_name = n, dr_summary = s, dr_thumbnail = t, dr_price_type = pt, dr_price = pr, dr_created = w\<rparr>]\<rparr>))) \<and>
     (\<forall>db i s q. plain s \<and> plain q \<longrightarrow>
        (case sql_exec eng db (seat_add_text i s q) of (ok, db') \<Rightarrow>
           if i \<in> set (map sr_id (t_seat (tbl db))) then \<not> ok \<and> tbl db' = tbl db
           else ok \<and> tbl db' = (tbl db)\<lparr>t_seat := t_seat (tbl db) @ [\<lparr>sr_id = i, sr_summary = s, sr_qrcode = q\<rparr>]\<rparr>))"

definition default_account :: account_row where
  "default_account = \<lparr>ar_uid = ''youmenu'', ar_type = account_admin, ar_pwd = db_encrypt_pwd ''youmenu'', ar_nick = ''youmenu'',
     ar_comment = default_comment\<rparr>"

definition default_dish :: "string \<Rightarrow> dish_row" where
  "default_dish w = \<lparr>dr_id = 0, dr_category = 0, dr_name = ''dish_name'', dr_summary = ''summary'', dr_thumbnail = ''thumbnail'',
     dr_price_type = 0, dr_price = 30, dr_created = w\<rparr>"

definition default_seat :: seat_row where
  "default_seat = \<lparr>sr_id = 0, sr_summary = ''summary'', sr_qrcode = ''qrcode''\<rparr>"

definition with_account :: "tables \<Rightarrow> tables" where
  "with_account T = (if account_of T ''youmenu'' = None then T\<lparr>t_account := t_account T @ [default_account]\<rparr> else T)"

definition with_dish :: "string \<Rightarrow> tables \<Rightarrow> tables" where
  "with_dish w T = (if in_category 0 T = [] then T\<lparr>t_dish := t_dish T @ [default_dish w]\<rparr> else T)"

definition with_seat :: "tables \<Rightarrow> tables" where
  "with_seat T = (if has_seat 0 T then T else T\<lparr>t_seat := t_seat T @ [default_seat]\<rparr>)"

definition struct_arrays :: "dish \<Rightarrow> seat \<Rightarrow> bool" where
  "struct_arrays d s \<longleftrightarrow> length (dish_name d) = 65 \<and> length (dish_summary d) = 257 \<and> length (dish_thumbnail d) = 65 \<and>
     length (seat_summary s) = 257 \<and> length (seat_qrcode s) = 65"

lemma create_tables:
  assumes "start_laws eng tbl" and "dbp_idle p"
  shows "\<exists>db'. db_account_init eng p = Some (1, p\<lparr>dbp_db := db'\<rparr>) \<and> tbl db' = tbl (dbp_db p)"
    and "\<exists>db'. db_dish_init eng p = Some (1, p\<lparr>dbp_db := db'\<rparr>) \<and> tbl db' = tbl (dbp_db p)"
    and "\<exists>db'. db_seat_init eng p = Some (1, p\<lparr>dbp_db := db'\<rparr>) \<and> tbl db' = tbl (dbp_db p)"
    and "\<exists>db'. db_book_init eng p = Some (1, p\<lparr>dbp_db := db'\<rparr>) \<and> tbl db' = tbl (dbp_db p)"
proof -
  have "case sql_exec eng (dbp_db p) sql of (ok, db') \<Rightarrow> ok \<and> tbl db' = tbl (dbp_db p)"
    if "sql \<in> {account_init_text, dish_init_text, seat_init_text, book_init_text}" for sql
    using conjunct1 [OF assms(1) [unfolded start_laws_def], THEN spec, of "dbp_db p"] that unfolding list_all_iff by (auto simp del: split_paired_All)
  then have "\<exists>db'. dbp_exec eng sql p = Some (1, p\<lparr>dbp_db := db'\<rparr>) \<and> tbl db' = tbl (dbp_db p)"
    if "sql \<in> {account_init_text, dish_init_text, seat_init_text, book_init_text}" for sql
    using that by (fastforce simp: dbp_exec_idle [OF assms(2)] split: prod.splits)
  then show "\<exists>db'. db_account_init eng p = Some (1, p\<lparr>dbp_db := db'\<rparr>) \<and> tbl db' = tbl (dbp_db p)"
    "\<exists>db'. db_dish_init eng p = Some (1, p\<lparr>dbp_db := db'\<rparr>) \<and> tbl db' = tbl (dbp_db p)"
    "\<exists>db'. db_seat_init eng p = Some (1, p\<lparr>dbp_db := db'\<rparr>) \<and> tbl db' = tbl (dbp_db p)"
    "\<exists>db'. db_book_init eng p = Some (1, p\<lparr>dbp_db := db'\<rparr>) \<and> tbl db' = tbl (dbp_db p)"
    by (simp_all add: db_account_init_def db_dish_init_def db_seat_init_def db_book_init_def)
qed

lemma strcpy_holds: "plain s \<Longrightarrow> length s < length arr \<Longrightarrow> \<exists>r. c_strcpy arr s = Some (s @ NUL # r) \<and> cstr (s @ NUL # r) = Some s"
  by (simp add: c_strcpy_def cstr_append_NUL plain_c_string)

lemma default_account_fits:
  "fits 16 ''youmenu''" "fits 64 ''youmenu''" "fits 256 default_comment" "map c_tolower ''youmenu'' = ''youmenu''"
  by (simp_all add: fits_def plain_def default_comment_def) code_simp

lemma ensure_admin_spec:
  assumes env: "env_ok tbl env" and p: "dbp_idle p"
  shows "\<exists>p'. ensure_admin env p = Some (True, p') \<and> dbp_idle p' \<and> tbl (dbp_db p') = with_account (tbl (dbp_db p))"
proof -
  let ?T = "tbl (dbp_db p)" and ?a = "env_account env"
  have laws: "account_laws (env_eng env) tbl" and arr: "account_arrays ?a" using env by (simp_all add: env_ok_def sql_laws_def)
  obtain p1 where p1: "db_account_get_one (env_eng env) ''youmenu'' None p = Some (if account_of ?T ''youmenu'' = None then 0 else 1, None, p1)"
    "dbp_same p p1" using db_account_get_one_null [OF laws p default_account_fits(1)] by blast
  then have same: "dbp_idle p1" "dbp_db p1 = dbp_db p" using dbp_same_idle by (auto simp: dbp_same_def)
  show ?thesis
  proof (cases "account_of ?T ''youmenu''")
    case None
    obtain u w n c where s: "c_strcpy (acc_uid ?a) ''youmenu'' = Some (''youmenu'' @ NUL # u)"
      "c_strcpy (acc_pwd ?a) ''youmenu'' = Some w" "cstr w = Some ''youmenu''" "c_strcpy (acc_nick ?a) ''youmenu'' = Some n" "cstr n = Some ''youmenu''"
      "c_strcpy (acc_comment ?a) default_comment = Some c" "cstr c = Some default_comment"
      using strcpy_holds [of "''youmenu''" "acc_uid ?a"] strcpy_holds [of "''youmenu''" "acc_pwd ?a"] strcpy_holds [of "''youmenu''" "acc_nick ?a"]
        strcpy_holds [of default_comment "acc_comment ?a"] default_account_fits arr unfolding fits_def account_arrays_def by force
    let ?b = "?a\<lparr>acc_type := account_admin, acc_uid := ''youmenu'' @ NUL # u, acc_pwd := w, acc_nick := n, acc_comment := c\<rparr>"
    have "account_filled ?b ''youmenu'' ''youmenu'' ''youmenu'' default_comment"
      using s default_account_fits by (simp add: account_filled_def)
    from db_account_add_spec [OF laws same(1) this default_account_fits(4) [symmetric]] obtain b db' where
      add: "db_account_add (env_eng env) ?b p1 = Some (1, b, p1\<lparr>dbp_db := db'\<rparr>)" "tbl db' = ?T\<lparr>t_account := t_account ?T @ [default_account]\<rparr>"
      using None same(2) by (auto simp: default_account_def)
    then show ?thesis using p1(1) None s same by (simp add: ensure_admin_def with_account_def)
  qed (use p1 same in \<open>simp add: ensure_admin_def with_account_def\<close>)
qed

text \<open>Without a hot dish, the start adds one under the number 0, which must be free.\<close>

definition startable :: "tables \<Rightarrow> bool" where
  "startable T \<longleftrightarrow> in_category 0 T \<noteq> [] \<or> \<not> has_dish 0 T"

lemma dish_counted:
  assumes env: "env_ok tbl env" and p: "dbp_idle p" and c: "int_32 c"
  shows "\<exists>p'. db_dish_get_by_category (env_eng env) c False p = Some (int (length (in_category c (tbl (dbp_db p)))), [], p') \<and> dbp_same p p'"
proof -
  let ?rs = "in_category c (tbl (dbp_db p))" and ?sql = "''SELECT * FROM t_db_dish WHERE category='' @ c_int_str c"
  have len: "length (''SELECT count(*) as count FROM t_db_dish WHERE category='' @ c_int_str c) < 4096" "length ?sql < 4096"
    using c unfolding int_32_def by (intro int_text_length; simp)+
  have law: "sql_rows (env_eng env) (dbp_db p) (''SELECT count(*) as count FROM t_db_dish WHERE category='' @ c_int_str c) = Some [[Some (c_int_str (int (length ?rs)))]]"
    "rows_are (sql_rows (env_eng env) (dbp_db p) ?sql) dish_cols ?rs"
    using env_okD(3) [OF env] unfolding menu_laws_def in_category_def count_is_def by blast+
  obtain p1 where p1: "db_count (env_eng env) (''SELECT count(*) as count FROM t_db_dish WHERE category='' @ c_int_str c) p = Some (int (length ?rs), p1)" "dbp_same p p1"
    using db_count_row [OF p len(1) law(1)] int_str_NUL by auto
  show ?thesis
  proof (cases "?rs = []")
    case False
    obtain l where m: "mset l = mset ?rs" and l: "sql_rows (env_eng env) (dbp_db p1) ?sql = Some (map dish_cols l)"
      using law(2) p1(2) unfolding rows_are_def dbp_same_def by auto
    from m False have "l \<noteq> []" by auto
    then show ?thesis using l p1 dbp_same_idle [OF p1(2)] len(2) False
      by (cases l) (auto simp: db_dish_get_by_category_def sqlbuf_def dbp_query_idle dbp_query_reset_def dbp_same_def dbp_idle_def)
  qed (use p1 in \<open>simp add: db_dish_get_by_category_def\<close>)
qed

lemma default_rows_ok:
  "tables_ok T \<Longrightarrow> tables_ok (with_account T)" "tables_ok T \<Longrightarrow> NUL \<notin> set w \<Longrightarrow> tables_ok (with_dish w T)" "tables_ok T \<Longrightarrow> tables_ok (with_seat T)"
proof -
  have "account_row_ok default_account" "NUL \<notin> set w \<Longrightarrow> dish_row_ok (default_dish w)" "seat_row_ok default_seat"
    using default_account_fits plain_db_encrypt_pwd length_db_encrypt_pwd
    by (simp_all add: account_row_ok_def default_account_def dish_row_ok_def default_dish_def seat_row_ok_def default_seat_def fits_def plain_def)
  then show "tables_ok T \<Longrightarrow> tables_ok (with_account T)" "tables_ok T \<Longrightarrow> NUL \<notin> set w \<Longrightarrow> tables_ok (with_dish w T)" "tables_ok T \<Longrightarrow> tables_ok (with_seat T)"
    by (auto simp: tables_ok_def with_account_def with_dish_def with_seat_def account_of_def find_None_iff default_account_def)
qed

text \<open>Adding a dish and a seat from structs that hold them.\<close>

lemma dish_added:
  assumes laws: "start_laws eng tbl" and p: "dbp_idle p" and d: "cstr (dish_name d) = Some n" "cstr (dish_summary d) = Some s" "cstr (dish_thumbnail d) = Some t"
    and f: "fits 64 n" "fits 256 s" "fits 64 t" and i: "list_all int_32 [dish_id d, dish_category d, dish_price_type d, dish_price d]"
  shows "\<exists>db'. db_dish_add eng d p = Some (if has_dish (dish_id d) (tbl (dbp_db p)) then 0 else 1, p\<lparr>dbp_db := db'\<rparr>) \<and>
    (if has_dish (dish_id d) (tbl (dbp_db p)) then tbl db' = tbl (dbp_db p)
     else \<exists>w. NUL \<notin> set w \<and> tbl db' = (tbl (dbp_db p))\<lparr>t_dish := t_dish (tbl (dbp_db p)) @ [\<lparr>dr_id = dish_id d, dr_category = dish_category d,
       dr_name = n, dr_summary = s, dr_thumbnail = t, dr_price_type = dish_price_type d, dr_price = dish_price d, dr_created = w\<rparr>]\<rparr>)"
proof -
  let ?sql = "dish_add_text (dish_id d) (dish_category d) n s t (dish_price_type d) (dish_price d)"
  have "length (c_int_str x) \<le> 11" if "int_32 x" for x using that by (intro length_int_str) (auto simp: int_32_def)
  then have "length (c_int_str (dish_id d)) \<le> 11" "length (c_int_str (dish_category d)) \<le> 11" "length (c_int_str (dish_price_type d)) \<le> 11"
    "length (c_int_str (dish_price d)) \<le> 11" using i by simp_all
  then have len: "length ?sql < 4096" using f by (simp add: dish_add_text_def quoted_def fits_def)
  obtain ok db' where ex: "sql_exec eng (dbp_db p) ?sql = (ok, db')" by fastforce
  have "plain n \<and> plain s \<and> plain t" using f by (simp add: fits_def)
  note law = conjunct1 [OF conjunct2 [OF laws [unfolded start_laws_def]], THEN spec [of _ "dbp_db p"], THEN spec [of _ "dish_id d"],
      THEN spec [of _ "dish_category d"], THEN spec, THEN spec, THEN spec, THEN spec [of _ "dish_price_type d"], THEN spec [of _ "dish_price d"],
      THEN mp, OF this, unfolded ex prod.case]
  have key: "dish_id d \<in> set (map dr_id (t_dish (tbl (dbp_db p)))) \<longleftrightarrow> has_dish (dish_id d) (tbl (dbp_db p))" unfolding has_dish_def set_map image_iff by metis
  have "db_dish_add eng d p = Some (if ok then 1 else 0, p\<lparr>dbp_db := db'\<rparr>)" using d db_run_idle [OF p len, of eng] by (simp add: db_dish_add_def ex)
  with law show ?thesis unfolding key by (auto split: if_splits)
qed

lemma seat_added:
  assumes laws: "start_laws eng tbl" and p: "dbp_idle p" and d: "cstr (seat_summary d) = Some s" "cstr (seat_qrcode d) = Some q"
    and f: "fits 256 s" "fits 64 q" and i: "int_32 (seat_id d)"
  shows "\<exists>db'. db_seat_add eng d p = Some (if has_seat (seat_id d) (tbl (dbp_db p)) then 0 else 1, p\<lparr>dbp_db := db'\<rparr>) \<and>
    tbl db' = (if has_seat (seat_id d) (tbl (dbp_db p)) then tbl (dbp_db p)
      else (tbl (dbp_db p))\<lparr>t_seat := t_seat (tbl (dbp_db p)) @ [\<lparr>sr_id = seat_id d, sr_summary = s, sr_qrcode = q\<rparr>]\<rparr>)"
proof -
  let ?sql = "seat_add_text (seat_id d) s q"
  have "length (c_int_str (seat_id d)) \<le> 11" using i by (intro length_int_str) (auto simp: int_32_def)
  then have len: "length ?sql < 4096" using f by (simp add: seat_add_text_def quoted_def fits_def)
  obtain ok db' where ex: "sql_exec eng (dbp_db p) ?sql = (ok, db')" by fastforce
  have "plain s \<and> plain q" using f by (simp add: fits_def)
  note law = conjunct2 [OF conjunct2 [OF laws [unfolded start_laws_def]], THEN spec [of _ "dbp_db p"], THEN spec [of _ "seat_id d"],
      THEN spec, THEN spec, THEN mp, OF this, unfolded ex prod.case]
  have key: "seat_id d \<in> set (map sr_id (t_seat (tbl (dbp_db p)))) \<longleftrightarrow> has_seat (seat_id d) (tbl (dbp_db p))" unfolding has_seat_def set_map image_iff by metis
  have "db_seat_add eng d p = Some (if ok then 1 else 0, p\<lparr>dbp_db := db'\<rparr>)" using d db_run_idle [OF p len, of eng] by (simp add: db_seat_add_def ex)
  with law show ?thesis unfolding key by (auto split: if_splits)
qed

lemma ensure_dish_spec:
  assumes env: "env_ok tbl env" "start_laws (env_eng env) tbl" and p: "dbp_idle p" "tables_ok (tbl (dbp_db p))" and arr: "struct_arrays d s"
  shows "\<exists>p' w. ensure_dish env d p = Some (startable (tbl (dbp_db p)), p') \<and> dbp_idle p' \<and> NUL \<notin> set w \<and>
    tbl (dbp_db p') = (if startable (tbl (dbp_db p)) then with_dish w (tbl (dbp_db p)) else tbl (dbp_db p))"
proof -
  let ?T = "tbl (dbp_db p)" and ?eng = "env_eng env"
  have i0: "int_32 0" "int_32 30" by (simp_all add: int_32_def)
  obtain p1 where p1: "db_dish_get_by_category ?eng 0 False p = Some (int (length (in_category 0 ?T)), [], p1)" "dbp_same p p1"
    using dish_counted [OF env(1) p(1) i0(1)] by blast
  then have same: "dbp_idle p1" "dbp_db p1 = dbp_db p" using dbp_same_idle by (auto simp: dbp_same_def)
  have read: "\<exists>q' xs. db_dish_get_by_category ?eng 0 True q = Some (int (length (in_category 0 (tbl (dbp_db q)))), xs, q') \<and> dbp_idle q' \<and> dbp_db q' = dbp_db q"
    if "dbp_idle q" "tables_ok (tbl (dbp_db q))" for q
    using dishes.get_rows [OF i0(1) env(1) that] dbp_same_idle by (fastforce simp: dbp_same_def)
  have nul: "\<exists>w. NUL \<notin> set w" by (rule exI [of _ "[]"]) simp
  show ?thesis
  proof (cases "in_category 0 ?T = []")
    case False
    with nul show ?thesis using p1(1) read [of p1] same p by (auto simp: ensure_dish_def startable_def with_dish_def)
  next
    case True
    have fit: "fits 64 ''dish_name''" "fits 256 ''summary''" "fits 64 ''thumbnail''" by (simp_all add: fits_def plain_def)
    obtain n y t where c: "c_strcpy (dish_name d) ''dish_name'' = Some n" "cstr n = Some ''dish_name''"
      "c_strcpy (dish_summary d) ''summary'' = Some y" "cstr y = Some ''summary''" "c_strcpy (dish_thumbnail d) ''thumbnail'' = Some t" "cstr t = Some ''thumbnail''"
      using strcpy_holds [of "''dish_name''" "dish_name d"] strcpy_holds [of "''summary''" "dish_summary d"] strcpy_holds [of "''thumbnail''" "dish_thumbnail d"]
        arr fit unfolding struct_arrays_def fits_def by force
    let ?d = "d\<lparr>dish_category := 0, dish_id := 0, dish_name := n, dish_price_type := 0, dish_price := 30, dish_summary := y, dish_thumbnail := t\<rparr>"
    obtain db' where add: "db_dish_add ?eng ?d p1 = Some (if has_dish 0 ?T then 0 else 1, p1\<lparr>dbp_db := db'\<rparr>)"
      "if has_dish 0 ?T then tbl db' = ?T else \<exists>w. NUL \<notin> set w \<and> tbl db' = with_dish w ?T"
      using dish_added [OF env(2) same(1), of ?d, OF _ _ _ fit] c i0 True by (auto simp: same(2) with_dish_def default_dish_def split: if_splits)
    have "tables_ok (tbl db')" "\<not> has_dish 0 ?T \<Longrightarrow> in_category 0 (tbl db') \<noteq> []"
      using add(2) default_rows_ok(2) [OF p(2)] p(2) True by (auto simp: with_dish_def in_category_def default_dish_def split: if_splits)
    then show ?thesis using read [of "p1\<lparr>dbp_db := db'\<rparr>"] same p1(1) True c add nul by (auto simp: ensure_dish_def startable_def split: if_splits)
  qed
qed

lemma ensure_seat_spec:
  assumes env: "env_ok tbl env" "start_laws (env_eng env) tbl" and p: "dbp_idle p" "tables_ok (tbl (dbp_db p))" and arr: "struct_arrays d s"
  shows "\<exists>p'. ensure_seat env s p = Some (True, p') \<and> dbp_idle p' \<and> tbl (dbp_db p') = with_seat (tbl (dbp_db p))"
proof -
  let ?T = "tbl (dbp_db p)" and ?eng = "env_eng env"
  have i0: "int_32 0" by (simp add: int_32_def)
  obtain p1 where p1: "db_seat_get_one ?eng 0 None p = Some (if has_seat 0 ?T then 1 else 0, None, p1)" "dbp_same p p1"
    using seat_looked_up [OF env(1) p(1) i0] by blast
  then have same: "dbp_idle p1" "dbp_db p1 = dbp_db p" using dbp_same_idle by (auto simp: dbp_same_def)
  have read: "\<exists>q' xs. db_seat_get ?eng q = Some (int (length (t_seat (tbl (dbp_db q)))), xs, q') \<and> dbp_idle q' \<and> dbp_db q' = dbp_db q"
    if "dbp_idle q" "tables_ok (tbl (dbp_db q))" for q
    using seats.get_rows [OF TrueI env(1) that] dbp_same_idle by (fastforce simp: dbp_same_def)
  show ?thesis
  proof (cases "has_seat 0 ?T")
    case True
    then have "t_seat ?T \<noteq> []" by (auto simp: has_seat_def)
    with True show ?thesis using p1(1) read [of p1] same p by (auto simp: ensure_seat_def with_seat_def)
  next
    case False
    have fit: "fits 256 ''summary''" "fits 64 ''qrcode''" by (simp_all add: fits_def plain_def)
    obtain y q where c: "c_strcpy (seat_summary s) ''summary'' = Some y" "cstr y = Some ''summary''" "c_strcpy (seat_qrcode s) ''qrcode'' = Some q"
      "cstr q = Some ''qrcode''"
      using strcpy_holds [of "''summary''" "seat_summary s"] strcpy_holds [of "''qrcode''" "seat_qrcode s"] arr fit
      unfolding struct_arrays_def fits_def by force
    let ?s = "s\<lparr>seat_id := 0, seat_summary := y, seat_qrcode := q\<rparr>"
    obtain db' where add: "db_seat_add ?eng ?s p1 = Some (1, p1\<lparr>dbp_db := db'\<rparr>)" "tbl db' = with_seat ?T"
      using seat_added [OF env(2) same(1), of ?s, OF _ _ fit] c i0 False by (auto simp: same(2) with_seat_def default_seat_def)
    have "tables_ok (tbl db')" "t_seat (tbl db') \<noteq> []" using add(2) default_rows_ok(3) [OF p(2)] False by (simp_all add: with_seat_def)
    then show ?thesis using read [of "p1\<lparr>dbp_db := db'\<rparr>"] same p1(1) False c add by (auto simp: ensure_seat_def)
  qed
qed

text \<open>The tables after a start.\<close>

definition default_rows :: "string \<Rightarrow> tables \<Rightarrow> tables" where
  "default_rows w T = with_seat (with_dish w (with_account T))"

lemma startable_with_account [simp]: "startable (with_account T) = startable T"
  by (simp add: startable_def with_account_def in_category_def has_dish_def)

lemma init_tables_spec:
  assumes env: "env_ok tbl env" "start_laws (env_eng env) tbl" and p: "dbp_idle p" "tables_ok (tbl (dbp_db p))" and arr: "struct_arrays d s"
  shows "\<exists>r p' w. server_init_tables env d s p = Some (r, p') \<and> r = (if startable (tbl (dbp_db p)) then 1 else 0) \<and> dbp_idle p' \<and>
    (startable (tbl (dbp_db p)) \<longrightarrow> tbl (dbp_db p') = default_rows w (tbl (dbp_db p)) \<and> tables_ok (tbl (dbp_db p')))"
proof -
  let ?T = "tbl (dbp_db p)" and ?eng = "env_eng env"
  obtain d1 where d1: "db_account_init ?eng p = Some (1, p\<lparr>dbp_db := d1\<rparr>)" "tbl d1 = ?T" using create_tables(1) [OF env(2) p(1)] by blast
  obtain p2 where p2: "ensure_admin env (p\<lparr>dbp_db := d1\<rparr>) = Some (True, p2)" "dbp_idle p2" "tbl (dbp_db p2) = with_account ?T"
    using ensure_admin_spec [OF env(1), of "p\<lparr>dbp_db := d1\<rparr>"] p(1) d1(2) by auto
  obtain d3 where d3: "db_dish_init ?eng p2 = Some (1, p2\<lparr>dbp_db := d3\<rparr>)" "tbl d3 = with_account ?T"
    using create_tables(2) [OF env(2) p2(2)] p2(3) by auto
  have ok3: "tables_ok (with_account ?T)" using default_rows_ok(1) p(2) by blast
  obtain p4 w where p4: "ensure_dish env d (p2\<lparr>dbp_db := d3\<rparr>) = Some (startable ?T, p4)" "dbp_idle p4" "NUL \<notin> set w"
    "tbl (dbp_db p4) = (if startable ?T then with_dish w (with_account ?T) else with_account ?T)"
    using ensure_dish_spec [OF env, of "p2\<lparr>dbp_db := d3\<rparr>" d s] p2(2) d3(2) ok3 arr by auto
  show ?thesis
  proof (cases "startable ?T")
    case True
    have ok4: "tables_ok (with_dish w (with_account ?T))" using default_rows_ok(2) [OF ok3 p4(3)] .
    obtain d5 where d5: "db_seat_init ?eng p4 = Some (1, p4\<lparr>dbp_db := d5\<rparr>)" "tbl d5 = with_dish w (with_account ?T)"
      using create_tables(3) [OF env(2) p4(2)] p4(4) True by auto
    obtain p6 where p6: "ensure_seat env s (p4\<lparr>dbp_db := d5\<rparr>) = Some (True, p6)" "dbp_idle p6" "tbl (dbp_db p6) = default_rows w ?T"
      using ensure_seat_spec [OF env, of "p4\<lparr>dbp_db := d5\<rparr>" d s] p4(2) d5(2) ok4 arr by (auto simp: default_rows_def)
    obtain d7 where d7: "db_book_init ?eng p6 = Some (1, p6\<lparr>dbp_db := d7\<rparr>)" "tbl d7 = default_rows w ?T"
      using create_tables(4) [OF env(2) p6(2)] p6(3) by auto
    have "tables_ok (default_rows w ?T)" using default_rows_ok(3) [OF ok4] by (simp add: default_rows_def)
    with True show ?thesis using d1(1) p2(1) d3(1) p4(1) d5(1) p6(1,2) d7 by (auto simp: server_init_tables_def)
  qed (use d1(1) p2(1) d3(1) p4(1,2) in \<open>simp add: server_init_tables_def\<close>)
qed

section \<open>The network\<close>

lemma register_all_keeps: "register_all hs svc = Some svc' \<Longrightarrow> s_io_mgr svc' = s_io_mgr svc \<and> s_event_cb svc' = s_event_cb svc \<and> s_started svc' = s_started svc"
  by (induction hs svc rule: register_all.induct)
    (fastforce simp: ep_service_register_def Let_def split: bind_splits prod.splits)+

lemma network_ok:
  fixes svc :: "(unit, handler, unit option) ep_service"
  assumes "server_init_network True True True True 1 st service_zero = Some (1, st', svc)"
  shows "svc_ok svc" and "svc_conns svc = {}" and "s_started svc"
proof -
  let ?conf = "\<lparr>sc_def_capacity = 4 * 1024, sc_max_capacity = 4 * 1024 * 1024, sc_mini_compress_if = 1024\<rparr>"
  obtain svc0 :: "(unit, handler, unit option) ep_service" where s0: "ep_service_start True True True True True ep_cert_server_security (Some ()) 1 ?conf service_zero = Some (1, svc0)"
    "s_started svc0" using ep_service_start_ok [of ?conf ep_cert_server_security "Some ()"] by auto
  have cap: "0 < sc_def_capacity ?conf" "MAX_LINE \<le> sc_max_capacity ?conf" by (simp_all add: MAX_LINE_def)
  have "register_all server_handlers (ep_service_event svc0) = Some svc" using assms s0(1) by (auto simp: server_init_network_def split: bind_splits)
  from register_all_keeps [OF this] started_svc_ok [OF s0(1) cap] s0(2)
  show "svc_ok svc" "svc_conns svc = {}" "s_started svc" by (auto simp: svc_ok_def svc_conns_def ep_service_event_def)
qed

lemma core_start_svc:
  "service_core_start listen ctl alloc keepalive (so\<lparr>so_svc := svc\<rparr>) =
     map_option (\<lambda>(r, so). (r, so\<lparr>so_svc := svc\<rparr>)) (service_core_start listen ctl alloc keepalive so)"
  by (auto simp: service_core_start_def Let_def split: option.splits bind_splits prod.splits)

lemma start_network_up:
  assumes so: "s_event_loop so = None" "so_svc so = service_zero" "so_log so = []" and sys: "0 \<le> sys_listen sys" "sys_listen sys < 10240" "sys_ctl sys"
  obtains so' where "start_network sys st so = Some (1, session_init, so')" and "sock_inv svc_ok svc_conns so'" and "svc_conns (so_svc so') = {}"
    and "s_started (so_svc so')" and "server_init_network True True True True 1 st service_zero = Some (1, session_init, so_svc so')"
proof -
  obtain svc :: "(unit, handler, unit option) ep_service" where svc: "server_init_network True True True True 1 st service_zero = Some (1, session_init, svc)"
    using network_up [of st] by blast
  note ok = network_ok [OF svc]
  obtain so1 where so1: "service_core_start (sys_listen sys) True True 60 (so\<lparr>so_svc := svc\<rparr>) = Some (1, so1)" "sock_inv svc_ok svc_conns so1" "so_svc so1 = svc"
    by (rule service.start_inv [of "so\<lparr>so_svc := svc\<rparr>" "sys_listen sys" 60]) (use so ok sys in simp_all)
  then obtain so0 where so0: "service_core_start (sys_listen sys) True True 60 so = Some (1, so0)" "so1 = so0\<lparr>so_svc := svc\<rparr>"
    by (auto simp: core_start_svc)
  have "so\<lparr>so_svc := service_zero\<rparr> = so" using so(2) by simp
  then have "so_svc so0 = service_zero"
    using so0(1) core_start_svc [of "sys_listen sys" True True 60 service_zero so] by (auto dest: arg_cong [of _ _ so_svc])
  then have "start_network sys st so = Some (1, session_init, so1)"
    using so0 svc so(2) sys(3) by (simp add: start_network_def service_zero_def)
  then show ?thesis by (rule that) (use so1(2,3) ok svc in simp_all)
qed

section \<open>The start\<close>

lemma init_db_spec:
  assumes env: "env_ok tbl env" "start_laws (env_eng env) tbl" and arr: "struct_arrays d s" and db: "fs_open (sys_files sys) DB_DATABASE = Some db" "tables_ok (tbl db)"
  obtains inst w where "server_init_db env sys d s = Some (if startable (tbl db) then 1 else 0, Some inst)" and "dbp_idle (real_handle inst)"
    and "startable (tbl db) \<longrightarrow> tbl (dbp_db (real_handle inst)) = default_rows w (tbl db) \<and> tables_ok (tbl (dbp_db (real_handle inst)))"
proof -
  let ?p = "dbp_create_new_sqlite db"
  have "dir_of DB_DATABASE = None" by (simp add: dir_of_def before_last_def DB_DATABASE_def)
  then have new: "db_init (providers (env_eng env) (sys_files sys)) DB_DATABASE = Some (1, Some (sqlite_inst (env_eng env) (sys_files sys) ?p))"
    using db(1) by (simp add: db_init_def dbp_new_spec)
  have "dbp_idle ?p" "dbp_db ?p = db" by (simp_all add: dbp_create_new_sqlite_def dbp_idle_def)
  then obtain r p' w where "server_init_tables env d s ?p = Some (r, p')" "r = (if startable (tbl db) then 1 else 0)" "dbp_idle p'"
    "startable (tbl db) \<longrightarrow> tbl (dbp_db p') = default_rows w (tbl db) \<and> tables_ok (tbl (dbp_db p'))"
    using init_tables_spec [OF env, of ?p d s] db(2) arr by auto
  with new show ?thesis by (intro that [of "sqlite_inst (env_eng env) (sys_files sys) p'" w]) (auto simp: server_init_db_def sqlite_inst_def)
qed

lemma default_account_there: "account_of (default_rows w T) ''youmenu'' \<noteq> None"
  by (auto simp: default_rows_def with_seat_def with_dish_def with_account_def account_of_def find_None_iff default_account_def)

text \<open>C24. Starting the server on a database that has been through a start before: the start fails exactly when there is no hot
  dish and the number of the default dish is taken. Otherwise the log is open; the tables are what they were, with the default account, dish and seat added
  where they were missing, so that somebody can log in; nobody is logged in and the state of the server is well formed, as the theorems about the
  handlers ask; the sockets listen, have no connection and satisfy their invariant; and a request is answered by the handler of its category, the internal
  category by the key exchange, and every other request is dropped.\<close>

theorem server_startup_ready:
  assumes env: "env_ok tbl env" "start_laws (env_eng env) tbl" and arr: "struct_arrays d s"
    and sys: "sys_log sys = Some f" "fs_open (sys_files sys) DB_DATABASE = Some db" "tables_ok (tbl db)"
      "0 \<le> sys_listen sys" "sys_listen sys < 10240" "sys_ctl sys"
    and pg: "s_event_loop (pg_sock pg) = None" "so_svc (pg_sock pg) = service_zero" "so_log (pg_sock pg) = []"
  shows "\<exists>r pg'. server_startup env sys d s pg = Some (r, pg') \<and> r = (if startable (tbl db) then 1 else 0) \<and>
    (r = 1 \<longrightarrow> (\<exists>inst srv w. a_fp (pg_log pg') = Some f \<and> a_dbp pg' = Some inst \<and> srv = \<lparr>srv_sessions = pg_sessions pg', srv_dbp = real_handle inst\<rparr> \<and>
      srv_tables tbl srv = default_rows w (tbl db) \<and> account_of (srv_tables tbl srv) ''youmenu'' \<noteq> None \<and>
      srv_ok tbl srv \<and> logged srv = Map.empty \<and> tokens srv = Map.empty \<and>
      sock_inv svc_ok svc_conns (pg_sock pg') \<and> svc_conns (so_svc (pg_sock pg')) = {} \<and>
      (\<forall>cert c fd pack. server_request cert env (so_svc (pg_sock pg')) c fd pack srv =
        (case route c of
           None \<Rightarrow> (None, True, Some srv)
         | Some h \<Rightarrow> call_handler cert env h (if h = ep_cert_server_security then Some () else None) fd pack (Some srv)))))"
proof -
  obtain lg where log: "server_init_log sys (pg_log pg) = (1, lg)" "a_fp lg = Some f"
    using sys(1) by (simp add: server_init_log_def log_init_def log_set_level_def)
  obtain inst w where db: "server_init_db env sys d s = Some (if startable (tbl db) then 1 else 0, Some inst)" "dbp_idle (real_handle inst)"
    "startable (tbl db) \<longrightarrow> tbl (dbp_db (real_handle inst)) = default_rows w (tbl db) \<and> tables_ok (tbl (dbp_db (real_handle inst)))"
    by (rule init_db_spec [OF env arr sys(2,3)])
  obtain so where so: "start_network sys (pg_sessions pg) (pg_sock pg) = Some (1, session_init, so)" "sock_inv svc_ok svc_conns so"
    "svc_conns (so_svc so) = {}" "server_init_network True True True True 1 (pg_sessions pg) service_zero = Some (1, session_init, so_svc so)"
    by (rule start_network_up [OF pg sys(4-6)])
  let ?srv = "\<lparr>srv_sessions = session_init, srv_dbp = real_handle inst\<rparr>"
  have none: "fd_session session_init = Map.empty" "token_session session_init = Map.empty"
    by (simp_all add: session_init_def fd_session_def token_session_def fun_eq_iff)
  have route: "server_request cert env (so_svc so) c fd pack ?srv =
      (case route c of
         None \<Rightarrow> (None, True, Some ?srv)
       | Some h \<Rightarrow> call_handler cert env h (if h = ep_cert_server_security then Some () else None) fd pack (Some ?srv))" for cert c fd pack
    using network_up [where 'x = unit, of "pg_sessions pg" cert env fd pack ?srv] so(4) by auto
  show ?thesis
  proof (cases "startable (tbl db)")
    case True
    then have T: "tbl (dbp_db (real_handle inst)) = default_rows w (tbl db)" "tables_ok (default_rows w (tbl db))" using db(3) by auto
    have "srv_ok tbl ?srv" using T db(2) by (simp add: srv_ok_def session_ok_init uids_fit_def none)
    moreover let ?pg = "pg\<lparr>pg_log := lg, a_dbp := Some inst, pg_sessions := session_init, pg_sock := so\<rparr>"
    have "server_startup env sys d s pg = Some (1, ?pg)" using True log(1) db(1) so(1) by (simp add: server_startup_def)
    ultimately show ?thesis using True log(2) so(2,3) T(1) none default_account_there [of w "tbl db"] route
      by (intro exI [of _ "1 :: int"] exI [of _ ?pg]) (simp, rule exI, rule refl)
  qed (use log(1) db(1) in \<open>simp add: server_startup_def\<close>)
qed

text \<open>The engine of the examples has the laws of a start.\<close>

lemma mini_start_laws: "start_laws mini_engine (\<lambda>T. T)"
proof -
  have "mini_exec T sql = (True, T)" if "sql \<in> {account_init_text, dish_init_text, seat_init_text, book_init_text}" for T sql
    using that by (auto simp: mini_exec_def account_init_text_def dish_init_text_def seat_init_text_def book_init_text_def quoted_def)
  moreover have "NUL \<notin> set ''now''" by simp
  ultimately show ?thesis
    unfolding start_laws_def mini_engine_def sql_engine.select_convs
    by (auto simp: mini_dish_add mini_seat_add mini_insert_dish_def mini_insert_seat_def) (rule exI [of _ "''now''"], simp)
qed

theorem server_startup_ready_witness:
  "\<exists>pg' inst srv. server_startup demo_env \<lparr>sys_log = Some [], sys_files = \<lparr>fs_access = (\<lambda>_. True), fs_mkdir = (\<lambda>_. True), fs_open = (\<lambda>_. Some demo_tables)\<rparr>,
       sys_listen = 3, sys_ctl = True\<rparr> dish_zero seat_uninit
     \<lparr>pg_log = \<lparr>a_level = log_level_debug, a_console_enable = True, a_fp = None, log_console = []\<rparr>, a_dbp = None, pg_sessions = session_init,
      pg_sock = \<lparr>s_event_loop = None, s_keepalive = 0, s_fd = 0, so_svc = service_zero, so_open = [0, 1, 2], so_log = []\<rparr>\<rparr> = Some (1, pg') \<and>
     a_dbp pg' = Some inst \<and> srv = \<lparr>srv_sessions = pg_sessions pg', srv_dbp = real_handle inst\<rparr> \<and> srv_ok (\<lambda>T. T) srv \<and>
     account_of (srv_tables (\<lambda>T. T) srv) ''youmenu'' \<noteq> None"
proof -
  let ?sys = "\<lparr>sys_log = Some [], sys_files = \<lparr>fs_access = (\<lambda>_. True), fs_mkdir = (\<lambda>_. True), fs_open = (\<lambda>_. Some demo_tables)\<rparr>,
    sys_listen = 3, sys_ctl = True\<rparr>"
  let ?pg = "\<lparr>pg_log = \<lparr>a_level = log_level_debug, a_console_enable = True, a_fp = None, log_console = []\<rparr>, a_dbp = None, pg_sessions = session_init,
    pg_sock = \<lparr>s_event_loop = None, s_keepalive = 0, s_fd = 0, so_svc = service_zero, so_open = [0, 1, 2], so_log = []\<rparr>\<rparr>"
  have eng: "env_eng demo_env = mini_engine" by (simp add: demo_env_def)
  have arr: "struct_arrays dish_zero seat_uninit" by (simp add: struct_arrays_def dish_zero_def seat_uninit_def)
  have ok: "tables_ok demo_tables" using demo_server_ok by (simp add: srv_ok_def demo_server_def dbp_create_new_sqlite_def)
  have st: "startable demo_tables" by (simp add: startable_def has_dish_def demo_tables_def)
  show ?thesis
    using server_startup_ready [OF demo_env_ok mini_start_laws [folded eng] arr, of ?sys "[]" demo_tables ?pg] ok st by simp blast
qed

section \<open>The stop\<close>

lemma default_rows_idem: "default_rows w' (default_rows w T) = default_rows w T"
proof -
  have "with_account (default_rows w T) = default_rows w T" using default_account_there by (simp add: with_account_def)
  moreover have "in_category 0 (default_rows w T) \<noteq> []" "has_seat 0 (default_rows w T)"
    by (auto simp: default_rows_def with_seat_def with_dish_def with_account_def in_category_def has_seat_def default_dish_def default_seat_def)
  ultimately show ?thesis unfolding default_rows_def [of w'] with_dish_def with_seat_def by simp
qed

text \<open>Stopping a server that has no connection and nothing to send returns, closes the log and the listening descriptor, and leaves the database as it
  is, so that the next start adds nothing (\<open>default_rows_idem\<close>).\<close>

lemma server_stop_spec:
  assumes so: "sock_inv svc_ok svc_conns (pg_sock pg)" "s_io_mgr (so_svc (pg_sock pg)) = Some mgr" "mgr_list mgr = []" "q_items (mgr_send_queue mgr) = []"
      "s_started (so_svc (pg_sock pg))"
    and st: "session_ok (pg_sessions pg)" and inst: "a_dbp pg = Some (sqlite_inst eng fs p)" "dbp_idle p"
  shows "\<exists>pg'. server_stop pg = Some (1, dbp_db p, pg') \<and> a_fp (pg_log pg') = None \<and> a_dbp pg' = None \<and> \<not> s_started (so_svc (pg_sock pg')) \<and>
    s_fd (pg_sock pg) \<notin> set (so_open (pg_sock pg')) \<and> sessions (pg_sessions pg') = []"
proof -
  let ?so = "pg_sock pg"
  obtain el where el: "s_event_loop ?so = Some el" "ae_watch el = watches (s_fd ?so) (svc_conns (so_svc ?so))"
    using so(1) unfolding sock_inv_def sock_at_def by blast
  then have "ae_watch el (s_fd ?so) \<noteq> None" by (simp add: watches_def)
  then have "0 \<le> s_fd ?so" by (auto simp: ae_watch_def split: if_splits)
  then have "aeDeleteFileEvent el (s_fd ?so) AE_ALL_EVENTS \<noteq> None" by (simp add: aeDeleteFileEvent_def Let_def)
  then obtain el' where "aeDeleteFileEvent el (s_fd ?so) AE_ALL_EVENTS = Some el'" by blast
  then have core: "service_core_stop ?so = Some (?so\<lparr>s_event_loop := Some el', so_open := removeAll (s_fd ?so) (so_open ?so)\<rparr>)"
    using el(1) by (simp add: service_core_stop_def)
  have svc: "\<exists>svc. ep_service_stop (so_svc ?so) = Some svc \<and> \<not> s_started svc"
    using so(2-5) by (simp add: ep_service_stop_def ep_io_destroy_def queue_drain_all)
  have ses: "\<exists>st'. session_destroy (pg_sessions pg) = Some st' \<and> sessions st' = []"
    using st by (simp add: session_destroy_def session_lock_def session_unlock_def session_ok_def session_del_loop_free)
  have "db_deinit (a_dbp pg) = Some (dbp_db p)"
    using inst by (simp add: db_deinit_def inst_free_def sqlite_inst_def sqlite_provider_def dbp_free_sqlite_def dbp_idle_def)
  then show ?thesis using core svc ses so(5) by (auto simp: server_stop_def log_fini_def)
qed

end
