(* ===== verification/Spec2Isabelle.thy ===== *)
theory Spec2Isabelle
  imports EP_Prelude EP_RingBuffer EP_Queue EP_Dispatch EP_Buffer EP_Shell EP_IO EP_Send EP_Message
    YM_Sha YM_Checksum YM_Session YM_Packet YM_Provider YM_Db YM_Tables YM_MiniSql YM_Account EP_Service
    YM_Login YM_Listing YM_AccountSpec YM_Menu YM_MenuSpec YM_Server YM_Reach EP_ThreadPool EP_Client EP_Exchange EP_Cert YM_Client YM_EndToEnd
    EP_Socket YM_Conn YM_Dbp YM_Timer YM_Log YM_Atomic YM_Startup
begin

text \<open>
  A verification library for youmenu, a menu and booking system for restaurants: its server, its client library and the
  network engine \<open>eventpack\<close> below both (all in C, under \<open>src/native\<close>).

  \<^bold>\<open>The program.\<close> A client sends documents of named values over a connection; a category says what is asked. The engine turns a document
  into a frame (compressed, encrypted, with a header of 18 bytes), queues it for the send thread of its side, reassembles frames from
  the bytes the other side receives, and hands each to a pool of threads, whose work is to recover the document, run the callback
  registered for the category, and queue the reply. The server registers one callback per request; they keep the sessions of the
  connections and read and write the tables through SQL. The client library makes one request per function, waits for the reply and
  reads it into the caller's variables.

  \<^bold>\<open>The engine\<close> (\<open>eventpack/src\<close>), in the order of the layers:
  \<^item> \<open>EP_Prelude\<close>: memory blocks with checked reads and writes, C strings, the interface of a table by key (the locale
    \<open>keyed_table\<close>, which dispatcher, connections and sessions interpret), generic lemmas.
  \<^item> \<open>EP_RingBuffer\<close> (\<open>ep_ringbuffer.c\<close>): every function with its copies; it implements a queue of bytes.
  \<^item> \<open>EP_Queue\<close> (\<open>ep_queue.c\<close>): the blocking queue, and any number of threads sharing one (\<open>queue_step\<close>): what is pushed is delivered once and in order.
  \<^item> \<open>EP_ThreadPool\<close> (\<open>ep_threadpool.c\<close>): the pool and the interleavings of its threads (\<open>pool_step\<close>): each worker runs once, in order, none is lost or used after it was freed.
  \<^item> \<open>EP_Dispatch\<close> (\<open>ep_dispatch.c\<close>): the callbacks by category; routing follows the map that registrations denote.
  \<^item> \<open>EP_Buffer\<close> (\<open>ep_buffer.c\<close>, \<open>ep_alloctor.c\<close>, \<open>ep_crypt.c\<close>, \<open>ep_compress.c\<close>): blocks, their compression and encryption, with the bytes read beyond a block.
  \<^item> \<open>EP_Shell\<close> (\<open>ep_shell.h\<close>, \<open>htonll.h\<close>): the header, its bit-fields and byte order; encoding is a bijection.
  \<^item> \<open>EP_IO\<close> and \<open>EP_Send\<close> (\<open>ep_io.c\<close>): connections, reassembly of frames against the specification \<open>parse_stream\<close>, send queues and the send thread.
  \<^item> \<open>EP_Message\<close> (\<open>ep_io.c\<close>): combining and recombining messages, the work of the pool on a frame.
  \<^item> \<open>EP_Service\<close> (\<open>ep_service.c\<close>): the server's side: callbacks of the socket layer, start, stop, registration, push.
  \<^item> \<open>EP_Socket\<close> (\<open>ep_socket.c\<close>, and the file events of \<open>3rdparty/redis/ae.c\<close> it uses): the table of events, accepting, reading, closing and
    writing. The locale \<open>core_callbacks\<close> is what the sockets rely on, and the service satisfies it: every connection is announced once
    and ends once. The send thread on these sockets uses a freed connection when a write fails.
  \<^item> \<open>EP_Client\<close> and \<open>EP_Exchange\<close> (\<open>ep_request.c\<close>, \<open>ep_client.c\<close>): requests with their handles, the receiving thread, start and stop; a request and its
    answer from end to end, and what failures leave behind.
  \<^item> \<open>EP_Cert\<close> (\<open>ep_cert.c\<close>, \<open>ep_cert_verify.c\<close>): the key exchange: both sides end with the same key, and the server accepts none that does not verify.

  \<^bold>\<open>The application\<close> (\<open>src/server\<close>, \<open>src/client\<close>, \<open>src/utils\<close>, \<open>dbprovider\<close>):
  \<^item> \<open>YM_Sha\<close>, \<open>YM_Checksum\<close>: SHA-1 against FIPS 180, CRC-32 and Adler-32 against their definitions.
  \<^item> \<open>YM_Session\<close> (\<open>session.c\<close>): the table of sessions with its lock and references.
  \<^item> \<open>YM_Packet\<close> (\<open>ep_packet.c\<close>): documents as the wrapper gives them to the application.
  \<^item> \<open>YM_Provider\<close>, \<open>YM_Db\<close>, \<open>YM_Tables\<close> (\<open>db_provider.c\<close>, \<open>db_*.c\<close>): statements, rows and the functions on the four tables, with laws of the SQL engine
    (\<open>sql_laws\<close>); \<open>YM_MiniSql\<close> is an engine that satisfies them, for the witnesses.
    \<open>YM_Dbp\<close> opens and closes a database and dispatches the operations to the provider of a handle.
  \<^item> \<open>YM_Account\<close>, \<open>YM_Menu\<close> (\<open>res_*.c\<close>): one definition per request handler, with every early return.
  \<^item> \<open>YM_Login\<close>, \<open>YM_AccountSpec\<close>, \<open>YM_MenuSpec\<close>, \<open>YM_Listing\<close>: what each handler does on every branch, in terms of tables and sessions; the replies
    that list rows share the locale \<open>row_listing\<close>.
  \<^item> \<open>YM_Server\<close>, \<open>YM_Reach\<close> (\<open>server.c\<close>): the handlers behind the dispatcher, the reachable states of the server and the invariant that no user is
    logged in twice.
  \<^item> \<open>YM_Conn\<close>: sockets, service and sessions together: the end of a connection ends its login, and what a request does that outlives its connection.
  \<^item> \<open>YM_Startup\<close> (\<open>server.c\<close>, \<open>db.c\<close>): start and stop of the whole program: a start puts the log, the tables, the sessions, the sockets and the handlers into the
    state that the other theorems ask for.
  \<^item> \<open>YM_Timer\<close> (\<open>timer.c\<close>), \<open>YM_Log\<close> (\<open>log.c\<close>), \<open>YM_Atomic\<close> (\<open>atomic.c\<close>): when a timer is called and that its thread ends, the line of a log message and
    what reaches the file, and the counter.
  \<^item> \<open>YM_Client\<close>, \<open>YM_EndToEnd\<close> (\<open>src/client\<close>): every function of the client library; login, menu and accounts from the caller of the client to the tables of the server.
    The readers of lists share the locale \<open>row_reading\<close>.

  This theory adds what joins sender and receiver: messages from end to end.

  \<^bold>\<open>Conventions.\<close> A function that may be undefined, block for ever or not end has an option as its result, and \<open>None\<close> is that case; theorems about results
  prove \<open>Some\<close>. Inside it, a null pointer is again \<open>None\<close>. Assertions are compiled away. An \<open>int\<close> is an integer where the code does not overflow it, and the
  findings name the places where it can; header fields, digests and bit operations are words. Allocations of constructors succeed or fail by a flag, others
  of positive size succeed. Uninitialised memory is an argument (\<open>beyond\<close> for what lies behind a block, the environment of the handlers for variables on the stack).
  Hosts are little-endian, bit-fields start at the least significant bit. Addresses whose lifetime matters (buffers, connections, handles, workers) are
  numbers with a map of the live ones. Handlers run one at a time, under the dispatcher's lock. Queues, the pool and the sessions' lock are the places where
  interleavings matter, and there the critical sections are steps.

  \<^bold>\<open>Recursion and bounds.\<close> The loops that may not end (\<open>io_enqueue_loop\<close>, \<open>io_send_loop\<close>) are partial functions into options, with proofs that they return under the stated conditions and, for a
  negative size, that they never do; all others are total. No fuel is used. Sizes of messages are below 2 to the 31, as in the code.

  \<^bold>\<open>Parameters.\<close> bzip2, AES, RSA and MD5 of OpenSSL, the BSON format, the SQL engine, floating point, system calls and the clock are arguments with named laws
  (\<open>aes_laws\<close>, \<open>bz_laws\<close>, \<open>cert_laws\<close>, \<open>sql_laws\<close> and others), each with an instance in a witness.

  \<^bold>\<open>Not modelled.\<close> The socket options of \<open>ep_util.c\<close> (system calls only). The bytes of BSON, and the printing of packets. The colours of the console (\<open>colored_fputs.c\<close>).
  The messages of a failing start. The laws of SQL are about databases that have the four tables. Callbacks of timers that add or delete timers. The push functions without effect. The MySQL and Oracle providers, which the build does not
  compile. Vendored code, but for the parts of \<open>ae.c\<close> above.
\<close>

section \<open>From sender to receiver\<close>

text \<open>A message of the application was sent as these bytes.\<close>

definition sent_as :: "ep_ext \<Rightarrow> byte list \<Rightarrow> 'x ep_io_mgr \<Rightarrow> int \<Rightarrow> int \<Rightarrow> ep_shell \<times> byte list \<Rightarrow> byte list \<Rightarrow> bool" where
  "sent_as ext beyond S sfd lim msg bytes \<longleftrightarrow>
     magic (fst msg) = EP_MAGIC_NUMBER \<and> int (length (snd msg)) < 2 ^ 31 \<and> int (length bytes) \<le> sizeof_ep_shell + lim \<and>
     (\<exists>b out. buffer_holds b (snd msg) \<and> ep_io_combine_shell ext beyond S sfd (fst msg) (Some b) = Some (Some out) \<and>
        bytes = sent_bytes out)"

text \<open>A task from which the pool recovers a message.\<close>

definition recovers :: "ep_ext \<Rightarrow> byte list \<Rightarrow> 'x ep_io_mgr \<Rightarrow> int \<Rightarrow> ep_io_task \<Rightarrow> ep_shell \<times> byte list \<Rightarrow> bool" where
  "recovers ext beyond R rfd task msg \<longleftrightarrow>
     (\<exists>b. ep_io_recombine_original ext beyond R rfd (task_shell task) (task_in task) = Some (Some b) \<and>
        buffer_holds b (snd msg)) \<and>
     category (proto (task_shell task)) = category (proto (fst msg)) \<and> req_type (proto (task_shell task)) = req_type (proto (fst msg))"

lemma list_all2_choice:
  "list_all2 P xs ys \<Longrightarrow> (\<And>x y. P x y \<Longrightarrow> \<exists>z. Q x z \<and> y = f z) \<Longrightarrow> \<exists>zs. list_all2 Q xs zs \<and> ys = map f zs"
proof (induction rule: list_all2_induct)
  case (Cons x xs y ys)
  then obtain z zs where "Q x z" "y = f z" "list_all2 Q xs zs" "ys = map f zs" by meson
  then show ?case by (intro exI [of _ "z # zs"]) simp
qed simp

text \<open>The frame behind a sent message. The extra pointers of sender and receiver have one type, as in the
  code, where both are \<open>void *\<close>.\<close>

definition frame_for :: "ep_ext \<Rightarrow> byte list \<Rightarrow> 'x ep_io_mgr \<Rightarrow> ep_aes_key \<Rightarrow> int \<Rightarrow> ep_shell \<times> byte list \<Rightarrow> ep_shell \<times> byte list \<Rightarrow> bool" where
  "frame_for ext beyond S aes lim msg f \<longleftrightarrow> frame_ok lim f \<and> snd f \<noteq> [] \<and>
     category (proto (fst f)) = category (proto (fst msg)) \<and> req_type (proto (fst f)) = req_type (proto (fst msg)) \<and>
     (\<forall>(R :: 'x ep_io_mgr) rfd b. mgr_refor R \<noteq> mgr_refor S \<longrightarrow> ep_io_get_aes R rfd = Some aes \<longrightarrow> buffer_holds b (snd f) \<longrightarrow>
        (\<exists>b'. ep_io_recombine_original ext beyond R rfd (fst f) (Some b) = Some (Some b') \<and> buffer_holds b' (snd msg)))"

lemma sent_frame:
  fixes S :: "'x ep_io_mgr"
  assumes l: "aes_laws ext" "bz_laws ext" and mem: "16 \<le> length beyond" "16 \<le> length beyond'"
    and k: "ep_io_get_aes S sfd = Some aes" and lim: "lim < 2 ^ 31" and s: "sent_as ext beyond S sfd lim msg bytes"
  shows "\<exists>f. frame_for ext beyond' S aes lim msg f \<and> bytes = frame_bytes f"
proof -
  obtain sh data where msg: "msg = (sh, data)" by fastforce
  obtain b out0 where b: "buffer_holds b data" "ep_io_combine_shell ext beyond S sfd sh (Some b) = Some (Some out0)"
    "bytes = sent_bytes out0" "magic sh = EP_MAGIC_NUMBER" "int (length data) < 2 ^ 31" "int (length bytes) \<le> 18 + lim"
    using s by (auto simp: sent_as_def msg sizeof_ep_shell_def)
  obtain out sh' body where c: "ep_io_combine_shell ext beyond S sfd sh (Some b) = Some (Some out)"
    "buffer_holds out (frame_bytes (sh', body))" "category (proto sh') = category (proto sh)" "req_type (proto sh') = req_type (proto sh)"
    "body \<noteq> []" "int (length body) \<le> lim \<longrightarrow> frame_ok lim (sh', body) \<and>
      (\<forall>(R :: 'x ep_io_mgr) rfd b'. mgr_refor R \<noteq> mgr_refor S \<longrightarrow> ep_io_get_aes R rfd = Some aes \<longrightarrow> buffer_holds b' body \<longrightarrow>
        (\<exists>b''. ep_io_recombine_original ext beyond' R rfd sh' (Some b') = Some (Some b'') \<and> buffer_holds b'' data))"
    using message_roundtrip_body [OF l b(1,5) mem k b(4) lim] .
  have bytes: "bytes = frame_bytes (sh', body)"
    using b(2,3) c(1,2) by (auto simp: sent_bytes_def ep_buffer_ptr_def ep_buffer_size_def buffer_holds_def)
  then have "int (length body) \<le> lim" using b(6) by (simp add: frame_bytes_def)
  with bytes c show ?thesis by (intro exI [of _ "(sh', body)"]) (auto simp: frame_for_def msg)
qed

text \<open>C1. End to end: the messages one side sends, each compressed and encrypted as its header says, reach
  the pool of the other side however the network cuts the bytes: one task per message, in order, from
  which the pool recovers the original body, category and type. The two sides share the key of the
  connection, at least 16 bytes of readable memory follow every block (see
  \<open>EP_Buffer.buffer_crypt_overread\<close>), and the message fits the receiver's maximum.\<close>

theorem messages_end_to_end:
  fixes S R :: "'x ep_io_mgr"
  assumes l: "aes_laws ext" "bz_laws ext" and mem: "16 \<le> length beyond" "16 \<le> length beyond'"
    and k: "ep_io_get_aes S sfd = Some aes" "ep_io_get_aes R rfd = Some aes" and sides: "mgr_refor R \<noteq> mgr_refor S"
    and R: "mgr_ok R" "mgr_max_capacity R < 2 ^ 31" "ep_io_find R rfd = Some child" "io_pending child = []"
    and sent: "list_all2 (sent_as ext beyond S sfd (mgr_max_capacity R)) msgs wires"
    and cut: "concat chunks = concat wires" "list_all (\<lambda>d. int (length d) \<le> mgr_max_capacity R) chunks"
  shows "\<exists>R' ts. feed R rfd chunks 0 = Some (0, R') \<and> mgr_tasks R' = mgr_tasks R @ ts \<and>
    list_all2 (recovers ext beyond' R' rfd) ts msgs"
proof -
  let ?lim = "mgr_max_capacity R"
  have "\<exists>fs. list_all2 (frame_for ext beyond' S aes ?lim) msgs fs \<and> wires = map frame_bytes fs"
    by (rule list_all2_choice [OF sent]) (rule sent_frame [OF l mem k(1) R(2)])
  then obtain fs where fs: "list_all2 (frame_for ext beyond' S aes ?lim) msgs fs" "wires = map frame_bytes fs"
    by blast
  have ok: "list_all (frame_ok ?lim) fs"
    using fs(1) by (auto simp: list_all2_conv_all_nth list_all_length frame_for_def)
  have nil: "parse_stream ?lim [] = ([], 0, [])" by (simp add: parse_stream.simps)
  have p: "parse_stream ?lim (concat chunks) = (fs, 0, [])"
    using parse_frames [OF ok, of "[]"] nil cut(1) fs(2) by simp
  obtain R' ts where f: "feed R rfd chunks 0 = Some (0, R')" "mgr_tasks R' = mgr_tasks R @ ts"
    "list_all2 (task_carries rfd) ts fs" "mgr_refor R' = mgr_refor R" "ep_io_get_aes R' rfd = Some (io_aes child)"
    using feed_spec [OF R(1,3) cut(2), of 0 fs 0 "[]"] nil p R(4) by auto
  have aes: "ep_io_get_aes R' rfd = Some aes" using f(5) k(2) R(3) by (simp add: ep_io_get_aes_def)
  have "recovers ext beyond' R' rfd t msg" if "task_carries rfd t fr" "frame_for ext beyond' S aes ?lim msg fr" for t msg fr
    using that aes sides f(4) by (fastforce simp: recovers_def task_carries_def frame_for_def split: option.splits)
  then have "list_all2 (recovers ext beyond' R' rfd) ts msgs"
    using f(3) fs(1) unfolding list_all2_conv_all_nth by metis
  with f show ?thesis by blast
qed

theorem messages_end_to_end_witness:
  "\<exists>(R :: unit ep_io_mgr) R' ts wire. feed R 5 [take 9 wire, drop 9 wire] 0 = Some (0, R') \<and> mgr_tasks R' = ts \<and>
     list_all2 (recovers plain_ext (replicate 16 7) R' 5) ts [((demo_shell 0)\<lparr>proto := (proto zero_shell)\<lparr>c_compress := 1\<rparr>\<rparr>, [1, 2, 3])]"
proof -
  let ?sh = "(demo_shell 0)\<lparr>proto := (proto zero_shell)\<lparr>c_compress := 1\<rparr>\<rparr>" and ?beyond = "replicate 16 (7 :: byte)"
  let ?aes = "\<lparr>aes_key = replicate 16 0, aes_vec = replicate 16 0\<rparr> :: ep_aes_key"
  obtain S :: "unit ep_io_mgr" where S: "mgr_refor S = ep_io_refor_client" "ep_io_get_aes S 5 = Some ?aes"
    using demo_idle [of ep_io_refor_client] by metis
  obtain R :: "unit ep_io_mgr" and child where R: "mgr_ok R" "mgr_refor R = ep_io_refor_server" "mgr_max_capacity R = 4194304"
    "ep_io_find R 5 = Some child" "io_pending child = []" "ep_io_get_aes R 5 = Some ?aes" "mgr_tasks R = []"
    using demo_idle [of ep_io_refor_server] by metis
  obtain b where b: "buffer_holds b [1, 2, 3]" using demo_task_body(2) by blast
  have mem: "16 \<le> length ?beyond" by simp
  obtain out sh' packed z body where c: "ep_io_combine_shell plain_ext ?beyond S 5 ?sh (Some b) = Some (Some out)"
    "buffer_holds out (frame_bytes (sh', body))" "wire_body plain_ext ?aes packed (sender_crypt (mgr_refor S) ?sh = 1) [1, 2, 3] z body"
    using combine_shell_spec [OF plain_ext_laws b mem S(2)] by metis
  have "length body \<le> 4"
    using c(3) by (simp add: wire_body_def sender_crypt_def zero_shell_def plain_ext_def split: if_splits)
  moreover have sb: "sent_bytes out = frame_bytes (sh', body)"
    using c(2) by (auto simp: sent_bytes_def ep_buffer_ptr_def ep_buffer_size_def buffer_holds_def)
  ultimately have len: "length (sent_bytes out) \<le> 22" by (simp add: frame_bytes_def)
  then have "list_all2 (sent_as plain_ext ?beyond S 5 (mgr_max_capacity R)) [(?sh, [1, 2, 3])] [sent_bytes out]"
    using b c(1) R(3) by (auto simp: sent_as_def demo_shell_def sizeof_ep_shell_def)
  note sent = this
  let ?cut = "[take 9 (sent_bytes out), drop 9 (sent_bytes out)]"
  have "mgr_refor R \<noteq> mgr_refor S" "mgr_max_capacity R < 2 ^ 31" "concat ?cut = concat [sent_bytes out]"
    "list_all (\<lambda>d. int (length d) \<le> mgr_max_capacity R) ?cut" using S(1) R(2,3) len by (auto simp: min_le_iff_disj)
  from messages_end_to_end [OF plain_ext_laws mem mem S(2) R(6) this(1) R(1) this(2) R(4,5) sent this(3,4)] R(7)
  show ?thesis by (metis append_Nil)
qed

end
